(* ===== verification/Doubles.thy ===== *)
theory Doubles
  imports Complex_Main "HOL-Library.Log_Nat"
begin

text \<open>
  Go's \<^verbatim>\<open>float64\<close>, as far as the in-memory limiter of src/internal/platform/ratelimit/memory.go
  uses it: a value is a rational, and each operation is the exact one followed by rounding to
  53 significant bits, to the even one of two that are equally near. What the limiter computes
  is neither as large nor as small as the ends of the exponent's range, which is left open.
\<close>

subsection \<open>Rounding\<close>

text \<open>The exponent of a positive value: \<open>2 powi exponent_of x \<le> x < 2 powi (exponent_of x + 1)\<close>.\<close>

definition exponent_of :: "rat \<Rightarrow> int" where
  "exponent_of x = (case quotient_of x of (p, q) \<Rightarrow>
     (let k = bitlen p - bitlen q in if 2 powi k \<le> x then k else k - 1))"

definition to_even :: "rat \<Rightarrow> int" where
  "to_even y = (let f = floor y; r = y - of_int f in
     if r < 1 / 2 then f else if r > 1 / 2 then f + 1 else if even f then f else f + 1)"

definition magnitude :: "rat \<Rightarrow> rat" where
  "magnitude x = (let u = 2 powi (exponent_of x - 52) in of_int (to_even (x / u)) * u)"

definition fl :: "rat \<Rightarrow> rat" where
  "fl x = (if x = 0 then 0 else if x < 0 then - magnitude (- x) else magnitude x)"

lemma exponent_bounds:
  assumes "x > 0"
  shows "2 powi exponent_of x \<le> x \<and> x < 2 powi (exponent_of x + 1)"
proof -
  obtain p q where pq: "quotient_of x = (p, q)" by (cases "quotient_of x")
  have x: "x = of_int p / of_int q" and q: "q > 0"
    using quotient_of_div [OF pq] quotient_of_denom_pos [OF pq] by auto
  then have p: "p > 0" using assms by (simp add: zero_less_divide_iff)
  let ?k = "bitlen p - bitlen q"
  have bounds: "(2::rat) powi (bitlen n - 1) \<le> of_int n \<and> of_int n < (2::rat) powi bitlen n" if "n > 0" for n
  proof -
    have "1 \<le> bitlen n" using that bitlen_nonneg [of n] bitlen_eq_zero_iff [of n] by linarith
    moreover have "2 ^ nat (bitlen n - 1) \<le> n" "n < 2 ^ nat (bitlen n)" using bitlen_bounds [OF that] by auto
    then have "of_int (2 ^ nat (bitlen n - 1)) \<le> (of_int n :: rat)" "(of_int n :: rat) < of_int (2 ^ nat (bitlen n))"
      by (simp_all only: of_int_le_iff of_int_less_iff)
    ultimately show ?thesis by (simp add: power_int_nonneg_exp)
  qed
  have pos: "(2::rat) powi n > 0" for n by simp
  have "x < 2 powi (?k + 1)"
  proof -
    have "of_int p < (2::rat) powi bitlen p" "2 powi (bitlen q - 1) \<le> (of_int q :: rat)" using bounds p q by auto
    then have "x < 2 powi bitlen p / 2 powi (bitlen q - 1)"
      unfolding x using p q pos by (intro frac_less) auto
    also have "\<dots> = 2 powi (bitlen p - (bitlen q - 1))" by (simp add: power_int_diff)
    finally show ?thesis by (simp add: algebra_simps)
  qed
  moreover have "2 powi (?k - 1) \<le> x"
  proof -
    have "2 powi (bitlen p - 1) \<le> (of_int p :: rat)" "of_int q \<le> (2::rat) powi bitlen q" using bounds p q by (auto intro: less_imp_le)
    then have "2 powi (bitlen p - 1) / 2 powi bitlen q \<le> x"
      unfolding x using p q pos by (intro frac_le) auto
    moreover have "(2::rat) powi (bitlen p - 1) / 2 powi bitlen q = 2 powi ((bitlen p - 1) - bitlen q)" by (simp add: power_int_diff)
    ultimately show ?thesis by (simp add: algebra_simps)
  qed
  ultimately show ?thesis by (auto simp: exponent_of_def pq Let_def)
qed

lemma to_even_near: "\<bar>of_int (to_even y) - y\<bar> \<le> 1 / 2"
proof -
  define f where "f = floor y"
  have "of_int f \<le> y" "y < of_int f + 1" unfolding f_def by linarith+
  then show ?thesis
    unfolding to_even_def Let_def f_def [symmetric] abs_le_iff by (simp; linarith)
qed

lemma to_even_int [simp]: "to_even (of_int n) = n"
  by (simp add: to_even_def)

lemma to_even_mono: "x \<le> y \<Longrightarrow> to_even x \<le> to_even y"
proof -
  assume le: "x \<le> y"
  show ?thesis
  proof (cases "floor x = floor y")
    case True
    then show ?thesis using le by (auto simp: to_even_def Let_def)
  next
    case False
    then have "floor x + 1 \<le> floor y" using floor_mono [OF le] by simp
    moreover have "to_even x \<le> floor x + 1" "floor y \<le> to_even y" by (simp_all add: to_even_def Let_def)
    ultimately show ?thesis by linarith
  qed
qed

lemma exponent_mono:
  assumes "0 < x" and "x \<le> y"
  shows "exponent_of x \<le> exponent_of y"
proof (rule ccontr)
  assume "\<not> ?thesis"
  then have "(2::rat) powi (exponent_of y + 1) \<le> 2 powi exponent_of x" by (intro power_int_increasing) auto
  then show False using exponent_bounds [of x] exponent_bounds [of y] assms by linarith
qed

lemma magnitude_bounds:
  assumes "x > 0"
  shows "2 powi exponent_of x \<le> magnitude x \<and> magnitude x \<le> 2 powi (exponent_of x + 1)"
    and "\<bar>magnitude x - x\<bar> \<le> x * 2 powi - 53"
proof -
  let ?u = "2 powi (exponent_of x - 52) :: rat"
  have u: "?u > 0" by simp
  have scaled: "2 powi (exponent_of x + d) = 2 ^ n * ?u" if "int n = 52 + d" for n d
  proof -
    have "2 ^ n * ?u = 2 powi (int n + (exponent_of x - 52))" by (simp add: power_int_add)
    then show ?thesis using that by (simp add: algebra_simps)
  qed
  have ends: "2 powi exponent_of x = 2 ^ 52 * ?u" "2 powi (exponent_of x + 1) = 2 ^ 53 * ?u"
    using scaled [of 52 0] scaled [of 53 1] by simp_all
  have "of_int (2 ^ 52) \<le> x / ?u" "x / ?u \<le> of_int (2 ^ 53)"
    using exponent_bounds [OF assms] u ends by (simp_all add: field_simps)
  then have "2 ^ 52 \<le> to_even (x / ?u)" "to_even (x / ?u) \<le> 2 ^ 53"
    using to_even_mono [of "of_int (2 ^ 52)" "x / ?u"] to_even_mono [of "x / ?u" "of_int (2 ^ 53)"] by (simp_all only: to_even_int)
  then have "(2 ^ 52 :: rat) \<le> of_int (to_even (x / ?u))" "of_int (to_even (x / ?u)) \<le> (2 ^ 53 :: rat)"
    unfolding of_int_le_iff [where ?'a = rat, symmetric] of_int_power of_int_numeral .
  then show "2 powi exponent_of x \<le> magnitude x \<and> magnitude x \<le> 2 powi (exponent_of x + 1)"
    unfolding magnitude_def Let_def ends using u by (intro conjI mult_right_mono) auto
  have "magnitude x - x = (of_int (to_even (x / ?u)) - x / ?u) * ?u"
    using u by (simp add: magnitude_def Let_def left_diff_distrib)
  then have "\<bar>magnitude x - x\<bar> = \<bar>of_int (to_even (x / ?u)) - x / ?u\<bar> * ?u"
    using u by (simp add: abs_mult)
  also have "\<dots> \<le> 1 / 2 * ?u" using to_even_near u by (intro mult_right_mono) auto
  also have "\<dots> = 2 powi exponent_of x * 2 powi - 53" unfolding ends by (simp add: power_int_minus)
  also have "\<dots> \<le> x * 2 powi - 53" using exponent_bounds [OF assms] by (intro mult_right_mono) auto
  finally show "\<bar>magnitude x - x\<bar> \<le> x * 2 powi - 53" .
qed

lemma magnitude_mono:
  assumes "0 < x" and "x \<le> y"
  shows "magnitude x \<le> magnitude y"
proof (cases "exponent_of x = exponent_of y")
  case True
  let ?u = "2 powi (exponent_of y - 52) :: rat"
  have "to_even (x / ?u) \<le> to_even (y / ?u)" using assms(2) by (intro to_even_mono divide_right_mono) auto
  then show ?thesis unfolding magnitude_def Let_def True by (intro mult_right_mono) auto
next
  case False
  then have "(2::rat) powi (exponent_of x + 1) \<le> 2 powi exponent_of y"
    using exponent_mono [OF assms] by (intro power_int_increasing) auto
  then show ?thesis using magnitude_bounds(1) [of x] magnitude_bounds(1) [of y] assms by linarith
qed

subsection \<open>What the limiter's lemmas use\<close>

lemma fl_nonneg: "0 \<le> x \<Longrightarrow> 0 \<le> fl x"
  using magnitude_bounds(1) [of x] by (cases "x = 0") (auto simp: fl_def intro: order_trans [of 0 "2 powi exponent_of x"])

lemma fl_mono: "0 \<le> x \<Longrightarrow> x \<le> y \<Longrightarrow> fl x \<le> fl y"
  using magnitude_mono [of x y] fl_nonneg [of y] by (auto simp: fl_def)

lemma fl_near: "0 \<le> x \<Longrightarrow> \<bar>fl x - x\<bar> \<le> x * 2 powi - 53"
  using magnitude_bounds(2) [of x] by (auto simp: fl_def)

lemma fl_int: "0 \<le> n \<Longrightarrow> n < 2 ^ 53 \<Longrightarrow> fl (of_int n) = of_int n"
proof (cases "n = 0")
  case False
  assume n: "0 \<le> n" "n < 2 ^ 53"
  let ?x = "of_int n :: rat" and ?e = "exponent_of (of_int n)"
  have pos: "?x > 0" using n False by simp
  have "?e \<le> 52"
  proof (rule ccontr)
    assume "\<not> ?thesis"
    then have "(2::rat) powi 53 \<le> 2 powi ?e" by (intro power_int_increasing) auto
    moreover have "?x < 2 ^ 53"
      using n(2) unfolding of_int_less_iff [where ?'a = rat, symmetric] of_int_power of_int_numeral .
    ultimately show False using exponent_bounds [OF pos] by simp
  qed
  have "of_int (2 ^ nat (52 - ?e)) = (2::rat) powi (52 - ?e)"
    using \<open>?e \<le> 52\<close> by (simp add: power_int_nonneg_exp)
  then have "of_int (n * 2 ^ nat (52 - ?e)) * 2 powi (?e - 52) = ?x * ((2::rat) powi (52 - ?e) * 2 powi (?e - 52))"
    by simp
  also have "(2::rat) powi (52 - ?e) * 2 powi (?e - 52) = 2 powi ((52 - ?e) + (?e - 52))"
    by (rule power_int_add [symmetric]) simp
  finally have "of_int (n * 2 ^ nat (52 - ?e)) * 2 powi (?e - 52) = ?x" by simp
  then have scaled: "of_int (n * 2 ^ nat (52 - ?e)) * 2 powi (?e - 52) = ?x"
    "?x / 2 powi (?e - 52) = of_int (n * 2 ^ nat (52 - ?e))" by (simp_all add: divide_eq_eq)
  have "magnitude ?x = ?x" unfolding magnitude_def Let_def scaled(2) to_even_int by (rule scaled(1))
  then show ?thesis using pos by (simp add: fl_def)
qed (simp add: fl_def)

end
