(* ===== verification/Prelude.thy ===== *)
theory Prelude
  imports Main "HOL-Library.Word"
begin

text \<open>
  What every component of the development shares.

  \<^item> The clock: a moment is a whole number of nanoseconds since the Unix epoch, as
    \<^verbatim>\<open>time.Time\<close> counts it, and a \<^verbatim>\<open>time.Duration\<close> is a number of nanoseconds.
    Durations of the program are years at most, far below the range of an int64, so
    subtraction of moments is subtraction of integers.
  \<^item> Bytes and text: a byte is an 8-bit word, a Go string is a list of characters, one
    per byte.
  \<^item> Transactions: \<^verbatim>\<open>db.Pool.InTx\<close> runs a function that may fail with an error, commits
    what it did when it returns nil and rolls everything back when it returns an error
    (src/internal/platform/db/db.go). A transaction body is a function from the database
    to an error or a result and a new database; \<open>in_tx\<close> is the commit or the rollback.
  \<^item> The locale \<open>frame\<close>: what every step of a body preserves, the whole body preserves.
    Its rules are how the development lifts facts about single SQL statements to whole
    flows.
\<close>

subsection \<open>Time\<close>

type_synonym time = int

definition second :: int where "second = 1000000000"
definition minute :: int where "minute = 60 * second"
definition hour :: int where "hour = 60 * minute"
definition day :: int where "day = 24 * hour"

named_theorems durations "the lengths of the program's clocks, in nanoseconds"

lemmas [durations] = second_def minute_def hour_def day_def

subsection \<open>Bytes and text\<close>

type_synonym bytes = "8 word list"

definition bytes_of :: "string \<Rightarrow> bytes" where
  "bytes_of s = map (\<lambda>c. word_of_nat (of_char c)) s"

lemma length_bytes_of [simp]: "length (bytes_of s) = length s"
  by (simp add: bytes_of_def)

lemma bytes_of_append [simp]: "bytes_of (s @ t) = bytes_of s @ bytes_of t"
  by (simp add: bytes_of_def)

lemma byte_of_char_inject:
  "(word_of_nat (of_char c) :: 8 word) = word_of_nat (of_char d) \<longleftrightarrow> c = d"
proof -
  have "unat (word_of_nat (of_char x) :: 8 word) = of_char x" for x :: char
    using nat_of_char_less_256 [of x] by (simp add: unat_of_nat take_bit_eq_mod)
  then show ?thesis by (metis of_char_eq_iff)
qed

lemma bytes_of_inject [simp]: "bytes_of s = bytes_of t \<longleftrightarrow> s = t"
  unfolding bytes_of_def by (rule inj_map_eq_map, rule injI) (simp add: byte_of_char_inject)

text \<open>
  String functions of Go's standard library: \<^verbatim>\<open>strings.ToLower\<close>, whose case mapping is
  given on the ASCII range (other bytes are kept), \<^verbatim>\<open>strings.TrimSuffix\<close>,
  \<^verbatim>\<open>strings.ReplaceAll(s, " ", "")\<close> and the test that a string holds only certain
  characters, which the code spells \<^verbatim>\<open>strings.Trim(s, cutset) != ""\<close>.
\<close>

definition lower_char :: "char \<Rightarrow> char" where
  "lower_char c =
     (let n = (of_char c :: nat) in if 65 \<le> n \<and> n \<le> 90 then char_of (n + 32) else c)"

definition to_lower :: "string \<Rightarrow> string" where
  "to_lower s = map lower_char s"

definition trim_suffix_char :: "char \<Rightarrow> string \<Rightarrow> string" where
  "trim_suffix_char c s = (if s \<noteq> [] \<and> last s = c then butlast s else s)"

definition drop_spaces :: "string \<Rightarrow> string" where
  "drop_spaces s = filter (\<lambda>c. c \<noteq> CHR '' '') s"

text \<open>
  \<^verbatim>\<open>strings.Trim(s, cutset) != ""\<close> is true exactly when some character of \<open>s\<close> is
  outside the set: trimming both ends stops at the first such character.
\<close>

definition only_of :: "string \<Rightarrow> string \<Rightarrow> bool" where
  "only_of cutset s = list_all (\<lambda>c. c \<in> set cutset) s"

definition digits10 :: string where "digits10 = ''0123456789''"

lemma length_to_lower [simp]: "length (to_lower s) = length s"
  by (simp add: to_lower_def)

lemma to_lower_append [simp]: "to_lower (s @ t) = to_lower s @ to_lower t"
  by (simp add: to_lower_def)

lemma lower_char_code: "(of_char (lower_char c) :: nat) =
    (if 65 \<le> (of_char c :: nat) \<and> (of_char c :: nat) \<le> 90 then of_char c + 32 else of_char c)"
  by (auto simp: lower_char_def Let_def)

lemma lower_char_idem [simp]: "lower_char (lower_char c) = lower_char c"
proof -
  have "\<not> (65 \<le> (of_char (lower_char c) :: nat) \<and> (of_char (lower_char c) :: nat) \<le> 90)"
    by (simp add: lower_char_code)
  then show ?thesis unfolding lower_char_def [of "lower_char c"] Let_def by (simp only: if_False)
qed

lemma to_lower_idem [simp]: "to_lower (to_lower s) = to_lower s"
  by (simp add: to_lower_def)

subsection \<open>Transactions\<close>

text \<open>
  The body of a transaction: from the database, an error (everything is rolled back) or a
  result and the database to commit. \<open>after\<close> is sequencing: Go's
  \<^verbatim>\<open>x, err := f(); if err != nil { return err }\<close> followed by the rest.
\<close>

type_synonym ('d, 'e, 'a) tx = "'d \<Rightarrow> 'e + 'a \<times> 'd"

definition ret :: "'a \<Rightarrow> ('d, 'e, 'a) tx" where
  "ret x = (\<lambda>d. Inr (x, d))"

definition fail :: "'e \<Rightarrow> ('d, 'e, 'a) tx" where
  "fail e = (\<lambda>d. Inl e)"

definition after :: "('d, 'e, 'a) tx \<Rightarrow> ('a \<Rightarrow> ('d, 'e, 'b) tx) \<Rightarrow> ('d, 'e, 'b) tx" where
  "after f g = (\<lambda>d. case f d of Inl e \<Rightarrow> Inl e | Inr (x, d') \<Rightarrow> g x d')"

definition reads :: "('d \<Rightarrow> 'a) \<Rightarrow> ('d, 'e, 'a) tx" where
  "reads h = (\<lambda>d. Inr (h d, d))"

definition writes :: "('d \<Rightarrow> 'd) \<Rightarrow> ('d, 'e, unit) tx" where
  "writes h = (\<lambda>d. Inr ((), h d))"

text \<open>A statement that a constraint of the schema refuses, unless \<open>ok\<close> holds.\<close>

definition checked :: "'e \<Rightarrow> ('d \<Rightarrow> bool) \<Rightarrow> ('d \<Rightarrow> 'd) \<Rightarrow> ('d, 'e, unit) tx" where
  "checked e ok h = (\<lambda>d. if ok d then Inr ((), h d) else Inl e)"

text \<open>\<^verbatim>\<open>db.Pool.InTx\<close>: commit on success, roll back on an error.\<close>

definition in_tx :: "('d, 'e, 'a) tx \<Rightarrow> 'd \<Rightarrow> ('e + 'a) \<times> 'd" where
  "in_tx f d = (case f d of Inl e \<Rightarrow> (Inl e, d) | Inr (x, d') \<Rightarrow> (Inr x, d'))"

named_theorems tx_simps "evaluation of transaction bodies"

lemma after_Inr [tx_simps]:
  "after f g d = Inr r \<longleftrightarrow> (\<exists>x d'. f d = Inr (x, d') \<and> g x d' = Inr r)"
  by (auto simp: after_def split: sum.splits)

lemma after_Inl:
  "after f g d = Inl e \<longleftrightarrow> f d = Inl e \<or> (\<exists>x d'. f d = Inr (x, d') \<and> g x d' = Inl e)"
  by (auto simp: after_def split: sum.splits)

lemma ret_Inr [tx_simps]: "ret x d = Inr r \<longleftrightarrow> r = (x, d)"
  by (auto simp: ret_def)

lemma fail_Inr [tx_simps]: "fail e d = Inr r \<longleftrightarrow> False"
  by (simp add: fail_def)

lemma reads_Inr [tx_simps]: "reads h d = Inr r \<longleftrightarrow> r = (h d, d)"
  by (auto simp: reads_def)

lemma writes_Inr [tx_simps]: "writes h d = Inr r \<longleftrightarrow> r = ((), h d)"
  by (auto simp: writes_def)

lemma checked_Inr [tx_simps]: "checked e ok h d = Inr r \<longleftrightarrow> ok d \<and> r = ((), h d)"
  by (auto simp: checked_def)

lemmas tx_defs = after_def ret_def fail_def reads_def writes_def checked_def

text \<open>Running a body one statement at a time, errors included.\<close>

named_theorems tx_run "running a transaction body"

lemma after_run [tx_run]:
  "after (reads h) g d = g (h d) d" "after (writes w) k d = k () (w d)"
  "after (ret x) f d = f x d" "after (fail e) f d = Inl e"
  "after (checked e ok w) k d = (if ok d then k () (w d) else Inl e)"
  "after (after f1 f2) f3 d = after f1 (\<lambda>x. after (f2 x) f3) d"
  "after (if b then f4 else f5) f d = (if b then after f4 f d else after f5 f d)"
  by (simp_all add: tx_defs split: sum.splits prod.splits)

lemma basic_run [tx_run]:
  "reads h d = Inr (h d, d)" "writes w d = Inr ((), w d)" "ret x d = Inr (x, d)" "fail e d = Inl e"
  "checked e ok w d = (if ok d then Inr ((), w d) else Inl e)"
  by (simp_all add: tx_defs)

lemma in_tx_Inr: "in_tx f d = (Inr x, d') \<longleftrightarrow> f d = Inr (x, d')"
  by (auto simp: in_tx_def split: sum.splits)

lemma in_tx_Inl: "in_tx f d = (Inl e, d') \<longleftrightarrow> f d = Inl e \<and> d' = d"
  by (auto simp: in_tx_def split: sum.splits)

text \<open>What an error leaves behind is what was there.\<close>

lemma in_tx_rollback: "fst (in_tx f d) = Inl e \<Longrightarrow> snd (in_tx f d) = d"
  by (auto simp: in_tx_def split: sum.splits)

subsection \<open>What the steps of a body preserve, the body preserves\<close>

text \<open>
  A preorder on databases, read as "everything this relation watches is kept". An
  invariant \<open>P\<close> is the preorder \<open>\<lambda>d d'. P d \<longrightarrow> P d'\<close>; an untouched part \<open>h\<close> is
  \<open>\<lambda>d d'. h d' = h d\<close>.
\<close>

definition keeps :: "('d \<Rightarrow> 'd \<Rightarrow> bool) \<Rightarrow> ('d, 'e, 'a) tx \<Rightarrow> bool" where
  "keeps R f \<longleftrightarrow> (\<forall>d x d'. f d = Inr (x, d') \<longrightarrow> R d d')"

lemma keepsD: "keeps R f \<Longrightarrow> f d = Inr (x, d') \<Longrightarrow> R d d'"
  by (auto simp: keeps_def)

lemma keepsI: "(\<And>d x d'. f d = Inr (x, d') \<Longrightarrow> R d d') \<Longrightarrow> keeps R f"
  by (auto simp: keeps_def)

locale frame =
  fixes R :: "'d \<Rightarrow> 'd \<Rightarrow> bool"
  assumes R_refl: "R d d"
    and R_trans: "R a b \<Longrightarrow> R b c \<Longrightarrow> R a c"
begin

lemma keeps_ret: "keeps R (ret x)"
  by (rule keepsI) (auto simp: tx_simps R_refl)

lemma keeps_fail: "keeps R (fail e)"
  by (rule keepsI) (auto simp: tx_simps)

lemma keeps_reads: "keeps R (reads h)"
  by (rule keepsI) (auto simp: tx_simps R_refl)

lemma keeps_after: "keeps R f \<Longrightarrow> (\<And>x. keeps R (g x)) \<Longrightarrow> keeps R (after f g)"
  by (rule keepsI) (auto simp: tx_simps dest!: keepsD intro: R_trans)

lemma keeps_if: "(b \<Longrightarrow> keeps R f) \<Longrightarrow> (\<not> b \<Longrightarrow> keeps R g) \<Longrightarrow> keeps R (if b then f else g)"
  by simp

lemma keeps_option:
  "(x = None \<Longrightarrow> keeps R f) \<Longrightarrow> (\<And>y. x = Some y \<Longrightarrow> keeps R (g y)) \<Longrightarrow>
    keeps R (case x of None \<Rightarrow> f | Some y \<Rightarrow> g y)"
  by (cases x) simp_all

lemma keeps_sum:
  "(\<And>y. x = Inl y \<Longrightarrow> keeps R (f y)) \<Longrightarrow> (\<And>y. x = Inr y \<Longrightarrow> keeps R (g y)) \<Longrightarrow>
    keeps R (case x of Inl y \<Rightarrow> f y | Inr y \<Rightarrow> g y)"
  by (cases x) simp_all

lemma keeps_prod: "(\<And>a b. x = (a, b) \<Longrightarrow> keeps R (f a b)) \<Longrightarrow> keeps R (case x of (a, b) \<Rightarrow> f a b)"
  by (cases x) simp

lemma keeps_writes: "(\<And>d. R d (h d)) \<Longrightarrow> keeps R (writes h)"
  by (rule keepsI) (auto simp: tx_simps)

lemma keeps_checked: "(\<And>d. ok d \<Longrightarrow> R d (h d)) \<Longrightarrow> keeps R (checked e ok h)"
  by (rule keepsI) (auto simp: tx_simps)

lemma keeps_in_tx: "keeps R f \<Longrightarrow> R d (snd (in_tx f d))"
  by (auto simp: in_tx_def R_refl dest: keepsD split: sum.splits prod.splits)

lemmas keeps_rules = keeps_ret keeps_fail keeps_reads keeps_after keeps_if keeps_option
  keeps_sum keeps_prod

end

end
