(* ===== verification/Policy.thy ===== *)
theory Policy
  imports Prelude
begin

text \<open>
  The second-factor policy: src/internal/identity/factorpolicy.go and the action names of
  src/internal/identity/stepup.go. Kinds, methods, uses and actions are Go strings, so an
  unknown one is a value too: the \<open>Other\<close> constructors carry it.
\<close>

datatype user_kind = KindBuyer | KindStaff | KindStore | OtherKind string

datatype fmethod = MethodKey | MethodApp | MethodEmail | MethodRecovery | OtherMethod string

datatype fuse = Enrol | Verify | OtherUse string

datatype action = ActionPassword | ActionFactors | ActionAddCard | ActionChangeEmail
  | ActionStore | OtherAction string

record step_up =
  Asked :: bool
  StepUpEmail :: bool

text \<open>\<^verbatim>\<open>Policy.Permits\<close>: what the policy does not know it refuses.\<close>

definition Permits :: "user_kind \<Rightarrow> fmethod \<Rightarrow> fuse \<Rightarrow> bool" where
  "Permits kind m use =
     (if m \<notin> set [MethodKey, MethodApp, MethodEmail] \<or> (use \<noteq> Enrol \<and> use \<noteq> Verify) then False
      else case kind of
             KindBuyer \<Rightarrow> True
           | KindStore \<Rightarrow> True
           | KindStaff \<Rightarrow> m \<noteq> MethodEmail
           | _ \<Rightarrow> False)"

definition Required :: "user_kind \<Rightarrow> bool" where
  "Required kind = (kind \<noteq> KindBuyer \<and> kind \<noteq> KindStore)"

definition StepUpFor :: "user_kind \<Rightarrow> action \<Rightarrow> bool \<Rightarrow> step_up" where
  "StepUpFor kind act hasFactor =
     (if act = ActionPassword \<or> act = ActionFactors
      then \<lparr>Asked = (hasFactor \<or> (Required kind \<and> kind \<noteq> KindStaff)), StepUpEmail = False\<rparr>
      else \<lparr>Asked = True, StepUpEmail = Permits kind MethodEmail Verify\<rparr>)"

definition strength :: "fmethod list" where
  "strength = [MethodKey, MethodApp, MethodEmail]"

definition Strongest :: "fmethod list \<Rightarrow> fmethod list" where
  "Strongest methods = filter (\<lambda>m. m \<in> set methods) strength"

text \<open>The strings \<^verbatim>\<open>second_factor.kind\<close> and the audit records carry.\<close>

fun method_name :: "fmethod \<Rightarrow> string" where
  "method_name MethodKey = ''webauthn''"
| "method_name MethodApp = ''totp''"
| "method_name MethodEmail = ''email''"
| "method_name MethodRecovery = ''recovery''"
| "method_name (OtherMethod s) = s"

fun action_name :: "action \<Rightarrow> string" where
  "action_name ActionPassword = ''password''"
| "action_name ActionFactors = ''factors''"
| "action_name ActionAddCard = ''add_card''"
| "action_name ActionChangeEmail = ''change_email''"
| "action_name ActionStore = ''store''"
| "action_name (OtherAction s) = s"

text \<open>\<^verbatim>\<open>actions\<close> and \<^verbatim>\<open>ParseAction\<close> of stepup.go.\<close>

definition actions :: "action list" where
  "actions = [ActionPassword, ActionFactors, ActionAddCard, ActionChangeEmail, ActionStore]"

definition action_of :: "string \<Rightarrow> action" where
  "action_of name = (case find (\<lambda>a. action_name a = name) actions of
     Some a \<Rightarrow> a | None \<Rightarrow> OtherAction name)"

definition ParseAction :: "string \<Rightarrow> action \<times> bool" where
  "ParseAction name = (action_of name, action_of name \<in> set actions)"

subsection \<open>What the policy promises\<close>

lemma Strongest_set: "set (Strongest ms) = set ms \<inter> set strength"
  by (auto simp: Strongest_def)

lemma Strongest_distinct [simp]: "distinct (Strongest ms)"
  by (simp add: Strongest_def strength_def)

lemma Strongest_Nil: "Strongest [] = []"
  by (simp add: Strongest_def)

lemma Permits_known: "Permits kind m use \<Longrightarrow>
    m \<in> set strength \<and> use \<in> {Enrol, Verify} \<and> (\<forall>s. kind \<noteq> OtherKind s)"
  by (auto simp: Permits_def strength_def split: if_splits user_kind.splits)

lemma action_name_action_of [simp]: "action_name (action_of name) = name"
  by (auto simp: action_of_def find_Some_iff split: option.splits)

lemma action_of_known: "a \<in> set actions \<Longrightarrow> action_of (action_name a) = a"
  by (simp add: actions_def, elim disjE; simp add: action_of_def actions_def)

text \<open>
  The policy decides every case the same way everywhere: a method is permitted exactly
  to a known kind of user, for a known use, when it is one of the three enrollable
  methods, and never an e-mail code to staff, neither to enrol nor to verify. A recovery
  code is never a method the policy permits.
\<close>

theorem policy_permits_exactly:
  "Permits kind m use \<longleftrightarrow>
     kind \<in> {KindBuyer, KindStore, KindStaff} \<and> m \<in> {MethodKey, MethodApp, MethodEmail} \<and>
     use \<in> {Enrol, Verify} \<and> \<not> (kind = KindStaff \<and> m = MethodEmail)"
  by (auto simp: Permits_def split: user_kind.splits)

end
