(* ===== verification/IdStore.thy ===== *)
theory IdStore
  imports Policy "HOL-Library.Product_Lexorder" "HOL-Library.List_Lexorder" "HOL-Library.Char_ord"
begin

text \<open>
  The identity tables and the statements that read and write them: the schema of
  src/migrations/00009, 00011, 00013 to 00017, and the SQL of src/internal/identity/store.go,
  factorstore.go, challengestore.go, emailcode.go and failures.go.

  A table is the list of its rows, in the order they were inserted. Every statement takes
  the scope of its transaction, the marketplace \<^verbatim>\<open>app.marketplace_id\<close> names or none on the
  platform's transactions, and touches only rows of that scope: that is the row-level
  security policy of migration 00016 (\<^verbatim>\<open>marketplace_id IS NOT DISTINCT FROM
  current_marketplace_id()\<close>). Constraints of the schema (unique keys, foreign keys, checks)
  are not scoped, as in PostgreSQL, and a statement they refuse is an error that rolls the
  transaction back. A query that finds no row (\<^verbatim>\<open>pgx.ErrNoRows\<close>) is \<open>None\<close>.
\<close>

type_synonym uuid = string
type_synonym scope = "string option"

datatype id_error =
    ErrTokenInvalid | ErrCredentials | ErrUnverified | ErrSessionInvalid
  | ErrSecondStep | ErrChallengeInvalid | ErrChallengeExhausted
  | ErrNotPermitted | ErrCodeWrong | ErrCodesLocked | ErrLabelInvalid
  | ErrFactorUnknown | ErrFactorRequired | ErrNoSecondFactor | ErrNoSealer
  | ErrStepUpNeeded | ErrKeyRefused | ErrCodeTooSoon | ErrCodeTooMany
  | ErrAlreadyEnrolled | ErrNoEnrolment | ErrAddressTaken
  | ErrPasswordShort | ErrPasswordLong | ErrPasswordBreached
  | ErrEmailInvalid | ErrNameMissing | ErrNameInvalid
  | ErrNotPHC | ErrVisitScope | ErrNoScope | ErrNoRelyingParty
  | ErrNoRows | ErrConstraint | ErrTaken
  | ErrSetupClosed | ErrTokenWrong
  | ErrContext | ErrCeremony
  | ErrDestroyed | ErrPlatformKey | ErrAuditInvalid | ErrKeeper | ErrSealed

subsection \<open>Rows\<close>

record account_row =
  a_id :: uuid
  a_scope :: scope
  a_kind :: user_kind
  a_email :: string
  a_normalised :: string
  a_name :: string
  a_verified :: "time option"

record credential_row =
  cr_account :: uuid
  cr_scope :: scope
  cr_secret :: string

record verification_row =
  ve_hash :: bytes
  ve_account :: uuid
  ve_scope :: scope
  ve_expires :: time
  ve_used :: "time option"

record session_row =
  s_id :: uuid
  s_account :: uuid
  s_scope :: scope
  s_hash :: bytes
  s_created :: time
  s_seen :: time
  s_ip :: string
  s_agent :: string
  s_revoked :: "(time \<times> string) option"
  s_stepped_up :: "time option"
  s_email_confirmed :: "time option"

record factor_row =
  f_id :: uuid
  f_account :: uuid
  f_scope :: scope
  f_method :: fmethod
  f_label :: string
  f_secret :: "bytes option"
  f_last_step :: "int option"
  f_credential :: "bytes option"
  f_public_key :: "bytes option"
  f_sign_count :: int
  f_flags :: int
  f_created :: time
  f_used :: "time option"

record recovery_row =
  r_account :: uuid
  r_scope :: scope
  r_hash :: bytes
  r_used :: "time option"

record enrolment_row =
  en_session :: uuid
  en_account :: uuid
  en_scope :: scope
  en_method :: fmethod
  en_secret :: "bytes option"
  en_webauthn :: "bytes option"
  en_expires :: time

record challenge_row =
  ch_hash :: bytes
  ch_account :: uuid
  ch_scope :: scope
  ch_session :: "uuid option"
  ch_action :: "action option"
  ch_expires :: time
  ch_attempts :: nat
  ch_used :: "time option"
  ch_webauthn :: "bytes option"

record code_row =
  ec_id :: uuid
  ec_account :: uuid
  ec_scope :: scope
  ec_purpose :: string
  ec_hash :: bytes
  ec_expires :: time
  ec_attempts :: nat
  ec_used :: "time option"
  ec_created :: time

record failure_row =
  fa_account :: uuid
  fa_scope :: scope
  fa_failures :: nat
  fa_updated :: time

text \<open>
  The owner's tables (migration 00017) belong to the platform alone. A message asked for
  is an outbox event of kind \<^verbatim>\<open>email.send\<close> whose payload is the message
  (\<^verbatim>\<open>mail.Request\<close>); the outbox's own life is the component Outbox.
\<close>

record role_row =
  ro_id :: uuid
  ro_owner :: bool

record user_role_row =
  ur_account :: uuid
  ur_role :: uuid

record bootstrap_row =
  bo_hash :: bytes
  bo_used :: time
  bo_owner :: uuid

record message =
  Template :: string
  msg_language :: string
  To :: string
  From :: string
  msg_marketplace :: string
  Variables :: "(string \<times> string) list"

text \<open>
  The database of the identity flows. \<open>trail\<close> is whatever the auditor keeps (the
  interface \<^verbatim>\<open>identity.Auditor\<close>, and \<^verbatim>\<open>identity.Sealer\<close> on the same keys); \<open>drawn\<close> counts
  the identifiers \<^verbatim>\<open>gen_random_uuid()\<close> has drawn.
\<close>

record 'a db =
  accounts :: "account_row list"
  credentials :: "credential_row list"
  verifications :: "verification_row list"
  sessions :: "session_row list"
  factors :: "factor_row list"
  recoveries :: "recovery_row list"
  enrolments :: "enrolment_row list"
  challenges :: "challenge_row list"
  codes :: "code_row list"
  failures :: "failure_row list"
  roles :: "role_row list"
  user_roles :: "user_role_row list"
  bootstraps :: "bootstrap_row list"
  outbox :: "message list"
  drawn :: nat
  trail :: 'a

type_synonym ('a, 'x) idtx = "('a db, id_error, 'x) tx"

definition empty_db :: "'a \<Rightarrow> 'a db" where
  "empty_db t = \<lparr>accounts = [], credentials = [], verifications = [], sessions = [],
     factors = [], recoveries = [], enrolments = [], challenges = [], codes = [],
     failures = [], roles = [], user_roles = [], bootstraps = [], outbox = [],
     drawn = 0, trail = t\<rparr>"

text \<open>\<^verbatim>\<open>nullif(v, '')\<close> and \<^verbatim>\<open>coalesce(v, '')\<close>.\<close>

definition nullif :: "string \<Rightarrow> string option" where
  "nullif v = (if v = [] then None else Some v)"

definition coalesce :: "string option \<Rightarrow> string" where
  "coalesce v = (case v of None \<Rightarrow> [] | Some x \<Rightarrow> x)"

lemma coalesce_nullif [simp]: "coalesce (nullif v) = v"
  by (simp add: coalesce_def nullif_def)

definition no_action :: action where
  "no_action = OtherAction []"

definition nullif_action :: "action \<Rightarrow> action option" where
  "nullif_action a = (if a = no_action then None else Some a)"

definition coalesce_action :: "action option \<Rightarrow> action" where
  "coalesce_action v = (case v of None \<Rightarrow> no_action | Some x \<Rightarrow> x)"

subsection \<open>Statements over a table\<close>

text \<open>\<^verbatim>\<open>UPDATE ... SET h WHERE p\<close>: every matching row, in place.\<close>

definition update_where :: "('r \<Rightarrow> bool) \<Rightarrow> ('r \<Rightarrow> 'r) \<Rightarrow> 'r list \<Rightarrow> 'r list" where
  "update_where p h rows = map (\<lambda>r. if p r then h r else r) rows"

definition delete_where :: "('r \<Rightarrow> bool) \<Rightarrow> 'r list \<Rightarrow> 'r list" where
  "delete_where p rows = filter (\<lambda>r. \<not> p r) rows"

lemma filter_update_where:
  "(\<And>r. p r \<Longrightarrow> \<not> P r) \<Longrightarrow> (\<And>r. p r \<Longrightarrow> \<not> P (h r)) \<Longrightarrow>
    filter P (update_where p h rows) = filter P rows"
  by (induction rows) (auto simp: update_where_def)

lemma filter_delete_where:
  "(\<And>r. P r \<Longrightarrow> \<not> p r) \<Longrightarrow> filter P (delete_where p rows) = filter P rows"
  by (induction rows) (auto simp: delete_where_def)

lemma set_update_where:
  "set (update_where p h rows) = {r \<in> set rows. \<not> p r} \<union> h ` {r \<in> set rows. p r}"
  by (auto simp: update_where_def)

lemma set_delete_where: "set (delete_where p rows) = {r \<in> set rows. \<not> p r}"
  by (auto simp: delete_where_def)

lemma in_update_whereD:
  "r \<in> set (update_where p h rows) \<Longrightarrow>
    (r \<in> set rows \<and> \<not> p r) \<or> (\<exists>q \<in> set rows. p q \<and> r = h q)"
  by (auto simp: set_update_where)

lemma map_update_where:
  "(\<And>r. p r \<Longrightarrow> k (h r) = k r) \<Longrightarrow> map k (update_where p h rows) = map k rows"
  by (induction rows) (auto simp: update_where_def)

lemma update_where_Nil [simp]: "update_where p h [] = []"
  by (simp add: update_where_def)

lemma update_where_id: "(\<And>r. r \<in> set rows \<Longrightarrow> \<not> p r) \<Longrightarrow> update_where p h rows = rows"
  by (induction rows) (auto simp: update_where_def)

text \<open>An identifier from \<^verbatim>\<open>gen_random_uuid()\<close>, PostgreSQL's, a parameter of the model.\<close>

definition fresh_id :: "(nat \<Rightarrow> uuid) \<Rightarrow> ('a, uuid) idtx" where
  "fresh_id new = (\<lambda>d. Inr (new (drawn d), d\<lparr>drawn := Suc (drawn d)\<rparr>))"

lemma fresh_id_Inr [tx_simps]:
  "fresh_id new d = Inr r \<longleftrightarrow> r = (new (drawn d), d\<lparr>drawn := Suc (drawn d)\<rparr>)"
  by (auto simp: fresh_id_def)

end
