(* ===== verification/RateLimit.thy ===== *)
theory RateLimit
  imports IdStore
begin

text \<open>
  Rate limits: src/internal/platform/ratelimit. The limiter counts in the table \<^verbatim>\<open>rate_limit\<close> of
  migration 00005, one row per subject and window, with its hits as a natural number (the column
  is 32 bits wide); every instance writes the same rows. The
  bucket of tokens each process keeps (memory.go) is in theory TokenBucket.

  \<open>limiter\<close> is the interface the middleware uses. What it promises is that a refusal says when
  to come back; it is interpreted on the counting limiter and on the one that never refuses.
\<close>

record decision =
  Allowed :: bool
  RetryAfter :: int

definition allowed :: decision where
  "allowed = \<lparr>Allowed = True, RetryAfter = 0\<rparr>"

subsection \<open>Moments and durations\<close>

text \<open>
  \<^verbatim>\<open>Time.Truncate\<close> counts from the zero time, the first of January of the year 1, which is
  62135596800 seconds before the epoch; \<^verbatim>\<open>Duration.Round\<close> rounds halves away from zero.
\<close>

definition zero_time :: time where "zero_time = - (62135596800 * second)"

definition Truncate :: "time \<Rightarrow> int \<Rightarrow> time" where
  "Truncate t d = (if d \<le> 0 then t else t - (t - zero_time) mod d)"

definition Round :: "int \<Rightarrow> int \<Rightarrow> int" where
  "Round d m =
     (if m \<le> 0 then d
      else if d < 0 then (let r = (- d) mod m in if r + r < m then d + r else d - m + r)
      else (let r = d mod m in if r + r < m then d - r else d + m - r))"

lemma Truncate_bounds: "d > 0 \<Longrightarrow> Truncate t d \<le> t \<and> t < Truncate t d + d"
  by (simp add: Truncate_def pos_mod_bound pos_mod_sign)

lemma Truncate_mono: "d > 0 \<Longrightarrow> t \<le> u \<Longrightarrow> Truncate t d \<le> Truncate u d"
proof -
  assume d: "d > 0" and le: "t \<le> u"
  have split: "Truncate x d = zero_time + (x - zero_time) div d * d" for x
    using d by (simp add: Truncate_def minus_mod_eq_div_mult [symmetric] algebra_simps)
  have "(t - zero_time) div d \<le> (u - zero_time) div d" using d le by (simp add: zdiv_mono1)
  then show ?thesis using d by (simp add: split)
qed

text \<open>Two moments of one window's length apart at most lie in two windows.\<close>

lemma Truncate_two:
  assumes "d > 0" and "a \<le> t" and "t < a + d"
  shows "Truncate t d = Truncate a d \<or> Truncate t d = Truncate a d + d"
proof -
  have split: "Truncate x d = zero_time + (x - zero_time) div d * d" for x
    using assms(1) by (simp add: Truncate_def minus_mod_eq_div_mult [symmetric] algebra_simps)
  have "(a - zero_time) div d \<le> (t - zero_time) div d" using assms by (simp add: zdiv_mono1)
  moreover have "(t - zero_time) div d \<le> (a + d - zero_time) div d" using assms by (simp add: zdiv_mono1)
  moreover have "(a + d - zero_time) div d = (a - zero_time) div d + 1"
    using assms(1) by (metis add_diff_eq diff_add_eq div_add_self2 less_irrefl)
  ultimately have "(t - zero_time) div d = (a - zero_time) div d \<or> (t - zero_time) div d = (a - zero_time) div d + 1"
    by linarith
  then show ?thesis by (auto simp: split algebra_simps)
qed

lemma Round_nonneg: "d \<ge> 0 \<Longrightarrow> Round d m \<ge> 0"
proof (cases "m \<le> 0")
  case False
  assume "d \<ge> 0"
  then have "d mod m \<le> d" "d mod m < m" using False by (auto intro: zmod_le_nonneg_dividend)
  then show ?thesis using False \<open>d \<ge> 0\<close> by (simp add: Round_def Let_def)
qed (simp add: Round_def)

subsection \<open>The counter\<close>

record rate_row =
  rl_subject :: string
  rl_start :: time
  rl_hits :: nat

record rate_limiter =
  li_name :: string
  li_limit :: nat
  li_window :: int

definition validName :: "string \<Rightarrow> bool" where
  "validName s =
     (case s of
        [] \<Rightarrow> False
      | c # cs \<Rightarrow> c \<in> set ''abcdefghijklmnopqrstuvwxyz'' \<and> only_of ''abcdefghijklmnopqrstuvwxyz0123456789-'' cs)"

text \<open>\<^verbatim>\<open>NewDatabase\<close>, which panics on a name that is none.\<close>

definition NewDatabase :: "string \<Rightarrow> nat \<Rightarrow> int \<Rightarrow> rate_limiter option" where
  "NewDatabase name limit window =
     (if validName name then Some \<lparr>li_name = name, li_limit = limit, li_window = window\<rparr> else None)"

definition subject_of :: "rate_limiter \<Rightarrow> string \<Rightarrow> string" where
  "subject_of l key = li_name l @ '':'' @ key"

definition hits_of :: "string \<Rightarrow> time \<Rightarrow> rate_row list \<Rightarrow> nat" where
  "hits_of subject start rows =
     (case find (\<lambda>r. rl_subject r = subject \<and> rl_start r = start) rows of None \<Rightarrow> 0 | Some r \<Rightarrow> rl_hits r)"

text \<open>The upsert: a new row with one hit, or one more.\<close>

definition count_hit :: "string \<Rightarrow> time \<Rightarrow> rate_row list \<Rightarrow> rate_row list" where
  "count_hit subject start rows =
     (if \<exists>r \<in> set rows. rl_subject r = subject \<and> rl_start r = start
      then update_where (\<lambda>r. rl_subject r = subject \<and> rl_start r = start)
             (\<lambda>r. r\<lparr>rl_hits := rl_hits r + 1\<rparr>) rows
      else rows @ [\<lparr>rl_subject = subject, rl_start = start, rl_hits = 1\<rparr>])"

text \<open>The sweep: \<^verbatim>\<open>subject LIKE name || ':%'\<close>, and a name holds no wildcard.\<close>

definition sweep_windows :: "string \<Rightarrow> time \<Rightarrow> rate_row list \<Rightarrow> rate_row list" where
  "sweep_windows name before rows = delete_where
     (\<lambda>r. take (length name + 1) (rl_subject r) = name @ '':'' \<and> rl_start r < before) rows"

text \<open>
  \<^verbatim>\<open>Database.Allow\<close>. Its two statements commit on their own; \<open>counts\<close> and \<open>sweeps\<close> are whether
  they reached the database. A hit whose sweep failed is counted and answered with the error.
\<close>

datatype limit_error = CannotCount | CannotForget

definition AllowDatabase :: "rate_limiter \<Rightarrow> bool \<Rightarrow> bool \<Rightarrow> time \<Rightarrow> string \<Rightarrow> rate_row list \<Rightarrow>
    (limit_error + decision) \<times> rate_row list" where
  "AllowDatabase l counts sweeps now key rows =
     (let start = Truncate now (li_window l) in
      if \<not> counts then (Inl CannotCount, rows)
      else
        let rows = count_hit (subject_of l key) start rows;
            hits = hits_of (subject_of l key) start rows in
        if hits = 1 \<and> \<not> sweeps then (Inl CannotForget, rows)
        else
          let rows = (if hits = 1 then sweep_windows (li_name l) (start - li_window l) rows else rows) in
          if hits > li_limit l
          then (Inr \<lparr>Allowed = False, RetryAfter = Round (start + li_window l - now) second + second\<rparr>, rows)
          else (Inr allowed, rows))"

definition AllowNever :: "string \<Rightarrow> 's \<Rightarrow> (limit_error + decision) \<times> 's" where
  "AllowNever key s = (Inr allowed, s)"

subsection \<open>The middleware\<close>

text \<open>What a limited request gets: the next handler, or a refusal with its wait.\<close>

datatype limited = Served | RefusedWith int

definition Limit :: "(string \<Rightarrow> 's \<Rightarrow> (limit_error + decision) \<times> 's) \<Rightarrow> string \<Rightarrow> 's \<Rightarrow> limited \<times> 's" where
  "Limit Allow subject s =
     (case Allow subject s of
        (Inl e, s') \<Rightarrow> (RefusedWith 0, s')
      | (Inr d, s') \<Rightarrow> (if \<not> Allowed d then RefusedWith (RetryAfter d) else Served, s'))"

text \<open>The header a refused client should obey: whole seconds, when there is an answer.\<close>

definition RetryAfterHeader :: "int \<Rightarrow> int option" where
  "RetryAfterHeader wait = (if wait \<le> 0 then None else Some (wait div second))"

locale limiter =
  fixes Allow :: "string \<Rightarrow> 's \<Rightarrow> (limit_error + decision) \<times> 's"
  assumes waits: "Allow key s = (Inr d, s') \<Longrightarrow> \<not> Allowed d \<Longrightarrow> RetryAfter d \<ge> second"
begin

lemma refusal_says_when:
  "Limit Allow key s = (RefusedWith w, s') \<Longrightarrow> (\<And>e. fst (Allow key s) \<noteq> Inl e) \<Longrightarrow>
    \<exists>n \<ge> 1. RetryAfterHeader w = Some n"
proof -
  assume run: "Limit Allow key s = (RefusedWith w, s')" and ok: "\<And>e. fst (Allow key s) \<noteq> Inl e"
  obtain d s1 where a: "Allow key s = (Inr d, s1)" using ok by (metis prod.exhaust_sel sum.exhaust)
  then have "\<not> Allowed d" "w = RetryAfter d" using run by (auto simp: Limit_def split: if_splits)
  then have "w \<ge> second" using waits [OF a] by simp
  moreover have "second > 0" by (simp add: second_def)
  ultimately have "RetryAfterHeader w = Some (w div second)" "w div second \<ge> 1"
    by (auto simp: RetryAfterHeader_def pos_imp_zdiv_pos_iff int_one_le_iff_zero_less)
  then show ?thesis by blast
qed

lemma unreachable_closes: "fst (Allow key s) = Inl e \<Longrightarrow> fst (Limit Allow key s) = RefusedWith 0"
  by (auto simp: Limit_def split: prod.splits sum.splits)

end

interpretation never: limiter AllowNever
  by unfold_locales (simp add: AllowNever_def allowed_def)

lemma AllowDatabase_waits:
  assumes "li_window l > 0" and "AllowDatabase l counts sweeps now key rows = (Inr d, rows')" and "\<not> Allowed d"
  shows "RetryAfter d \<ge> second"
proof -
  have "RetryAfter d = Round (Truncate now (li_window l) + li_window l - now) second + second"
    using assms(2,3) by (auto simp: AllowDatabase_def Let_def allowed_def split: if_splits)
  moreover have "Truncate now (li_window l) + li_window l - now \<ge> 0"
    using Truncate_bounds [OF assms(1), of now] by simp
  ultimately show ?thesis using Round_nonneg by simp
qed

text \<open>The limits the program sets (src/cmd/marketplace/main.go).\<close>

datatype guarded_flow = LimitSignUp | LimitResend | LimitResendAddress | LimitSignIn
  | LimitSignInAddress | LimitPassword | LimitStepUp | LimitSetup

fun limit_of :: "guarded_flow \<Rightarrow> rate_limiter" where
  "limit_of LimitSignUp = \<lparr>li_name = ''signup'', li_limit = 10, li_window = hour\<rparr>"
| "limit_of LimitResend = \<lparr>li_name = ''resend'', li_limit = 10, li_window = hour\<rparr>"
| "limit_of LimitResendAddress = \<lparr>li_name = ''resend-address'', li_limit = 3, li_window = hour\<rparr>"
| "limit_of LimitSignIn = \<lparr>li_name = ''signin'', li_limit = 30, li_window = 10 * minute\<rparr>"
| "limit_of LimitSignInAddress = \<lparr>li_name = ''signin-address'', li_limit = 10, li_window = 15 * minute\<rparr>"
| "limit_of LimitPassword = \<lparr>li_name = ''password'', li_limit = 10, li_window = hour\<rparr>"
| "limit_of LimitStepUp = \<lparr>li_name = ''step-up'', li_limit = 10, li_window = 15 * minute\<rparr>"
| "limit_of LimitSetup = \<lparr>li_name = ''setup'', li_limit = 10, li_window = hour\<rparr>"

lemma limit_window: "li_window (limit_of flow) > 0"
  by (cases flow) (simp_all add: durations)

lemma limit_name: "validName (li_name (limit_of flow))"
  by (cases flow) (simp_all add: validName_def only_of_def)

interpretation counting: limiter "AllowDatabase (limit_of flow) counts sweeps now" for flow counts sweeps now
  by unfold_locales (rule AllowDatabase_waits [OF limit_window])


subsection \<open>How many attempts get through\<close>

text \<open>Attempts of any limiters over one table, in the order of their statements.\<close>

record attempt =
  at_limiter :: rate_limiter
  at_counts :: bool
  at_sweeps :: bool
  at_now :: time
  at_key :: string

definition answer_of :: "attempt \<Rightarrow> rate_row list \<Rightarrow> (limit_error + decision) \<times> rate_row list" where
  "answer_of a rows = AllowDatabase (at_limiter a) (at_counts a) (at_sweeps a) (at_now a) (at_key a) rows"

text \<open>How many of the attempts that \<open>P\<close> picks are allowed.\<close>

fun admissions :: "(attempt \<Rightarrow> bool) \<Rightarrow> attempt list \<Rightarrow> rate_row list \<Rightarrow> nat" where
  "admissions P [] rows = 0"
| "admissions P (a # as) rows =
     (if P a \<and> fst (answer_of a rows) = Inr allowed then 1 else 0) + admissions P as (snd (answer_of a rows))"

lemma find_update:
  "(\<And>r. rl_subject (h r) = rl_subject r \<and> rl_start (h r) = rl_start r) \<Longrightarrow>
    find (\<lambda>r. rl_subject r = x \<and> rl_start r = t) (update_where p h rows) =
    map_option (\<lambda>r. if p r then h r else r) (find (\<lambda>r. rl_subject r = x \<and> rl_start r = t) rows)"
  by (induction rows) (auto simp: update_where_def)

lemma find_new: "find P (rows @ [r]) = (case find P rows of Some x \<Rightarrow> Some x | None \<Rightarrow> if P r then Some r else None)"
  by (induction rows) auto

lemma hits_count:
  "hits_of x t (count_hit y u rows) = hits_of x t rows + (if x = y \<and> t = u then 1 else 0)"
proof (cases "\<exists>r \<in> set rows. rl_subject r = y \<and> rl_start r = u")
  case True
  let ?p = "\<lambda>r. rl_subject r = y \<and> rl_start r = u" and ?q = "\<lambda>r. rl_subject r = x \<and> rl_start r = t"
  have found: "find ?q (count_hit y u rows) =
      map_option (\<lambda>r. if ?p r then r\<lparr>rl_hits := Suc (rl_hits r)\<rparr> else r) (find ?q rows)"
    using True by (simp add: count_hit_def find_update)
  show ?thesis
  proof (cases "find ?q rows")
    case None
    then have "\<not> (x = y \<and> t = u)" using True by (auto simp: find_None_iff)
    then show ?thesis using found None by (simp add: hits_of_def)
  next
    case (Some r)
    then have "rl_subject r = x \<and> rl_start r = t" by (auto simp: find_Some_iff)
    then show ?thesis using found Some by (simp add: hits_of_def)
  qed
next
  case False
  then have none: "find (\<lambda>r. rl_subject r = y \<and> rl_start r = u) rows = None" by (auto simp: find_None_iff)
  have new: "count_hit y u rows = rows @ [\<lparr>rl_subject = y, rl_start = u, rl_hits = 1\<rparr>]"
    using False by (auto simp: count_hit_def)
  show ?thesis
    unfolding hits_of_def new find_new using none by (auto split: option.splits)
qed

lemma find_delete: "(\<And>r. P r \<Longrightarrow> \<not> p r) \<Longrightarrow> find P (delete_where p rows) = find P rows"
  by (induction rows) (auto simp: delete_where_def)

lemma hits_swept:
  "take (length name + 1) x = name @ '':'' \<longrightarrow> before \<le> t \<Longrightarrow> hits_of x t (sweep_windows name before rows) = hits_of x t rows"
  unfolding hits_of_def sweep_windows_def by (subst find_delete) auto

lemma colon_split:
  "c \<notin> set xs \<Longrightarrow> c \<notin> set ys \<Longrightarrow> xs @ c # as = ys @ c # bs \<longleftrightarrow> xs = ys \<and> as = bs"
  by (induction xs arbitrary: ys) (auto simp: Cons_eq_append_conv, case_tac ys, auto)

lemma own_subject:
  assumes "CHR '':'' \<notin> set (li_name l)" and "CHR '':'' \<notin> set name"
    and "take (length name + 1) (subject_of l key) = name @ '':''"
  shows "name = li_name l"
proof -
  have "subject_of l key = name @ CHR '':'' # drop (length name + 1) (subject_of l key)"
    using assms(3) by (metis append.assoc append_Cons append_Nil append_take_drop_id)
  then have "name @ CHR '':'' # drop (length name + 1) (subject_of l key) = li_name l @ CHR '':'' # key"
    by (simp add: subject_of_def)
  then show ?thesis unfolding colon_split [OF assms(2,1)] by simp
qed

lemma subject_inject:
  assumes "CHR '':'' \<notin> set (li_name l)" and "CHR '':'' \<notin> set (li_name m)" and "subject_of l k = subject_of m j"
  shows "li_name l = li_name m \<and> k = j"
  using assms(3) by (simp add: subject_of_def colon_split [OF assms(1,2)])

text \<open>One attempt, for the counter of one window: kept, or counted, or swept after its end.\<close>

lemma answer_hits:
  assumes "CHR '':'' \<notin> set (li_name l)" and "CHR '':'' \<notin> set (li_name (at_limiter a))"
    and "li_name (at_limiter a) = li_name l \<longrightarrow> at_limiter a = l" and "li_window l > 0"
    and "t \<ge> Truncate (at_now a) (li_window l)"
  shows "hits_of (subject_of l key) t rows \<le> hits_of (subject_of l key) t (snd (answer_of a rows))"
    "at_limiter a = l \<and> at_key a = key \<and> t = Truncate (at_now a) (li_window l) \<and> fst (answer_of a rows) = Inr allowed \<Longrightarrow>
      hits_of (subject_of l key) t (snd (answer_of a rows)) = hits_of (subject_of l key) t rows + 1 \<and>
      hits_of (subject_of l key) t rows + 1 \<le> li_limit l"
proof -
  let ?x = "subject_of l key" and ?u = "Truncate (at_now a) (li_window (at_limiter a))"
  have swept: "hits_of ?x t (sweep_windows (li_name (at_limiter a)) (?u - li_window (at_limiter a)) rs) = hits_of ?x t rs" for rs
  proof (rule hits_swept, rule impI)
    assume "take (length (li_name (at_limiter a)) + 1) ?x = li_name (at_limiter a) @ '':''"
    then have "at_limiter a = l" using own_subject [OF assms(1,2)] assms(3) by blast
    then show "?u - li_window (at_limiter a) \<le> t" using assms(4,5) by simp
  qed
  have after: "hits_of ?x t (snd (answer_of a rows)) = hits_of ?x t rows \<or>
      hits_of ?x t (snd (answer_of a rows)) = hits_of ?x t (count_hit (subject_of (at_limiter a) (at_key a)) ?u rows)"
    by (auto simp: answer_of_def AllowDatabase_def Let_def swept)
  then show "hits_of ?x t rows \<le> hits_of ?x t (snd (answer_of a rows))"
    by (auto simp: hits_count)
  show "hits_of ?x t (snd (answer_of a rows)) = hits_of ?x t rows + 1 \<and> hits_of ?x t rows + 1 \<le> li_limit l"
    if "at_limiter a = l \<and> at_key a = key \<and> t = Truncate (at_now a) (li_window l) \<and> fst (answer_of a rows) = Inr allowed"
    using that swept [of "count_hit ?x t rows"]
    by (auto simp: answer_of_def AllowDatabase_def Let_def hits_count allowed_def split: if_splits)
qed

text \<open>Limiters whose names are names, and one limiter to a name, at moments that go on.\<close>

definition well_run :: "rate_limiter \<Rightarrow> attempt list \<Rightarrow> bool" where
  "well_run l as \<longleftrightarrow> sorted (map at_now as) \<and> CHR '':'' \<notin> set (li_name l) \<and> li_window l > 0 \<and>
     list_all (\<lambda>a. CHR '':'' \<notin> set (li_name (at_limiter a)) \<and>
       (li_name (at_limiter a) = li_name l \<longrightarrow> at_limiter a = l)) as"

lemma well_run_Cons: "well_run l (a # as) \<Longrightarrow> well_run l as \<and> (\<forall>b \<in> set as. at_now a \<le> at_now b) \<and>
    CHR '':'' \<notin> set (li_name l) \<and> CHR '':'' \<notin> set (li_name (at_limiter a)) \<and>
    (li_name (at_limiter a) = li_name l \<longrightarrow> at_limiter a = l) \<and> li_window l > 0"
  by (auto simp: well_run_def)

lemma admissions_none: "(\<And>a. a \<in> set as \<Longrightarrow> \<not> P a) \<Longrightarrow> admissions P as rows = 0"
  by (induction as arbitrary: rows) auto

definition in_window :: "rate_limiter \<Rightarrow> string \<Rightarrow> time \<Rightarrow> attempt \<Rightarrow> bool" where
  "in_window l key start a \<longleftrightarrow> at_limiter a = l \<and> at_key a = key \<and> Truncate (at_now a) (li_window l) = start"

lemma window_admissions:
  "well_run l as \<Longrightarrow> admissions (in_window l key start) as rows \<le> li_limit l - hits_of (subject_of l key) start rows"
proof (induction as arbitrary: rows)
  case (Cons a as)
  note run = well_run_Cons [OF Cons.prems]
  let ?rows = "snd (answer_of a rows)" and ?h = "hits_of (subject_of l key) start"
  have IH: "admissions (in_window l key start) as ?rows \<le> li_limit l - ?h ?rows" using Cons.IH run by blast
  show ?case
  proof (cases "start \<ge> Truncate (at_now a) (li_window l)")
    case True
    have kept: "?h rows \<le> ?h ?rows"
      using answer_hits(1) [of l a start key rows] run True by blast
    show ?thesis
    proof (cases "in_window l key start a \<and> fst (answer_of a rows) = Inr allowed")
      case True
      then have "at_limiter a = l \<and> at_key a = key \<and> start = Truncate (at_now a) (li_window l) \<and>
          fst (answer_of a rows) = Inr allowed"
        unfolding in_window_def by blast
      then have "?h ?rows = ?h rows + 1 \<and> ?h rows + 1 \<le> li_limit l"
        by (rule answer_hits(2) [rotated 5]) (use run \<open>start \<ge> Truncate (at_now a) (li_window l)\<close> in blast)+
      then have "1 + admissions (in_window l key start) as ?rows \<le> li_limit l - ?h rows" using IH by linarith
      then show ?thesis using True by simp
    next
      case False
      then have "admissions (in_window l key start) (a # as) rows = admissions (in_window l key start) as ?rows"
        by auto
      then show ?thesis using IH kept by linarith
    qed
  next
    case False
    have "\<not> in_window l key start b" if "b \<in> set (a # as)" for b
    proof -
      have "at_now a \<le> at_now b" using run that by auto
      then have "Truncate (at_now a) (li_window l) \<le> Truncate (at_now b) (li_window l)"
        by (rule Truncate_mono [rotated]) (use run in blast)
      then show ?thesis using False by (simp add: in_window_def)
    qed
    then show ?thesis using admissions_none [of "a # as"] by simp
  qed
qed simp

lemma admissions_split:
  assumes "\<And>a. P a \<Longrightarrow> Q a \<or> R a"
  shows "admissions P as rows \<le> admissions Q as rows + admissions R as rows"
proof (induction as arbitrary: rows)
  case (Cons a as)
  have "admissions P as (snd (answer_of a rows)) \<le>
      admissions Q as (snd (answer_of a rows)) + admissions R as (snd (answer_of a rows))"
    by (rule Cons.IH)
  then show ?case using assms [of a] by auto
qed simp

text \<open>
  C28. The limit is the limit, however many instances serve and whatever the other limiters of
  the table do: of the attempts for one key in one window at most the limit is let through,
  and in any stretch of a window's length at most twice the limit, the edge of a window
  being where the second allowance begins.
\<close>

theorem limit_holds_across_instances:
  assumes "well_run l as"
  shows "admissions (in_window l key start) as rows \<le> li_limit l \<and>
    admissions (\<lambda>a. at_limiter a = l \<and> at_key a = key \<and> from \<le> at_now a \<and> at_now a < from + li_window l) as rows
      \<le> 2 * li_limit l"
proof
  have one: "admissions (in_window l key start) as rows \<le> li_limit l" for start
    using window_admissions [OF assms, of key start rows] by simp
  then show "admissions (in_window l key start) as rows \<le> li_limit l" .
  let ?u = "Truncate from (li_window l)"
  have "admissions (\<lambda>a. at_limiter a = l \<and> at_key a = key \<and> from \<le> at_now a \<and> at_now a < from + li_window l) as rows
      \<le> admissions (in_window l key ?u) as rows + admissions (in_window l key (?u + li_window l)) as rows"
  proof (rule admissions_split)
    fix a :: attempt
    assume "at_limiter a = l \<and> at_key a = key \<and> from \<le> at_now a \<and> at_now a < from + li_window l"
    then show "in_window l key ?u a \<or> in_window l key (?u + li_window l) a"
      using Truncate_two [of "li_window l" "from" "at_now a"] assms by (auto simp: in_window_def well_run_def)
  qed
  also have "\<dots> \<le> 2 * li_limit l"
    using one [of ?u] one [of "?u + li_window l"] by linarith
  finally show "admissions (\<lambda>a. at_limiter a = l \<and> at_key a = key \<and> from \<le> at_now a \<and> at_now a < from + li_window l) as rows
      \<le> 2 * li_limit l" .
qed

definition sample_attempts :: "attempt list" where
  "sample_attempts = replicate 12 \<lparr>at_limiter = limit_of LimitSetup, at_counts = True, at_sweeps = True,
     at_now = 90 * minute, at_key = ''203.0.113.7''\<rparr>"

theorem limit_holds_across_instances_witness:
  "admissions (in_window (limit_of LimitSetup) ''203.0.113.7'' hour) sample_attempts [] \<le> li_limit (limit_of LimitSetup) \<and>
   admissions (\<lambda>a. at_limiter a = limit_of LimitSetup \<and> at_key a = ''203.0.113.7'' \<and> hour \<le> at_now a \<and>
     at_now a < hour + li_window (limit_of LimitSetup)) sample_attempts [] \<le> 2 * li_limit (limit_of LimitSetup)"
  by (rule limit_holds_across_instances)
    (simp add: well_run_def sample_attempts_def list_all_iff durations sorted_replicate)

text \<open>
  A limited request that is refused either met a counter that could not be reached, which
  closes the door, or is told to come back in a second at least.
\<close>

lemma refused_knows_when:
  "Limit (AllowDatabase (limit_of flow) counts sweeps now) key rows = (RefusedWith w, rows') \<Longrightarrow>
    w = 0 \<or> (\<exists>n \<ge> 1. RetryAfterHeader w = Some n)"
  using counting.refusal_says_when counting.unreachable_closes
  by (metis fst_conv limited.inject)

end
