(* ===== verification/TokenBucket.thy ===== *)
theory TokenBucket
  imports Doubles RateLimit "HOL-Library.AList"
begin

text \<open>
  The general limiter of the process: src/internal/platform/ratelimit/memory.go, a bucket of
  tokens for each address, with the numbers of src/cmd/marketplace/main.go. Every operation on
  a \<^verbatim>\<open>float64\<close> is rounded where the code's is.
\<close>

subsection \<open>The limiter\<close>

record bucket =
  bu_tokens :: rat
  bu_seen :: time

record memory_limiter =
  tb_burst :: rat
  tb_refill :: rat
  tb_idle :: int

definition NewMemory :: "int \<Rightarrow> int \<Rightarrow> memory_limiter" where
  "NewMemory burst perMinute =
     \<lparr>tb_burst = fl (of_int burst), tb_refill = fl (fl (of_int perMinute) / 60), tb_idle = 10 * 60 * second\<rparr>"

text \<open>\<^verbatim>\<open>Duration.Seconds\<close>, and the conversion back, which cuts the fraction off.\<close>

definition Seconds :: "int \<Rightarrow> rat" where
  "Seconds d = fl (fl (of_int (sgn d * (\<bar>d\<bar> div second))) + fl (fl (of_int (sgn d * (\<bar>d\<bar> mod second))) / 1000000000))"

definition as_duration :: "rat \<Rightarrow> int" where
  "as_duration x = (if x < 0 then - floor (- x) else floor x)"

text \<open>What of \<^verbatim>\<open>Memory.Allow\<close> follows the forgetting: the refill, and a token where there is one.\<close>

definition refilled :: "memory_limiter \<Rightarrow> time \<Rightarrow> bucket option \<Rightarrow> rat" where
  "refilled l now found =
     (let b = (case found of None \<Rightarrow> \<lparr>bu_tokens = tb_burst l, bu_seen = now\<rparr> | Some b \<Rightarrow> b) in
      min (tb_burst l) (fl (bu_tokens b + fl (Seconds (now - bu_seen b) * tb_refill l))))"

definition wait_of :: "memory_limiter \<Rightarrow> rat \<Rightarrow> int" where
  "wait_of l tokens = as_duration (fl (fl (fl (1 - tokens) / tb_refill l) * fl (of_int second)))"

definition spend :: "memory_limiter \<Rightarrow> time \<Rightarrow> string \<Rightarrow> (string \<times> bucket) list \<Rightarrow> decision \<times> (string \<times> bucket) list" where
  "spend l now key bs =
     (let tokens = refilled l now (map_of bs key) in
      if tokens < 1
      then (\<lparr>Allowed = False, RetryAfter = Round (wait_of l tokens) second + second\<rparr>,
            AList.update key \<lparr>bu_tokens = tokens, bu_seen = now\<rparr> bs)
      else (allowed, AList.update key \<lparr>bu_tokens = fl (tokens - 1), bu_seen = now\<rparr> bs))"

definition worthWalking :: nat where "worthWalking = 1024"

definition forgetIdle :: "memory_limiter \<Rightarrow> time \<Rightarrow> (string \<times> bucket) list \<Rightarrow> (string \<times> bucket) list" where
  "forgetIdle l now bs =
     (if length bs < worthWalking then bs else filter (\<lambda>(key, b). \<not> now - bu_seen b > tb_idle l) bs)"

definition AllowMemory :: "memory_limiter \<Rightarrow> time \<Rightarrow> string \<Rightarrow> (string \<times> bucket) list \<Rightarrow> decision \<times> (string \<times> bucket) list" where
  "AllowMemory l now key bs = spend l now key (forgetIdle l now bs)"

text \<open>The one limiter the process makes of it.\<close>

definition generalBurst :: int where "generalBurst = 120"
definition generalPerMinute :: int where "generalPerMinute = 240"

definition general_limiter :: memory_limiter where
  "general_limiter = NewMemory generalBurst generalPerMinute"

text \<open>Requests in the order they get the lock, each with its moment and its key.\<close>

fun served :: "(time \<Rightarrow> string \<Rightarrow> 'b \<Rightarrow> decision \<times> 'b) \<Rightarrow> (time \<times> string) list \<Rightarrow> 'b \<Rightarrow> decision list \<times> 'b" where
  "served f [] bs = ([], bs)"
| "served f ((now, key) # rs) bs =
     (case f now key bs of (d, bs) \<Rightarrow> (case served f rs bs of (ds, bs) \<Rightarrow> (d # ds, bs)))"

subsection \<open>Refilling\<close>

lemma general: "tb_burst general_limiter = 120" "tb_refill general_limiter = 4" "tb_idle general_limiter = 600 * second"
proof -
  have "fl 120 = 120" "fl 240 = 240" "fl 4 = 4" using fl_int [of 120] fl_int [of 240] fl_int [of 4] by simp_all
  then show "tb_burst general_limiter = 120" "tb_refill general_limiter = 4" "tb_idle general_limiter = 600 * second"
    by (simp_all add: general_limiter_def NewMemory_def generalBurst_def generalPerMinute_def)
qed

abbreviation ulp :: rat where "ulp \<equiv> 2 powi - 53"

lemma fl_above: "0 \<le> x \<Longrightarrow> fl x \<le> x * (1 + ulp)"
  using fl_near [of x] abs_ge_self [of "fl x - x"] unfolding distrib_left by linarith

lemma Seconds_nonneg: "0 \<le> d \<Longrightarrow> 0 \<le> Seconds d"
  unfolding Seconds_def second_def
  by (intro fl_nonneg add_nonneg_nonneg divide_nonneg_nonneg) (auto simp: sgn_if)

lemma Seconds_below: "0 \<le> d \<Longrightarrow> Seconds d \<le> of_int d / 1000000000 * (1 + ulp) ^ 3"
proof -
  assume d: "0 \<le> d"
  let ?s = "of_int (sgn d * (\<bar>d\<bar> div second)) :: rat" and ?n = "of_int (sgn d * (\<bar>d\<bar> mod second)) :: rat"
  have signs: "0 \<le> ?s" "0 \<le> ?n" using d by (auto simp: sgn_if second_def)
  have whole: "?s + ?n / 1000000000 = of_int d / 1000000000"
  proof -
    have "(of_int (d div second) :: rat) * 1000000000 + of_int (d mod second) = of_int (d div second * second + d mod second)"
      by (simp only: of_int_add of_int_mult second_def of_int_numeral)
    then show ?thesis using d by (simp add: sgn_if field_simps)
  qed
  have one: "(1::rat) \<le> 1 + ulp" by simp
  have "fl ?n / 1000000000 \<le> ?n / 1000000000 * (1 + ulp)" using fl_above [OF signs(2)] by simp
  moreover have "0 \<le> fl ?n / 1000000000" using fl_nonneg [OF signs(2)] by simp
  ultimately have "fl (fl ?n / 1000000000) \<le> ?n / 1000000000 * (1 + ulp) * (1 + ulp)"
    using fl_above [of "fl ?n / 1000000000"] one by (meson mult_right_mono order_trans zero_le_one)
  moreover have "fl ?s \<le> ?s * (1 + ulp) * (1 + ulp)"
    using fl_above [OF signs(1)] mult_left_mono [OF one, of "?s * (1 + ulp)"] signs(1) by simp
  ultimately have "fl ?s + fl (fl ?n / 1000000000) \<le> of_int d / 1000000000 * (1 + ulp) * (1 + ulp)"
    unfolding whole [symmetric] by (simp only: distrib_right)
  moreover have "0 \<le> fl ?s + fl (fl ?n / 1000000000)"
    using signs by (intro add_nonneg_nonneg fl_nonneg divide_nonneg_nonneg) auto
  ultimately have "fl (fl ?s + fl (fl ?n / 1000000000)) \<le> of_int d / 1000000000 * (1 + ulp) * (1 + ulp) * (1 + ulp)"
    using fl_above [of "fl ?s + fl (fl ?n / 1000000000)"] one by (meson mult_right_mono order_trans zero_le_one)
  then show ?thesis unfolding Seconds_def power3_eq_cube by (simp only: mult.assoc)
qed

lemma Seconds_above: "0 \<le> n \<Longrightarrow> n < 2 ^ 53 \<Longrightarrow> n * second \<le> d \<Longrightarrow> of_int n \<le> Seconds d"
proof -
  assume n: "0 \<le> n" "n < 2 ^ 53" and le: "n * second \<le> d"
  have d: "0 \<le> d" using n(1) le by (simp add: second_def)
  have "n \<le> d div second" using le by (simp add: second_def zdiv_mono1 [of "n * 1000000000" d 1000000000, simplified])
  then have "fl (of_int n) \<le> fl (of_int (d div second))" using n(1) by (intro fl_mono) auto
  moreover have "0 \<le> fl (fl (of_int (d mod second)) / 1000000000)"
    by (intro fl_nonneg divide_nonneg_nonneg) (auto simp: second_def)
  ultimately have "of_int n \<le> fl (of_int (d div second)) + fl (fl (of_int (d mod second)) / 1000000000)"
    using fl_int [OF n] by linarith
  then have "fl (of_int n) \<le> fl (fl (of_int (d div second)) + fl (fl (of_int (d mod second)) / 1000000000))"
    using n(1) by (intro fl_mono) auto
  then show ?thesis using d fl_int [OF n] by (cases "d = 0") (auto simp: Seconds_def sgn_if)
qed

text \<open>After ten minutes a bucket is full again, as if nobody had been there.\<close>

definition brimful :: "time \<Rightarrow> bucket \<Rightarrow> bool" where
  "brimful now b \<longleftrightarrow> 0 \<le> bu_tokens b \<and> bu_tokens b \<le> 120 \<and> bu_seen b \<le> now"

lemma refilled_none: "refilled general_limiter now None = 120"
proof -
  have "fl 0 = 0" "fl 120 = 120" using fl_int [of 0] fl_int [of 120] by simp_all
  then show ?thesis by (simp add: refilled_def general Seconds_def)
qed

lemma refilled_idle:
  assumes "brimful now b" and "600 * second \<le> now - bu_seen b"
  shows "refilled general_limiter now (Some b) = 120"
proof -
  have "600 \<le> Seconds (now - bu_seen b)" using Seconds_above [of 600 "now - bu_seen b"] assms(2) by simp
  then have "fl (of_int 2400) \<le> fl (Seconds (now - bu_seen b) * 4)" by (intro fl_mono) auto
  then have "2400 \<le> bu_tokens b + fl (Seconds (now - bu_seen b) * 4)"
    using fl_int [of 2400] assms(1) by (simp add: brimful_def)
  then have "fl (of_int 2400) \<le> fl (bu_tokens b + fl (Seconds (now - bu_seen b) * 4))" by (intro fl_mono) auto
  then show ?thesis using fl_int [of 2400] by (simp add: refilled_def general)
qed

lemma refilled_bounds:
  assumes "brimful now b"
  shows "0 \<le> refilled general_limiter now (Some b) \<and> refilled general_limiter now (Some b) \<le> 120"
  using assms unfolding refilled_def general Let_def option.case brimful_def
  by (auto intro!: fl_nonneg add_nonneg_nonneg mult_nonneg_nonneg Seconds_nonneg)

lemma refilled_below:
  assumes "brimful now b"
  shows "refilled general_limiter now (Some b) \<le>
    bu_tokens b + of_int (4 * (now - bu_seen b)) / 1000000000 * (1 + ulp) ^ 4 + 121 * ulp"
proof -
  let ?d = "now - bu_seen b" and ?g = "fl (Seconds (now - bu_seen b) * 4)"
  have d: "0 \<le> ?d" "0 \<le> bu_tokens b" using assms by (simp_all add: brimful_def)
  have "?g \<le> Seconds ?d * 4 * (1 + ulp)" using fl_above [of "Seconds ?d * 4"] Seconds_nonneg [OF d(1)] by simp
  also have "\<dots> \<le> of_int ?d / 1000000000 * (1 + ulp) ^ 3 * 4 * (1 + ulp)"
    using Seconds_below [OF d(1)] by (intro mult_right_mono) auto
  also have "\<dots> = of_int (4 * ?d) / 1000000000 * (1 + ulp) ^ 4" by (simp add: power_def)
  finally have g: "?g \<le> of_int (4 * ?d) / 1000000000 * (1 + ulp) ^ 4" .
  have pos: "0 \<le> bu_tokens b + ?g" using d Seconds_nonneg [OF d(1)] by (intro add_nonneg_nonneg fl_nonneg) auto
  have "min 120 (fl (bu_tokens b + ?g)) \<le> bu_tokens b + ?g + 121 * ulp"
  proof (cases "bu_tokens b + ?g \<le> 121")
    case True
    have "min 120 (fl (bu_tokens b + ?g)) \<le> (bu_tokens b + ?g) * (1 + ulp)"
      using fl_above [OF pos] by (rule order_trans [OF min.cobounded2])
    also have "\<dots> = bu_tokens b + ?g + (bu_tokens b + ?g) * ulp" by (simp only: distrib_left mult_1_right)
    also have "\<dots> \<le> bu_tokens b + ?g + 121 * ulp" using True by (intro add_left_mono mult_right_mono) auto
    finally show ?thesis .
  qed auto
  then show ?thesis using g by (simp add: refilled_def general)
qed

subsection \<open>What forgetting changes\<close>

definition spent :: "rat \<Rightarrow> rat" where "spent tokens = (if tokens < 1 then tokens else fl (tokens - 1))"

lemma spend_run:
  "spend l now key bs =
     (let tokens = refilled l now (map_of bs key) in
      (if tokens < 1 then \<lparr>Allowed = False, RetryAfter = Round (wait_of l tokens) second + second\<rparr> else allowed,
       AList.update key \<lparr>bu_tokens = spent tokens, bu_seen = now\<rparr> bs))"
  by (simp add: spend_def spent_def Let_def)

lemma spent_bounds: "0 \<le> t \<Longrightarrow> t \<le> 120 \<Longrightarrow> 0 \<le> spent t \<and> spent t \<le> 120"
  using fl_mono [of "t - 1" 120] fl_int [of 120] fl_nonneg [of "t - 1"] by (auto simp: spent_def)

definition sound_at :: "time \<Rightarrow> (string \<times> bucket) list \<Rightarrow> bool" where
  "sound_at now bs \<longleftrightarrow> distinct (map fst bs) \<and> (\<forall>b \<in> snd ` set bs. brimful now b)"

lemma sound_empty [simp]: "sound_at now []"
  by (simp add: sound_at_def)

lemma sound_later: "sound_at now bs \<Longrightarrow> now \<le> later \<Longrightarrow> sound_at later bs"
  by (fastforce simp: sound_at_def brimful_def)

lemma sound_found: "sound_at now bs \<Longrightarrow> map_of bs key = Some b \<Longrightarrow> brimful now b"
  by (force simp: sound_at_def dest: map_of_SomeD)

lemma update_values: "snd ` set (AList.update key b bs) \<subseteq> insert b (snd ` set bs)"
  by (induction bs) auto

lemma sound_refilled: "sound_at now bs \<Longrightarrow> 0 \<le> refilled general_limiter now (map_of bs key) \<and> refilled general_limiter now (map_of bs key) \<le> 120"
  by (cases "map_of bs key") (auto simp: refilled_none dest: refilled_bounds [OF sound_found])

lemma sound_spend: "sound_at now bs \<Longrightarrow> sound_at now (snd (spend general_limiter now key bs))"
  using sound_refilled [of now bs key] spent_bounds update_values
  by (fastforce simp: spend_run Let_def sound_at_def distinct_update brimful_def)

lemma sound_forget: "sound_at now bs \<Longrightarrow> sound_at now (forgetIdle l now bs)"
  by (auto simp: sound_at_def forgetIdle_def intro: distinct_map_filter)

lemma map_of_filter:
  "distinct (map fst bs) \<Longrightarrow> map_of (filter (\<lambda>(k, b). P b) bs) key =
    (case map_of bs key of None \<Rightarrow> None | Some b \<Rightarrow> if P b then Some b else None)"
  by (induction bs) (auto split: option.split simp: map_of_eq_None_iff image_iff)

text \<open>The buckets of a limiter that forgets, beside those of one that never does.\<close>

definition agree :: "time \<Rightarrow> (string \<times> bucket) list \<Rightarrow> (string \<times> bucket) list \<Rightarrow> bool" where
  "agree now fs gs \<longleftrightarrow> sound_at now fs \<and> sound_at now gs \<and>
     (\<forall>k. map_of fs k = map_of gs k \<or>
       (map_of fs k = None \<and> (\<exists>b. map_of gs k = Some b \<and> 600 * second \<le> now - bu_seen b)))"

lemma agree_later: "agree now fs gs \<Longrightarrow> now \<le> later \<Longrightarrow> agree later fs gs"
  unfolding agree_def using sound_later by fastforce

lemma agree_forget:
  assumes "agree now fs gs"
  shows "agree now (forgetIdle general_limiter now fs) gs"
proof (cases "length fs < worthWalking")
  case False
  then have fs: "forgetIdle general_limiter now fs = filter (\<lambda>(k, b). \<not> now - bu_seen b > 600 * second) fs"
    by (simp add: forgetIdle_def general)
  have "distinct (map fst fs)" using assms by (simp add: agree_def sound_at_def)
  from map_of_filter [OF this, of "\<lambda>b. \<not> now - bu_seen b > 600 * second"] show ?thesis
    using assms sound_forget [of now fs general_limiter] unfolding agree_def fs
    by (auto split: option.splits) (metis less_imp_le option.distinct(1) option.inject)+
qed (use assms in \<open>simp add: forgetIdle_def\<close>)

lemma agree_refilled: "agree now fs gs \<Longrightarrow> refilled general_limiter now (map_of fs key) = refilled general_limiter now (map_of gs key)"
  using refilled_none refilled_idle sound_found unfolding agree_def by (metis (no_types, lifting))

lemma agree_spend:
  assumes "agree now fs gs"
  shows "fst (spend general_limiter now key fs) = fst (spend general_limiter now key gs)"
    and "agree now (snd (spend general_limiter now key fs)) (snd (spend general_limiter now key gs))"
proof -
  show "fst (spend general_limiter now key fs) = fst (spend general_limiter now key gs)"
    using agree_refilled [OF assms] by (simp add: spend_run Let_def)
  have "sound_at now fs" "sound_at now gs" using assms by (simp_all add: agree_def)
  then show "agree now (snd (spend general_limiter now key fs)) (snd (spend general_limiter now key gs))"
    using sound_spend [of now fs key] sound_spend [of now gs key] assms agree_refilled [OF assms, of key] unfolding agree_def
    by (auto simp: spend_run Let_def update_conv)
qed

lemma forgetting_changes_no_answer:
  assumes "sorted (map fst rs)" and "\<forall>r \<in> set rs. now \<le> fst r" and "agree now fs gs"
  shows "fst (served (AllowMemory general_limiter) rs fs) = fst (served (spend general_limiter) rs gs)"
  using assms
proof (induction rs arbitrary: now fs gs)
  case (Cons r rs)
  obtain t key where r: "r = (t, key)" by (cases r)
  have "agree t (forgetIdle general_limiter t fs) gs"
    using agree_forget agree_later [OF Cons.prems(3)] Cons.prems(2) r by auto
  from agree_spend [OF this] have
    "fst (AllowMemory general_limiter t key fs) = fst (spend general_limiter t key gs)"
    "agree t (snd (AllowMemory general_limiter t key fs)) (snd (spend general_limiter t key gs))"
    by (simp_all add: AllowMemory_def)
  moreover have "sorted (map fst rs)" "\<forall>q \<in> set rs. t \<le> fst q" using Cons.prems(1) r by auto
  ultimately show ?case
    using Cons.IH [of t "snd (AllowMemory general_limiter t key fs)" "snd (spend general_limiter t key gs)"]
    by (simp add: r case_prod_beta)
qed simp

subsection \<open>How much gets through\<close>

definition admitted :: "string \<Rightarrow> (time \<times> string) list \<Rightarrow> decision list \<Rightarrow> nat" where
  "admitted key rs ds = length (filter (\<lambda>(r, d). snd r = key \<and> Allowed d) (zip rs ds))"

text \<open>The tokens a nanosecond brings, a little more than four billionths, and what a key has left.\<close>

definition rate :: rat where "rate = 4 / 1000000000 * (1 + ulp) ^ 4"

definition room :: "string \<Rightarrow> time \<Rightarrow> (string \<times> bucket) list \<Rightarrow> rat" where
  "room key now bs = (case map_of bs key of None \<Rightarrow> 120 | Some b \<Rightarrow> min 120 (bu_tokens b + rate * of_int (now - bu_seen b)))"

lemma rate_pos: "0 \<le> rate" by (simp add: rate_def)

lemma room_top: "room key now bs \<le> 120"
  by (simp add: room_def split: option.split)

lemma room_later: "now \<le> later \<Longrightarrow> room key later bs \<le> room key now bs + rate * of_int (later - now)"
  using mult_left_mono [OF _ rate_pos, of "of_int now" "of_int later :: rat"]
  by (auto simp: room_def algebra_simps min_le_iff_disj split: option.split)

lemma room_refilled:
  assumes "sound_at now bs"
  shows "refilled general_limiter now (map_of bs key) \<le> room key now bs + 121 * ulp"
proof (cases "map_of bs key")
  case None
  then show ?thesis by (simp add: room_def refilled_none)
next
  case (Some b)
  have "brimful now b" using assms Some by (rule sound_found)
  moreover have "of_int (4 * (now - bu_seen b)) / 1000000000 * (1 + ulp) ^ 4 = rate * of_int (now - bu_seen b)"
    by (simp add: rate_def)
  ultimately have "refilled general_limiter now (Some b) \<le> bu_tokens b + rate * of_int (now - bu_seen b) + 121 * ulp"
    "refilled general_limiter now (Some b) \<le> 120"
    using refilled_below refilled_bounds by metis+
  then show ?thesis by (simp add: room_def Some min_def)
qed

lemma spend_room:
  assumes "sound_at now bs"
  shows "(if Allowed (fst (spend general_limiter now k bs)) \<and> k = key then 1 else 0) + room key now (snd (spend general_limiter now k bs)) \<le>
    room key now bs + 240 * ulp"
proof (cases "k = key")
  case False
  then show ?thesis by (simp add: spend_run Let_def room_def update_conv)
next
  case True
  note same = True
  let ?t = "refilled general_limiter now (map_of bs key)"
  have t: "?t \<le> 120" "?t \<le> room key now bs + 121 * ulp" using sound_refilled room_refilled assms by auto
  have left: "room key now (snd (spend general_limiter now k bs)) \<le> spent ?t"
    by (simp add: spend_run Let_def room_def update_conv True)
  show ?thesis
  proof (cases "?t < 1")
    case True
    then show ?thesis using left t by (simp add: spend_run Let_def spent_def same)
  next
    case False
    then have "fl (?t - 1) \<le> (?t - 1) * (1 + ulp)" by (intro fl_above) simp
    also have "\<dots> = ?t - 1 + (?t - 1) * ulp" by (simp only: distrib_left mult_1_right)
    also have "\<dots> \<le> ?t - 1 + 119 * ulp" using t(1) by (intro add_left_mono mult_right_mono) auto
    finally show ?thesis using False left t(2) by (simp add: spend_run Let_def spent_def allowed_def same)
  qed
qed

lemma admitted_below:
  assumes "sorted (map fst rs)" and "\<forall>r \<in> set rs. now \<le> fst r \<and> fst r \<le> until" and "now \<le> until" and "sound_at now bs"
  shows "of_nat (admitted key rs (fst (served (spend general_limiter) rs bs))) \<le>
    room key now bs + rate * of_int (until - now) + of_nat (length rs) * (240 * ulp)"
  using assms
proof (induction rs arbitrary: now bs)
  case Nil
  have "0 \<le> room key now bs"
    using sound_found [OF Nil.prems(4)] rate_pos by (auto simp: room_def brimful_def intro: mult_nonneg_nonneg split: option.split)
  moreover have "0 \<le> rate * of_int (until - now)" using Nil.prems(3) rate_pos by simp
  ultimately show ?case by (simp add: admitted_def)
next
  case (Cons r rs)
  obtain t k where r: "r = (t, k)" by (cases r)
  have times: "now \<le> t" "t \<le> until" "sorted (map fst rs)" "\<forall>q \<in> set rs. t \<le> fst q \<and> fst q \<le> until"
    using Cons.prems(1,2) r by auto
  have sound: "sound_at t bs" using sound_later [OF Cons.prems(4) times(1)] .
  let ?step = "spend general_limiter t k bs"
  let ?one = "if Allowed (fst ?step) \<and> k = key then 1 else 0 :: rat"
  have "of_nat (admitted key (r # rs) (fst (served (spend general_limiter) (r # rs) bs))) =
      ?one + of_nat (admitted key rs (fst (served (spend general_limiter) rs (snd ?step))))"
    by (auto simp: r admitted_def case_prod_beta)
  also have "\<dots> \<le> ?one + (room key t (snd ?step) + rate * of_int (until - t) + of_nat (length rs) * (240 * ulp))"
    using Cons.IH [OF times(3,4,2) sound_spend [OF sound]] by simp
  also have "\<dots> \<le> room key t bs + 240 * ulp + rate * of_int (until - t) + of_nat (length rs) * (240 * ulp)"
    using spend_room [OF sound, of k key] by simp
  also have "\<dots> \<le> room key now bs + (rate * of_int (t - now) + rate * of_int (until - t)) + of_nat (length (r # rs)) * (240 * ulp)"
    using room_later [OF times(1), of key bs] by (simp add: algebra_simps add_divide_distrib)
  also have "rate * of_int (t - now) + rate * of_int (until - t) = rate * of_int (until - now)" by (simp add: algebra_simps)
  finally show ?case .
qed

lemma served_append:
  "served f (xs @ ys) bs = (case served f xs bs of (ds, cs) \<Rightarrow> (case served f ys cs of (es, es') \<Rightarrow> (ds @ es, es')))"
  by (induction xs arbitrary: bs) (auto split: prod.splits)

lemma served_length: "length (fst (served f rs bs)) = length rs"
  by (induction rs arbitrary: bs) (auto simp: case_prod_beta)

lemma served_sound:
  "sorted (map fst rs) \<Longrightarrow> \<forall>r \<in> set rs. now \<le> fst r \<and> fst r \<le> until \<Longrightarrow> now \<le> until \<Longrightarrow> sound_at now bs \<Longrightarrow>
    sound_at until (snd (served (spend general_limiter) rs bs))"
proof (induction rs arbitrary: now bs)
  case (Cons r rs)
  obtain t k where r: "r = (t, k)" by (cases r)
  have "sound_at t (snd (spend general_limiter t k bs))"
    using sound_spend sound_later [OF Cons.prems(4)] Cons.prems(2) r by auto
  then show ?case using Cons.IH [of t "snd (spend general_limiter t k bs)"] Cons.prems(1,2) r by (simp add: case_prod_beta)
qed (simp add: sound_later)

lemma sorted_ends: "sorted (map fst rs) \<Longrightarrow> r \<in> set rs \<Longrightarrow> fst (hd rs) \<le> fst r \<and> fst r \<le> fst (last rs)"
  by (induction rs) fastforce+

lemma rounding_is_small:
  assumes "n \<le> 2 ^ 40" and "0 \<le> T" and "T \<le> 10 ^ 17"
  shows "rate * of_int T + of_nat n * (240 * ulp) \<le> 4 * of_int T / 1000000000 + 1"
proof -
  have "rate \<le> 4 / 1000000000 + 1 / 10 ^ 18" by (simp add: rate_def power_divide)
  then have "rate * of_int T \<le> (4 / 1000000000 + 1 / 10 ^ 18) * of_int T" using assms(2) by (intro mult_right_mono) auto
  also have "\<dots> = 4 * of_int T / 1000000000 + of_int T / 10 ^ 18" by (simp add: field_simps)
  also have "of_int T / (10 ^ 18 :: rat) \<le> of_int (10 ^ 17) / 10 ^ 18"
    using assms(3) by (intro divide_right_mono) (simp_all only: of_int_le_iff, simp)
  finally have "rate * of_int T \<le> 4 * of_int T / 1000000000 + 1 / 10" by simp
  moreover have "of_nat n * (240 * ulp) \<le> of_nat (2 ^ 40) * (240 * ulp)"
    using assms(1) by (intro mult_right_mono) (simp_all only: of_nat_le_iff, simp)
  ultimately show ?thesis by simp
qed

text \<open>
  C38. Bounds: whatever came before, and whoever else asks meanwhile, one address gets at most
  121 requests and four a second through the general limiter, over any stretch of requests in
  the order of the clock: rounding included, and whether or not its bucket was forgotten.
\<close>

theorem flood_is_blunted:
  assumes "sorted (map fst (before @ during))" and "during \<noteq> []" and "length during \<le> 2 ^ 40"
    and "fst (last during) - fst (hd during) \<le> 10 ^ 17"
  shows "second * int (admitted key during (drop (length before) (fst (served (AllowMemory general_limiter) (before @ during) [])))) \<le>
    121 * second + 4 * (fst (last during) - fst (hd during))"
proof -
  let ?all = "before @ during" and ?from = "fst (hd during)" and ?until = "fst (last during)"
  have sorted: "sorted (map fst before)" "sorted (map fst during)" using assms(1) by (simp_all add: sorted_append)
  have within: "\<forall>r \<in> set during. ?from \<le> fst r \<and> fst r \<le> ?until"
    using sorted_ends [OF sorted(2)] by blast
  then have order: "?from \<le> ?until" using assms(2) last_in_set by blast
  let ?now = "fst (hd ?all)" and ?bs = "snd (served (spend general_limiter) before [])"
  have "fst (served (AllowMemory general_limiter) ?all []) = fst (served (spend general_limiter) ?all [])"
    by (rule forgetting_changes_no_answer [OF assms(1), where now = ?now])
       (use sorted_ends [OF assms(1)] in \<open>simp_all add: agree_def\<close>)
  then have answers: "drop (length before) (fst (served (AllowMemory general_limiter) ?all [])) =
      fst (served (spend general_limiter) during ?bs)"
    using served_length [of "spend general_limiter" before "[]"] by (simp add: served_append case_prod_beta)
  have "?now \<le> ?from" using sorted_ends [OF assms(1), of "hd during"] assms(2) by simp
  moreover have "\<forall>r \<in> set before. ?now \<le> fst r \<and> fst r \<le> ?from"
    using sorted_ends [OF assms(1)] assms(1,2) by (auto simp: sorted_append)
  ultimately have sound: "sound_at ?from ?bs" using served_sound [OF sorted(1) _ _ sound_empty] by blast
  have "of_nat (admitted key during (fst (served (spend general_limiter) during ?bs))) \<le>
      room key ?from ?bs + rate * of_int (?until - ?from) + of_nat (length during) * (240 * ulp)"
    using admitted_below [OF sorted(2) within order sound] .
  also have "\<dots> \<le> 120 + (4 * of_int (?until - ?from) / 1000000000 + 1)"
    using rounding_is_small [OF assms(3) _ assms(4)] order room_top [of key ?from ?bs] by linarith
  finally have "(1000000000 :: rat) * of_nat (admitted key during (fst (served (spend general_limiter) during ?bs))) \<le>
      121 * 1000000000 + 4 * of_int (?until - ?from)"
    by (simp add: field_simps)
  then have "(of_int (1000000000 * int (admitted key during (fst (served (spend general_limiter) during ?bs)))) :: rat) \<le>
      of_int (121 * 1000000000 + 4 * (?until - ?from))"
    by simp
  then show ?thesis unfolding answers second_def of_int_le_iff by simp
qed

theorem flood_is_blunted_witness:
  "second * int (admitted ''10.0.0.1'' [(5, ''10.0.0.1''), (second, ''10.0.0.1'')]
     (drop 1 (fst (served (AllowMemory general_limiter) ([(0, ''10.0.0.2'')] @ [(5, ''10.0.0.1''), (second, ''10.0.0.1'')]) [])))) \<le>
   121 * second + 4 * (second - 5)"
  using flood_is_blunted [of "[(0, ''10.0.0.2'')]" "[(5, ''10.0.0.1''), (second, ''10.0.0.1'')]" "''10.0.0.1''"]
  by (simp add: second_def)

subsection \<open>A refusal, and a burst\<close>

lemma refused_waits:
  assumes "\<not> Allowed (fst (AllowMemory general_limiter now key bs))"
  shows "second \<le> RetryAfter (fst (AllowMemory general_limiter now key bs))"
proof -
  have "0 \<le> wait_of general_limiter t" if "t < 1" for t
  proof -
    have "0 \<le> fl (fl (fl (1 - t) / tb_refill general_limiter) * fl (of_int second))"
      using that by (intro fl_nonneg mult_nonneg_nonneg divide_nonneg_nonneg) (auto simp: general second_def)
    then show ?thesis by (simp add: wait_of_def as_duration_def)
  qed
  then show ?thesis
    using assms Round_nonneg by (auto simp: AllowMemory_def spend_run Let_def allowed_def split: if_splits)
qed

interpretation memory: limiter "\<lambda>key bs. case AllowMemory general_limiter now key bs of (d, bs) \<Rightarrow> (Inr d, bs)" for now
  by unfold_locales (metis (mono_tags, lifting) Pair_inject Inr_inject case_prod_beta refused_waits)

text \<open>An address nobody has seen gets the whole burst at once, and not one request more.\<close>

lemma refilled_at_once:
  assumes "0 \<le> n" and "n \<le> 120"
  shows "refilled general_limiter now (Some \<lparr>bu_tokens = of_int n, bu_seen = now\<rparr>) = of_int n"
proof -
  have "fl 0 = 0" "fl (of_int n) = of_int n" using fl_int [of 0] fl_int [of n] assms by simp_all
  then show ?thesis using assms(2) by (simp add: refilled_def general Seconds_def)
qed

lemma spent_whole: "1 \<le> n \<Longrightarrow> n \<le> 120 \<Longrightarrow> spent (of_int n) = of_int (n - 1)"
  using fl_int [of "n - 1"] by (simp add: spent_def)

lemma burst_left:
  "n \<le> 120 \<Longrightarrow> map_of bs key = Some \<lparr>bu_tokens = of_int (int n), bu_seen = now\<rparr> \<Longrightarrow>
    map Allowed (fst (served (spend general_limiter) (replicate (Suc n) (now, key)) bs)) = replicate n True @ [False]"
proof (induction n arbitrary: bs)
  case 0
  then show ?case using refilled_at_once [of 0 now] by (simp add: spend_run Let_def)
next
  case (Suc n)
  have all: "refilled general_limiter now (map_of bs key) = of_int (int (Suc n))"
    unfolding Suc.prems(2) using Suc.prems(1) by (intro refilled_at_once) auto
  have "spent (of_int (int (Suc n))) = of_int (int n)" using spent_whole [of "int (Suc n)"] Suc.prems(1) by simp
  then have "spend general_limiter now key bs = (allowed, AList.update key \<lparr>bu_tokens = of_int (int n), bu_seen = now\<rparr> bs)"
    unfolding spend_run Let_def all by simp
  then show ?case
    using Suc.IH [of "AList.update key \<lparr>bu_tokens = of_int (int n), bu_seen = now\<rparr> bs"] Suc.prems(1)
    by (simp add: case_prod_beta update_conv allowed_def)
qed

lemma burst_is_admitted:
  assumes "map_of bs key = None"
  shows "map Allowed (fst (served (spend general_limiter) (replicate 121 (now, key)) bs)) = replicate 120 True @ [False]"
proof -
  have "spent 120 = of_int (int 119)" using spent_whole [of 120] by simp
  then have "spend general_limiter now key bs = (allowed, AList.update key \<lparr>bu_tokens = of_int (int 119), bu_seen = now\<rparr> bs)"
    by (simp add: spend_run Let_def assms refilled_none)
  moreover have "replicate 121 (now, key) = (now, key) # replicate (Suc 119) (now, key)" by (simp add: numeral_eq_Suc)
  moreover have "replicate 120 True = True # replicate 119 True" by (simp add: numeral_eq_Suc)
  ultimately show ?thesis
    using burst_left [of 119 "AList.update key \<lparr>bu_tokens = of_int (int 119), bu_seen = now\<rparr> bs" key now]
    by (simp add: case_prod_beta update_conv allowed_def)
qed

end
