(* ===== verification/GoText.thy ===== *)
theory GoText
  imports Prelude "HOL-Library.List_Lexorder" "HOL-Library.Char_ord"
begin

text \<open>
  The parts of Go's standard library the program's text handling rests on: UTF-8
  (\<^verbatim>\<open>unicode/utf8\<close>), \<^verbatim>\<open>strings.TrimSpace\<close> and \<^verbatim>\<open>strings.Split\<close>, decimal printing
  (\<^verbatim>\<open>strconv.Itoa\<close>, \<^verbatim>\<open>fmt\<close>'s \<^verbatim>\<open>%d\<close> and \<^verbatim>\<open>%0*d\<close>), base64 (\<^verbatim>\<open>encoding/base64\<close>), query
  escaping (\<^verbatim>\<open>net/url\<close>), maps of strings and their JSON (\<^verbatim>\<open>encoding/json\<close>). A string is its
  bytes, as in Go.
\<close>

subsection \<open>UTF-8\<close>

definition code :: "char \<Rightarrow> nat" where "code c = of_char c"

definition cont :: "int \<Rightarrow> bool" where "cont b = (128 \<le> b \<and> b \<le> 191)"

text \<open>\<^verbatim>\<open>utf8.DecodeRune\<close>: the first rune and its width, or \<open>None\<close> (RuneError, one byte wide).\<close>

fun rune_at :: "int list \<Rightarrow> (int \<times> nat) option" where
  "rune_at [] = None"
| "rune_at (a # r) =
     (if a < 128 then Some (a, 1)
      else case r of
        [] \<Rightarrow> None
      | b # r2 \<Rightarrow>
          if 194 \<le> a \<and> a \<le> 223 then (if cont b then Some ((a - 192) * 64 + (b - 128), 2) else None)
          else case r2 of
            [] \<Rightarrow> None
          | c # r3 \<Rightarrow>
              if 224 \<le> a \<and> a \<le> 239
              then (if cont b \<and> cont c \<and> (a = 224 \<longrightarrow> 160 \<le> b) \<and> (a = 237 \<longrightarrow> b \<le> 159)
                    then Some ((a - 224) * 4096 + (b - 128) * 64 + (c - 128), 3) else None)
              else case r3 of
                [] \<Rightarrow> None
              | d # _ \<Rightarrow>
                  if 240 \<le> a \<and> a \<le> 244 \<and> cont b \<and> cont c \<and> cont d \<and>
                     (a = 240 \<longrightarrow> 144 \<le> b) \<and> (a = 244 \<longrightarrow> b \<le> 143)
                  then Some ((a - 240) * 262144 + (b - 128) * 4096 + (c - 128) * 64 + (d - 128), 4)
                  else None)"

lemma rune_at_width: "rune_at bs = Some (r, n) \<Longrightarrow> 0 < n"
  by (cases bs) (auto split: if_splits list.splits)

text \<open>A string cut into runes: each with its bytes, \<open>None\<close> for a byte that is not UTF-8.\<close>

function runes :: "string \<Rightarrow> (int option \<times> string) list" where
  "runes s = (if s = [] then []
     else case rune_at (map (\<lambda>c. int (code c)) s) of
            None \<Rightarrow> (None, [hd s]) # runes (tl s)
          | Some (r, n) \<Rightarrow> (Some r, take n s) # runes (drop n s))"
  by pat_completeness auto
termination
  by (relation "measure length") (auto dest: rune_at_width)

declare runes.simps [simp del]

lemma runes_Nil [simp]: "runes [] = []"
  by (simp add: runes.simps)

definition RuneCount :: "string \<Rightarrow> nat" where "RuneCount s = length (runes s)"

definition ValidString :: "string \<Rightarrow> bool" where
  "ValidString s = list_all (\<lambda>(r, _). r \<noteq> None) (runes s)"

text \<open>\<^verbatim>\<open>unicode.IsSpace\<close>, \<^verbatim>\<open>unicode.IsControl\<close> (category Cc) and category Cf.\<close>

definition IsSpace :: "int \<Rightarrow> bool" where
  "IsSpace r \<longleftrightarrow> (9 \<le> r \<and> r \<le> 13) \<or> r = 32 \<or> r = 0x85 \<or> r = 0xA0 \<or> r = 0x1680 \<or>
     (0x2000 \<le> r \<and> r \<le> 0x200A) \<or> r = 0x2028 \<or> r = 0x2029 \<or> r = 0x202F \<or> r = 0x205F \<or> r = 0x3000"

definition IsControl :: "int \<Rightarrow> bool" where
  "IsControl r \<longleftrightarrow> r < 32 \<or> (127 \<le> r \<and> r < 160)"

definition Cf :: "(int \<times> int) list" where
  "Cf = [(0xAD, 0xAD), (0x600, 0x605), (0x61C, 0x61C), (0x6DD, 0x6DD), (0x70F, 0x70F),
     (0x890, 0x891), (0x8E2, 0x8E2), (0x180E, 0x180E), (0x200B, 0x200F), (0x202A, 0x202E),
     (0x2060, 0x2064), (0x2066, 0x206F), (0xFEFF, 0xFEFF), (0xFFF9, 0xFFFB),
     (0x110BD, 0x110BD), (0x110CD, 0x110CD), (0x13430, 0x1343F), (0x1BCA0, 0x1BCA3),
     (0x1D173, 0x1D17A), (0xE0001, 0xE0001), (0xE0020, 0xE007F)]"

definition IsFormat :: "int \<Rightarrow> bool" where
  "IsFormat r = list_ex (\<lambda>(lo, hi). lo \<le> r \<and> r \<le> hi) Cf"

definition space_rune :: "int option \<times> string \<Rightarrow> bool" where
  "space_rune x = (case fst x of None \<Rightarrow> False | Some r \<Rightarrow> IsSpace r)"

definition trim_space :: "string \<Rightarrow> string" where
  "trim_space s = concat (map snd
     (rev (dropWhile space_rune (rev (dropWhile space_rune (runes s))))))"

text \<open>A run of plain, visible text: no control and no format character, valid UTF-8.\<close>

definition plain_text :: "string \<Rightarrow> bool" where
  "plain_text s = list_all (\<lambda>(r, _). case r of None \<Rightarrow> False
     | Some r \<Rightarrow> \<not> IsControl r \<and> \<not> IsFormat r) (runes s)"

subsection \<open>Splitting and decimal numbers\<close>

text \<open>\<^verbatim>\<open>strings.Split(s, sep)\<close> for a separator of one byte.\<close>

fun split_at :: "char \<Rightarrow> string \<Rightarrow> string list" where
  "split_at sep [] = [[]]"
| "split_at sep (c # s) = (if c = sep then [] # split_at sep s
     else (case split_at sep s of [] \<Rightarrow> [[c]] | w # ws \<Rightarrow> (c # w) # ws))"

lemma split_at_no_sep: "sep \<notin> set s \<Longrightarrow> split_at sep s = [s]"
  by (induction s) auto

lemma split_at_append: "sep \<notin> set s \<Longrightarrow> split_at sep (s @ sep # t) = s # split_at sep t"
  by (induction s) auto

definition digit :: "nat \<Rightarrow> char" where "digit n = char_of (48 + n)"

definition digit_value :: "char \<Rightarrow> nat option" where
  "digit_value c = (if 48 \<le> code c \<and> code c \<le> 57 then Some (code c - 48) else None)"

fun dec :: "nat \<Rightarrow> string" where
  "dec n = (if n < 10 then [digit n] else dec (n div 10) @ [digit (n mod 10)])"

declare dec.simps [simp del]

text \<open>\<^verbatim>\<open>%0*d\<close>: exactly \<open>w\<close> digits for a number below \<open>10 ^ w\<close>.\<close>

fun padded :: "nat \<Rightarrow> nat \<Rightarrow> string" where
  "padded 0 n = []"
| "padded (Suc w) n = padded w (n div 10) @ [digit (n mod 10)]"

definition zero_padded :: "nat \<Rightarrow> nat \<Rightarrow> string" where
  "zero_padded w n = (if n < 10 ^ w then padded w n else dec n)"

lemma code_less: "code c < 256"
  using nat_of_char_less_256 by (simp add: code_def)

lemma code_digit [simp]: "n < 10 \<Longrightarrow> code (digit n) = 48 + n"
  by (simp add: code_def digit_def)

lemma digit_value_digit [simp]: "n < 10 \<Longrightarrow> digit_value (digit n) = Some n"
  by (simp add: digit_value_def)

lemma code_inject [simp]: "code c = code d \<longleftrightarrow> c = d"
  by (simp add: code_def)

lemma digit_inject: "m < 10 \<Longrightarrow> n < 10 \<Longrightarrow> digit m = digit n \<longleftrightarrow> m = n"
  by (metis add_left_cancel code_digit)

lemma length_padded [simp]: "length (padded w n) = w"
  by (induction w arbitrary: n) auto

lemma padded_numeral:
  "padded (numeral w) n = padded (pred_numeral w) (n div 10) @ [digit (n mod 10)]"
  unfolding numeral_eq_Suc [of w] by (rule padded.simps(2))

text \<open>The decimal number a run of digits is (\<^verbatim>\<open>strconv.ParseUint\<close> base 10, before its range).\<close>

definition number_of_digits :: "string \<Rightarrow> nat" where
  "number_of_digits s = foldl (\<lambda>n c. 10 * n + (code c - 48)) 0 s"

lemma number_of_digits_append:
  "number_of_digits (s @ [c]) = 10 * number_of_digits s + (code c - 48)"
  by (simp add: number_of_digits_def)

lemma number_of_dec [simp]: "number_of_digits (dec n) = n"
proof (induction n rule: dec.induct)
  case (1 n)
  show ?case
  proof (cases "n < 10")
    case True
    then show ?thesis by (simp add: dec.simps [of n] number_of_digits_def)
  next
    case False
    then show ?thesis using 1 by (simp add: dec.simps [of n] number_of_digits_append)
  qed
qed

lemma padded_value: "number_of_digits (padded w n) = n mod 10 ^ w"
proof (induction w arbitrary: n)
  case (Suc w)
  have "n mod 10 ^ Suc w = 10 * (n div 10 mod 10 ^ w) + n mod 10"
    by (simp add: mod_mult2_eq)
  then show ?case using Suc by (simp add: number_of_digits_append)
qed (simp add: number_of_digits_def)

definition is_digit :: "char \<Rightarrow> bool" where "is_digit c = (digit_value c \<noteq> None)"

lemma is_digit_digit [simp]: "n < 10 \<Longrightarrow> is_digit (digit n)"
  by (simp add: is_digit_def)

lemma dec_digits: "list_all is_digit (dec n)"
proof (induction n rule: dec.induct)
  case (1 n)
  then show ?case by (cases "n < 10") (simp_all add: dec.simps [of n])
qed

lemma dec_not_Nil [simp]: "dec n \<noteq> []"
  by (subst dec.simps) simp

lemma padded_digits: "list_all is_digit (padded w n)"
  by (induction w arbitrary: n) auto

lemma is_digit_iff: "is_digit c \<longleftrightarrow> c \<in> set digits10"
proof
  assume "is_digit c"
  then have "48 \<le> code c" "code c \<le> 57" by (auto simp: is_digit_def digit_value_def split: if_splits)
  then have "code c \<in> {48..<58}" by simp
  then have "code c \<in> set (map code digits10)" by (simp add: digits10_def code_def upt_rec atLeastLessThan_nat_numeral) auto
  then show "c \<in> set digits10" by (auto simp: image_iff)
next
  assume "c \<in> set digits10"
  then show "is_digit c" by (auto simp: digits10_def is_digit_def digit_value_def code_def)
qed

subsection \<open>Base64\<close>

definition b64_std :: string where
  "b64_std = ''ABCDEFGHIJKLMNOPQRSTUVWXYZabcdefghijklmnopqrstuvwxyz0123456789+/''"

definition b64_url :: string where
  "b64_url = ''ABCDEFGHIJKLMNOPQRSTUVWXYZabcdefghijklmnopqrstuvwxyz0123456789-_''"

text \<open>Bytes as six-bit groups, without padding, and back.\<close>

fun sextets :: "nat list \<Rightarrow> nat list" where
  "sextets [] = []"
| "sextets [a] = [a div 4, (a mod 4) * 16]"
| "sextets [a, b] = [a div 4, (a mod 4) * 16 + b div 16, (b mod 16) * 4]"
| "sextets (a # b # c # r) =
     a div 4 # ((a mod 4) * 16 + b div 16) # ((b mod 16) * 4 + c div 64) # c mod 64 # sextets r"

fun octets :: "nat list \<Rightarrow> nat list option" where
  "octets [] = Some []"
| "octets [x] = None"
| "octets [x, y] = Some [x * 4 + y div 16]"
| "octets [x, y, z] = Some [x * 4 + y div 16, (y mod 16) * 16 + z div 4]"
| "octets (x # y # z # w # r) =
     map_option (\<lambda>bs. (x * 4 + y div 16) # ((y mod 16) * 16 + z div 4) # ((z mod 4) * 64 + w) # bs)
       (octets r)"

text \<open>\<^verbatim>\<open>RawStdEncoding\<close> and \<^verbatim>\<open>RawURLEncoding\<close>, by alphabet; decoding skips line ends, as Go does.\<close>

definition EncodeToString :: "string \<Rightarrow> bytes \<Rightarrow> string" where
  "EncodeToString alphabet bs = map (\<lambda>i. alphabet ! i) (sextets (map unat bs))"

fun position :: "char \<Rightarrow> string \<Rightarrow> nat option" where
  "position c [] = None"
| "position c (a # r) = (if c = a then Some 0 else map_option Suc (position c r))"

definition DecodeString :: "string \<Rightarrow> string \<Rightarrow> bytes option" where
  "DecodeString alphabet s =
     (case those (map (\<lambda>c. position c alphabet) (filter (\<lambda>c. c \<noteq> CHR 0x0A \<and> c \<noteq> CHR 0x0D) s)) of
        None \<Rightarrow> None
      | Some xs \<Rightarrow> map_option (map word_of_nat) (octets xs))"

lemma position_nth: "distinct s \<Longrightarrow> i < length s \<Longrightarrow> position (s ! i) s = Some i"
  by (induction s arbitrary: i) (auto simp: nth_Cons split: nat.splits)

lemma those_Some_map: "(\<And>x. x \<in> set xs \<Longrightarrow> f x = Some (g x)) \<Longrightarrow> those (map f xs) = Some (map g xs)"
  by (induction xs) auto

lemma sextets_bound: "list_all (\<lambda>b. b < 256) bs \<Longrightarrow> x \<in> set (sextets bs) \<Longrightarrow> x < 64"
proof (induction bs rule: sextets.induct)
  case (3 a b)
  have "a div 4 < 64" "(a mod 4) * 16 + b div 16 < 64" "(b mod 16) * 4 < 64"
    using 3 by auto
  then show ?case using 3 by auto
next
  case (4 a b c r)
  have "a div 4 < 64" "(a mod 4) * 16 + b div 16 < 64" "(b mod 16) * 4 + c div 64 < 64"
    using 4 by auto
  then show ?case using 4 by auto
qed auto

lemma octets_sextets: "list_all (\<lambda>b. b < 256) bs \<Longrightarrow> octets (sextets bs) = Some bs"
proof (induction bs rule: sextets.induct)
  case (3 a b)
  have "a div 4 * 4 + ((a mod 4) * 16 + b div 16) div 16 = a"
    "((a mod 4) * 16 + b div 16) mod 16 * 16 + (b mod 16) * 4 div 4 = b"
    using 3 by auto
  then show ?case by simp
next
  case (4 a b c r)
  have "a div 4 * 4 + ((a mod 4) * 16 + b div 16) div 16 = a"
    "((a mod 4) * 16 + b div 16) mod 16 * 16 + ((b mod 16) * 4 + c div 64) div 4 = b"
    "((b mod 16) * 4 + c div 64) mod 4 * 64 + c mod 64 = c"
    using 4 by auto
  then show ?case using 4 by simp
qed auto

definition alphabet_ok :: "string \<Rightarrow> bool" where
  "alphabet_ok s = (distinct s \<and> length s = 64 \<and> CHR 0x0A \<notin> set s \<and> CHR 0x0D \<notin> set s)"

lemma alphabet_ok_std [simp]: "alphabet_ok b64_std"
  by (simp add: alphabet_ok_def b64_std_def)

lemma alphabet_ok_url [simp]: "alphabet_ok b64_url"
  by (simp add: alphabet_ok_def b64_url_def)

lemma unats_small: "list_all (\<lambda>b. b < 256) (map unat (bs :: bytes))"
proof -
  have "unat (b :: 8 word) < 256" for b
    using unsigned_less [where 'b = 8 and w = b and 'a = nat] by simp
  then show ?thesis by (auto simp: list_all_iff)
qed

lemma EncodeToString_set: "alphabet_ok a \<Longrightarrow> set (EncodeToString a bs) \<subseteq> set a"
  using sextets_bound [OF unats_small [of bs]]
  by (auto simp: EncodeToString_def alphabet_ok_def)

lemma DecodeString_EncodeToString [simp]:
  assumes "alphabet_ok a"
  shows "DecodeString a (EncodeToString a bs) = Some bs"
proof -
  let ?xs = "sextets (map unat bs)"
  have small: "x < length a" if "x \<in> set ?xs" for x
    using that sextets_bound [OF unats_small [of bs]] assms by (simp add: alphabet_ok_def)
  have keep: "filter (\<lambda>c. c \<noteq> CHR 0x0A \<and> c \<noteq> CHR 0x0D) (EncodeToString a bs) = EncodeToString a bs"
    using EncodeToString_set [OF assms, of bs] assms
    by (intro filter_True) (auto simp: alphabet_ok_def)
  have "those (map (\<lambda>i. position (a ! i) a) ?xs) = Some (map (\<lambda>i. i) ?xs)"
    using assms small by (intro those_Some_map) (simp add: position_nth alphabet_ok_def)
  then have "those (map (\<lambda>c. position c a) (EncodeToString a bs)) = Some ?xs"
    by (simp add: EncodeToString_def comp_def)
  then show ?thesis
    by (simp add: DecodeString_def keep octets_sextets [OF unats_small] comp_def)
qed

lemma EncodeToString_inject:
  assumes "alphabet_ok a"
  shows "EncodeToString a bs = EncodeToString a cs \<longleftrightarrow> bs = cs"
  using DecodeString_EncodeToString [OF assms] by (metis option.inject)

subsection \<open>Maps of strings, JSON and queries\<close>

text \<open>A \<^verbatim>\<open>map[string]string\<close>, kept sorted by key; \<open>copy_into\<close> is \<^verbatim>\<open>maps.Copy\<close>.\<close>

type_synonym go_map = "(string \<times> string) list"

fun put :: "string \<Rightarrow> string \<Rightarrow> go_map \<Rightarrow> go_map" where
  "put k v [] = [(k, v)]"
| "put k v ((k', v') # m) =
     (if k = k' then (k, v) # m else if k < k' then (k, v) # (k', v') # m else (k', v') # put k v m)"

definition copy_into :: "go_map \<Rightarrow> go_map \<Rightarrow> go_map" where
  "copy_into dst src = foldl (\<lambda>m (k, v). put k v m) dst src"

definition go_map :: "(string \<times> string) list \<Rightarrow> go_map" where
  "go_map kvs = copy_into [] kvs"

lemma map_of_put [simp]: "map_of (put k v m) = (map_of m)(k \<mapsto> v)"
  by (induction k v m rule: put.induct) (auto simp: fun_eq_iff)

lemma map_of_copy_into: "map_of (copy_into dst src) = map_of dst ++ map_of (rev src)"
proof -
  have "map_of (foldl (\<lambda>m (k, v). put k v m) d s) = map_of d ++ map_of (rev s)" for d s
    by (induction s arbitrary: d) (auto simp: map_add_def fun_eq_iff split: option.splits)
  then show ?thesis by (simp add: copy_into_def)
qed

text \<open>
  \<^verbatim>\<open>json.Marshal\<close> of a map of strings: keys in order, and the escapes of the encoder's HTML
  mode for ASCII characters; other bytes are written as they are.
\<close>

definition hex_digit :: "nat \<Rightarrow> char" where
  "hex_digit n = (if n < 10 then digit n else char_of (87 + n))"

definition json_char :: "char \<Rightarrow> string" where
  "json_char c =
     (if c = CHR 0x22 then [CHR 0x5C, CHR 0x22]
      else if c = CHR 0x5C then [CHR 0x5C, CHR 0x5C]
      else if c = CHR 0x08 then [CHR 0x5C, CHR ''b'']
      else if c = CHR 0x0C then [CHR 0x5C, CHR ''f'']
      else if c = CHR 0x0A then [CHR 0x5C, CHR ''n'']
      else if c = CHR 0x0D then [CHR 0x5C, CHR ''r'']
      else if c = CHR 0x09 then [CHR 0x5C, CHR ''t'']
      else if code c < 32 \<or> c \<in> {CHR ''<'', CHR ''>'', CHR ''&''}
        then CHR 0x5C # ''u00'' @ [hex_digit (code c div 16), hex_digit (code c mod 16)]
      else [c])"

definition json_string :: "string \<Rightarrow> string" where
  "json_string s = CHR 0x22 # concat (map json_char s) @ [CHR 0x22]"

fun comma :: "string list \<Rightarrow> string" where
  "comma [] = []"
| "comma [x] = x"
| "comma (x # y # r) = x @ '','' @ comma (y # r)"

definition json_map :: "go_map \<Rightarrow> string" where
  "json_map m = ''{'' @ comma (map (\<lambda>(k, v). json_string k @ '':'' @ json_string v) m) @ ''}''"

text \<open>\<^verbatim>\<open>url.QueryEscape\<close> and \<^verbatim>\<open>url.Values.Encode\<close>.\<close>

definition unreserved :: "char \<Rightarrow> bool" where
  "unreserved c \<longleftrightarrow> (48 \<le> code c \<and> code c \<le> 57) \<or> (65 \<le> code c \<and> code c \<le> 90) \<or>
     (97 \<le> code c \<and> code c \<le> 122) \<or> c \<in> set ''-_.~''"

definition upper_hex :: "nat \<Rightarrow> char" where
  "upper_hex n = (if n < 10 then digit n else char_of (55 + n))"

definition query_escape :: "string \<Rightarrow> string" where
  "query_escape s = concat (map (\<lambda>c. if unreserved c then [c] else if c = CHR '' '' then ''+''
     else [CHR ''%'', upper_hex (code c div 16), upper_hex (code c mod 16)]) s)"

fun ampersand :: "string list \<Rightarrow> string" where
  "ampersand [] = []"
| "ampersand [x] = x"
| "ampersand (x # y # r) = x @ ''&'' @ ampersand (y # r)"

definition encode_query :: "go_map \<Rightarrow> string" where
  "encode_query q = ampersand (map (\<lambda>(k, v). query_escape k @ ''='' @ query_escape v) q)"

end
