(* ===== verification/Codes.thy ===== *)
theory Codes
  imports GoText "HOL-Library.Signed_Division"
begin

unbundle bit_operations_syntax

text \<open>
  The codes a person types and the rules for what they type: one-time codes of an app
  (src/internal/identity/totp.go), recovery codes (recovery.go), the digits of a code sent
  by e-mail (\<^verbatim>\<open>emailCodeHash\<close> of emailcode.go), tokens (token.go), and the checks of
  names, labels, addresses and passwords (policy.go, \<^verbatim>\<open>CheckLabel\<close> of factors.go).

  SHA-256, HMAC-SHA-1, NFKC and the RFC 5322 address parser are not under src/: they are
  parameters. What \<^verbatim>\<open>crypto/rand\<close> draws is an argument.
\<close>

subsection \<open>App codes (RFC 6238)\<close>

definition totpDigits :: nat where "totpDigits = 6"
definition totpPeriod :: int where "totpPeriod = 30"
definition totpDrift :: int where "totpDrift = 1"

text \<open>\<^verbatim>\<open>at.Unix() / totpPeriod\<close>: whole seconds, then Go's division, which truncates.\<close>

definition totpStep :: "time \<Rightarrow> int" where
  "totpStep at = (at div second) sdiv totpPeriod"

text \<open>The counter, big-endian in eight bytes; four bytes read back as a number.\<close>

fun big_endian :: "nat \<Rightarrow> int \<Rightarrow> bytes" where
  "big_endian 0 n = []"
| "big_endian (Suc k) n = big_endian k (n div 256) @ [word_of_int n]"

definition be64 :: "int \<Rightarrow> bytes" where
  "be64 n = big_endian 8 n"

definition be32 :: "bytes \<Rightarrow> 32 word" where
  "be32 bs = foldl (\<lambda>n b. n * 256 + ucast b) 0 bs"

definition modulus :: "nat \<Rightarrow> 32 word" where
  "modulus digits = foldl (\<lambda>m _. m * 10) 1 [0..<digits]"

definition hotp :: "(bytes \<Rightarrow> bytes \<Rightarrow> bytes) \<Rightarrow> bytes \<Rightarrow> int \<Rightarrow> nat \<Rightarrow> string" where
  "hotp hmac secret counter digits =
     (let sum = hmac secret (be64 counter);
          offset = unat (last sum AND 0x0f);
          value = be32 (take 4 (drop offset sum)) AND 0x7fffffff
      in zero_padded digits (unat (value mod modulus digits)))"

definition totpCode :: "(bytes \<Rightarrow> bytes \<Rightarrow> bytes) \<Rightarrow> bytes \<Rightarrow> int \<Rightarrow> string" where
  "totpCode hmac secret step = hotp hmac secret step totpDigits"

definition matchTOTP :: "(bytes \<Rightarrow> bytes \<Rightarrow> bytes) \<Rightarrow> bytes \<Rightarrow> string \<Rightarrow> time \<Rightarrow> int \<Rightarrow> int option" where
  "matchTOTP hmac secret typed now lst =
     (let code = drop_spaces typed; current = totpStep now in
      if length code \<noteq> totpDigits \<or> \<not> only_of digits10 code then None
      else find (\<lambda>step. \<not> step \<le> lst \<and> totpCode hmac secret step = code)
             [current - totpDrift .. current + totpDrift])"

text \<open>A secret for a person: RFC 4648 base32 without padding, and the \<^verbatim>\<open>otpauth\<close> URI.\<close>

definition b32 :: string where "b32 = ''ABCDEFGHIJKLMNOPQRSTUVWXYZ234567''"

definition bits8 :: "nat \<Rightarrow> nat list" where
  "bits8 n = map (\<lambda>i. n div 2 ^ i mod 2) [7, 6, 5, 4, 3, 2, 1, 0]"

fun quintets :: "nat list \<Rightarrow> nat list" where
  "quintets (a # b # c # d # e # r) = (16 * a + 8 * b + 4 * c + 2 * d + e) # quintets r"
| "quintets [] = []"
| "quintets bs = [foldl (\<lambda>n b. 2 * n + b) 0 (take 5 (bs @ replicate 5 0))]"

definition TOTPKey :: "bytes \<Rightarrow> string" where
  "TOTPKey secret = map (\<lambda>i. b32 ! i) (quintets (concat (map (\<lambda>b. bits8 (unat b)) secret)))"

definition label_escape :: "string \<Rightarrow> string" where
  "label_escape s = concat (map (\<lambda>c. if c = CHR ''+'' then ''%20'' else [c]) (query_escape s))"

definition TOTPURI :: "string \<Rightarrow> string \<Rightarrow> bytes \<Rightarrow> string" where
  "TOTPURI issuer account secret =
     ''otpauth://totp/'' @ label_escape issuer @ '':'' @ label_escape account @ ''?secret='' @
     TOTPKey secret @ ''&issuer='' @ label_escape issuer @ ''&algorithm=SHA1&digits='' @
     dec totpDigits @ ''&period='' @ dec (nat totpPeriod)"

lemma modulus_six [simp]: "modulus totpDigits = 1000000"
  by (simp add: modulus_def totpDigits_def upt_rec)

lemma totpCode_padded:
  "\<exists>n < 1000000. totpCode hmac secret step = padded totpDigits n"
proof -
  let ?v = "be32 (take 4 (drop (unat (last (hmac secret (be64 step)) AND 0x0f))
    (hmac secret (be64 step)))) AND 0x7fffffff"
  have "unat (?v mod 1000000) < 1000000"
    by (simp add: unat_mod_distrib)
  then show ?thesis
    by (auto simp: totpCode_def hotp_def Let_def zero_padded_def modulus_six [simplified] totpDigits_def
        modulus_def upt_rec)
qed

lemma totpCode_shape:
  "length (totpCode hmac secret step) = totpDigits" "only_of digits10 (totpCode hmac secret step)"
proof -
  obtain n where n: "totpCode hmac secret step = padded totpDigits n"
    using totpCode_padded by blast
  show "length (totpCode hmac secret step) = totpDigits" by (simp add: n)
  show "only_of digits10 (totpCode hmac secret step)"
    using padded_digits [of totpDigits n] by (simp add: n only_of_def list_all_iff is_digit_iff)
qed

lemma find_Some_first:
  "find P xs = Some x \<Longrightarrow> x \<in> set xs \<and> P x"
  by (auto simp: find_Some_iff)

lemma find_is_Some: "(\<exists>x. find P xs = Some x) \<longleftrightarrow> (\<exists>x \<in> set xs. P x)"
  by (metis find_None_iff not_Some_eq find_Some_first)

text \<open>What a match is: a step inside the window, after the last one, whose code was typed.\<close>

lemma matchTOTP_sound:
  assumes "matchTOTP hmac secret typed now lst = Some step"
  shows "lst < step" "\<bar>step - totpStep now\<bar> \<le> totpDrift" "totpCode hmac secret step = drop_spaces typed"
proof -
  let ?P = "\<lambda>step. \<not> step \<le> lst \<and> totpCode hmac secret step = drop_spaces typed"
  have found: "find ?P [totpStep now - totpDrift .. totpStep now + totpDrift] = Some step"
    using assms by (simp add: matchTOTP_def Let_def split: if_splits)
  show "lst < step" "totpCode hmac secret step = drop_spaces typed"
    using find_Some_first [OF found] by simp_all
  show "\<bar>step - totpStep now\<bar> \<le> totpDrift"
    using find_Some_first [OF found] by auto
qed

subsection \<open>Recovery codes\<close>

definition RecoveryCodeCount :: nat where "RecoveryCodeCount = 10"
definition recoverySymbols :: nat where "recoverySymbols = 12"

definition recoveryAlphabet :: string where
  "recoveryAlphabet = ''0123456789abcdefghjkmnpqrstvwxyz''"

text \<open>One code from twelve random bytes: a hyphen before every fourth symbol but the first.\<close>

fun write_code :: "nat \<Rightarrow> bytes \<Rightarrow> string" where
  "write_code j [] = []"
| "write_code j (b # raw) =
     (if j > 0 \<and> j mod 4 = 0 then ''-'' else []) @
     recoveryAlphabet ! unat (b AND 31) # write_code (j + 1) raw"

definition NewRecoveryCodes :: "bytes list \<Rightarrow> string list" where
  "NewRecoveryCodes draws = map (write_code 0) (take RecoveryCodeCount draws)"

definition read_symbol :: "char \<Rightarrow> string" where
  "read_symbol r =
     (if r = CHR ''-'' \<or> r = CHR '' '' then []
      else if r = CHR ''o'' then ''0''
      else if r = CHR ''i'' \<or> r = CHR ''l'' then ''1''
      else [r])"

definition recovery_symbols :: "string \<Rightarrow> string" where
  "recovery_symbols typed = concat (map read_symbol (to_lower typed))"

definition recoveryHash :: "(bytes \<Rightarrow> bytes) \<Rightarrow> string \<Rightarrow> bytes option" where
  "recoveryHash sha256 typed =
     (let symbols = recovery_symbols typed in
      if length symbols \<noteq> recoverySymbols \<or> \<not> only_of recoveryAlphabet symbols then None
      else Some (sha256 (bytes_of symbols)))"

definition newRecoverySet :: "(bytes \<Rightarrow> bytes) \<Rightarrow> bytes list \<Rightarrow> string list \<times> bytes list" where
  "newRecoverySet sha256 draws =
     (let codes = NewRecoveryCodes draws in
      (codes, map (\<lambda>c. case recoveryHash sha256 c of None \<Rightarrow> [] | Some h \<Rightarrow> h) codes))"

lemma recoveryAlphabet_length [simp]: "length recoveryAlphabet = 32"
  by (simp add: recoveryAlphabet_def)

lemma low_bits: "unat (b AND 31 :: 8 word) < 32"
proof -
  have "b AND 31 \<le> (31 :: 8 word)" by (rule word_and_le1)
  then have "unat (b AND 31) \<le> unat (31 :: 8 word)" by (simp only: word_le_nat_alt)
  then show ?thesis by simp
qed

lemma read_symbol_alphabet:
  "c \<in> set recoveryAlphabet \<Longrightarrow> read_symbol (lower_char c) = [c]"
  by (simp add: recoveryAlphabet_def, elim disjE) (simp_all add: read_symbol_def lower_char_def)

lemma symbol_in_alphabet [simp]: "recoveryAlphabet ! unat (b AND 31 :: 8 word) \<in> set recoveryAlphabet"
  using low_bits [of b] by (intro nth_mem) simp

lemma recovery_symbols_append: "recovery_symbols (s @ t) = recovery_symbols s @ recovery_symbols t"
  by (simp add: recovery_symbols_def)

lemma recovery_symbols_write_code:
  "recovery_symbols (write_code j raw) = map (\<lambda>b. recoveryAlphabet ! unat (b AND 31)) raw"
proof (induction raw arbitrary: j)
  case Nil
  show ?case by (simp add: recovery_symbols_def to_lower_def)
next
  case (Cons b raw)
  have hyphen: "recovery_symbols ''-'' = []"
    by (simp add: recovery_symbols_def to_lower_def read_symbol_def lower_char_def)
  have one: "recovery_symbols [recoveryAlphabet ! unat (b AND 31)] = [recoveryAlphabet ! unat (b AND 31)]"
    by (simp add: recovery_symbols_def to_lower_def read_symbol_alphabet)
  have "recovery_symbols (write_code j (b # raw)) =
      recovery_symbols (if j > 0 \<and> j mod 4 = 0 then ''-'' else []) @
      recovery_symbols [recoveryAlphabet ! unat (b AND 31)] @ recovery_symbols (write_code (j + 1) raw)"
    by (simp flip: recovery_symbols_append)
  also have "\<dots> = recoveryAlphabet ! unat (b AND 31) # map (\<lambda>b. recoveryAlphabet ! unat (b AND 31)) raw"
    by (simp add: hyphen one Cons.IH) (simp add: recovery_symbols_def to_lower_def)
  finally show ?case by simp
qed

subsection \<open>Codes sent by e-mail\<close>

definition email_code :: "nat \<Rightarrow> string" where
  "email_code n = zero_padded 6 n"

definition emailCodeHash :: "(bytes \<Rightarrow> bytes) \<Rightarrow> string \<Rightarrow> bytes option" where
  "emailCodeHash sha256 typed =
     (let code = drop_spaces typed in
      if length code \<noteq> 6 \<or> \<not> only_of digits10 code then None
      else Some (sha256 (bytes_of code)))"

text \<open>\<^verbatim>\<open>newEmailCode\<close>, from the number below a million that was drawn.\<close>

definition newEmailCode :: "(bytes \<Rightarrow> bytes) \<Rightarrow> nat \<Rightarrow> string \<times> bytes" where
  "newEmailCode sha256 n =
     (let code = email_code (n mod 1000000) in
      (code, case emailCodeHash sha256 code of None \<Rightarrow> [] | Some h \<Rightarrow> h))"

lemma drop_spaces_digits: "only_of digits10 s \<Longrightarrow> drop_spaces s = s"
proof -
  assume s: "only_of digits10 s"
  have "CHR '' '' \<notin> set digits10" by (simp add: digits10_def)
  then have "\<forall>c \<in> set s. c \<noteq> CHR '' ''" using s by (auto simp: only_of_def list_all_iff)
  then show ?thesis by (simp add: drop_spaces_def)
qed

lemma padded_only_digits: "only_of digits10 (padded w n)"
  using padded_digits [of w n] by (simp add: only_of_def list_all_iff is_digit_iff)

lemma emailCodeHash_new: "emailCodeHash sha256 (fst (newEmailCode sha256 n)) = Some (snd (newEmailCode sha256 n))"
proof -
  have "email_code (n mod 1000000) = padded 6 (n mod 1000000)"
    by (simp add: email_code_def zero_padded_def)
  then show ?thesis
    by (simp add: newEmailCode_def emailCodeHash_def Let_def drop_spaces_digits padded_only_digits)
qed

subsection \<open>Tokens\<close>

definition HashToken :: "(bytes \<Rightarrow> bytes) \<Rightarrow> string \<Rightarrow> bytes" where
  "HashToken sha256 token = sha256 (bytes_of token)"

definition NewToken :: "(bytes \<Rightarrow> bytes) \<Rightarrow> bytes \<Rightarrow> string \<times> bytes" where
  "NewToken sha256 raw =
     (let token = EncodeToString b64_url raw in (token, HashToken sha256 token))"

lemma NewToken_hash [simp]: "snd (NewToken sha256 raw) = HashToken sha256 (fst (NewToken sha256 raw))"
  by (simp add: NewToken_def Let_def)

lemma NewToken_inject: "fst (NewToken sha256 raw) = fst (NewToken sha256 raw') \<longleftrightarrow> raw = raw'"
  by (simp add: NewToken_def Let_def EncodeToString_inject)

subsection \<open>What may be typed\<close>

datatype text_error = TextMissing | TextInvalid | TextShort | TextLong

definition MinPasswordLength :: nat where "MinPasswordLength = 12"
definition MaxPasswordLength :: nat where "MaxPasswordLength = 128"
definition maxPasswordBytes :: nat where "maxPasswordBytes = 16 * MaxPasswordLength"
definition MaxNameLength :: nat where "MaxNameLength = 100"
definition MaxLabelLength :: nat where "MaxLabelLength = 60"
definition MaxEmailLength :: nat where "MaxEmailLength = 254"

definition CheckPassword :: "(string \<Rightarrow> string) \<Rightarrow> string \<Rightarrow> text_error + unit" where
  "CheckPassword nfkc password =
     (if length password > maxPasswordBytes then Inl TextLong
      else let n = RuneCount (nfkc password) in
        if n < MinPasswordLength then Inl TextShort
        else if n > MaxPasswordLength then Inl TextLong
        else Inr ())"

definition CheckName :: "string \<Rightarrow> text_error + string" where
  "CheckName name =
     (let name = trim_space name in
      if name = [] then Inl TextMissing
      else if \<not> ValidString name \<or> RuneCount name > MaxNameLength then Inl TextInvalid
      else if \<not> plain_text name then Inl TextInvalid
      else Inr name)"

definition CheckLabel :: "string \<Rightarrow> text_error + string" where
  "CheckLabel label =
     (let label = trim_space label in
      if \<not> ValidString label \<or> RuneCount label > MaxLabelLength then Inl TextInvalid
      else if \<not> plain_text label then Inl TextInvalid
      else Inr label)"

text \<open>\<^verbatim>\<open>net/mail.ParseAddress\<close> gives the bare address and the display name, or fails.\<close>

definition NormaliseEmail :: "(string \<Rightarrow> (string \<times> string) option) \<Rightarrow> string \<Rightarrow> text_error + string" where
  "NormaliseEmail parse address =
     (let address = trim_space address in
      if length address > MaxEmailLength then Inl TextInvalid
      else case parse address of
             None \<Rightarrow> Inl TextInvalid
           | Some (bare, display) \<Rightarrow>
               if bare \<noteq> address \<or> display \<noteq> [] then Inl TextInvalid
               else Inr (to_lower address))"

subsection \<open>Properties\<close>

text \<open>
  A typed code is accepted exactly when, spaces aside, it is the code of a step one
  either side of the current one that comes after the last step accepted for the secret;
  and the step returned is such a step. So no code is accepted twice, none older than one
  already accepted, and no right code inside the window is refused.
\<close>

theorem totp_accepts_exactly:
  "(matchTOTP hmac secret typed now lst \<noteq> None \<longleftrightarrow>
     (\<exists>step. lst < step \<and> \<bar>step - totpStep now\<bar> \<le> totpDrift \<and>
        totpCode hmac secret step = drop_spaces typed)) \<and>
   (matchTOTP hmac secret typed now lst \<in> {None} \<union>
     {Some step |step. lst < step \<and> \<bar>step - totpStep now\<bar> \<le> totpDrift \<and>
        totpCode hmac secret step = drop_spaces typed})"
proof -
  have "matchTOTP hmac secret typed now lst \<noteq> None"
    if s: "lst < step" "\<bar>step - totpStep now\<bar> \<le> totpDrift" "totpCode hmac secret step = drop_spaces typed"
    for step
  proof -
    have "step \<in> set [totpStep now - totpDrift .. totpStep now + totpDrift]"
      using s(2) by auto
    then have "find (\<lambda>step. \<not> step \<le> lst \<and> totpCode hmac secret step = drop_spaces typed)
        [totpStep now - totpDrift .. totpStep now + totpDrift] \<noteq> None"
      using s by (auto simp: find_None_iff)
    then show ?thesis
      using totpCode_shape [of hmac secret step] s(3) by (simp add: matchTOTP_def Let_def)
  qed
  then show ?thesis
    using matchTOTP_sound [of hmac secret typed now lst]
    by (cases "matchTOTP hmac secret typed now lst") auto
qed

text \<open>
  A recovery code comes back however it was copied: in any letter case, with hyphens
  and spaces dropped or added. What is looked up is the hash of the twelve symbols it was
  made of.
\<close>

theorem recovery_code_roundtrip:
  assumes "length raw = recoverySymbols"
    and "filter (\<lambda>c. c \<noteq> CHR ''-'' \<and> c \<noteq> CHR '' '') (to_lower typed) =
         filter (\<lambda>c. c \<noteq> CHR ''-'' \<and> c \<noteq> CHR '' '') (to_lower (write_code 0 raw))"
  shows "recoveryHash sha256 typed =
    Some (sha256 (bytes_of (map (\<lambda>b. recoveryAlphabet ! unat (b AND 31)) raw)))"
proof -
  have gone: "read_symbol c = []" if "\<not> (c \<noteq> CHR ''-'' \<and> c \<noteq> CHR '' '')" for c
    using that by (simp add: read_symbol_def)
  have skip: "concat (map read_symbol (filter (\<lambda>c. c \<noteq> CHR ''-'' \<and> c \<noteq> CHR '' '') s)) =
      concat (map read_symbol s)" for s
    by (induction s) (use gone in \<open>simp_all del: de_Morgan_conj\<close>)
  have "recovery_symbols typed = recovery_symbols (write_code 0 raw)"
    unfolding recovery_symbols_def
    by (subst (1 2) skip [symmetric]) (simp only: assms(2))
  then have "recovery_symbols typed = map (\<lambda>b. recoveryAlphabet ! unat (b AND 31)) raw"
    by (simp add: recovery_symbols_write_code)
  moreover have "only_of recoveryAlphabet (map (\<lambda>b. recoveryAlphabet ! unat (b AND 31)) raw)"
    by (simp add: only_of_def list_all_iff)
  ultimately show ?thesis
    using assms(1) by (simp add: recoveryHash_def Let_def)
qed

theorem recovery_code_roundtrip_witness:
  "recoveryHash (\<lambda>b. b) ''0123 4567 89AB'' =
     Some (bytes_of (map (\<lambda>b. recoveryAlphabet ! unat (b AND 31)) [0, 1, 2, 3, 4, 5, 6, 7, 8, 9, 10, 11 :: 8 word]))"
  by (rule recovery_code_roundtrip) code_simp+

text \<open>
  The six digits mailed are what is accepted back, whatever spaces are typed among
  them, and each number drawn below a million has digits of its own.
\<close>

theorem email_code_roundtrip:
  assumes "drop_spaces typed = fst (newEmailCode sha256 n)"
  shows "emailCodeHash sha256 typed = Some (snd (newEmailCode sha256 n)) \<and>
    (fst (newEmailCode sha256 m) = fst (newEmailCode sha256 n) \<longleftrightarrow> m mod 1000000 = n mod 1000000)"
proof
  have six: "fst (newEmailCode sha256 k) = padded 6 (k mod 1000000)" for k
    by (simp add: newEmailCode_def email_code_def zero_padded_def Let_def)
  then have digits: "only_of digits10 (fst (newEmailCode sha256 n))"
    by (simp add: padded_only_digits)
  have "emailCodeHash sha256 typed = emailCodeHash sha256 (fst (newEmailCode sha256 n))"
    by (simp add: emailCodeHash_def assms drop_spaces_digits [OF digits])
  then show "emailCodeHash sha256 typed = Some (snd (newEmailCode sha256 n))"
    by (simp add: emailCodeHash_new)
  show "fst (newEmailCode sha256 m) = fst (newEmailCode sha256 n) \<longleftrightarrow> m mod 1000000 = n mod 1000000"
  proof
    assume "fst (newEmailCode sha256 m) = fst (newEmailCode sha256 n)"
    then have "padded 6 (m mod 1000000) = padded 6 (n mod 1000000)" by (simp only: six)
    then have "number_of_digits (padded 6 (m mod 1000000)) = number_of_digits (padded 6 (n mod 1000000))"
      by simp
    then show "m mod 1000000 = n mod 1000000" by (simp add: padded_value)
  next
    assume "m mod 1000000 = n mod 1000000"
    then show "fst (newEmailCode sha256 m) = fst (newEmailCode sha256 n)" by (simp only: six)
  qed
qed

theorem email_code_roundtrip_witness:
  "emailCodeHash (\<lambda>b. b) ''004 217'' = Some (snd (newEmailCode (\<lambda>b. b) 4217)) \<and>
   (fst (newEmailCode (\<lambda>b. b) 4217) = fst (newEmailCode (\<lambda>b :: bytes. b) 4217) \<longleftrightarrow>
     (4217 :: nat) mod 1000000 = 4217 mod 1000000)"
proof (rule email_code_roundtrip)
  have "digit 0 = CHR ''0''" "digit 1 = CHR ''1''" "digit 2 = CHR ''2''" "digit 4 = CHR ''4''"
    "digit 7 = CHR ''7''" by code_simp+
  then show "drop_spaces ''004 217'' = fst (newEmailCode (\<lambda>b. b) 4217)"
    by (simp add: drop_spaces_def newEmailCode_def email_code_def zero_padded_def Let_def padded_numeral)
qed

end
