(* ===== verification/Password.thy ===== *)
theory Password
  imports Codes IdStore
begin

text \<open>
  Password hashing (src/internal/identity/password.go): the PHC string a hash is stored as,
  reading it back with its bounds, and hashing and verifying. argon2id itself
  (golang.org/x/crypto) and NFKC (golang.org/x/text) are parameters. The queue for a slot
  is the flag \<open>slot\<close>: whether the request got one before its context ended.

  The stored parameters are scanned by \<^verbatim>\<open>fmt.Sscanf\<close> as Go scans them: blanks before a
  number are skipped (ASCII ones), a number that does not fit its type is an error, and
  what follows the last number is not looked at.
\<close>

record params =
  Memory :: "32 word"
  Time :: "32 word"
  Threads :: "8 word"
  KeyLen :: "32 word"
  SaltLen :: "32 word"

definition Floor :: params where
  "Floor = \<lparr>Memory = 19456, Time = 2, Threads = 1, KeyLen = 32, SaltLen = 16\<rparr>"

definition Current :: params where
  "Current = \<lparr>Memory = 65536, Time = 3, Threads = 1, KeyLen = 32, SaltLen = 16\<rparr>"

definition maxEncodedLen :: nat where "maxEncodedLen = 1024"
definition maxMemoryKiB :: "32 word" where "maxMemoryKiB = 262144"
definition maxTime :: "32 word" where "maxTime = 10"

type_synonym kdf = "bytes \<Rightarrow> bytes \<Rightarrow> 32 word \<Rightarrow> 32 word \<Rightarrow> 8 word \<Rightarrow> 32 word \<Rightarrow> bytes"

record hasher =
  h_params :: params
  h_nfkc :: "string \<Rightarrow> string"
  h_argon2 :: kdf

subsection \<open>The PHC string\<close>

definition phc :: "params \<Rightarrow> bytes \<Rightarrow> bytes \<Rightarrow> string" where
  "phc p salt key = ''$argon2id$v=19$m='' @ dec (unat (Memory p)) @ '',t='' @ dec (unat (Time p)) @
     '',p='' @ dec (unat (Threads p)) @ ''$'' @ EncodeToString b64_std salt @ ''$'' @
     EncodeToString b64_std key"

definition encode :: "hasher \<Rightarrow> bytes \<Rightarrow> bytes \<Rightarrow> string" where
  "encode h salt password =
     (let p = h_params h;
          key = h_argon2 h password salt (Time p) (Memory p) (Threads p) (KeyLen p)
      in phc p salt key)"

text \<open>\<^verbatim>\<open>fmt.Sscanf\<close>: a literal, and a number of a width in bits.\<close>

fun literal :: "string \<Rightarrow> string \<Rightarrow> string option" where
  "literal [] s = Some s"
| "literal (c # cs) [] = None"
| "literal (c # cs) (d # s) = (if c = d then literal cs s else None)"

definition blank :: "char \<Rightarrow> bool" where
  "blank c = (c \<in> set [CHR '' '', CHR 0x09, CHR 0x0B, CHR 0x0C, CHR 0x0D])"

definition scan_uint :: "nat \<Rightarrow> string \<Rightarrow> (nat \<times> string) option" where
  "scan_uint bits s =
     (let s = dropWhile blank s; ds = takeWhile is_digit s; n = number_of_digits ds in
      if ds = [] \<or> n \<ge> 2 ^ bits then None else Some (n, dropWhile is_digit s))"

definition scan_costs :: "string \<Rightarrow> (nat \<times> nat \<times> nat) option" where
  "scan_costs s =
     Option.bind (literal ''m='' s) (\<lambda>s. Option.bind (scan_uint 32 s) (\<lambda>(m, s).
     Option.bind (literal '',t='' s) (\<lambda>s. Option.bind (scan_uint 32 s) (\<lambda>(t, s).
     Option.bind (literal '',p='' s) (\<lambda>s. Option.bind (scan_uint 8 s) (\<lambda>(p, s).
       Some (m, t, p)))))))"

definition decode :: "string \<Rightarrow> (params \<times> bytes \<times> bytes) option" where
  "decode encoded =
     (let parts = split_at CHR ''$'' encoded in
      if length parts \<noteq> 6 \<or> parts ! 1 \<noteq> ''argon2id'' \<or> parts ! 2 \<noteq> ''v=19'' then None
      else case scan_costs (parts ! 3) of
        None \<Rightarrow> None
      | Some (m, t, p) \<Rightarrow>
          let memory = word_of_nat m :: 32 word; time = word_of_nat t :: 32 word;
              threads = word_of_nat p :: 8 word in
          if memory < 1 \<or> memory > maxMemoryKiB \<or> time < 1 \<or> time > maxTime \<or> threads < 1 then None
          else case DecodeString b64_std (parts ! 4) of
            None \<Rightarrow> None
          | Some salt \<Rightarrow>
              (case DecodeString b64_std (parts ! 5) of
                None \<Rightarrow> None
              | Some key \<Rightarrow>
                  if length salt < 1 \<or> length salt > maxEncodedLen \<or>
                     length key < 1 \<or> length key > maxEncodedLen then None
                  else Some (\<lparr>Memory = memory, Time = time, Threads = threads,
                               KeyLen = word_of_nat (length key),
                               SaltLen = word_of_nat (length salt)\<rparr>, salt, key)))"

subsection \<open>Hashing and verifying\<close>

definition Hash :: "hasher \<Rightarrow> bool \<Rightarrow> bytes \<Rightarrow> string \<Rightarrow> id_error + string" where
  "Hash h slot salt password =
     (if \<not> slot then Inl ErrContext else Inr (encode h salt (bytes_of (h_nfkc h password))))"

text \<open>Whether the password matches, and whether the hash was made with other parameters.\<close>

definition VerifyPassword :: "hasher \<Rightarrow> bool \<Rightarrow> string \<Rightarrow> string \<Rightarrow> id_error + bool \<times> bool" where
  "VerifyPassword h slot password encoded =
     (case decode encoded of
        None \<Rightarrow> Inl ErrNotPHC
      | Some (p, salt, key) \<Rightarrow>
          if \<not> slot then Inl ErrContext
          else let got = h_argon2 h (bytes_of (h_nfkc h password)) salt (Time p) (Memory p)
                           (Threads p) (KeyLen p)
               in Inr (got = key, p \<noteq> h_params h))"

subsection \<open>Reading back what was written\<close>

lemma literal_append [simp]: "literal cs (cs @ s) = Some s"
  by (induction cs) auto

lemma digit_not_blank: "is_digit c \<Longrightarrow> \<not> blank c"
  by (auto simp: is_digit_iff blank_def digits10_def)

lemma scan_uint_dec:
  assumes "n < 2 ^ bits" and "s = [] \<or> \<not> is_digit (hd s)"
  shows "scan_uint bits (dec n @ s) = Some (n, s)"
proof -
  have "\<not> blank (hd (dec n @ s))"
    using dec_digits [of n] by (cases "dec n") (auto simp: digit_not_blank)
  then have "dropWhile blank (dec n @ s) = dec n @ s"
    by (cases "dec n @ s") simp_all
  moreover have "takeWhile is_digit (dec n @ s) = dec n" "dropWhile is_digit (dec n @ s) = s"
    using dec_digits [of n] assms(2)
    by (auto simp: takeWhile_append2 dropWhile_append2 list_all_iff takeWhile_eq_Nil_iff
        dropWhile_eq_self_iff)
  ultimately show ?thesis using assms(1) by (simp add: scan_uint_def Let_def)
qed

lemma comma_not_digit [simp]: "\<not> is_digit CHR '',''"
  by (simp add: is_digit_iff digits10_def)

lemma scan_costs_written:
  assumes "m < 2 ^ 32" "t < 2 ^ 32" "p < 2 ^ 8"
  shows "scan_costs (''m='' @ dec m @ '',t='' @ dec t @ '',p='' @ dec p) = Some (m, t, p)"
proof -
  have 1: "scan_uint 32 (dec m @ '',t='' @ dec t @ '',p='' @ dec p) = Some (m, '',t='' @ dec t @ '',p='' @ dec p)"
    using assms by (intro scan_uint_dec) simp_all
  have 2: "scan_uint 32 (dec t @ '',p='' @ dec p) = Some (t, '',p='' @ dec p)"
    using assms by (intro scan_uint_dec) simp_all
  have 3: "scan_uint 8 (dec p) = Some (p, [])"
    using scan_uint_dec [of p 8 "[]"] assms by simp
  show ?thesis
    unfolding scan_costs_def literal_append Option.bind.bind_lunit 1 2 3 prod.case ..
qed

lemma dollar_free:
  "CHR ''$'' \<notin> set (dec n)" "CHR ''$'' \<notin> set (EncodeToString b64_std bs)"
proof -
  show "CHR ''$'' \<notin> set (dec n)"
  proof -
    have "CHR ''$'' \<notin> set digits10" by (simp add: digits10_def)
    then show ?thesis using dec_digits [of n] unfolding list_all_iff is_digit_iff by blast
  qed
  have "CHR ''$'' \<notin> set b64_std" by (simp add: b64_std_def)
  then show "CHR ''$'' \<notin> set (EncodeToString b64_std bs)"
    using EncodeToString_set [OF alphabet_ok_std, of bs] by blast
qed

lemma split_phc:
  "split_at CHR ''$'' (phc p salt key) =
     ['''', ''argon2id'', ''v=19'',
      ''m='' @ dec (unat (Memory p)) @ '',t='' @ dec (unat (Time p)) @ '',p='' @ dec (unat (Threads p)),
      EncodeToString b64_std salt, EncodeToString b64_std key]"
proof -
  let ?costs = "''m='' @ dec (unat (Memory p)) @ '',t='' @ dec (unat (Time p)) @ '',p='' @ dec (unat (Threads p))"
  have costs: "CHR ''$'' \<notin> set ?costs" by (simp add: dollar_free)
  have "phc p salt key = [] @ CHR ''$'' # ''argon2id'' @ CHR ''$'' # ''v=19'' @ CHR ''$'' # ?costs @
      CHR ''$'' # EncodeToString b64_std salt @ CHR ''$'' # EncodeToString b64_std key"
    by (simp add: phc_def)
  then show ?thesis
    by (simp only:) (subst split_at_append | subst split_at_no_sep | simp add: dollar_free costs del: append.simps split_at.simps)+
qed

lemma one_le_word: "1 \<le> (w :: 'w :: len word) \<longleftrightarrow> w \<noteq> 0"
  by (simp add: linorder_not_less [symmetric])

text \<open>Parameters a hash may be made with, so that it can be read back.\<close>

definition params_ok :: "params \<Rightarrow> bool" where
  "params_ok p \<longleftrightarrow> 1 \<le> Memory p \<and> Memory p \<le> maxMemoryKiB \<and> 1 \<le> Time p \<and> Time p \<le> maxTime \<and>
     1 \<le> Threads p \<and> 1 \<le> unat (SaltLen p) \<and> unat (SaltLen p) \<le> maxEncodedLen \<and>
     1 \<le> unat (KeyLen p) \<and> unat (KeyLen p) \<le> maxEncodedLen"

lemma decode_phc:
  assumes "params_ok p" "length salt = unat (SaltLen p)" "length key = unat (KeyLen p)"
  shows "decode (phc p salt key) = Some (p, salt, key)"
proof -
  have fits: "unat (Memory p) < 2 ^ 32" "unat (Time p) < 2 ^ 32" "unat (Threads p) < 2 ^ 8"
    using unsigned_less [where 'b = 32 and w = "Memory p" and 'a = nat]
      unsigned_less [where 'b = 32 and w = "Time p" and 'a = nat]
      unsigned_less [where 'b = 8 and w = "Threads p" and 'a = nat] by simp_all
  show ?thesis
    using assms by (simp add: decode_def Let_def split_phc scan_costs_written [OF fits, simplified]
        params_ok_def not_less not_le one_le_word)
qed

lemma decode_ok:
  assumes "decode s = Some (p, salt, key)"
  shows "params_ok p" "length salt = unat (SaltLen p)" "length key = unat (KeyLen p)"
proof -
  have small: "unat (word_of_nat (length bs) :: 32 word) = length bs" if "length bs \<le> maxEncodedLen"
    for bs :: bytes
    using that by (simp add: unat_of_nat take_bit_eq_mod maxEncodedLen_def)
  have *: "params_ok p \<and> length salt = unat (SaltLen p) \<and> length key = unat (KeyLen p)"
    using assms
    by (auto simp: decode_def Let_def params_ok_def small not_less not_le Suc_le_eq one_le_word
        split: if_splits option.splits prod.splits)
  then show "params_ok p" "length salt = unat (SaltLen p)" "length key = unat (KeyLen p)" by auto
qed

subsection \<open>Properties\<close>

text \<open>
  A stored password hash reads back to exactly the parameters, salt and key it was
  made with, when the parameters are ones a hash may be made with.
\<close>

theorem phc_roundtrip:
  assumes "params_ok p" "length salt = unat (SaltLen p)" "length key = unat (KeyLen p)"
  shows "decode (phc p salt key) = Some (p, salt, key)"
  using assms by (rule decode_phc)

theorem phc_roundtrip_witness:
  "decode (phc \<lparr>Memory = 19456, Time = 2, Threads = 1, KeyLen = 2, SaltLen = 3\<rparr> [1, 2, 255] [0, 7]) =
     Some (\<lparr>Memory = 19456, Time = 2, Threads = 1, KeyLen = 2, SaltLen = 3\<rparr>, [1, 2, 255], [0, 7])"
  by (rule phc_roundtrip) (simp_all add: params_ok_def maxMemoryKiB_def maxTime_def maxEncodedLen_def)

text \<open>
  Whatever string the database holds, what is handed to argon2 is inside the bounds:
  at most 256 MiB and ten passes, at least one pass and one lane (argon2 panics on none),
  salt and key between 1 and 1024 bytes and as long as the lengths say. A string outside
  them is refused before any work.
\<close>

theorem stored_hash_is_bounded:
  "case decode encoded of
     None \<Rightarrow> VerifyPassword h slot password encoded = Inl ErrNotPHC
   | Some (p, salt, key) \<Rightarrow>
       0 < Memory p \<and> Memory p \<le> 262144 \<and> 0 < Time p \<and> Time p \<le> 10 \<and> 0 < Threads p \<and>
       length salt \<in> {1..1024} \<and> length key \<in> {1..1024} \<and>
       length salt = unat (SaltLen p) \<and> length key = unat (KeyLen p)"
proof (cases "decode encoded")
  case None
  then show ?thesis by (simp add: VerifyPassword_def)
next
  case (Some r)
  obtain p salt key where r: "r = (p, salt, key)" by (cases r)
  show ?thesis
    using decode_ok [OF Some [unfolded r]]
    by (simp add: Some r params_ok_def maxMemoryKiB_def maxTime_def maxEncodedLen_def one_le_word
        word_gt_0)
qed

text \<open>
  Verifying against a fresh hash accepts exactly the passwords that derive the same
  key: the password hashed is accepted, another is accepted only when argon2 collides on
  the two after normalisation, and the hash is never reported as made with other
  parameters.
\<close>

theorem verify_after_hash:
  assumes "params_ok (h_params h)"
    and "length salt = unat (SaltLen (h_params h))"
    and "\<And>pw s t m p n. length (h_argon2 h pw s t m p n) = unat n"
    and "Hash h True salt password = Inr encoded"
  shows "VerifyPassword h True other encoded = Inr
    (let p = h_params h; k = \<lambda>pw. h_argon2 h (bytes_of (h_nfkc h pw)) salt (Time p) (Memory p)
           (Threads p) (KeyLen p)
     in k other = k password, False)"
proof -
  let ?p = "h_params h"
  have "encoded = phc ?p salt (h_argon2 h (bytes_of (h_nfkc h password)) salt (Time ?p) (Memory ?p)
      (Threads ?p) (KeyLen ?p))"
    using assms(4) by (simp add: Hash_def encode_def Let_def)
  then show ?thesis
    by (simp add: VerifyPassword_def decode_phc assms(1-3) Let_def)
qed

definition plain_kdf :: kdf where
  "plain_kdf pw salt t m p n = take (unat n) (pw @ replicate (unat n) 0)"

definition plain_hasher :: hasher where
  "plain_hasher = \<lparr>h_params = \<lparr>Memory = 64, Time = 1, Threads = 1, KeyLen = 4, SaltLen = 2\<rparr>,
     h_nfkc = (\<lambda>s. s), h_argon2 = plain_kdf\<rparr>"

theorem verify_after_hash_witness:
  "VerifyPassword plain_hasher True ''horse''
     (encode plain_hasher [1, 2] (bytes_of ''correct'')) = Inr (False, False)"
proof -
  have "VerifyPassword plain_hasher True ''horse''
      (encode plain_hasher [1, 2] (bytes_of (h_nfkc plain_hasher ''correct''))) = Inr
    (let p = h_params plain_hasher; k = \<lambda>pw. h_argon2 plain_hasher (bytes_of (h_nfkc plain_hasher pw))
           [1, 2] (Time p) (Memory p) (Threads p) (KeyLen p)
     in k ''horse'' = k ''correct'', False)"
    by (rule verify_after_hash)
      (simp_all add: plain_hasher_def plain_kdf_def params_ok_def maxMemoryKiB_def maxTime_def
        maxEncodedLen_def Hash_def)
  moreover have "take 4 (bytes_of ''horse'' @ replicate 4 0) \<noteq> take 4 (bytes_of ''correct'' @ replicate 4 0)"
    by (simp add: bytes_of_def numeral_eq_Suc)
  ultimately show ?thesis
    by (simp add: plain_hasher_def plain_kdf_def Let_def)
qed

end
