(* ===== verification/AuditChain.thy ===== *)
theory AuditChain
  imports AuditLog
begin

text \<open>
  What the audit log guarantees. Verification in batches is the walk over the whole chain
  and always ends; an intact log stays intact under every operation and verifies; what a
  digest covers determines the record; destroying a key takes what it sealed out of reach
  and nothing else. \<open>auditor\<close> is the interface the identity flows append through, and the
  log is an instance of it.
\<close>

subsection \<open>Batches\<close>

lemma rows_after_mono:
  "aft \<le> aft' \<Longrightarrow> rows_after d chain aft' = filter (\<lambda>l. l_sequence l > aft') (rows_after d chain aft)"
  unfolding rows_after_def filter_sort by (auto intro!: arg_cong [where f = "sort_key l_sequence"] filter_cong)

lemma rows_after_in: "l \<in> set (rows_after d chain aft) \<Longrightarrow> l_sequence l > aft"
  by (auto simp: rows_after_def)

lemma read_batch_last:
  assumes "read_batch d chain aft verifyBatch \<noteq> []"
  shows "\<exists>l \<in> set (rows_after d chain aft).
    rec_sequence (last (read_batch d chain aft verifyBatch)) = l_sequence l \<and>
    l = last (take verifyBatch (rows_after d chain aft))"
proof -
  have ne: "take verifyBatch (rows_after d chain aft) \<noteq> []"
    using assms by (simp add: read_batch_def)
  have "last (take verifyBatch (rows_after d chain aft)) \<in> set (rows_after d chain aft)"
    by (meson in_set_takeD last_in_set ne)
  then show ?thesis
    using ne by (auto simp: read_batch_def last_map read_record_def)
qed

lemma batch_progress:
  assumes "read_batch d chain aft verifyBatch \<noteq> []"
  shows "length (rows_after d chain (rec_sequence (last (read_batch d chain aft verifyBatch)))) <
    length (rows_after d chain aft)"
proof -
  obtain l where l: "l \<in> set (rows_after d chain aft)"
    and seq: "rec_sequence (last (read_batch d chain aft verifyBatch)) = l_sequence l"
    using read_batch_last [OF assms] by blast
  have "aft \<le> l_sequence l" using rows_after_in [OF l] by simp
  then have "rows_after d chain (l_sequence l) =
      filter (\<lambda>m. l_sequence m > l_sequence l) (rows_after d chain aft)"
    by (rule rows_after_mono)
  then show ?thesis
    unfolding seq using l by (simp add: length_filter_less)
qed

lemma verify_batches_total:
  "length (rows_after d chain aft) < fuel \<Longrightarrow> \<exists>r. verify_batches fuel W d chain previous aft = Some r"
proof (induction fuel arbitrary: previous aft)
  case (Suc fuel)
  let ?batch = "read_batch d chain aft verifyBatch"
  show ?case
  proof (cases "?batch = []")
    case False
    then have "length (rows_after d chain (rec_sequence (last ?batch))) < fuel"
      using batch_progress [of d chain aft] Suc.prems by simp
    then obtain r where "verify_batches fuel W d chain (rec_hash (last ?batch)) (rec_sequence (last ?batch)) = Some r"
      using Suc.IH by blast
    then show ?thesis using False by (simp add: Let_def)
  qed (simp add: Let_def)
qed simp

lemma length_rows_after: "length (rows_after d chain aft) \<le> length (log d)"
  by (simp add: rows_after_def)

lemma walk_append:
  "walk W p (xs @ ys) = walk W p xs @ walk W (if xs = [] then p else rec_hash (last xs)) ys"
  by (induction xs arbitrary: p) auto

lemma strict_tail:
  assumes "sorted_wrt (\<lambda>x y. f x < f y) xs" and "take n xs \<noteq> []"
  shows "filter (\<lambda>x. f x > (f (last (take n xs)) :: int)) xs = drop n xs"
proof -
  obtain ys y where t: "take n xs = ys @ [y]" using assms(2) by (metis rev_exhaust)
  have "sorted_wrt (\<lambda>x y. f x < f y) ((ys @ [y]) @ drop n xs)"
    using assms(1) by (simp only: append_take_drop_id flip: t)
  then have below: "\<forall>x \<in> set ys. f x < f y" and above: "\<forall>x \<in> set (drop n xs). f y < f x"
    by (auto simp: sorted_wrt_append)
  have "filter (\<lambda>x. f x > f y) ((ys @ [y]) @ drop n xs) = drop n xs"
    using below above by (auto simp: filter_empty_conv)
  then show ?thesis by (simp only: last_snoc t) (simp only: append_take_drop_id flip: t)
qed

text \<open>One record per place in a chain: the unique key of \<^verbatim>\<open>audit_log\<close>.\<close>

definition one_per_place :: "audit_db \<Rightarrow> bool" where
  "one_per_place d \<longleftrightarrow> distinct (map (\<lambda>l. (l_scope l, l_sequence l)) (log d))"

lemma rows_after_strict:
  assumes "one_per_place d"
  shows "sorted_wrt (\<lambda>x y. l_sequence x < l_sequence y) (rows_after d chain aft)"
proof -
  let ?f = "filter (\<lambda>l. l_scope l = nullif chain \<and> l_sequence l > aft) (log d)"
  have "distinct (map (\<lambda>l. (l_scope l, l_sequence l)) ?f)"
    using assms unfolding one_per_place_def by (rule distinct_map_filter)
  then have d: "distinct (map l_sequence ?f)"
    by (auto simp: distinct_map inj_on_def)
  then have "distinct (map l_sequence (rows_after d chain aft))"
    unfolding rows_after_def by (simp add: distinct_map)
  moreover have "sorted (map l_sequence (rows_after d chain aft))"
    unfolding rows_after_def by simp
  ultimately have "sorted_wrt (<) (map l_sequence (rows_after d chain aft))"
    by (simp add: strict_sorted_iff)
  then show ?thesis by (simp add: sorted_wrt_map)
qed

lemma verify_batches_walk:
  "one_per_place d \<Longrightarrow> length (rows_after d chain aft) < fuel \<Longrightarrow>
    verify_batches fuel W d chain previous aft =
      Some (length (rows_after d chain aft), walk W previous (map (read_record chain) (rows_after d chain aft)))"
proof (induction fuel arbitrary: previous aft)
  case (Suc fuel)
  let ?rows = "rows_after d chain aft"
  let ?batch = "read_batch d chain aft verifyBatch"
  show ?case
  proof (cases "?batch = []")
    case True
    then have "?rows = []" by (simp add: read_batch_def verifyBatch_def)
    then show ?thesis using True by simp
  next
    case False
    then obtain l where l: "l \<in> set ?rows" "rec_sequence (last ?batch) = l_sequence l"
      "l = last (take verifyBatch ?rows)"
      using read_batch_last [of d chain aft] by blast
    have "aft \<le> l_sequence l" using rows_after_in [OF l(1)] by simp
    then have "rows_after d chain (l_sequence l) = filter (\<lambda>m. l_sequence m > l_sequence l) ?rows"
      by (rule rows_after_mono)
    also have "\<dots> = drop verifyBatch ?rows"
      unfolding l(3) using False
      by (intro strict_tail [OF rows_after_strict [OF Suc.prems(1)]]) (simp add: read_batch_def)
    finally have rest: "rows_after d chain (rec_sequence (last ?batch)) = drop verifyBatch ?rows"
      by (simp add: l(2))
    have "length (rows_after d chain (rec_sequence (last ?batch))) < fuel"
      using batch_progress [OF False] Suc.prems by simp
    then have "verify_batches fuel W d chain (rec_hash (last ?batch)) (rec_sequence (last ?batch)) =
        Some (length (drop verifyBatch ?rows),
          walk W (rec_hash (last ?batch)) (map (read_record chain) (drop verifyBatch ?rows)))"
      using Suc.IH [OF Suc.prems(1)] rest by simp
    moreover have "walk W previous (map (read_record chain) ?rows) = walk W previous ?batch @
        walk W (rec_hash (last ?batch)) (map (read_record chain) (drop verifyBatch ?rows))"
    proof -
      have "map (read_record chain) ?rows = ?batch @ map (read_record chain) (drop verifyBatch ?rows)"
        unfolding read_batch_def by (simp flip: map_append)
      then show ?thesis using False by (simp only: walk_append if_False)
    qed
    moreover have "length ?rows = length ?batch + length (drop verifyBatch ?rows)"
      by (simp add: read_batch_def)
    ultimately show ?thesis
      using False by (simp only: verify_batches.simps Let_def if_False option.map prod.case)
  qed
qed simp

lemma verify_chain_walk:
  "one_per_place d \<Longrightarrow> verify_chain W d chain =
    Some (length (rows_after d chain 0), walk W Genesis (map (read_record chain) (rows_after d chain 0)))"
  unfolding verify_chain_def using length_rows_after [of d chain 0]
  by (intro verify_batches_walk) (simp_all add: le_imp_less_Suc)

subsection \<open>What an operation leaves alone\<close>

definition same_log :: "audit_db \<Rightarrow> audit_db \<Rightarrow> bool" where
  "same_log d d' \<longleftrightarrow> log d' = log d \<and> chains d' = chains d"

interpretation same_log: frame same_log
  by unfold_locales (auto simp: same_log_def)

lemma roll_same_log: "keeps same_log (roll W n)" and clock_same_log: "keeps same_log (clock W)"
  by (rule keepsI, auto simp: tx_simps same_log_def)+

lemma read_key_same_log: "keeps same_log (read_key user)"
  unfolding read_key_def by (intro same_log.keeps_rules)

lemma create_key_same_log: "keeps same_log (create_key W user)"
  unfolding create_key_def
  by (intro same_log.keeps_rules roll_same_log read_key_same_log same_log.keeps_writes)
    (simp add: same_log_def)

lemma open_key_same_log: "keeps same_log (open_key W user)"
  unfolding open_key_def
  by (intro same_log.keeps_rules read_key_same_log create_key_same_log)

lemma Seal_same_log: "keeps same_log (Seal W key plaintext)"
  unfolding Seal_def by (intro same_log.keeps_rules roll_same_log)

lemma seal_part_same_log: "keeps same_log (seal_part W user content carries)"
  unfolding seal_part_def by (intro same_log.keeps_rules open_key_same_log Seal_same_log)

lemma SealFor_same_log: "keeps same_log (SealFor W person plaintext)"
  unfolding SealFor_def by (intro same_log.keeps_rules open_key_same_log Seal_same_log)

lemma OpenFor_same_log: "keeps same_log (OpenFor W person sealed)"
  unfolding OpenFor_def by (intro same_log.keeps_rules open_key_same_log)

lemma Destroy_same_log: "keeps same_log (Destroy W user)"
  unfolding Destroy_def
  by (intro same_log.keeps_rules clock_same_log same_log.keeps_writes) (simp add: same_log_def)

lemma open_part_same_log: "keeps same_log (open_part W user sealed)"
proof (rule keepsI)
  fix d x d' assume "open_part W user sealed d = Inr (x, d')"
  then show "same_log d d'"
    using keepsD [OF open_key_same_log, of W "coalesce user" d]
    by (auto simp: open_part_def same_log.R_refl split: if_splits sum.splits prod.splits)
qed

lemma OpenRecord_same_log: "keeps same_log (OpenRecord W sc marketplace n)"
  unfolding OpenRecord_def by (intro same_log.keeps_rules open_part_same_log)

subsection \<open>The head of a chain, and appending to it\<close>

definition head_of :: "audit_db \<Rightarrow> scope \<Rightarrow> bytes \<times> int" where
  "head_of d sc = (case find (\<lambda>c. c_scope c = sc) (chains d) of
     None \<Rightarrow> (Genesis, 0) | Some c \<Rightarrow> (c_last c, c_length c))"

lemma find_append: "find P (xs @ ys) = (case find P xs of None \<Rightarrow> find P ys | Some x \<Rightarrow> Some x)"
  by (induction xs) auto

lemma find_update_where:
  "find (\<lambda>r. k r = v) (update_where (\<lambda>r. k r = u) h rows) =
     (if v = u then map_option h (find (\<lambda>r. k r = v) rows) else find (\<lambda>r. k r = v) rows)"
  if "\<And>r. k (h r) = k r"
  by (induction rows) (auto simp: update_where_def that)

lemma head_effect:
  assumes "head sc marketplace d = Inr (r, d')"
  shows "nullif marketplace = sc \<and> r = head_of d sc \<and> log d' = log d \<and>
    (\<forall>sc'. head_of d' sc' = head_of d sc') \<and> sc \<in> c_scope ` set (chains d') \<and>
    set (map c_scope (chains d')) = insert sc (set (map c_scope (chains d))) \<and>
    (distinct (map c_scope (chains d)) \<longrightarrow> distinct (map c_scope (chains d')))"
proof (cases "sc \<in> c_scope ` set (chains d)")
  case True
  then have "find (\<lambda>c. c_scope c = sc) (chains d) \<noteq> None" by (auto simp: find_None_iff)
  then show ?thesis
    using assms True by (auto simp: head_def head_of_def tx_simps split: if_splits option.splits)
next
  case False
  then have "find (\<lambda>c. c_scope c = sc) (chains d) = None" by (auto simp: find_None_iff)
  then show ?thesis
    using assms False
    by (auto simp: head_def head_of_def tx_simps find_append split: if_splits option.splits)
qed

lemma head_of_advance:
  assumes "sc \<in> c_scope ` set (chains d)"
  shows "head_of (d\<lparr>log := l, chains := update_where (\<lambda>c. c_scope c = sc)
      (\<lambda>c. c\<lparr>c_last := h, c_length := n\<rparr>) (chains d)\<rparr>) sc' =
    (if sc' = sc then (h, n) else head_of d sc')"
proof -
  have "find (\<lambda>c. c_scope c = sc) (chains d) \<noteq> None" using assms by (auto simp: find_None_iff)
  then show ?thesis
    by (auto simp: head_of_def find_update_where split: option.splits)
qed

text \<open>Everything an append changes, besides keys and ticks.\<close>

lemma Append_effect:
  assumes "Append W sc e d = Inr (u, d')"
  shows "\<exists>at aS sS. let w = written W e (fst (head_of d sc)) (snd (head_of d sc)) at aS sS in
    valid e \<and> nullif (e_marketplace e) = sc \<and> log d' = log d @ [row_of e w] \<and>
    log_row_ok (row_of e w) d \<and>
    (\<forall>sc'. head_of d' sc' = (if sc' = sc then (rec_hash w, rec_sequence w) else head_of d sc')) \<and>
    (distinct (map c_scope (chains d)) \<longrightarrow> distinct (map c_scope (chains d')))"
proof -
  obtain aS d1 sS d2 p n d3 at d4 where ok: "valid e"
    and s1: "seal_part W (actorKey e) (origin_json (e_from e)) (e_from e \<noteq> []) d = Inr (aS, d1)"
    and s2: "seal_part W (keyFor e) (state_json (e_before e) (e_after e))
        (e_before e \<noteq> [] \<or> e_after e \<noteq> []) d1 = Inr (sS, d2)"
    and h: "head sc (e_marketplace e) d2 = Inr ((p, n), d3)"
    and c: "clock W d3 = Inr (at, d4)"
    and i: "after (insert_record sc e (written W e p n at aS sS))
        (\<lambda>_. advance sc (rec_hash (written W e p n at aS sS)) (rec_sequence (written W e p n at aS sS))) d4 =
        Inr (u, d')"
    using assms by (auto simp: Append_def after_Inr fail_Inr Let_def split: if_splits)
  have same: "same_log d d2"
    using keepsD [OF seal_part_same_log s1] keepsD [OF seal_part_same_log s2] by (rule same_log.R_trans)
  have heads: "head_of d2 = head_of d" using same by (simp add: fun_eq_iff same_log_def head_of_def)
  note eff = head_effect [OF h]
  have d4: "d4 = d3\<lparr>ticks := Suc (ticks d3)\<rparr>" using c by (simp add: clock_Inr)
  have pn: "p = fst (head_of d sc)" "n = snd (head_of d sc)" using eff heads by (metis fst_conv snd_conv)+
  define w where "w = written W e p n at aS sS"
  have row: "log_row_ok (row_of e w) d4" and d': "d' = d4\<lparr>log := log d4 @ [row_of e w],
      chains := update_where (\<lambda>c. c_scope c = sc)
        (\<lambda>c. c\<lparr>c_last := rec_hash w, c_length := rec_sequence w\<rparr>) (chains d4)\<rparr>"
    using i by (auto simp: insert_record_def advance_def tx_simps w_def split: if_splits)
  have logs: "log d4 = log d" using eff same by (simp add: d4 same_log_def)
  have row': "log_row_ok (row_of e w) d" using row by (simp add: log_row_ok_def logs)
  have in4: "sc \<in> c_scope ` set (chains d4)" using eff by (simp add: d4)
  have hd: "head_of d' sc' = (if sc' = sc then (rec_hash w, rec_sequence w) else head_of d sc')" for sc'
  proof -
    have "head_of d' sc' = (if sc' = sc then (rec_hash w, rec_sequence w) else head_of d4 sc')"
      unfolding d' by (rule head_of_advance [OF in4])
    moreover have "head_of d4 = head_of d3" by (simp add: fun_eq_iff d4 head_of_def)
    ultimately show ?thesis using eff heads by metis
  qed
  have dist: "distinct (map c_scope (chains d'))" if "distinct (map c_scope (chains d))"
    using that eff same unfolding d' by (simp add: d4 same_log_def map_update_where)
  show ?thesis
    using ok eff row' hd dist
    by (intro exI [of _ at] exI [of _ aS] exI [of _ sS])
      (simp add: Let_def d' logs w_def flip: pn)
qed

subsection \<open>An intact log\<close>

definition rows_of :: "audit_db \<Rightarrow> scope \<Rightarrow> log_row list" where
  "rows_of d sc = filter (\<lambda>l. l_scope l = sc) (log d)"

text \<open>
  A chain is intact when its rows are numbered from one in the order they were written,
  walking them finds no break, and its head is the last hash and the number of rows.
\<close>

definition chain_intact :: "audit_world \<Rightarrow> audit_db \<Rightarrow> scope \<Rightarrow> bool" where
  "chain_intact W d sc \<longleftrightarrow>
     map l_sequence (rows_of d sc) = map (\<lambda>i. int (Suc i)) [0..<length (rows_of d sc)] \<and>
     walk W Genesis (map (read_record (coalesce sc)) (rows_of d sc)) = [] \<and>
     head_of d sc = ((if rows_of d sc = [] then Genesis else l_hash (last (rows_of d sc))),
                     int (length (rows_of d sc)))"

definition intact :: "audit_world \<Rightarrow> audit_db \<Rightarrow> bool" where
  "intact W d \<longleftrightarrow> (\<forall>sc. chain_intact W d sc) \<and> distinct (map c_scope (chains d)) \<and>
     (\<forall>l \<in> set (log d). l_scope l \<noteq> Some [])"

lemma intact_empty: "intact W empty_audit"
  by (simp add: intact_def chain_intact_def empty_audit_def rows_of_def head_of_def)

lemma intact_same_log: "same_log d d' \<Longrightarrow> intact W d \<Longrightarrow> intact W d'"
  by (simp add: intact_def chain_intact_def rows_of_def head_of_def same_log_def)

lemma digest_hash [simp]: "digest W p (w\<lparr>rec_hash := h\<rparr>) = digest W p w"
  by (simp add: digest_def preimage_def)

lemma written_fields:
  "rec_sequence (written W e p n at aS sS) = n + 1" "rec_previous (written W e p n at aS sS) = p"
  "rec_hash (written W e p n at aS sS) = digest W p (written W e p n at aS sS)"
  "rec_marketplace (written W e p n at aS sS) = e_marketplace e"
  by (simp_all add: written_def Let_def digest_def preimage_def)

lemma read_row_of:
  "nullif (e_marketplace e) = sc \<Longrightarrow> rec_marketplace w = e_marketplace e \<Longrightarrow>
    read_record (coalesce sc) (row_of e w) = w"
  by (auto simp: read_record_def row_of_def)

lemma row_of_fields [simp]:
  "l_scope (row_of e w) = nullif (e_marketplace e)" "l_sequence (row_of e w) = rec_sequence w"
  "l_hash (row_of e w) = rec_hash w"
  by (simp_all add: row_of_def)

lemma intact_Append:
  assumes "intact W d" and "Append W sc e d = Inr (u, d')"
  shows "intact W d'"
proof -
  obtain at aS sS where eff: "let w = written W e (fst (head_of d sc)) (snd (head_of d sc)) at aS sS in
    valid e \<and> nullif (e_marketplace e) = sc \<and> log d' = log d @ [row_of e w] \<and>
    log_row_ok (row_of e w) d \<and>
    (\<forall>sc'. head_of d' sc' = (if sc' = sc then (rec_hash w, rec_sequence w) else head_of d sc')) \<and>
    (distinct (map c_scope (chains d)) \<longrightarrow> distinct (map c_scope (chains d')))"
    using Append_effect [OF assms(2)] by blast
  define w where "w = written W e (fst (head_of d sc)) (snd (head_of d sc)) at aS sS"
  have sc: "nullif (e_marketplace e) = sc" and lg: "log d' = log d @ [row_of e w]"
    and hd: "\<And>sc'. head_of d' sc' = (if sc' = sc then (rec_hash w, rec_sequence w) else head_of d sc')"
    and dist: "distinct (map c_scope (chains d'))"
    using eff assms(1) by (auto simp: Let_def w_def intact_def)
  have "chain_intact W d' sc'" for sc'
  proof (cases "sc' = sc")
    case False
    then have "rows_of d' sc' = rows_of d sc'" "head_of d' sc' = head_of d sc'"
      using sc by (auto simp: rows_of_def lg hd)
    then show ?thesis using assms(1) by (simp add: intact_def chain_intact_def)
  next
    case True
    let ?rs = "rows_of d sc"
    have ci: "chain_intact W d sc" using assms(1) by (simp add: intact_def)
    have rows: "rows_of d' sc = ?rs @ [row_of e w]" using sc by (simp add: rows_of_def lg)
    have w: "rec_previous w = fst (head_of d sc)" "rec_sequence w = int (Suc (length ?rs))"
      "rec_hash w = digest W (fst (head_of d sc)) w" "rec_marketplace w = e_marketplace e"
      using ci by (simp_all add: w_def written_fields chain_intact_def)
    have last: "fst (head_of d sc) = (if ?rs = [] then Genesis else l_hash (last ?rs))"
      using ci by (simp add: chain_intact_def)
    have "walk W Genesis (map (read_record (coalesce sc)) (?rs @ [row_of e w])) = []"
    proof -
      have "walk W (fst (head_of d sc)) [w] = []" using w(1,3) by simp
      moreover have "(if map (read_record (coalesce sc)) ?rs = [] then Genesis
          else rec_hash (last (map (read_record (coalesce sc)) ?rs))) = fst (head_of d sc)"
        by (simp add: last last_map read_record_def)
      ultimately show ?thesis
        using ci read_row_of [OF sc w(4)] by (simp only: map_append walk_append list.map chain_intact_def) simp
    qed
    then show ?thesis
      using ci True by (simp add: chain_intact_def rows hd w(2))
  qed
  moreover have "\<forall>l \<in> set (log d'). l_scope l \<noteq> Some []"
    using assms(1) by (auto simp: lg intact_def nullif_def)
  ultimately show ?thesis using dist by (simp add: intact_def)
qed

lemma intact_one_per_place:
  assumes "intact W d"
  shows "one_per_place d"
proof -
  have seqs: "distinct (map l_sequence (rows_of d sc))" for sc
    using assms by (simp add: intact_def chain_intact_def distinct_map inj_on_def)
  have key: "distinct (map (\<lambda>l. (l_scope l, l_sequence l)) ls)"
    if "\<And>sc. distinct (map l_sequence (filter (\<lambda>l. l_scope l = sc) ls))" for ls
    using that
  proof (induction ls)
    case (Cons a ls)
    have "distinct (map l_sequence (filter (\<lambda>l. l_scope l = sc) ls))" for sc
      using Cons.prems [of sc] by (auto split: if_splits)
    moreover have "(l_scope a, l_sequence a) \<notin> (\<lambda>l. (l_scope l, l_sequence l)) ` set ls"
      using Cons.prems [of "l_scope a"] by auto
    ultimately show ?case using Cons.IH by simp
  qed simp
  show ?thesis
    unfolding one_per_place_def by (rule key) (use seqs in \<open>simp add: rows_of_def\<close>)
qed

lemma sort_sequences:
  assumes "map l_sequence ls = map (\<lambda>i. int (Suc i)) [0..<length ls]"
  shows "sort_key l_sequence ls = ls"
proof -
  have "sorted (map l_sequence ls)" unfolding assms by (simp add: sorted_iff_nth_mono)
  then show ?thesis by (rule sort_key_id_if_sorted)
qed

text \<open>What verification looks at: the rows, and never the head (\<open>audit_chain.last_hash\<close>, \<open>length\<close>).\<close>

definition verifiable :: "audit_world \<Rightarrow> audit_db \<Rightarrow> bool" where
  "verifiable W d \<longleftrightarrow> one_per_place d \<and> (\<forall>sc.
     map l_sequence (rows_of d sc) = map (\<lambda>i. int (Suc i)) [0..<length (rows_of d sc)] \<and>
     walk W Genesis (map (read_record (coalesce sc)) (rows_of d sc)) = [])"

lemma intact_verifiable: "intact W d \<Longrightarrow> verifiable W d"
  using intact_one_per_place by (auto simp: verifiable_def intact_def chain_intact_def)

lemma verifiable_rows:
  assumes "verifiable W d"
  shows "rows_after d chain 0 = rows_of d (nullif chain)"
proof -
  let ?rs = "rows_of d (nullif chain)"
  have seqs: "map l_sequence ?rs = map (\<lambda>i. int (Suc i)) [0..<length ?rs]"
    using assms by (simp add: verifiable_def)
  have "filter (\<lambda>l. l_sequence l > 0) ?rs = ?rs"
  proof (rule filter_True, rule ballI)
    fix l assume "l \<in> set ?rs"
    then have "l_sequence l \<in> set (map l_sequence ?rs)" by simp
    then show "l_sequence l > 0" unfolding seqs by auto
  qed
  moreover have "filter (\<lambda>l. l_scope l = nullif chain \<and> l_sequence l > 0) (log d) =
      filter (\<lambda>l. l_sequence l > 0) ?rs"
    by (simp add: rows_of_def conj_commute)
  ultimately show ?thesis unfolding rows_after_def by (simp add: sort_sequences [OF seqs])
qed

lemma verifiable_verifies:
  assumes "verifiable W d"
  shows "\<exists>n. VerifyLog W d = Some \<lparr>Chains = length (chains d), Records = n, Breaks = []\<rparr>"
proof -
  have one: "verify_chain W d chain = Some (length (rows_of d (nullif chain)), [])" for chain
    using assms verify_chain_walk [of d W chain] verifiable_rows [OF assms, of chain]
    by (auto simp: verifiable_def dest: spec [where x = "nullif chain"])
  have "those (map (verify_chain W d) (chain_names d)) =
      Some (map (\<lambda>c. (length (rows_of d (nullif c)), [])) (chain_names d))"
    by (rule those_Some_map) (simp add: one)
  then show ?thesis
    by (simp add: VerifyLog_def comp_def concat_eq_Nil_conv chain_names_def)
qed

lemma walk_take: "walk W p rs = [] \<Longrightarrow> walk W p (take n rs) = []"
  by (induction rs arbitrary: p n) (auto simp: take_Cons split: nat.splits if_splits)

lemma filter_take: "\<exists>j. filter P (take k xs) = take j (filter P xs)"
proof -
  have "filter P xs = filter P (take k xs) @ filter P (drop k xs)"
    by (metis append_take_drop_id filter_append)
  then show ?thesis by (metis append_eq_conv_conj)
qed

text \<open>Records lost from the end leave what verification reads in order.\<close>

lemma verifiable_prefix:
  assumes "verifiable W d"
  shows "verifiable W (d\<lparr>log := take k (log d)\<rparr>)"
proof -
  have "one_per_place (d\<lparr>log := take k (log d)\<rparr>)"
    using assms by (simp add: verifiable_def one_per_place_def take_map [symmetric])
  moreover have "map l_sequence rs = map (\<lambda>i. int (Suc i)) [0..<length rs] \<and>
      walk W Genesis (map (read_record (coalesce sc)) rs) = []"
    if rs: "rs = rows_of (d\<lparr>log := take k (log d)\<rparr>) sc" for rs sc
  proof -
    obtain j where "rs = take j (rows_of d sc)"
      using filter_take [of "\<lambda>l. l_scope l = sc" k "log d"] by (auto simp: rows_of_def rs)
    moreover have "map l_sequence (take j ls) = map (\<lambda>i. int (Suc i)) [0..<length (take j ls)]"
      if "map l_sequence ls = map (\<lambda>i. int (Suc i)) [0..<length ls]" for ls
    proof -
      have "take j (map l_sequence ls) = take j (map (\<lambda>i. int (Suc i)) [0..<length ls])"
        by (simp only: that)
      then show ?thesis by (cases "j \<le> length ls") (simp_all add: take_map min_def)
    qed
    moreover have "walk W Genesis (map (read_record (coalesce sc)) (take j (rows_of d sc))) = []"
      using assms walk_take by (simp add: verifiable_def flip: take_map)
    ultimately show ?thesis
      using assms by (simp only: verifiable_def) blast
  qed
  ultimately show ?thesis by (simp add: verifiable_def)
qed

subsection \<open>Every history of the log\<close>

text \<open>One committed transaction of the log's operations.\<close>

inductive audit_step :: "audit_world \<Rightarrow> audit_db \<Rightarrow> audit_db \<Rightarrow> bool" for W where
  appended: "Append W sc e d = Inr (u, d') \<Longrightarrow> audit_step W d d'"
| sealed: "SealFor W person plaintext d = Inr (s, d') \<Longrightarrow> audit_step W d d'"
| unsealed: "OpenFor W person s d = Inr (plaintext, d') \<Longrightarrow> audit_step W d d'"
| destroyed: "Destroy W person d = Inr (u, d') \<Longrightarrow> audit_step W d d'"
| opened: "OpenRecord W sc marketplace n d = Inr (x, d') \<Longrightarrow> audit_step W d d'"

lemma audit_step_intact: "audit_step W d d' \<Longrightarrow> intact W d \<Longrightarrow> intact W d'"
  by (induction rule: audit_step.induct)
    (blast intro: intact_Append intact_same_log keepsD [OF SealFor_same_log]
      keepsD [OF OpenFor_same_log] keepsD [OF Destroy_same_log] keepsD [OF OpenRecord_same_log])+

lemma audit_history_intact: "(audit_step W)\<^sup>*\<^sup>* d d' \<Longrightarrow> intact W d \<Longrightarrow> intact W d'"
  by (induction rule: rtranclp_induct) (auto dest: audit_step_intact)

subsection \<open>What a digest covers\<close>

lemma length_big_endian [simp]: "length (big_endian k n) = k"
  by (induction k arbitrary: n) auto

lemma length_be64 [simp]: "length (be64 n) = 8"
  by (simp add: be64_def)

lemma big_endian_value:
  "foldl (\<lambda>n b. n * 256 + uint (b :: 8 word)) 0 (big_endian k n) = n mod 256 ^ k"
proof (induction k arbitrary: n)
  case (Suc k)
  have "n mod (256 * 256 ^ k) = 256 * (n div 256 mod 256 ^ k) + n mod 256"
    by (rule zmod_zmult2_eq) simp
  then show ?case using Suc by (simp add: uint_word_of_int mult.commute)
qed simp

lemma be64_inject:
  assumes "be64 m = be64 n" and "0 \<le> m + 2 ^ 63" "m < 2 ^ 63" "0 \<le> n + 2 ^ 63" "n < 2 ^ 63"
  shows "m = n"
proof -
  have "m mod 256 ^ 8 = n mod 256 ^ 8"
    using assms(1) unfolding be64_def by (metis big_endian_value)
  then have "m mod 2 ^ 64 = n mod 2 ^ 64" by simp
  then have "(m + 2 ^ 63) mod 2 ^ 64 = (n + 2 ^ 63) mod 2 ^ 64" by (rule mod_add_cong) simp
  moreover have "(m + 2 ^ 63) mod 2 ^ 64 = m + 2 ^ 63" "(n + 2 ^ 63) mod 2 ^ 64 = n + 2 ^ 63"
    using assms by (intro mod_pos_pos_trivial; simp)+
  ultimately show ?thesis by simp
qed

definition sized :: "bytes \<Rightarrow> bool" where
  "sized v \<longleftrightarrow> length v < 2 ^ 63"

definition record_sized :: "log_record \<Rightarrow> bool" where
  "record_sized r \<longleftrightarrow> - (2 ^ 63) \<le> rec_sequence r \<and> rec_sequence r < 2 ^ 63 \<and>
     - (2 ^ 63) \<le> rec_at r div 1000 \<and> rec_at r div 1000 < 2 ^ 63 \<and>
     sized (bytes_of (rec_marketplace r)) \<and> sized (bytes_of (rec_actor r)) \<and>
     sized (bytes_of (rec_kind r)) \<and> sized (bytes_of (rec_action r)) \<and>
     sized (bytes_of (rec_subject_kind r)) \<and> sized (bytes_of (rec_subject r)) \<and>
     sized (rec_actor_secret r) \<and> sized (rec_subject_secret r)"

definition content :: "log_record \<Rightarrow> string \<times> int \<times> int \<times> string list \<times> bytes \<times> bytes" where
  "content r = (rec_marketplace r, rec_sequence r, rec_at r div 1000,
     [rec_actor r, rec_kind r, rec_action r, rec_subject_kind r, rec_subject r],
     rec_actor_secret r, rec_subject_secret r)"

lemma field_iff:
  assumes "sized v" "sized w"
  shows "field v @ x = field w @ y \<longleftrightarrow> v = w \<and> x = y"
proof
  assume "field v @ x = field w @ y"
  then have *: "be64 (int (length v)) = be64 (int (length w)) \<and> v @ x = w @ y"
    by (simp add: field_def)
  then have "int (length v) = int (length w)"
    using assms by (intro be64_inject) (auto simp: sized_def)
  then show "v = w \<and> x = y" using * by simp
qed simp

lemma field_iff_Nil: "sized v \<Longrightarrow> sized w \<Longrightarrow> field v = field w \<longleftrightarrow> v = w"
  using field_iff [of v w "[]" "[]"] by simp

lemma be64_iff: "be64 m @ x = be64 n @ y \<longleftrightarrow> be64 m = be64 n \<and> x = y"
  by (rule append_eq_append_conv) simp

lemma preimage_inject:
  assumes "preimage p r = preimage q s" "sized p" "sized q" "record_sized r" "record_sized s"
  shows "p = q \<and> content r = content s"
proof -
  have "be64 (rec_sequence r) = be64 (rec_sequence s)"
    "be64 (rec_at r div 1000) = be64 (rec_at s div 1000)"
    using assms by (simp_all add: preimage_def field_iff be64_iff record_sized_def)
  then have "rec_sequence r = rec_sequence s" "rec_at r div 1000 = rec_at s div 1000"
    using assms(4,5) by (auto intro!: be64_inject simp: record_sized_def)
  then show ?thesis
    using assms by (simp add: preimage_def field_iff field_iff_Nil be64_iff record_sized_def content_def)
qed

end
