(* ===== verification/AuditTrail.thy ===== *)
theory AuditTrail
  imports AuditChain
begin

text \<open>
  The audit log as its clients see it: the interface they append and seal through, what
  becomes of a person's key, and the properties of the log.
\<close>

subsection \<open>The interface\<close>

text \<open>
  What the identity flows are given (\<^verbatim>\<open>identity.Auditor\<close> and \<^verbatim>\<open>identity.Sealer\<close>): an append
  adds exactly its own record to its own scope, and sealing records nothing.
\<close>

type_synonym mark = "scope \<times> uuid \<times> string \<times> string \<times> string"

definition mark_of :: "scope \<Rightarrow> entry \<Rightarrow> mark" where
  "mark_of sc e = (sc, e_actor e, e_kind e, e_action e, e_subject e)"

locale auditor =
  fixes append :: "scope \<Rightarrow> entry \<Rightarrow> ('t, id_error, unit) tx"
    and recorded :: "'t \<Rightarrow> mark list"
  assumes append_records: "append sc e t = Inr (u, t') \<Longrightarrow>
    recorded t' = recorded t @ [mark_of sc e] \<and> nullif (e_marketplace e) = sc"
begin

definition grows :: "'t \<Rightarrow> 't \<Rightarrow> bool" where
  "grows t t' \<longleftrightarrow> (\<exists>more. recorded t' = recorded t @ more)"

lemma append_grows: "append sc e t = Inr (u, t') \<Longrightarrow> grows t t'"
  using append_records by (auto simp: grows_def)

lemma append_in: "append sc e t = Inr (u, t') \<Longrightarrow> mark_of sc e \<in> set (recorded t')"
  using append_records by simp

end

locale audit_trail = auditor append recorded
  for append :: "scope \<Rightarrow> entry \<Rightarrow> ('t, id_error, unit) tx" and recorded :: "'t \<Rightarrow> mark list" +
  fixes seal_for :: "uuid \<Rightarrow> bytes \<Rightarrow> ('t, id_error, bytes) tx"
    and open_for :: "uuid \<Rightarrow> bytes \<Rightarrow> ('t, id_error, bytes) tx"
  assumes seal_quiet: "seal_for person plaintext t = Inr (x, t') \<Longrightarrow> recorded t' = recorded t"
    and open_quiet: "open_for person s t = Inr (x, t') \<Longrightarrow> recorded t' = recorded t"

definition log_marks :: "audit_db \<Rightarrow> mark list" where
  "log_marks d = map (\<lambda>l. (l_scope l, coalesce (l_actor l), l_kind l, l_action l, coalesce (l_subject l))) (log d)"

lemma mark_of_row:
  "nullif (e_marketplace e) = sc \<Longrightarrow>
    (let l = row_of e (written W e p n at aS sS) in
      (l_scope l, coalesce (l_actor l), l_kind l, l_action l, coalesce (l_subject l))) = mark_of sc e"
  by (simp add: row_of_def written_def mark_of_def Let_def)

interpretation audit_log: audit_trail "Append W" log_marks "SealFor W" "OpenFor W" for W
proof unfold_locales
  fix sc e t u t' assume "Append W sc e t = Inr (u, t')"
  then show "log_marks t' = log_marks t @ [mark_of sc e] \<and> nullif (e_marketplace e) = sc"
    using Append_effect [of W sc e t u t'] mark_of_row
    by (auto simp: Let_def log_marks_def)
next
  fix person plaintext t x t'
  show "SealFor W person plaintext t = Inr (x, t') \<Longrightarrow> log_marks t' = log_marks t"
    by (auto dest!: keepsD [OF SealFor_same_log] simp: same_log_def log_marks_def)
next
  fix person s t x t'
  show "OpenFor W person s t = Inr (x, t') \<Longrightarrow> log_marks t' = log_marks t"
    by (auto dest!: keepsD [OF OpenFor_same_log] simp: same_log_def log_marks_def)
qed

subsection \<open>What becomes of a key\<close>

definition erased :: "uuid \<Rightarrow> audit_db \<Rightarrow> bool" where
  "erased u d \<longleftrightarrow> (case find_key u d of None \<Rightarrow> False | Some r \<Rightarrow> k_destroyed r \<noteq> None)"

text \<open>A key is never replaced: it stays as it is, or is destroyed for good.\<close>

definition key_kept :: "audit_db \<Rightarrow> audit_db \<Rightarrow> bool" where
  "key_kept d d' \<longleftrightarrow> (\<forall>u r. find_key u d = Some r \<longrightarrow> find_key u d' = Some r \<or> erased u d')"

lemma erased_iff: "erased u d \<longleftrightarrow> (\<exists>r. find_key u d = Some r \<and> k_destroyed r \<noteq> None)"
  by (cases "find_key u d") (auto simp: erased_def)

lemma erased_kept: "key_kept d d' \<Longrightarrow> erased u d \<Longrightarrow> erased u d'"
  unfolding key_kept_def erased_iff by metis

interpretation key_kept: frame key_kept
proof
  show "key_kept d d" for d by (simp add: key_kept_def)
  show "key_kept a c" if "key_kept a b" "key_kept b c" for a b c
    using that erased_kept [OF that(2)] unfolding key_kept_def by metis
qed

lemma key_kept_same: "user_keys d' = user_keys d \<Longrightarrow> key_kept d d'"
  by (simp add: key_kept_def find_key_def)

lemma key_kept_ticks: "keeps key_kept (roll W n)" "keeps key_kept (clock W)"
  by (rule keepsI, auto simp: tx_simps intro: key_kept_same)+

lemma key_kept_read: "keeps key_kept (read_key user)"
  unfolding read_key_def by (intro key_kept.keeps_rules)

lemma key_kept_add: "key_kept d (d\<lparr>user_keys := user_keys d @ [r]\<rparr>)"
  by (auto simp: key_kept_def find_key_def find_append)

lemma key_kept_create: "keeps key_kept (create_key W user)"
  unfolding create_key_def
  by (intro key_kept.keeps_rules key_kept_ticks key_kept_read key_kept.keeps_writes key_kept_add)

lemma key_kept_open: "keeps key_kept (open_key W user)"
  unfolding open_key_def by (intro key_kept.keeps_rules key_kept_read key_kept_create)

lemma key_kept_Seal: "keeps key_kept (Seal W key plaintext)"
  unfolding Seal_def by (intro key_kept.keeps_rules key_kept_ticks)

lemma key_kept_SealFor: "keeps key_kept (SealFor W person plaintext)"
  unfolding SealFor_def by (intro key_kept.keeps_rules key_kept_open key_kept_Seal)

lemma key_kept_OpenFor: "keeps key_kept (OpenFor W person s)"
  unfolding OpenFor_def by (intro key_kept.keeps_rules key_kept_open)

lemma key_kept_seal_part: "keeps key_kept (seal_part W user text carries)"
  unfolding seal_part_def by (intro key_kept.keeps_rules key_kept_open key_kept_Seal)

lemma key_kept_Append: "keeps key_kept (Append W sc e)"
  unfolding Append_def head_def insert_record_def advance_def Let_def
  by (intro key_kept.keeps_rules key_kept_seal_part key_kept_ticks key_kept.keeps_writes
      key_kept.keeps_checked key_kept_same) simp_all

lemma key_kept_OpenRecord: "keeps key_kept (OpenRecord W sc marketplace n)"
proof -
  have part: "keeps key_kept (open_part W user s)" for user s
  proof (rule keepsI)
    fix d x d' assume "open_part W user s d = Inr (x, d')"
    then show "key_kept d d'"
      using keepsD [OF key_kept_open, of W "coalesce user" d]
      by (auto simp: open_part_def key_kept.R_refl split: if_splits sum.splits prod.splits)
  qed
  show ?thesis
    unfolding OpenRecord_def by (intro key_kept.keeps_rules part)
qed

lemma find_key_destroyed:
  "find (\<lambda>r. k_user r = v) (update_where (\<lambda>r. k_user r = u \<and> k_destroyed r = None) h rows) =
     map_option (\<lambda>r. if k_user r = u \<and> k_destroyed r = None then h r else r)
       (find (\<lambda>r. k_user r = v) rows)" if "\<And>r. k_user (h r) = k_user r"
  by (induction rows) (auto simp: update_where_def that)

lemma Destroy_effect:
  assumes "Destroy W u d = Inr (x, d')"
  shows "key_kept d d' \<and> (find_key u d \<noteq> None \<longrightarrow> erased u d') \<and> u \<noteq> Platform"
proof -
  obtain now where u: "u \<noteq> Platform" and d': "user_keys d' =
      update_where (\<lambda>r. k_user r = u \<and> k_destroyed r = None)
        (\<lambda>r. r\<lparr>k_wrapped := None, k_destroyed := Some now\<rparr>) (user_keys d)"
    using assms by (auto simp: Destroy_def tx_simps split: if_splits)
  have new: "find_key v d' = map_option (\<lambda>r. if k_user r = u \<and> k_destroyed r = None
      then r\<lparr>k_wrapped := None, k_destroyed := Some now\<rparr> else r) (find_key v d)" for v
    by (simp add: find_key_def d' find_key_destroyed)
  have "key_kept d d'"
    unfolding key_kept_def erased_iff by (auto simp: new)
  moreover have "erased u d'" if "find_key u d = Some r" for r
  proof -
    have "k_user r = u" using that find_Some_first by (fastforce simp: find_key_def)
    then show ?thesis using that by (auto simp: erased_iff new)
  qed
  ultimately show ?thesis using u by auto
qed

lemma key_kept_step: "audit_step W d d' \<Longrightarrow> key_kept d d'"
  by (induction rule: audit_step.induct)
    (blast intro: keepsD [OF key_kept_Append] keepsD [OF key_kept_SealFor]
      keepsD [OF key_kept_OpenFor] keepsD [OF key_kept_OpenRecord] dest: Destroy_effect)+

lemma key_kept_history: "(audit_step W)\<^sup>*\<^sup>* d d' \<Longrightarrow> key_kept d d'"
  by (induction rule: rtranclp_induct)
    (auto intro: key_kept.R_refl key_kept.R_trans dest: key_kept_step)

lemma erased_open_key: "erased u d \<Longrightarrow> open_key W u d = Inl ErrDestroyed"
  by (auto simp: erased_def open_key_def read_key_def tx_defs split: option.splits)

text \<open>Opening a key that is there gives what its keeper unwraps, and changes nothing.\<close>

lemma open_key_present:
  assumes "find_key u d = Some r" "k_destroyed r = None" "k_wrapped r = Some w" "w_unwrap W w = Some key"
  shows "open_key W u d = Inr (key, d)"
  using assms by (simp add: open_key_def read_key_def tx_defs)

text \<open>After a key was opened it is there.\<close>

lemma open_key_leaves:
  assumes "open_key W u d = Inr (key, d')"
  shows "\<exists>r. find_key u d' = Some r \<and> k_destroyed r = None \<and>
    w_unwrap W (case k_wrapped r of None \<Rightarrow> [] | Some w \<Rightarrow> w) = Some key"
proof -
  obtain found d1 w d2 where r: "read_key u d = Inr (found, d1)"
    and c2: "(case found of None \<Rightarrow> create_key W u | Some w \<Rightarrow> ret w) d1 = Inr (w, d2)"
    and k2: "(case w_unwrap W w of None \<Rightarrow> fail ErrKeeper | Some key \<Rightarrow> ret key) d2 = Inr (key, d')"
    using assms unfolding open_key_def after_Inr by blast
  have k: "w_unwrap W w = Some key" and "d2 = d'"
    using k2 by (auto simp: tx_simps split: option.splits)
  then have c: "(case found of None \<Rightarrow> create_key W u | Some w \<Rightarrow> ret w) d1 = Inr (w, d')"
    using c2 by simp
  have read: "v = (case find_key u e of None \<Rightarrow> None | Some r \<Rightarrow>
        Some (case k_wrapped r of None \<Rightarrow> [] | Some w \<Rightarrow> w)) \<and> e' = e \<and> \<not> erased u e"
    if "read_key u e = Inr (v, e')" for v e e'
    using that by (auto simp: read_key_def tx_simps erased_def split: option.splits if_splits)
  have "\<exists>r. find_key u d' = Some r \<and> k_destroyed r = None \<and>
      w = (case k_wrapped r of None \<Rightarrow> [] | Some w \<Rightarrow> w)"
  proof (cases "find_key u d")
    case (Some r)
    then have "found = Some (case k_wrapped r of None \<Rightarrow> [] | Some w \<Rightarrow> w)" "d1 = d" "\<not> erased u d"
      using read [OF r] by simp_all
    then show ?thesis using c Some by (auto simp: tx_simps erased_iff)
  next
    case None
    then have d1: "found = None" "d1 = d" using read [OF r] by simp_all
    have "find_key u (d\<lparr>ticks := t\<rparr>) = None" for t using None by (simp add: find_key_def)
    then have "d' = d\<lparr>ticks := Suc (ticks d), user_keys := user_keys d @ [\<lparr>k_user = u,
        k_wrapped = Some w, k_keeper = w_keeper W, k_destroyed = None\<rparr>]\<rparr>"
      using c unfolding d1 by (auto simp: create_key_def tx_simps split: option.splits)
    then show ?thesis using None by (simp add: find_key_def find_append)
  qed
  then show ?thesis using k by auto
qed

end
