(* ===== verification/IdTables.thy ===== *)
theory IdTables
  imports IdStore
begin

text \<open>
  The statements of the identity package, one definition per Go function that runs SQL:
  accounts, passwords, verifications and sessions (store.go), second factors, recovery
  codes and enrolments (factorstore.go), challenges (challengestore.go), e-mail codes
  (emailcode.go) and the run of failures (failures.go). Times are the service's clock,
  passed as the code passes it. Constants come from the Go source.
\<close>

subsection \<open>Constants\<close>

definition VerificationLifetime :: int where "VerificationLifetime = 24 * hour"
definition SessionIdle :: int where "SessionIdle = 30 * 24 * hour"
definition SessionLifetime :: int where "SessionLifetime = 90 * 24 * hour"
definition touchEvery :: int where "touchEvery = hour"
definition RevokedKept :: int where "RevokedKept = 7 * 24 * hour"
definition ChallengeLifetime :: int where "ChallengeLifetime = 5 * minute"
definition ChallengeAttempts :: nat where "ChallengeAttempts = 5"
definition EnrolmentLifetime :: int where "EnrolmentLifetime = 15 * minute"
definition EmailCodeLifetime :: int where "EmailCodeLifetime = 10 * minute"
definition EmailCodeAttempts :: nat where "EmailCodeAttempts = 5"
definition emailCodeEvery :: int where "emailCodeEvery = minute"
definition emailCodesPerHour :: nat where "emailCodesPerHour = 5"
definition FailuresNotified :: nat where "FailuresNotified = 10"
definition FailuresLocked :: nat where "FailuresLocked = 100"

lemmas [durations] = VerificationLifetime_def SessionIdle_def SessionLifetime_def
  touchEvery_def RevokedKept_def ChallengeLifetime_def EnrolmentLifetime_def
  EmailCodeLifetime_def emailCodeEvery_def

subsection \<open>Accounts\<close>

record account =
  ID :: uuid
  MarketplaceID :: string
  Kind :: user_kind
  Email :: string
  Name :: string
  VerifiedAt :: "time option"

definition scanAccount :: "account_row \<Rightarrow> account" where
  "scanAccount r = \<lparr>ID = a_id r, MarketplaceID = coalesce (a_scope r), Kind = a_kind r,
     Email = a_email r, Name = a_name r, VerifiedAt = a_verified r\<rparr>"

text \<open>The constraints of \<^verbatim>\<open>account\<close>: its key, and one address per scope (nulls not distinct).\<close>

definition account_id_free :: "uuid \<Rightarrow> 'a db \<Rightarrow> bool" where
  "account_id_free i d = (i \<notin> a_id ` set (accounts d))"

definition address_taken :: "scope \<Rightarrow> string \<Rightarrow> 'a db \<Rightarrow> bool" where
  "address_taken sc normalised d =
     (\<exists>r \<in> set (accounts d). a_scope r = sc \<and> a_normalised r = normalised)"

definition account_exists :: "uuid \<Rightarrow> 'a db \<Rightarrow> bool" where
  "account_exists i d = (i \<in> a_id ` set (accounts d))"

text \<open>
  The insert of a row, after the key is drawn. \<open>ErrTaken\<close> is the conflict on the address
  (\<^verbatim>\<open>ON CONFLICT ... DO NOTHING\<close> returning no row, \<^verbatim>\<open>errTaken\<close>); any other refusal of the
  schema is \<open>ErrConstraint\<close>.
\<close>

definition put_account :: "account_row \<Rightarrow> ('a, unit) idtx" where
  "put_account r = checked ErrConstraint
     (\<lambda>d. account_id_free (a_id r) d \<and> \<not> address_taken (a_scope r) (a_normalised r) d \<and>
          (a_kind r = KindStaff \<longleftrightarrow> a_scope r = None) \<and>
          (a_kind r = KindStaff \<or> a_kind r = KindBuyer))
     (\<lambda>d. d\<lparr>accounts := accounts d @ [r]\<rparr>)"

text \<open>
  \<^verbatim>\<open>insertAccount\<close>. The marketplace goes in as it is, not through nullif: an empty one is
  not a uuid and PostgreSQL refuses it.
\<close>

definition insertAccount :: "(nat \<Rightarrow> uuid) \<Rightarrow> scope \<Rightarrow> string \<Rightarrow> string \<Rightarrow> string \<Rightarrow> string \<Rightarrow>
    ('a, uuid option) idtx" where
  "insertAccount new sc marketplace email normalised name =
     (if marketplace = [] \<or> sc \<noteq> Some marketplace then fail ErrConstraint
      else after (reads (address_taken (Some marketplace) normalised)) (\<lambda>taken.
        if taken then ret None
        else after (fresh_id new) (\<lambda>i.
          after (put_account \<lparr>a_id = i, a_scope = Some marketplace, a_kind = KindBuyer,
              a_email = email, a_normalised = normalised, a_name = name,
              a_verified = None\<rparr>) (\<lambda>_.
          ret (Some i)))))"

definition insertStaff :: "(nat \<Rightarrow> uuid) \<Rightarrow> scope \<Rightarrow> string \<Rightarrow> string \<Rightarrow> string \<Rightarrow> time \<Rightarrow>
    ('a, uuid option) idtx" where
  "insertStaff new sc email normalised name at =
     (if sc \<noteq> None then fail ErrConstraint
      else after (reads (address_taken None normalised)) (\<lambda>taken.
        if taken then ret None
        else after (fresh_id new) (\<lambda>i.
          after (put_account \<lparr>a_id = i, a_scope = None, a_kind = KindStaff,
              a_email = email, a_normalised = normalised, a_name = name,
              a_verified = Some at\<rparr>) (\<lambda>_.
          ret (Some i)))))"

definition find_account_by_email :: "scope \<Rightarrow> string \<Rightarrow> 'a db \<Rightarrow> account option" where
  "find_account_by_email sc normalised d =
     map_option scanAccount (find (\<lambda>r. a_scope r = sc \<and> a_normalised r = normalised) (accounts d))"

definition accountByEmail :: "scope \<Rightarrow> string \<Rightarrow> ('a, account option) idtx" where
  "accountByEmail sc normalised = reads (find_account_by_email sc normalised)"

definition find_account :: "scope \<Rightarrow> uuid \<Rightarrow> 'a db \<Rightarrow> account option" where
  "find_account sc i d =
     map_option scanAccount (find (\<lambda>r. a_scope r = sc \<and> a_id r = i) (accounts d))"

text \<open>A query whose caller passes on every error, no rows among them.\<close>

definition the_row :: "('a, 'x option) idtx \<Rightarrow> ('a, 'x) idtx" where
  "the_row f = after f (\<lambda>x. case x of None \<Rightarrow> fail ErrNoRows | Some y \<Rightarrow> ret y)"

definition accountByID :: "scope \<Rightarrow> uuid \<Rightarrow> ('a, account) idtx" where
  "accountByID sc i = the_row (reads (find_account sc i))"

subsection \<open>Passwords\<close>

text \<open>The insert or the update of the account's one credential; another scope's is a conflict.\<close>

definition setPassword :: "scope \<Rightarrow> string \<Rightarrow> uuid \<Rightarrow> string \<Rightarrow> ('a, unit) idtx" where
  "setPassword sc marketplace account secret =
     (if nullif marketplace \<noteq> sc then fail ErrConstraint
      else checked ErrConstraint
        (\<lambda>d. account_exists account d \<and>
             (\<forall>r \<in> set (credentials d). cr_account r = account \<longrightarrow> cr_scope r = sc))
        (\<lambda>d. if account \<in> cr_account ` set (credentials d)
             then d\<lparr>credentials := update_where (\<lambda>r. cr_account r = account \<and> cr_scope r = sc)
                      (\<lambda>r. r\<lparr>cr_secret := secret\<rparr>) (credentials d)\<rparr>
             else d\<lparr>credentials := credentials d @
                      [\<lparr>cr_account = account, cr_scope = sc, cr_secret = secret\<rparr>]\<rparr>))"

definition find_secret :: "scope \<Rightarrow> uuid \<Rightarrow> 'a db \<Rightarrow> string option" where
  "find_secret sc account d =
     map_option cr_secret (find (\<lambda>r. cr_scope r = sc \<and> cr_account r = account) (credentials d))"

definition passwordOf :: "scope \<Rightarrow> uuid \<Rightarrow> ('a, string) idtx" where
  "passwordOf sc account = the_row (reads (find_secret sc account))"

definition passwordStill :: "scope \<Rightarrow> uuid \<Rightarrow> string \<Rightarrow> ('a, bool) idtx" where
  "passwordStill sc account verified =
     after (the_row (reads (find_secret sc account))) (\<lambda>secret. ret (secret = verified))"

subsection \<open>Verifications\<close>

definition insertVerification :: "scope \<Rightarrow> string \<Rightarrow> uuid \<Rightarrow> bytes \<Rightarrow> time \<Rightarrow> ('a, unit) idtx" where
  "insertVerification sc marketplace account h expires =
     (if nullif marketplace \<noteq> sc then fail ErrConstraint
      else checked ErrConstraint
        (\<lambda>d. account_exists account d \<and> h \<notin> ve_hash ` set (verifications d))
        (\<lambda>d. d\<lparr>verifications := verifications d @ [\<lparr>ve_hash = h, ve_account = account,
               ve_scope = sc, ve_expires = expires, ve_used = None\<rparr>]\<rparr>))"

definition verification_live :: "scope \<Rightarrow> bytes \<Rightarrow> time \<Rightarrow> verification_row \<Rightarrow> bool" where
  "verification_live sc h now r =
     (ve_scope r = sc \<and> ve_hash r = h \<and> ve_used r = None \<and> ve_expires r > now)"

definition consumeVerification :: "scope \<Rightarrow> bytes \<Rightarrow> time \<Rightarrow> ('a, uuid option) idtx" where
  "consumeVerification sc h now =
     after (reads (\<lambda>d. find (verification_live sc h now) (verifications d))) (\<lambda>found.
       case found of
         None \<Rightarrow> ret None
       | Some r \<Rightarrow>
           after (writes (\<lambda>d. d\<lparr>verifications := update_where (verification_live sc h now)
                    (\<lambda>r. r\<lparr>ve_used := Some now\<rparr>) (verifications d)\<rparr>)) (\<lambda>_.
           after (writes (\<lambda>d. d\<lparr>accounts := update_where
                    (\<lambda>a. a_scope a = sc \<and> a_id a = ve_account r)
                    (\<lambda>a. a\<lparr>a_verified := (case a_verified a of None \<Rightarrow> Some now | Some t \<Rightarrow> Some t)\<rparr>)
                    (accounts d)\<rparr>)) (\<lambda>_.
           ret (Some (ve_account r)))))"

subsection \<open>Sessions\<close>

definition insertSession :: "(nat \<Rightarrow> uuid) \<Rightarrow> scope \<Rightarrow> string \<Rightarrow> uuid \<Rightarrow> bytes \<Rightarrow> string \<Rightarrow>
    string \<Rightarrow> time \<Rightarrow> ('a, unit) idtx" where
  "insertSession new sc marketplace account h ip agent now =
     (if nullif marketplace \<noteq> sc then fail ErrConstraint
      else after (fresh_id new) (\<lambda>i.
        checked ErrConstraint
          (\<lambda>d. account_exists account d \<and> h \<notin> s_hash ` set (sessions d) \<and>
               i \<notin> s_id ` set (sessions d))
          (\<lambda>d. d\<lparr>sessions := sessions d @ [\<lparr>s_id = i, s_account = account, s_scope = sc,
                 s_hash = h, s_created = now, s_seen = now, s_ip = ip, s_agent = agent,
                 s_revoked = None, s_stepped_up = None, s_email_confirmed = None\<rparr>]\<rparr>)))"

text \<open>\<^verbatim>\<open>liveSession\<close>: the session a token hash opened and nobody revoked, and whether its
  account has a second factor (\<^verbatim>\<open>EXISTS (SELECT 1 FROM second_factor ...)\<close>).\<close>

definition find_session :: "scope \<Rightarrow> bytes \<Rightarrow> 'a db \<Rightarrow> session_row option" where
  "find_session sc h d =
     find (\<lambda>r. s_scope r = sc \<and> s_hash r = h \<and> s_revoked r = None) (sessions d)"

definition has_factor :: "scope \<Rightarrow> uuid \<Rightarrow> 'a db \<Rightarrow> bool" where
  "has_factor sc account d = (\<exists>f \<in> set (factors d). f_scope f = sc \<and> f_account f = account)"

definition liveSession :: "scope \<Rightarrow> bytes \<Rightarrow> ('a, (session_row \<times> bool) option) idtx" where
  "liveSession sc h = reads (\<lambda>d. map_option (\<lambda>r. (r, has_factor sc (s_account r) d)) (find_session sc h d))"

definition touchSession :: "scope \<Rightarrow> uuid \<Rightarrow> time \<Rightarrow> ('a, unit) idtx" where
  "touchSession sc i now = writes (\<lambda>d. d\<lparr>sessions := update_where
     (\<lambda>r. s_scope r = sc \<and> s_id r = i) (\<lambda>r. r\<lparr>s_seen := now\<rparr>) (sessions d)\<rparr>)"

definition revokeSession :: "scope \<Rightarrow> bytes \<Rightarrow> string \<Rightarrow> time \<Rightarrow> ('a, uuid option) idtx" where
  "revokeSession sc h reason now =
     after (reads (find_session sc h)) (\<lambda>found.
       case found of
         None \<Rightarrow> ret None
       | Some row \<Rightarrow>
           after (writes (\<lambda>d. d\<lparr>sessions := update_where
                    (\<lambda>r. s_scope r = sc \<and> s_hash r = h \<and> s_revoked r = None)
                    (\<lambda>r. r\<lparr>s_revoked := Some (now, reason)\<rparr>) (sessions d)\<rparr>)) (\<lambda>_.
           ret (Some (s_account row))))"

definition session_dead :: "time \<Rightarrow> session_row \<Rightarrow> bool" where
  "session_dead now r \<longleftrightarrow>
     s_created r < now - SessionLifetime \<or> s_seen r < now - SessionIdle \<or>
     (case s_revoked r of None \<Rightarrow> False | Some (at, _) \<Rightarrow> at < now - RevokedKept)"

text \<open>
  \<^verbatim>\<open>sweepSessions\<close> deletes the dead rows of the scope it names, which row-level security
  bounds to the transaction's own, and reports how many. The foreign keys of migrations
  00013 and 00014 cascade to the enrolments and the step-ups those sessions opened, whatever
  their scope: PostgreSQL's referential actions are not subject to row-level security.
\<close>

definition of_sessions :: "uuid list \<Rightarrow> challenge_row \<Rightarrow> bool" where
  "of_sessions gone c = (case ch_session c of None \<Rightarrow> False | Some i \<Rightarrow> i \<in> set gone)"

definition sweepSessions :: "scope \<Rightarrow> string \<Rightarrow> time \<Rightarrow> ('a, nat) idtx" where
  "sweepSessions sc named now =
     (let hit = (\<lambda>r. s_scope r = sc \<and> s_scope r = nullif named \<and> session_dead now r) in
      after (reads (\<lambda>d. map s_id (filter hit (sessions d)))) (\<lambda>gone.
      after (writes (\<lambda>d. d\<lparr>sessions := delete_where hit (sessions d),
               challenges := delete_where (of_sessions gone) (challenges d),
               enrolments := delete_where (\<lambda>e. en_session e \<in> set gone) (enrolments d)\<rparr>)) (\<lambda>_.
      ret (length gone))))"

definition revokeSessions :: "scope \<Rightarrow> uuid \<Rightarrow> time \<Rightarrow> ('a, unit) idtx" where
  "revokeSessions sc account now = writes (\<lambda>d. d\<lparr>sessions := update_where
     (\<lambda>r. s_scope r = sc \<and> s_account r = account \<and> s_revoked r = None)
     (\<lambda>r. r\<lparr>s_revoked := Some (now, ''password_changed'')\<rparr>) (sessions d)\<rparr>)"

definition sessionID :: "scope \<Rightarrow> bytes \<Rightarrow> ('a, uuid) idtx" where
  "sessionID sc h = the_row (reads (\<lambda>d. map_option s_id
     (find (\<lambda>r. s_scope r = sc \<and> s_hash r = h) (sessions d))))"

definition markSteppedUp :: "scope \<Rightarrow> uuid \<Rightarrow> time \<Rightarrow> ('a, unit) idtx" where
  "markSteppedUp sc i at = writes (\<lambda>d. d\<lparr>sessions := update_where
     (\<lambda>r. s_scope r = sc \<and> s_id r = i) (\<lambda>r. r\<lparr>s_stepped_up := Some at\<rparr>) (sessions d)\<rparr>)"

definition markEmailConfirmed :: "scope \<Rightarrow> uuid \<Rightarrow> time \<Rightarrow> ('a, unit) idtx" where
  "markEmailConfirmed sc i at = writes (\<lambda>d. d\<lparr>sessions := update_where
     (\<lambda>r. s_scope r = sc \<and> s_id r = i) (\<lambda>r. r\<lparr>s_email_confirmed := Some at\<rparr>) (sessions d)\<rparr>)"

end
