(* ===== verification/FactorTables.thy ===== *)
theory FactorTables
  imports IdTables
begin

text \<open>
  The statements over second factors, recovery codes and enrolments
  (src/internal/identity/factorstore.go), challenges (challengestore.go), e-mail codes
  (emailcode.go) and the run of failed second factors (failures.go). Row locks
  (\<^verbatim>\<open>FOR UPDATE\<close>) order transactions and change nothing in one of them, so a locking
  read is a read here: transactions are the atomic steps of the model.
\<close>

subsection \<open>Second factors\<close>

text \<open>\<^verbatim>\<open>ORDER BY created_at, id\<close>.\<close>

definition by_age :: "factor_row list \<Rightarrow> factor_row list" where
  "by_age = sort_key (\<lambda>f. (f_created f, f_id f))"

definition factors_of :: "scope \<Rightarrow> uuid \<Rightarrow> 'a db \<Rightarrow> factor_row list" where
  "factors_of sc account d =
     by_age (filter (\<lambda>f. f_scope f = sc \<and> f_account f = account) (factors d))"

definition factorsOf :: "scope \<Rightarrow> uuid \<Rightarrow> ('a, factor_row list) idtx" where
  "factorsOf sc account = reads (factors_of sc account)"

definition countFactors :: "scope \<Rightarrow> uuid \<Rightarrow> ('a, nat) idtx" where
  "countFactors sc account =
     reads (\<lambda>d. length (filter (\<lambda>f. f_scope f = sc \<and> f_account f = account) (factors d)))"

definition appsForUpdate :: "scope \<Rightarrow> uuid \<Rightarrow> ('a, factor_row list) idtx" where
  "appsForUpdate sc account = reads (\<lambda>d. by_age (filter
     (\<lambda>f. f_scope f = sc \<and> f_account f = account \<and> f_method f = MethodApp) (factors d)))"

definition keysForUpdate :: "scope \<Rightarrow> uuid \<Rightarrow> ('a, factor_row list) idtx" where
  "keysForUpdate sc account = reads (\<lambda>d. by_age (filter
     (\<lambda>f. f_scope f = sc \<and> f_account f = account \<and> f_method f = MethodKey) (factors d)))"

text \<open>The shape of a factor's row (the checks of migration 00013).\<close>

definition factor_ok :: "factor_row \<Rightarrow> bool" where
  "factor_ok f \<longleftrightarrow> f_method f \<in> {MethodApp, MethodKey, MethodEmail} \<and>
     (f_method f = MethodApp \<longleftrightarrow> f_secret f \<noteq> None) \<and>
     (f_method f = MethodKey \<longleftrightarrow> f_credential f \<noteq> None \<and> f_public_key f \<noteq> None)"

text \<open>An insert into \<^verbatim>\<open>second_factor\<close>: its key, its checks, the account it belongs to and one
  e-mail factor per account. A credential id that is taken is for the caller to look at
  first (\<^verbatim>\<open>ON CONFLICT (credential_id) DO NOTHING\<close>).\<close>

definition put_factor :: "factor_row \<Rightarrow> ('a, unit) idtx" where
  "put_factor f = checked ErrConstraint
     (\<lambda>d. factor_ok f \<and> account_exists (f_account f) d \<and> f_id f \<notin> f_id ` set (factors d) \<and>
          (f_credential f = None \<or> f_credential f \<notin> f_credential ` set (factors d)) \<and>
          (f_method f = MethodEmail \<longrightarrow>
             \<not> (\<exists>g \<in> set (factors d). f_account g = f_account f \<and> f_method g = MethodEmail)))
     (\<lambda>d. d\<lparr>factors := factors d @ [f]\<rparr>)"

definition insertApp :: "(nat \<Rightarrow> uuid) \<Rightarrow> scope \<Rightarrow> string \<Rightarrow> uuid \<Rightarrow> string \<Rightarrow> bytes \<Rightarrow> int \<Rightarrow> time \<Rightarrow>
    ('a, unit) idtx" where
  "insertApp new sc marketplace account label sealed step now =
     (if nullif marketplace \<noteq> sc then fail ErrConstraint
      else after (fresh_id new) (\<lambda>i.
        put_factor \<lparr>f_id = i, f_account = account, f_scope = sc, f_method = MethodApp,
          f_label = label, f_secret = Some sealed, f_last_step = Some step,
          f_credential = None, f_public_key = None, f_sign_count = 0, f_flags = 0,
          f_created = now, f_used = None\<rparr>))"

definition credential_taken :: "bytes \<Rightarrow> 'a db \<Rightarrow> bool" where
  "credential_taken c d = (\<exists>g \<in> set (factors d). f_credential g = Some c)"

text \<open>The insert of \<^verbatim>\<open>ConfirmKey\<close>: whether a row was added.\<close>

definition insertKey :: "(nat \<Rightarrow> uuid) \<Rightarrow> scope \<Rightarrow> string \<Rightarrow> uuid \<Rightarrow> string \<Rightarrow> bytes \<Rightarrow> bytes \<Rightarrow> int \<Rightarrow>
    int \<Rightarrow> time \<Rightarrow> ('a, bool) idtx" where
  "insertKey new sc marketplace account label credential public_key count flags now =
     (if nullif marketplace \<noteq> sc then fail ErrConstraint
      else after (reads (credential_taken credential)) (\<lambda>taken.
        if taken then ret False
        else after (fresh_id new) (\<lambda>i.
          after (put_factor \<lparr>f_id = i, f_account = account, f_scope = sc, f_method = MethodKey,
            f_label = label, f_secret = None, f_last_step = None,
            f_credential = Some credential, f_public_key = Some public_key,
            f_sign_count = count, f_flags = flags, f_created = now, f_used = None\<rparr>) (\<lambda>_.
          ret True))))"

text \<open>The insert of \<^verbatim>\<open>ConfirmEmail\<close>.\<close>

definition insertEmailFactor :: "(nat \<Rightarrow> uuid) \<Rightarrow> scope \<Rightarrow> string \<Rightarrow> uuid \<Rightarrow> time \<Rightarrow> ('a, unit) idtx" where
  "insertEmailFactor new sc marketplace account now =
     (if nullif marketplace \<noteq> sc then fail ErrConstraint
      else after (fresh_id new) (\<lambda>i.
        put_factor \<lparr>f_id = i, f_account = account, f_scope = sc, f_method = MethodEmail,
          f_label = [], f_secret = None, f_last_step = None, f_credential = None,
          f_public_key = None, f_sign_count = 0, f_flags = 0, f_created = now,
          f_used = None\<rparr>))"

text \<open>
  \<^verbatim>\<open>deleteFactor\<close>: the id comes from a form, and what does not parse as a UUID
  (\<^verbatim>\<open>pgtype.UUID.Scan\<close>, third-party, the parameter \<open>parse\<close>) is a factor the account does
  not have. \<^verbatim>\<open>lockAccount\<close> takes a row lock and changes nothing.
\<close>

definition lockAccount :: "scope \<Rightarrow> uuid \<Rightarrow> ('a, unit) idtx" where
  "lockAccount sc account = ret ()"

definition deleteFactor :: "(string \<Rightarrow> uuid option) \<Rightarrow> scope \<Rightarrow> uuid \<Rightarrow> string \<Rightarrow>
    ('a, factor_row option) idtx" where
  "deleteFactor parse sc account i =
     (case parse i of
        None \<Rightarrow> ret None
      | Some parsed \<Rightarrow>
          after (lockAccount sc account) (\<lambda>_.
          after (reads (\<lambda>d. find (\<lambda>f. f_scope f = sc \<and> f_account f = account \<and> f_id f = parsed)
                   (factors d))) (\<lambda>found.
          after (writes (\<lambda>d. d\<lparr>factors := delete_where
                   (\<lambda>f. f_scope f = sc \<and> f_account f = account \<and> f_id f = parsed) (factors d)\<rparr>)) (\<lambda>_.
          ret found))))"

text \<open>What a factor's use writes: an app's step, a key's counter.\<close>

definition usedApp :: "scope \<Rightarrow> uuid \<Rightarrow> int \<Rightarrow> time \<Rightarrow> ('a, unit) idtx" where
  "usedApp sc i step now = writes (\<lambda>d. d\<lparr>factors := update_where
     (\<lambda>f. f_scope f = sc \<and> f_id f = i)
     (\<lambda>f. f\<lparr>f_last_step := Some step, f_used := Some now\<rparr>) (factors d)\<rparr>)"

definition usedKey :: "scope \<Rightarrow> uuid \<Rightarrow> int \<Rightarrow> int \<Rightarrow> time \<Rightarrow> ('a, unit) idtx" where
  "usedKey sc i count flags now = writes (\<lambda>d. d\<lparr>factors := update_where
     (\<lambda>f. f_scope f = sc \<and> f_id f = i)
     (\<lambda>f. f\<lparr>f_sign_count := count, f_flags := flags, f_used := Some now\<rparr>) (factors d)\<rparr>)"

subsection \<open>Recovery codes\<close>

text \<open>\<^verbatim>\<open>boundRecoveryHash\<close> (recovery.go): the code's hash tied to its account.\<close>

definition boundRecoveryHash :: "(bytes \<Rightarrow> bytes) \<Rightarrow> uuid \<Rightarrow> bytes \<Rightarrow> bytes" where
  "boundRecoveryHash sha256 account h = sha256 (bytes_of account @ h)"

definition deleteRecoveryCodes :: "scope \<Rightarrow> uuid \<Rightarrow> ('a, unit) idtx" where
  "deleteRecoveryCodes sc account = writes (\<lambda>d. d\<lparr>recoveries :=
     delete_where (\<lambda>r. r_scope r = sc \<and> r_account r = account) (recoveries d)\<rparr>)"

definition put_recovery :: "scope \<Rightarrow> string \<Rightarrow> uuid \<Rightarrow> bytes \<Rightarrow> ('a, unit) idtx" where
  "put_recovery sc marketplace account h = checked ErrConstraint
     (\<lambda>d. nullif marketplace = sc \<and> account_exists account d \<and>
          \<not> (\<exists>r \<in> set (recoveries d). r_account r = account \<and> r_hash r = h))
     (\<lambda>d. d\<lparr>recoveries := recoveries d @
            [\<lparr>r_account = account, r_scope = sc, r_hash = h, r_used = None\<rparr>]\<rparr>)"

fun put_recoveries :: "(bytes \<Rightarrow> bytes) \<Rightarrow> scope \<Rightarrow> string \<Rightarrow> uuid \<Rightarrow> bytes list \<Rightarrow>
    ('a, unit) idtx" where
  "put_recoveries sha256 sc marketplace account [] = ret ()"
| "put_recoveries sha256 sc marketplace account (h # hs) =
     after (put_recovery sc marketplace account (boundRecoveryHash sha256 account h)) (\<lambda>_.
       put_recoveries sha256 sc marketplace account hs)"

definition replaceRecoveryCodes :: "(bytes \<Rightarrow> bytes) \<Rightarrow> scope \<Rightarrow> string \<Rightarrow> uuid \<Rightarrow> bytes list \<Rightarrow>
    ('a, unit) idtx" where
  "replaceRecoveryCodes sha256 sc marketplace account hashes =
     after (deleteRecoveryCodes sc account) (\<lambda>_.
       put_recoveries sha256 sc marketplace account hashes)"

text \<open>\<^verbatim>\<open>recoveryCodes\<close>: how many codes the account was issued and how many are unused.\<close>

definition codes_issued :: "scope \<Rightarrow> uuid \<Rightarrow> 'a db \<Rightarrow> nat" where
  "codes_issued sc account d =
     length (filter (\<lambda>r. r_scope r = sc \<and> r_account r = account) (recoveries d))"

definition codes_left :: "scope \<Rightarrow> uuid \<Rightarrow> 'a db \<Rightarrow> nat" where
  "codes_left sc account d =
     length (filter (\<lambda>r. r_scope r = sc \<and> r_account r = account \<and> r_used r = None) (recoveries d))"

definition recoveryCodes :: "scope \<Rightarrow> uuid \<Rightarrow> ('a, nat \<times> nat) idtx" where
  "recoveryCodes sc account = reads (\<lambda>d. (codes_issued sc account d, codes_left sc account d))"

definition useRecoveryCode :: "(bytes \<Rightarrow> bytes) \<Rightarrow> scope \<Rightarrow> uuid \<Rightarrow> bytes \<Rightarrow> time \<Rightarrow> ('a, bool) idtx" where
  "useRecoveryCode sha256 sc account h now =
     (let hit = (\<lambda>r. r_scope r = sc \<and> r_account r = account \<and>
                  r_hash r = boundRecoveryHash sha256 account h \<and> r_used r = None) in
      after (reads (\<lambda>d. length (filter hit (recoveries d)))) (\<lambda>n.
      after (writes (\<lambda>d. d\<lparr>recoveries := update_where hit (\<lambda>r. r\<lparr>r_used := Some now\<rparr>)
               (recoveries d)\<rparr>)) (\<lambda>_.
      ret (n = 1))))"

subsection \<open>Enrolments\<close>

text \<open>\<^verbatim>\<open>putEnrolment\<close>: one per session, a second one replaces the first. The checks of
  \<^verbatim>\<open>factor_enrolment\<close>: an app carries its sealed secret, a key its ceremony.\<close>

definition putEnrolment :: "scope \<Rightarrow> string \<Rightarrow> uuid \<Rightarrow> uuid \<Rightarrow> fmethod \<Rightarrow> bytes option \<Rightarrow>
    bytes option \<Rightarrow> time \<Rightarrow> ('a, unit) idtx" where
  "putEnrolment sc marketplace session account m secret webauthn expires =
     (if nullif marketplace \<noteq> sc then fail ErrConstraint
      else checked ErrConstraint
        (\<lambda>d. account_exists account d \<and> session \<in> s_id ` set (sessions d) \<and>
             (m = MethodApp \<and> secret \<noteq> None \<or> m = MethodKey \<and> webauthn \<noteq> None) \<and>
             (\<forall>e \<in> set (enrolments d). en_session e = session \<longrightarrow> en_scope e = sc))
        (\<lambda>d. if session \<in> en_session ` set (enrolments d)
             then d\<lparr>enrolments := update_where (\<lambda>e. en_session e = session \<and> en_scope e = sc)
                      (\<lambda>e. e\<lparr>en_method := m, en_secret := secret, en_webauthn := webauthn,
                             en_expires := expires\<rparr>) (enrolments d)\<rparr>
             else d\<lparr>enrolments := enrolments d @ [\<lparr>en_session = session, en_account = account,
                      en_scope = sc, en_method = m, en_secret = secret,
                      en_webauthn = webauthn, en_expires = expires\<rparr>]\<rparr>))"

definition enrolmentOf :: "scope \<Rightarrow> uuid \<Rightarrow> fmethod \<Rightarrow> time \<Rightarrow> ('a, enrolment_row) idtx" where
  "enrolmentOf sc session m now =
     after (reads (\<lambda>d. find (\<lambda>e. en_scope e = sc \<and> en_session e = session \<and> en_method e = m \<and>
                              en_expires e > now) (enrolments d))) (\<lambda>found.
       case found of None \<Rightarrow> fail ErrNoEnrolment | Some e \<Rightarrow> ret e)"

definition dropEnrolment :: "scope \<Rightarrow> uuid \<Rightarrow> ('a, unit) idtx" where
  "dropEnrolment sc session = writes (\<lambda>d. d\<lparr>enrolments :=
     delete_where (\<lambda>e. en_scope e = sc \<and> en_session e = session) (enrolments d)\<rparr>)"

subsection \<open>Challenges\<close>

text \<open>The struct the flows read: \<^verbatim>\<open>coalesce\<close> gives "" for no session and no action.\<close>

record challenge =
  Account :: uuid
  Session :: string
  Action :: action
  Attempts :: nat
  WebAuthnSession :: bytes

definition challenge_of :: "challenge_row \<Rightarrow> challenge" where
  "challenge_of r = \<lparr>Account = ch_account r, Session = coalesce (ch_session r),
     Action = coalesce_action (ch_action r), Attempts = ch_attempts r,
     WebAuthnSession = (case ch_webauthn r of None \<Rightarrow> [] | Some b \<Rightarrow> b)\<rparr>"

definition insertChallenge :: "scope \<Rightarrow> string \<Rightarrow> uuid \<Rightarrow> bytes \<Rightarrow> string \<Rightarrow> action \<Rightarrow> time \<Rightarrow>
    ('a, unit) idtx" where
  "insertChallenge sc marketplace account h session act now =
     after (writes (\<lambda>d. d\<lparr>challenges := delete_where
       (\<lambda>c. ch_scope c = sc \<and> ch_account c = account \<and> (ch_expires c \<le> now \<or> ch_used c \<noteq> None))
       (challenges d)\<rparr>)) (\<lambda>_.
     if nullif marketplace \<noteq> sc then fail ErrConstraint
     else checked ErrConstraint
       (\<lambda>d. account_exists account d \<and> h \<notin> ch_hash ` set (challenges d) \<and>
            (session = [] \<longleftrightarrow> act = no_action) \<and>
            (session \<noteq> [] \<longrightarrow> session \<in> s_id ` set (sessions d)))
       (\<lambda>d. d\<lparr>challenges := challenges d @ [\<lparr>ch_hash = h, ch_account = account, ch_scope = sc,
              ch_session = nullif session, ch_action = nullif_action act,
              ch_expires = now + ChallengeLifetime, ch_attempts = 0, ch_used = None,
              ch_webauthn = None\<rparr>]\<rparr>))"

definition endSignIns :: "scope \<Rightarrow> uuid \<Rightarrow> ('a, unit) idtx" where
  "endSignIns sc account = writes (\<lambda>d. d\<lparr>challenges := delete_where
     (\<lambda>c. ch_scope c = sc \<and> ch_account c = account \<and> ch_session c = None) (challenges d)\<rparr>)"

definition challenge_live :: "scope \<Rightarrow> bytes \<Rightarrow> time \<Rightarrow> challenge_row \<Rightarrow> bool" where
  "challenge_live sc h now c \<longleftrightarrow> ch_scope c = sc \<and> ch_hash c = h \<and> ch_used c = None \<and>
     ch_expires c > now \<and> ch_attempts c < ChallengeAttempts"

definition challengeForUpdate :: "scope \<Rightarrow> bytes \<Rightarrow> time \<Rightarrow> ('a, challenge option) idtx" where
  "challengeForUpdate sc h now =
     reads (\<lambda>d. map_option challenge_of (find (challenge_live sc h now) (challenges d)))"

text \<open>\<^verbatim>\<open>challengeAttempt\<close>: counts a wrong answer, and the last one allowed spends the challenge.\<close>

definition count_attempt :: "time \<Rightarrow> challenge_row \<Rightarrow> challenge_row" where
  "count_attempt now c = c\<lparr>ch_attempts := ch_attempts c + 1,
     ch_used := (if ch_attempts c + 1 \<ge> ChallengeAttempts then Some now else ch_used c)\<rparr>"

definition challengeAttempt :: "scope \<Rightarrow> bytes \<Rightarrow> time \<Rightarrow> ('a, nat) idtx" where
  "challengeAttempt sc h now =
     after (writes (\<lambda>d. d\<lparr>challenges := update_where (\<lambda>c. ch_scope c = sc \<and> ch_hash c = h)
              (count_attempt now) (challenges d)\<rparr>)) (\<lambda>_.
     the_row (reads (\<lambda>d. map_option ch_attempts
              (find (\<lambda>c. ch_scope c = sc \<and> ch_hash c = h) (challenges d)))))"

definition spendChallenge :: "scope \<Rightarrow> bytes \<Rightarrow> time \<Rightarrow> ('a, unit) idtx" where
  "spendChallenge sc h now = writes (\<lambda>d. d\<lparr>challenges := update_where
     (\<lambda>c. ch_scope c = sc \<and> ch_hash c = h) (\<lambda>c. c\<lparr>ch_used := Some now\<rparr>) (challenges d)\<rparr>)"

definition challengeAddress :: "scope \<Rightarrow> bytes \<Rightarrow> 'a db \<Rightarrow> string option" where
  "challengeAddress sc h d =
     (case find (\<lambda>c. ch_scope c = sc \<and> ch_hash c = h) (challenges d) of
        None \<Rightarrow> None
      | Some c \<Rightarrow> map_option a_normalised
          (find (\<lambda>a. a_scope a = sc \<and> a_id a = ch_account c) (accounts d)))"

text \<open>The ceremony \<^verbatim>\<open>KeyOptions\<close> keeps with the challenge.\<close>

definition keepCeremony :: "scope \<Rightarrow> bytes \<Rightarrow> bytes \<Rightarrow> ('a, unit) idtx" where
  "keepCeremony sc h ceremony = writes (\<lambda>d. d\<lparr>challenges := update_where
     (\<lambda>c. ch_scope c = sc \<and> ch_hash c = h) (\<lambda>c. c\<lparr>ch_webauthn := Some ceremony\<rparr>) (challenges d)\<rparr>)"

subsection \<open>E-mail codes\<close>

definition purposeSignIn :: string where "purposeSignIn = ''signin''"
definition purposeStepUp :: string where "purposeStepUp = ''stepup''"
definition purposeEnrol :: string where "purposeEnrol = ''enrol''"

definition codes_since :: "scope \<Rightarrow> uuid \<Rightarrow> time \<Rightarrow> 'a db \<Rightarrow> nat" where
  "codes_since sc account since d =
     length (filter (\<lambda>c. ec_scope c = sc \<and> ec_account c = account \<and> ec_created c > since) (codes d))"

definition emailCodesSince :: "scope \<Rightarrow> uuid \<Rightarrow> time \<Rightarrow> ('a, nat) idtx" where
  "emailCodesSince sc account since = reads (codes_since sc account since)"

definition insertEmailCode :: "(nat \<Rightarrow> uuid) \<Rightarrow> scope \<Rightarrow> string \<Rightarrow> uuid \<Rightarrow> string \<Rightarrow> bytes \<Rightarrow> time \<Rightarrow>
    ('a, unit) idtx" where
  "insertEmailCode new sc marketplace account purpose h now =
     after (writes (\<lambda>d. d\<lparr>codes := delete_where
       (\<lambda>c. ec_scope c = sc \<and> ec_account c = account \<and> ec_created c \<le> now - hour) (codes d)\<rparr>)) (\<lambda>_.
     after (writes (\<lambda>d. d\<lparr>codes := update_where
       (\<lambda>c. ec_scope c = sc \<and> ec_account c = account \<and> ec_purpose c = purpose \<and> ec_used c = None)
       (\<lambda>c. c\<lparr>ec_used := Some now\<rparr>) (codes d)\<rparr>)) (\<lambda>_.
     if nullif marketplace \<noteq> sc then fail ErrConstraint
     else after (fresh_id new) (\<lambda>i.
       checked ErrConstraint
         (\<lambda>d. account_exists account d \<and> i \<notin> ec_id ` set (codes d) \<and>
              purpose \<in> {purposeSignIn, purposeStepUp, purposeEnrol})
         (\<lambda>d. d\<lparr>codes := codes d @ [\<lparr>ec_id = i, ec_account = account, ec_scope = sc,
                ec_purpose = purpose, ec_hash = h, ec_expires = now + EmailCodeLifetime,
                ec_attempts = 0, ec_used = None, ec_created = now\<rparr>]\<rparr>))))"

definition code_live :: "scope \<Rightarrow> uuid \<Rightarrow> string \<Rightarrow> time \<Rightarrow> code_row \<Rightarrow> bool" where
  "code_live sc account purpose now c \<longleftrightarrow> ec_scope c = sc \<and> ec_account c = account \<and>
     ec_purpose c = purpose \<and> ec_used c = None \<and> ec_expires c > now \<and>
     ec_attempts c < EmailCodeAttempts"

text \<open>\<^verbatim>\<open>ORDER BY created_at DESC LIMIT 1\<close>: the youngest live code.\<close>

definition youngest :: "code_row list \<Rightarrow> code_row option" where
  "youngest cs = (case sort_key (\<lambda>c. - ec_created c) cs of [] \<Rightarrow> None | c # _ \<Rightarrow> Some c)"

definition spendCode :: "scope \<Rightarrow> uuid \<Rightarrow> time \<Rightarrow> ('a, unit) idtx" where
  "spendCode sc i now = writes (\<lambda>d. d\<lparr>codes := update_where
     (\<lambda>c. ec_scope c = sc \<and> ec_id c = i) (\<lambda>c. c\<lparr>ec_used := Some now\<rparr>) (codes d)\<rparr>)"

definition emailFactorUsed :: "scope \<Rightarrow> uuid \<Rightarrow> time \<Rightarrow> ('a, unit) idtx" where
  "emailFactorUsed sc account now = writes (\<lambda>d. d\<lparr>factors := update_where
     (\<lambda>f. f_scope f = sc \<and> f_account f = account \<and> f_method f = MethodEmail)
     (\<lambda>f. f\<lparr>f_used := Some now\<rparr>) (factors d)\<rparr>)"

definition codeAttempt :: "scope \<Rightarrow> uuid \<Rightarrow> ('a, unit) idtx" where
  "codeAttempt sc i = writes (\<lambda>d. d\<lparr>codes := update_where
     (\<lambda>c. ec_scope c = sc \<and> ec_id c = i) (\<lambda>c. c\<lparr>ec_attempts := ec_attempts c + 1\<rparr>) (codes d)\<rparr>)"

subsection \<open>The run of failed second factors\<close>

definition failures_of :: "scope \<Rightarrow> uuid \<Rightarrow> 'a db \<Rightarrow> nat" where
  "failures_of sc account d =
     (case find (\<lambda>r. fa_scope r = sc \<and> fa_account r = account) (failures d) of
        None \<Rightarrow> 0 | Some r \<Rightarrow> fa_failures r)"

definition secondFactorFailures :: "scope \<Rightarrow> uuid \<Rightarrow> ('a, nat) idtx" where
  "secondFactorFailures sc account = reads (failures_of sc account)"

definition countFailure :: "scope \<Rightarrow> string \<Rightarrow> uuid \<Rightarrow> time \<Rightarrow> ('a, nat) idtx" where
  "countFailure sc marketplace account now =
     (if nullif marketplace \<noteq> sc then fail ErrConstraint
      else after (checked ErrConstraint
        (\<lambda>d. account_exists account d \<and>
             (\<forall>r \<in> set (failures d). fa_account r = account \<longrightarrow> fa_scope r = sc))
        (\<lambda>d. if account \<in> fa_account ` set (failures d)
             then d\<lparr>failures := update_where (\<lambda>r. fa_account r = account \<and> fa_scope r = sc)
                      (\<lambda>r. r\<lparr>fa_failures := fa_failures r + 1, fa_updated := now\<rparr>) (failures d)\<rparr>
             else d\<lparr>failures := failures d @ [\<lparr>fa_account = account, fa_scope = sc,
                      fa_failures = 1, fa_updated = now\<rparr>]\<rparr>)) (\<lambda>_.
        reads (failures_of sc account)))"

definition clearFailures :: "scope \<Rightarrow> uuid \<Rightarrow> ('a, unit) idtx" where
  "clearFailures sc account = writes (\<lambda>d. d\<lparr>failures :=
     delete_where (\<lambda>r. fa_scope r = sc \<and> fa_account r = account) (failures d)\<rparr>)"

end
