(* ===== verification/Service.thy ===== *)
theory Service
  imports Password AuditTrail FactorTables
begin

text \<open>
  The identity service: what it is given (src/internal/identity/identity.go, \<^verbatim>\<open>Service\<close>),
  the visit a flow runs for, the transaction it runs in, and what every flow does with the
  audit log and the mail (notify.go, \<^verbatim>\<open>mail.Request\<close> of src/internal/platform/mail/mailer.go).

  \<open>service\<close> holds the parts that are not under src/ as parameters: SHA-256 and HMAC-SHA-1,
  NFKC and argon2 (in the hasher), the breach list, the RFC 5322 parser, UUID parsing,
  PostgreSQL's \<^verbatim>\<open>gen_random_uuid\<close>, and the WebAuthn library; and the two interfaces the flows
  use, the auditor and the sealer, which the audit log implements. Random draws, the clock
  and whether a hashing slot was got are arguments of a flow.
\<close>

subsection \<open>WebAuthn, a third-party library\<close>

record relying_party =
  RPID :: string
  RPDisplayName :: string
  RPOrigins :: "string list"

record key_credential =
  kc_id :: bytes
  kc_public :: bytes
  kc_flags :: int
  kc_count :: int

record key_user =
  ku_account :: account
  ku_credentials :: "key_credential list"

record asserted =
  as_id :: bytes
  as_clone :: bool
  as_count :: int
  as_flags :: int

text \<open>
  Ceremonies, options and parsed answers are opaque bytes. \<open>wa_host\<close> is the host of a URL
  (\<^verbatim>\<open>url.Parse\<close> and \<^verbatim>\<open>Hostname\<close>); \<open>wa_new\<close> whether \<^verbatim>\<open>webauthn.New\<close> accepts a configuration.
\<close>

record webauthn =
  wa_host :: "string \<Rightarrow> string option"
  wa_new :: "relying_party \<Rightarrow> bool"
  wa_begin_registration :: "relying_party \<Rightarrow> key_user \<Rightarrow> bytes list \<Rightarrow> (bytes \<times> bytes) option"
  wa_parse_creation :: "bytes \<Rightarrow> bytes option"
  wa_session :: "bytes \<Rightarrow> bytes option"
  wa_create :: "relying_party \<Rightarrow> key_user \<Rightarrow> bytes \<Rightarrow> bytes \<Rightarrow> key_credential option"
  wa_begin_login :: "relying_party \<Rightarrow> key_user \<Rightarrow> (bytes \<times> bytes) option"
  wa_parse_assertion :: "bytes \<Rightarrow> (bytes \<times> int) option"
  wa_validate :: "relying_party \<Rightarrow> key_user \<Rightarrow> bytes \<Rightarrow> bytes \<Rightarrow> asserted option"

subsection \<open>The service\<close>

record 'a sealer =
  seal_for :: "uuid \<Rightarrow> bytes \<Rightarrow> ('a, id_error, bytes) tx"
  open_for :: "uuid \<Rightarrow> bytes \<Rightarrow> ('a, id_error, bytes) tx"

record 'a service =
  sv_sha256 :: "bytes \<Rightarrow> bytes"
  sv_hmac :: "bytes \<Rightarrow> bytes \<Rightarrow> bytes"
  sv_hasher :: hasher
  sv_breached :: "string \<Rightarrow> bool option"
  sv_parse_address :: "string \<Rightarrow> (string \<times> string) option"
  sv_parse_uuid :: "string \<Rightarrow> uuid option"
  sv_new_id :: "nat \<Rightarrow> uuid"
  sv_audit :: "scope \<Rightarrow> entry \<Rightarrow> ('a, id_error, unit) tx"
  sv_sealer :: "'a sealer option"
  sv_webauthn :: webauthn

record visit =
  v_marketplace :: string
  v_platform :: bool
  v_name :: string
  v_language :: string
  v_ip :: string
  v_agent :: string
  v_base :: string

text \<open>\<^verbatim>\<open>Visit.link\<close>.\<close>

definition link :: "visit \<Rightarrow> string \<Rightarrow> go_map \<Rightarrow> string" where
  "link v path query =
     (let u = v_base v @ ''/'' @ v_language v @ path in
      if length query > 0 then u @ CHR ''?'' # encode_query query else u)"

text \<open>
  \<^verbatim>\<open>Service.within\<close>, with \<^verbatim>\<open>db.Pool.InTxFor\<close> and \<^verbatim>\<open>InTx\<close>: the marketplace's transaction, or
  the platform's, which names none.
\<close>

definition within :: "visit \<Rightarrow> (scope \<Rightarrow> ('a, 'x) idtx) \<Rightarrow> 'a db \<Rightarrow> (id_error + 'x) \<times> 'a db" where
  "within v body d =
     (if v_platform v then
        (if v_marketplace v \<noteq> [] then (Inl ErrVisitScope, d) else in_tx (body None) d)
      else if v_marketplace v = [] then (Inl ErrNoScope, d)
      else in_tx (body (Some (v_marketplace v))) d)"

text \<open>The scope a visit's transactions have, when they have one.\<close>

definition visit_ok :: "visit \<Rightarrow> bool" where
  "visit_ok v = (v_platform v = (v_marketplace v = []))"

definition scope_of :: "visit \<Rightarrow> scope" where
  "scope_of v = nullif (v_marketplace v)"

lemma within_ok: "visit_ok v \<Longrightarrow> within v body d = in_tx (body (scope_of v)) d"
  by (auto simp: visit_ok_def within_def scope_of_def nullif_def)

lemma within_refused:
  "\<not> visit_ok v \<Longrightarrow> within v body d = (Inl (if v_platform v then ErrVisitScope else ErrNoScope), d)"
  by (auto simp: visit_ok_def within_def)

lemma within_Inr:
  "within v body d = (Inr x, d') \<longleftrightarrow> visit_ok v \<and> body (scope_of v) d = Inr (x, d')"
  by (cases "visit_ok v") (simp_all add: within_ok within_refused in_tx_Inr)

lemma within_Inl: "within v body d = (Inl e, d') \<Longrightarrow> d' = d"
  by (cases "visit_ok v") (auto simp: within_ok within_refused in_tx_Inl)

definition actorKind :: "visit \<Rightarrow> string" where
  "actorKind v = (if v_platform v then Staff else Buyer)"

subsection \<open>The trail\<close>

text \<open>A step of the auditor or the sealer, in the flow's transaction.\<close>

definition on_trail :: "('a, id_error, 'x) tx \<Rightarrow> ('a, 'x) idtx" where
  "on_trail f = (\<lambda>d. case f (trail d) of Inl e \<Rightarrow> Inl e | Inr (x, t) \<Rightarrow> Inr (x, d\<lparr>trail := t\<rparr>))"

lemma on_trail_Inr [tx_simps]:
  "on_trail f d = Inr r \<longleftrightarrow> (\<exists>x t. f (trail d) = Inr (x, t) \<and> r = (x, d\<lparr>trail := t\<rparr>))"
  by (auto simp: on_trail_def split: sum.splits)

definition recordWith :: "'a service \<Rightarrow> scope \<Rightarrow> visit \<Rightarrow> uuid \<Rightarrow> string \<Rightarrow> go_map \<Rightarrow> ('a, unit) idtx" where
  "recordWith S sc v account act detail =
     on_trail (sv_audit S sc \<lparr>e_marketplace = v_marketplace v, e_actor = account,
       e_kind = actorKind v, e_action = act, e_subject_kind = ''account'', e_subject = account,
       e_person = account, e_from = v_ip v, e_before = [],
       e_after = json_map (copy_into (go_map [(''user_agent'', v_agent v)]) detail)\<rparr>)"

definition record_own :: "'a service \<Rightarrow> scope \<Rightarrow> visit \<Rightarrow> uuid \<Rightarrow> string \<Rightarrow> ('a, unit) idtx" where
  "record_own S sc v account act = recordWith S sc v account act []"

definition refusalWith :: "'a service \<Rightarrow> scope \<Rightarrow> visit \<Rightarrow> uuid \<Rightarrow> string \<Rightarrow> go_map \<Rightarrow> ('a, unit) idtx" where
  "refusalWith S sc v account act detail =
     on_trail (sv_audit S sc \<lparr>e_marketplace = v_marketplace v, e_actor = [],
       e_kind = System, e_action = act, e_subject_kind = ''account'', e_subject = account,
       e_person = [], e_from = v_ip v, e_before = [],
       e_after = json_map (copy_into (go_map [(''user_agent'', v_agent v)]) detail)\<rparr>)"

definition refusal :: "'a service \<Rightarrow> scope \<Rightarrow> visit \<Rightarrow> uuid \<Rightarrow> string \<Rightarrow> ('a, unit) idtx" where
  "refusal S sc v account act = refusalWith S sc v account act []"

text \<open>\<^verbatim>\<open>mail.Request\<close>, and \<^verbatim>\<open>notify\<close>.\<close>

definition Request :: "message \<Rightarrow> ('a, unit) idtx" where
  "Request m = writes (\<lambda>d. d\<lparr>outbox := outbox d @ [m]\<rparr>)"

definition notify :: "visit \<Rightarrow> account \<Rightarrow> string \<Rightarrow> go_map \<Rightarrow> ('a, unit) idtx" where
  "notify v account template variables =
     Request \<lparr>Template = template, msg_language = v_language v, To = Email account,
       From = v_name v, msg_marketplace = v_marketplace v,
       Variables = copy_into (go_map [(''Name'', Name account)]) variables\<rparr>"

subsection \<open>Sessions as flows see them\<close>

record session =
  se_id :: uuid
  se_account :: account
  se_second :: bool
  se_stepped :: "time option"
  se_confirmed :: "time option"

definition StepUpLifetime :: int where "StepUpLifetime = 10 * minute"
definition sweepEvery :: int where "sweepEvery = hour"

lemmas [durations] = StepUpLifetime_def sweepEvery_def

text \<open>\<^verbatim>\<open>NeedsStepUp\<close> and \<^verbatim>\<open>recent\<close> (stepup.go).\<close>

definition recent :: "time \<Rightarrow> time option \<Rightarrow> bool" where
  "recent now at = (case at of None \<Rightarrow> False | Some t \<Rightarrow> now - t < StepUpLifetime)"

definition NeedsStepUp :: "time \<Rightarrow> session \<Rightarrow> action \<Rightarrow> bool" where
  "NeedsStepUp now s act =
     (let asks = StepUpFor (Kind (se_account s)) act (se_second s) in
      if \<not> Asked asks \<or> recent now (se_stepped s) then False
      else \<not> StepUpEmail asks \<or> \<not> recent now (se_confirmed s))"

subsection \<open>Errors of the checks\<close>

fun password_error :: "text_error \<Rightarrow> id_error" where
  "password_error TextShort = ErrPasswordShort"
| "password_error _ = ErrPasswordLong"

fun name_error :: "text_error \<Rightarrow> id_error" where
  "name_error TextMissing = ErrNameMissing"
| "name_error _ = ErrNameInvalid"

text \<open>\<^verbatim>\<open>checkNew\<close>: the length rule, then the breach list, which fails open.\<close>

definition checkNew :: "'a service \<Rightarrow> string \<Rightarrow> id_error + unit" where
  "checkNew S password =
     (case CheckPassword (h_nfkc (sv_hasher S)) password of
        Inl e \<Rightarrow> Inl (password_error e)
      | Inr _ \<Rightarrow>
          (case sv_breached S (h_nfkc (sv_hasher S) password) of
             None \<Rightarrow> Inr ()
           | Some found \<Rightarrow> if found then Inl ErrPasswordBreached else Inr ()))"

end
