(* ===== verification/Accounts.thy ===== *)
theory Accounts
  imports Service
begin

text \<open>
  The account flows: src/internal/identity/identity.go and staff.go. A flow is a function
  of the database and gives its answer and the database after it. A flow that hashes
  between two transactions (\<open>signIn\<close>, \<open>ChangePassword\<close>) takes what everybody else did in
  between as the argument \<open>other\<close>, any function of the database. \<^verbatim>\<open>ErrSecondStep\<close>, which is no
  refusal, is the answer \<open>ChallengeOpened\<close>. \<^verbatim>\<open>Hasher.Waste\<close> and the log lines change no state
  and are left out.
\<close>

text \<open>What the outside draws for a flow: slots for a verification and a hash, a salt, a token.\<close>

record draws =
  dr_verify :: bool
  dr_hash :: bool
  dr_salt :: bytes
  dr_token :: bytes

subsection \<open>Signing up and confirming\<close>

definition signup_tx :: "'a service \<Rightarrow> scope \<Rightarrow> visit \<Rightarrow> string \<Rightarrow> string \<Rightarrow> string \<Rightarrow> string \<Rightarrow>
    string \<Rightarrow> bytes \<Rightarrow> time \<Rightarrow> ('a, unit) idtx" where
  "signup_tx S sc v name email normalised secret token h now =
     after (insertAccount (sv_new_id S) sc (v_marketplace v) (trim_space email) normalised name) (\<lambda>inserted.
     case inserted of
       None \<Rightarrow>
         after (the_row (accountByEmail sc normalised)) (\<lambda>existing.
           Request \<lparr>Template = ''account-exists'', msg_language = v_language v, To = Email existing,
             From = v_name v, msg_marketplace = v_marketplace v,
             Variables = go_map [(''Name'', Name existing), (''SignIn'', link v ''/signin'' [])]\<rparr>)
     | Some i \<Rightarrow>
         after (setPassword sc (v_marketplace v) i secret) (\<lambda>_.
         after (insertVerification sc (v_marketplace v) i h (now + VerificationLifetime)) (\<lambda>_.
         after (Request \<lparr>Template = ''verify-email'', msg_language = v_language v,
             To = trim_space email, From = v_name v, msg_marketplace = v_marketplace v,
             Variables = go_map [(''Name'', name), (''Link'', link v ''/verify'' (go_map [(''token'', token)]))]\<rparr>) (\<lambda>_.
         record_own S sc v i ''identity.signup''))))"

definition SignUp :: "'a service \<Rightarrow> visit \<Rightarrow> string \<Rightarrow> string \<Rightarrow> string \<Rightarrow> draws \<Rightarrow> time \<Rightarrow> 'a db \<Rightarrow>
    (id_error + unit) \<times> 'a db" where
  "SignUp S v name email password r now d =
     (case CheckName name of
        Inl e \<Rightarrow> (Inl (name_error e), d)
      | Inr name \<Rightarrow>
     (case NormaliseEmail (sv_parse_address S) email of
        Inl e \<Rightarrow> (Inl ErrEmailInvalid, d)
      | Inr normalised \<Rightarrow>
     (case checkNew S password of
        Inl e \<Rightarrow> (Inl e, d)
      | Inr _ \<Rightarrow>
     (case Hash (sv_hasher S) (dr_hash r) (dr_salt r) password of
        Inl e \<Rightarrow> (Inl e, d)
      | Inr secret \<Rightarrow>
          let (token, h) = NewToken (sv_sha256 S) (dr_token r) in
          within v (\<lambda>sc. signup_tx S sc v name email normalised secret token h now) d))))"

text \<open>\<^verbatim>\<open>Service.Verify\<close> spends a confirmation token.\<close>

definition verify_tx :: "'a service \<Rightarrow> scope \<Rightarrow> visit \<Rightarrow> bytes \<Rightarrow> time \<Rightarrow> ('a, unit) idtx" where
  "verify_tx S sc v h now =
     after (consumeVerification sc h now) (\<lambda>account.
     case account of
       None \<Rightarrow> fail ErrTokenInvalid
     | Some a \<Rightarrow> record_own S sc v a ''identity.email_verified'')"

definition VerifyEmail :: "'a service \<Rightarrow> visit \<Rightarrow> string \<Rightarrow> time \<Rightarrow> 'a db \<Rightarrow> (id_error + unit) \<times> 'a db" where
  "VerifyEmail S v token now d =
     within v (\<lambda>sc. verify_tx S sc v (HashToken (sv_sha256 S) token) now) d"

definition resend_tx :: "'a service \<Rightarrow> scope \<Rightarrow> visit \<Rightarrow> string \<Rightarrow> string \<Rightarrow> bytes \<Rightarrow> time \<Rightarrow> ('a, unit) idtx" where
  "resend_tx S sc v normalised token h now =
     after (accountByEmail sc normalised) (\<lambda>found.
     case found of
       None \<Rightarrow> ret ()
     | Some account \<Rightarrow>
         if VerifiedAt account \<noteq> None then ret ()
         else after (insertVerification sc (v_marketplace v) (ID account) h
                       (now + VerificationLifetime)) (\<lambda>_.
           Request \<lparr>Template = ''verify-email'', msg_language = v_language v,
             To = Email account, From = v_name v, msg_marketplace = v_marketplace v,
             Variables = go_map [(''Name'', Name account),
               (''Link'', link v ''/verify'' (go_map [(''token'', token)]))]\<rparr>))"

definition Resend :: "'a service \<Rightarrow> visit \<Rightarrow> string \<Rightarrow> draws \<Rightarrow> time \<Rightarrow> 'a db \<Rightarrow> (id_error + unit) \<times> 'a db" where
  "Resend S v email r now d =
     (case NormaliseEmail (sv_parse_address S) email of
        Inl e \<Rightarrow> (Inr (), d)
      | Inr normalised \<Rightarrow>
          let (token, h) = NewToken (sv_sha256 S) (dr_token r) in
          within v (\<lambda>sc. resend_tx S sc v normalised token h now) d)"

subsection \<open>Signing in\<close>

definition credentials_tx :: "scope \<Rightarrow> string \<Rightarrow> ('a, (account \<times> string) option) idtx" where
  "credentials_tx sc normalised =
     after (accountByEmail sc normalised) (\<lambda>found.
     case found of
       None \<Rightarrow> ret None
     | Some a \<Rightarrow> after (passwordOf sc (ID a)) (\<lambda>secret. ret (Some (a, secret))))"

definition credentials_of :: "visit \<Rightarrow> string \<Rightarrow> 'a db \<Rightarrow> (id_error + (account \<times> string) option) \<times> 'a db" where
  "credentials_of v normalised d = within v (\<lambda>sc. credentials_tx sc normalised) d"

text \<open>The second transaction: whether it opened a challenge rather than a session.\<close>

definition signin_tx :: "'a service \<Rightarrow> scope \<Rightarrow> visit \<Rightarrow> uuid \<Rightarrow> string \<Rightarrow> string \<Rightarrow> bytes \<Rightarrow> time \<Rightarrow>
    ('a, bool) idtx" where
  "signin_tx S sc v account secret fresh h now =
     after (passwordStill sc account secret) (\<lambda>still.
     if \<not> still then fail ErrCredentials
     else after (if fresh \<noteq> [] then setPassword sc (v_marketplace v) account fresh else ret ()) (\<lambda>_.
     after (countFactors sc account) (\<lambda>factors.
     if factors > 0
     then after (insertChallenge sc (v_marketplace v) account h [] no_action now) (\<lambda>_. ret True)
     else after (insertSession (sv_new_id S) sc (v_marketplace v) account h (v_ip v) (v_agent v) now) (\<lambda>_.
          after (record_own S sc v account ''identity.signin'') (\<lambda>_. ret False)))))"

datatype entered = SessionOpened string | ChallengeOpened string

definition signIn :: "'a service \<Rightarrow> visit \<Rightarrow> string \<Rightarrow> string \<Rightarrow> draws \<Rightarrow> ('a db \<Rightarrow> 'a db) \<Rightarrow> time \<Rightarrow>
    'a db \<Rightarrow> (id_error + entered) \<times> 'a db" where
  "signIn S v email password r other now d =
     (if length password > maxPasswordBytes then (Inl ErrCredentials, d)
      else case NormaliseEmail (sv_parse_address S) email of
        Inl e \<Rightarrow> (Inl ErrCredentials, d)
      | Inr normalised \<Rightarrow>
     (case credentials_of v normalised d of
        (Inl e, d1) \<Rightarrow> (Inl e, d1)
      | (Inr None, d1) \<Rightarrow> (Inl ErrCredentials, d1)
      | (Inr (Some (account, secret)), d1) \<Rightarrow>
     (case VerifyPassword (sv_hasher S) (dr_verify r) password secret of
        Inl e \<Rightarrow> (Inl e, d1)
      | Inr (ok, stale) \<Rightarrow>
          let d2 = other d1 in
          if \<not> ok then
            (case within v (\<lambda>sc. refusal S sc v (ID account) ''identity.signin_failed'') d2 of
               (Inl e, d3) \<Rightarrow> (Inl e, d3)
             | (Inr _, d3) \<Rightarrow> (Inl ErrCredentials, d3))
          else if VerifiedAt account = None then (Inl ErrUnverified, d2)
          else
            (case (if stale then Hash (sv_hasher S) (dr_hash r) (dr_salt r) password else Inr []) of
               Inl e \<Rightarrow> (Inl e, d2)
             | Inr fresh \<Rightarrow>
                 let (token, h) = NewToken (sv_sha256 S) (dr_token r) in
                 (case within v (\<lambda>sc. signin_tx S sc v (ID account) secret fresh h now) d2 of
                    (Inl e, d3) \<Rightarrow> (Inl e, d3)
                  | (Inr challenged, d3) \<Rightarrow>
                      (Inr (if challenged then ChallengeOpened token else SessionOpened token), d3))))))"

text \<open>\<^verbatim>\<open>Service.sweep\<close>: \<open>lst\<close> is the process's own record of its last sweep.\<close>

definition sweep :: "visit \<Rightarrow> time \<Rightarrow> time \<Rightarrow> 'a db \<Rightarrow> time \<times> 'a db" where
  "sweep v lst now d =
     (if now - lst \<ge> sweepEvery
      then (now, snd (within v (\<lambda>sc. sweepSessions sc (v_marketplace v) now) d))
      else (lst, d))"

definition SignIn :: "'a service \<Rightarrow> visit \<Rightarrow> string \<Rightarrow> string \<Rightarrow> draws \<Rightarrow> ('a db \<Rightarrow> 'a db) \<Rightarrow> time \<Rightarrow>
    time \<Rightarrow> time \<Rightarrow> 'a db \<Rightarrow> (id_error + entered) \<times> time \<times> 'a db" where
  "SignIn S v email password r other now lst later d =
     (case signIn S v email password r other now d of
        (Inr (SessionOpened token), d') \<Rightarrow> (Inr (SessionOpened token), sweep v lst later d')
      | (answer, d') \<Rightarrow> (answer, lst, d'))"

subsection \<open>Ending a session\<close>

definition end_tx :: "'a service \<Rightarrow> scope \<Rightarrow> visit \<Rightarrow> bytes \<Rightarrow> string \<Rightarrow> string \<Rightarrow> time \<Rightarrow> ('a, unit) idtx" where
  "end_tx S sc v h reason act now =
     after (revokeSession sc h reason now) (\<lambda>account.
     case account of None \<Rightarrow> ret () | Some a \<Rightarrow> record_own S sc v a act)"

definition end_session :: "'a service \<Rightarrow> visit \<Rightarrow> string \<Rightarrow> string \<Rightarrow> string \<Rightarrow> time \<Rightarrow> 'a db \<Rightarrow>
    (id_error + unit) \<times> 'a db" where
  "end_session S v token reason act now d =
     within v (\<lambda>sc. end_tx S sc v (HashToken (sv_sha256 S) token) reason act now) d"

definition SignOut :: "'a service \<Rightarrow> visit \<Rightarrow> string \<Rightarrow> time \<Rightarrow> 'a db \<Rightarrow> (id_error + unit) \<times> 'a db" where
  "SignOut S v token now d = end_session S v token ''signout'' ''identity.signout'' now d"

definition Supersede :: "'a service \<Rightarrow> visit \<Rightarrow> string \<Rightarrow> time \<Rightarrow> 'a db \<Rightarrow> (id_error + unit) \<times> 'a db" where
  "Supersede S v token now d = end_session S v token ''replaced'' ''identity.session_replaced'' now d"

subsection \<open>Authenticating a request\<close>

definition authenticate_tx :: "scope \<Rightarrow> bytes \<Rightarrow> time \<Rightarrow> ('a, session) idtx" where
  "authenticate_tx sc h now =
     after (liveSession sc h) (\<lambda>found.
     case found of
       None \<Rightarrow> fail ErrSessionInvalid
     | Some (row, factor) \<Rightarrow>
         if now - s_seen row > SessionIdle \<or> now - s_created row > SessionLifetime
         then fail ErrSessionInvalid
         else after (if now - s_seen row > touchEvery then touchSession sc (s_id row) now else ret ()) (\<lambda>_.
              after (accountByID sc (s_account row)) (\<lambda>account.
              ret \<lparr>se_id = s_id row, se_account = account, se_second = factor,
                   se_stepped = s_stepped_up row, se_confirmed = s_email_confirmed row\<rparr>)))"

definition authenticate :: "'a service \<Rightarrow> visit \<Rightarrow> string \<Rightarrow> time \<Rightarrow> 'a db \<Rightarrow> (id_error + session) \<times> 'a db" where
  "authenticate S v token now d =
     within v (\<lambda>sc. authenticate_tx sc (HashToken (sv_sha256 S) token) now) d"

definition bare_visit :: "string \<Rightarrow> bool \<Rightarrow> visit" where
  "bare_visit marketplace platform = \<lparr>v_marketplace = marketplace, v_platform = platform,
     v_name = [], v_language = [], v_ip = [], v_agent = [], v_base = []\<rparr>"

definition Authenticate :: "'a service \<Rightarrow> string \<Rightarrow> string \<Rightarrow> time \<Rightarrow> 'a db \<Rightarrow> (id_error + session) \<times> 'a db" where
  "Authenticate S marketplace token now d = authenticate S (bare_visit marketplace False) token now d"

definition AuthenticateStaff :: "'a service \<Rightarrow> string \<Rightarrow> time \<Rightarrow> 'a db \<Rightarrow> (id_error + session) \<times> 'a db" where
  "AuthenticateStaff S token now d =
     (case authenticate S (bare_visit [] True) token now d of
        (Inl e, d') \<Rightarrow> (Inl e, d')
      | (Inr s, d') \<Rightarrow>
          if Kind (se_account s) \<noteq> KindStaff then (Inl ErrSessionInvalid, d') else (Inr s, d'))"

subsection \<open>Changing a password\<close>

definition change_tx :: "'a service \<Rightarrow> scope \<Rightarrow> visit \<Rightarrow> session \<Rightarrow> string \<Rightarrow> string \<Rightarrow> bytes \<Rightarrow> time \<Rightarrow>
    ('a, unit) idtx" where
  "change_tx S sc v s secret fresh h now =
     (let account = ID (se_account s) in
      after (passwordStill sc account secret) (\<lambda>still.
      if \<not> still then fail ErrCredentials
      else after (endSignIns sc account) (\<lambda>_.
      after (setPassword sc (v_marketplace v) account fresh) (\<lambda>_.
      after (revokeSessions sc account now) (\<lambda>_.
      after (insertSession (sv_new_id S) sc (v_marketplace v) account h (v_ip v) (v_agent v) now) (\<lambda>_.
      after (case se_stepped s of
               None \<Rightarrow> ret ()
             | Some at \<Rightarrow> after (sessionID sc h) (\<lambda>i. markSteppedUp sc i at)) (\<lambda>_.
      after (record_own S sc v account ''identity.password_changed'') (\<lambda>_.
      after (Request \<lparr>Template = ''password-changed'', msg_language = v_language v,
          To = Email (se_account s), From = v_name v, msg_marketplace = v_marketplace v,
          Variables = go_map [(''Name'', Name (se_account s))]\<rparr>) (\<lambda>_.
      clearFailures sc account)))))))))"

text \<open>\<open>at\<close> is the clock when the step-up is asked for, \<open>now\<close> in the second transaction.\<close>

definition ChangePassword :: "'a service \<Rightarrow> visit \<Rightarrow> session \<Rightarrow> string \<Rightarrow> string \<Rightarrow> draws \<Rightarrow>
    ('a db \<Rightarrow> 'a db) \<Rightarrow> time \<Rightarrow> time \<Rightarrow> 'a db \<Rightarrow> (id_error + string) \<times> 'a db" where
  "ChangePassword S v s current new r other at now d =
     (if length current > maxPasswordBytes then (Inl ErrCredentials, d)
      else if NeedsStepUp at s ActionPassword then (Inl ErrStepUpNeeded, d)
      else case checkNew S new of
        Inl e \<Rightarrow> (Inl e, d)
      | Inr _ \<Rightarrow>
     (case within v (\<lambda>sc. passwordOf sc (ID (se_account s))) d of
        (Inl e, d1) \<Rightarrow> (Inl e, d1)
      | (Inr secret, d1) \<Rightarrow>
     (case VerifyPassword (sv_hasher S) (dr_verify r) current secret of
        Inl e \<Rightarrow> (Inl e, d1)
      | Inr (ok, stale) \<Rightarrow>
          if \<not> ok then (Inl ErrCredentials, d1)
          else (case Hash (sv_hasher S) (dr_hash r) (dr_salt r) new of
            Inl e \<Rightarrow> (Inl e, d1)
          | Inr fresh \<Rightarrow>
              let (token, h) = NewToken (sv_sha256 S) (dr_token r) in
              (case within v (\<lambda>sc. change_tx S sc v s secret fresh h now) (other d1) of
                 (Inl e, d3) \<Rightarrow> (Inl e, d3)
               | (Inr _, d3) \<Rightarrow> (Inr token, d3))))))"

subsection \<open>Creating staff (staff.go)\<close>

definition staff_tx :: "'a service \<Rightarrow> scope \<Rightarrow> visit \<Rightarrow> string \<Rightarrow> string \<Rightarrow> string \<Rightarrow> string \<Rightarrow> bytes \<Rightarrow>
    (scope \<Rightarrow> uuid \<Rightarrow> ('a, unit) idtx) option \<Rightarrow> time \<Rightarrow> ('a, unit) idtx" where
  "staff_tx S sc v name email normalised secret h hook now =
     after (insertStaff (sv_new_id S) sc (trim_space email) normalised name now) (\<lambda>inserted.
     case inserted of
       None \<Rightarrow> fail ErrAddressTaken
     | Some i \<Rightarrow>
         after (setPassword sc [] i secret) (\<lambda>_.
         after (case hook of None \<Rightarrow> ret () | Some f \<Rightarrow> f sc i) (\<lambda>_.
         after (record_own S sc v i ''identity.staff_created'') (\<lambda>_.
         after (insertSession (sv_new_id S) sc [] i h (v_ip v) (v_agent v) now) (\<lambda>_.
         record_own S sc v i ''identity.signin'')))))"

definition CreateStaff :: "'a service \<Rightarrow> visit \<Rightarrow> string \<Rightarrow> string \<Rightarrow> string \<Rightarrow>
    (scope \<Rightarrow> uuid \<Rightarrow> ('a, unit) idtx) option \<Rightarrow> draws \<Rightarrow> time \<Rightarrow> 'a db \<Rightarrow> (id_error + string) \<times> 'a db" where
  "CreateStaff S v name email password hook r now d =
     (if \<not> v_platform v then (Inl ErrVisitScope, d)
      else case CheckName name of
        Inl e \<Rightarrow> (Inl (name_error e), d)
      | Inr name \<Rightarrow>
     (case NormaliseEmail (sv_parse_address S) email of
        Inl e \<Rightarrow> (Inl ErrEmailInvalid, d)
      | Inr normalised \<Rightarrow>
     (case checkNew S password of
        Inl e \<Rightarrow> (Inl e, d)
      | Inr _ \<Rightarrow>
     (case Hash (sv_hasher S) (dr_hash r) (dr_salt r) password of
        Inl e \<Rightarrow> (Inl e, d)
      | Inr secret \<Rightarrow>
          let (token, h) = NewToken (sv_sha256 S) (dr_token r) in
          (case within v (\<lambda>sc. staff_tx S sc v name email normalised secret h hook now) d of
             (Inl e, d') \<Rightarrow> (Inl e, d')
           | (Inr _, d') \<Rightarrow> (Inr token, d'))))))"

end
