(* ===== verification/Challenges.thy ===== *)
theory Challenges
  imports Accounts
begin

text \<open>
  The second step: challenges and their answers (src/internal/identity/challenge.go), the
  run of failed second factors (failures.go), codes sent by e-mail (emailcode.go), the
  step-up (stepup.go) and a key's answer (\<^verbatim>\<open>checkKey\<close> of key.go). Statements are those of
  IdTables and FactorTables.
\<close>

record answer =
  an_method :: fmethod
  an_code :: string
  an_key :: bytes

record pending =
  pe_methods :: "fmethod list"
  pe_recovery :: bool
  pe_action :: action
  pe_locked :: bool

record offer =
  of_methods :: "fmethod list"
  of_recovery :: bool
  of_email :: bool
  of_locked :: bool

subsection \<open>The lock on codes (failures.go)\<close>

definition locks :: "offer \<Rightarrow> fmethod \<Rightarrow> bool" where
  "locks offer m = (of_locked offer \<and> (m = MethodApp \<or> m = MethodEmail))"

definition secondFactor :: "offer \<Rightarrow> fmethod \<Rightarrow> bool" where
  "secondFactor offer m =
     (if m = MethodKey \<or> m = MethodApp \<or> m = MethodRecovery then True
      else if m = MethodEmail then of_email offer else False)"

definition failed :: "'a service \<Rightarrow> scope \<Rightarrow> visit \<Rightarrow> account \<Rightarrow> time \<Rightarrow> ('a, unit) idtx" where
  "failed S sc v account now =
     after (countFailure sc (v_marketplace v) (ID account) now) (\<lambda>n.
       let tell = (\<lambda>act template.
         after (refusalWith S sc v (ID account) act [(''failures'', dec n)]) (\<lambda>_.
         notify v account template [])) in
       if n = FailuresNotified
       then tell ''identity.second_factor_failures_notified'' ''second-factor-failures''
       else if n = FailuresLocked
       then tell ''identity.second_factor_locked'' ''second-factor-locked''
       else ret ())"

subsection \<open>What a challenge accepts\<close>

definition offer_of :: "user_kind \<Rightarrow> action \<Rightarrow> fmethod list \<Rightarrow> nat \<Rightarrow> nat \<Rightarrow> offer" where
  "offer_of kind act owned run left =
     (let locked = run \<ge> FailuresLocked;
          own = filter (\<lambda>m. Permits kind m Verify \<and> \<not> (locked \<and> (m = MethodApp \<or> m = MethodEmail))) owned;
          address = (if act \<noteq> no_action \<and> StepUpEmail (StepUpFor kind act (length owned > 0)) \<and> \<not> locked
                     then [MethodEmail] else [])
      in \<lparr>of_methods = Strongest (own @ address), of_recovery = left > 0,
          of_email = MethodEmail \<in> set owned, of_locked = locked\<rparr>)"

definition offers :: "scope \<Rightarrow> account \<Rightarrow> challenge \<Rightarrow> ('a, offer) idtx" where
  "offers sc account ch =
     after (factorsOf sc (ID account)) (\<lambda>owned.
     after (secondFactorFailures sc (ID account)) (\<lambda>run.
     after (recoveryCodes sc (ID account)) (\<lambda>(issued, left).
     ret (offer_of (Kind account) (Action ch) (map f_method owned) run left))))"

text \<open>\<^verbatim>\<open>Service.challenge\<close>: the live challenge of a token, for the session it names or none.\<close>

definition challenge_for :: "'a service \<Rightarrow> scope \<Rightarrow> string \<Rightarrow> string \<Rightarrow> time \<Rightarrow>
    ('a, challenge \<times> account) idtx" where
  "challenge_for S sc token sid now =
     after (challengeForUpdate sc (HashToken (sv_sha256 S) token) now) (\<lambda>found.
     case found of
       None \<Rightarrow> fail ErrChallengeInvalid
     | Some ch \<Rightarrow>
         if Session ch \<noteq> sid then fail ErrChallengeInvalid
         else after (accountByID sc (Account ch)) (\<lambda>account. ret (ch, account)))"

definition pending_tx :: "'a service \<Rightarrow> scope \<Rightarrow> string \<Rightarrow> string \<Rightarrow> time \<Rightarrow> ('a, pending) idtx" where
  "pending_tx S sc token sid now =
     after (challenge_for S sc token sid now) (\<lambda>(ch, account).
     after (offers sc account ch) (\<lambda>offer.
     ret \<lparr>pe_methods = of_methods offer, pe_recovery = of_recovery offer, pe_action = Action ch,
          pe_locked = of_locked offer\<rparr>))"

definition Pending :: "'a service \<Rightarrow> visit \<Rightarrow> string \<Rightarrow> string \<Rightarrow> time \<Rightarrow> 'a db \<Rightarrow>
    (id_error + pending) \<times> 'a db" where
  "Pending S v token sid now d = within v (\<lambda>sc. pending_tx S sc token sid now) d"

definition ChallengeAddress :: "'a service \<Rightarrow> visit \<Rightarrow> string \<Rightarrow> 'a db \<Rightarrow> string \<times> 'a db" where
  "ChallengeAddress S v token d =
     (case within v (\<lambda>sc. reads (challengeAddress sc (HashToken (sv_sha256 S) token))) d of
        (Inr (Some address), d') \<Rightarrow> (address, d')
      | (_, d') \<Rightarrow> ([], d'))"

subsection \<open>Checking an answer\<close>

definition purposeOf :: "challenge \<Rightarrow> string" where
  "purposeOf ch = (if Session ch = [] then purposeSignIn else purposeStepUp)"

definition useEmailCode :: "'a service \<Rightarrow> scope \<Rightarrow> uuid \<Rightarrow> string \<Rightarrow> string \<Rightarrow> time \<Rightarrow> ('a, bool) idtx" where
  "useEmailCode S sc account purpose typed now =
     after (reads (\<lambda>d. youngest (filter (code_live sc account purpose now) (codes d)))) (\<lambda>found.
     case found of
       None \<Rightarrow> ret False
     | Some c \<Rightarrow>
         if emailCodeHash (sv_sha256 S) typed = Some (ec_hash c)
         then after (spendCode sc (ec_id c) now) (\<lambda>_.
              after (emailFactorUsed sc account now) (\<lambda>_. ret True))
         else after (codeAttempt sc (ec_id c)) (\<lambda>_. ret False))"

fun try_apps :: "'a service \<Rightarrow> 'a sealer \<Rightarrow> scope \<Rightarrow> uuid \<Rightarrow> string \<Rightarrow> time \<Rightarrow> factor_row list \<Rightarrow>
    ('a, bool) idtx" where
  "try_apps S sealer sc account typed now [] = ret False"
| "try_apps S sealer sc account typed now (app # apps) =
     after (on_trail (open_for sealer account (case f_secret app of None \<Rightarrow> [] | Some b \<Rightarrow> b))) (\<lambda>secret.
     case matchTOTP (sv_hmac S) secret typed now (case f_last_step app of None \<Rightarrow> 0 | Some n \<Rightarrow> n) of
       Some step \<Rightarrow> after (usedApp sc (f_id app) step now) (\<lambda>_. ret True)
     | None \<Rightarrow> try_apps S sealer sc account typed now apps)"

definition checkApp :: "'a service \<Rightarrow> scope \<Rightarrow> uuid \<Rightarrow> string \<Rightarrow> time \<Rightarrow> ('a, bool) idtx" where
  "checkApp S sc account typed now =
     (case sv_sealer S of
        None \<Rightarrow> fail ErrNoSealer
      | Some sealer \<Rightarrow>
          after (appsForUpdate sc account) (\<lambda>apps. try_apps S sealer sc account typed now apps))"

text \<open>The relying party of a visit, and an account with its keys (key.go).\<close>

definition relyingParty :: "'a service \<Rightarrow> visit \<Rightarrow> relying_party option" where
  "relyingParty S v =
     (case wa_host (sv_webauthn S) (v_base v) of
        None \<Rightarrow> None
      | Some host \<Rightarrow>
          if host = [] then None
          else let rp = \<lparr>RPID = host, RPDisplayName = v_name v, RPOrigins = [v_base v]\<rparr> in
               if wa_new (sv_webauthn S) rp then Some rp else None)"

definition some_bytes :: "bytes option \<Rightarrow> bytes" where
  "some_bytes b = (case b of None \<Rightarrow> [] | Some x \<Rightarrow> x)"

definition keyCredential :: "factor_row \<Rightarrow> key_credential" where
  "keyCredential f = \<lparr>kc_id = some_bytes (f_credential f), kc_public = some_bytes (f_public_key f),
     kc_flags = f_flags f mod 256, kc_count = f_sign_count f mod 2 ^ 32\<rparr>"

definition keyUserOf :: "account \<Rightarrow> factor_row list \<Rightarrow> key_user" where
  "keyUserOf account keys = \<lparr>ku_account = account, ku_credentials = map keyCredential keys\<rparr>"

definition dec_int :: "int \<Rightarrow> string" where
  "dec_int n = (if n < 0 then CHR ''-'' # dec (nat (- n)) else dec (nat n))"

definition checkKey :: "'a service \<Rightarrow> scope \<Rightarrow> visit \<Rightarrow> account \<Rightarrow> challenge \<Rightarrow> bytes \<Rightarrow> time \<Rightarrow>
    ('a, bool) idtx" where
  "checkKey S sc v account ch response now =
     (if length (WebAuthnSession ch) = 0 then ret False
      else case wa_parse_assertion (sv_webauthn S) response of
        None \<Rightarrow> ret False
      | Some (parsed, counter) \<Rightarrow>
     (case wa_session (sv_webauthn S) (WebAuthnSession ch) of
        None \<Rightarrow> fail ErrCeremony
      | Some ceremony \<Rightarrow>
     (case relyingParty S v of
        None \<Rightarrow> fail ErrNoRelyingParty
      | Some rp \<Rightarrow>
          after (keysForUpdate sc (ID account)) (\<lambda>keys.
          case wa_validate (sv_webauthn S) rp (keyUserOf account keys) ceremony parsed of
            None \<Rightarrow> ret False
          | Some credential \<Rightarrow>
              (case find (\<lambda>k. some_bytes (f_credential k) = as_id credential) keys of
                 None \<Rightarrow> ret False
               | Some key \<Rightarrow>
                   if as_clone credential
                   then after (refusalWith S sc v (ID account) ''identity.second_factor_clone_suspected''
                          [(''stored'', dec_int (f_sign_count key)), (''presented'', dec_int counter)])
                          (\<lambda>_. ret False)
                   else after (usedKey sc (f_id key) (as_count credential) (as_flags credential) now)
                          (\<lambda>_. ret True))))))"

definition checkOffered :: "'a service \<Rightarrow> scope \<Rightarrow> visit \<Rightarrow> account \<Rightarrow> challenge \<Rightarrow> offer \<Rightarrow> answer \<Rightarrow>
    time \<Rightarrow> ('a, bool) idtx" where
  "checkOffered S sc v account ch offer answer now =
     (if an_method answer = MethodRecovery then
        (if \<not> of_recovery offer then ret False
         else case recoveryHash (sv_sha256 S) (an_code answer) of
                None \<Rightarrow> ret False
              | Some h \<Rightarrow> useRecoveryCode (sv_sha256 S) sc (ID account) h now)
      else if an_method answer \<notin> set (of_methods offer) then ret False
      else case an_method answer of
             MethodApp \<Rightarrow> checkApp S sc (ID account) (an_code answer) now
           | MethodEmail \<Rightarrow> useEmailCode S sc (ID account) (purposeOf ch) (an_code answer) now
           | MethodKey \<Rightarrow> checkKey S sc v account ch (an_key answer) now
           | _ \<Rightarrow> ret False)"

definition check :: "'a service \<Rightarrow> scope \<Rightarrow> visit \<Rightarrow> account \<Rightarrow> challenge \<Rightarrow> answer \<Rightarrow> time \<Rightarrow>
    ('a, bool \<times> offer) idtx" where
  "check S sc v account ch answer now =
     after (offers sc account ch) (\<lambda>offer.
     after (checkOffered S sc v account ch offer answer now) (\<lambda>ok. ret (ok, offer)))"

subsection \<open>Answering\<close>

definition recoveryUsed :: "'a service \<Rightarrow> scope \<Rightarrow> visit \<Rightarrow> account \<Rightarrow> string \<Rightarrow> ('a, unit) idtx" where
  "recoveryUsed S sc v account purpose =
     after (recoveryCodes sc (ID account)) (\<lambda>(issued, left).
     after (recordWith S sc v (ID account) ''identity.recovery_code_used'' [(''left'', dec left)]) (\<lambda>_.
     notify v account ''recovery-code-used'' [(''Left'', dec left), (''Purpose'', purpose)]))"

text \<open>
  An answer: right, with what \<open>done\<close> gave; or wrong, by the lock or not, the last or not. The
  two readings of the clock in the transaction, its own and that of \<^verbatim>\<open>challenge\<close>, are one.
\<close>

datatype 'x outcome = Right 'x | Wrong (by_lock: bool) (was_last: bool)

definition answer_tx :: "'a service \<Rightarrow> scope \<Rightarrow> visit \<Rightarrow> string \<Rightarrow> string \<Rightarrow> answer \<Rightarrow>
    (scope \<Rightarrow> challenge \<Rightarrow> account \<Rightarrow> time \<Rightarrow> ('a, 'x) idtx) \<Rightarrow> time \<Rightarrow> ('a, 'x outcome) idtx" where
  "answer_tx S sc v token sid answer completed now =
     (let m = an_method answer; h = HashToken (sv_sha256 S) token in
      after (challenge_for S sc token sid now) (\<lambda>(ch, account).
      after (check S sc v account ch answer now) (\<lambda>(ok, offer).
      if \<not> ok then
        after (challengeAttempt sc h now) (\<lambda>attempts.
        after (refusalWith S sc v (ID account) ''identity.second_factor_failed''
                 [(''method'', method_name m)]) (\<lambda>_.
        after (if secondFactor offer m then failed S sc v account now else ret ()) (\<lambda>_.
        ret (Wrong (locks offer m) (attempts \<ge> ChallengeAttempts)))))
      else
        after (spendChallenge sc h now) (\<lambda>_.
        after (if m = MethodRecovery then recoveryUsed S sc v account (purposeOf ch) else ret ()) (\<lambda>_.
        after (completed sc ch account now) (\<lambda>x.
        after (if secondFactor offer m then clearFailures sc (ID account) else ret ()) (\<lambda>_.
        ret (Right x))))))))"

definition answerChallenge :: "'a service \<Rightarrow> visit \<Rightarrow> string \<Rightarrow> string \<Rightarrow> answer \<Rightarrow>
    (scope \<Rightarrow> challenge \<Rightarrow> account \<Rightarrow> time \<Rightarrow> ('a, 'x) idtx) \<Rightarrow> time \<Rightarrow> 'a db \<Rightarrow>
    (id_error + 'x) \<times> 'a db" where
  "answerChallenge S v token sid answer completed now d =
     (case within v (\<lambda>sc. answer_tx S sc v token sid answer completed now) d of
        (Inl e, d') \<Rightarrow> (Inl e, d')
      | (Inr (Right x), d') \<Rightarrow> (Inr x, d')
      | (Inr (Wrong locked exhausted), d') \<Rightarrow>
          (Inl (if exhausted then ErrChallengeExhausted
                else if locked then ErrCodesLocked else ErrCodeWrong), d'))"

subsection \<open>Completing a sign-in\<close>

record signed_in =
  si_session :: string
  si_recovery :: bool
  si_left :: nat

definition open_session :: "'a service \<Rightarrow> visit \<Rightarrow> answer \<Rightarrow> string \<Rightarrow> bytes \<Rightarrow>
    scope \<Rightarrow> challenge \<Rightarrow> account \<Rightarrow> time \<Rightarrow> ('a, signed_in) idtx" where
  "open_session S v answer token h sc ch account now =
     after (insertSession (sv_new_id S) sc (v_marketplace v) (ID account) h (v_ip v) (v_agent v) now) (\<lambda>_.
     after (sessionID sc h) (\<lambda>i.
     after (markSteppedUp sc i now) (\<lambda>_.
     after (if an_method answer = MethodRecovery
            then after (recoveryCodes sc (ID account)) (\<lambda>(issued, left). ret left)
            else ret 0) (\<lambda>left.
     after (recordWith S sc v (ID account) ''identity.signin''
              [(''method'', method_name (an_method answer))]) (\<lambda>_.
     ret \<lparr>si_session = token, si_recovery = (an_method answer = MethodRecovery), si_left = left\<rparr>)))))"

definition CompleteSignIn :: "'a service \<Rightarrow> visit \<Rightarrow> string \<Rightarrow> answer \<Rightarrow> draws \<Rightarrow> time \<Rightarrow> time \<Rightarrow> time \<Rightarrow>
    'a db \<Rightarrow> (id_error + signed_in) \<times> time \<times> 'a db" where
  "CompleteSignIn S v token answer r now lst later d =
     (let (session, h) = NewToken (sv_sha256 S) (dr_token r) in
      case answerChallenge S v token [] answer (open_session S v answer session h) now d of
        (Inl e, d') \<Rightarrow> (Inl e, lst, d')
      | (Inr opened_as, d') \<Rightarrow> (Inr opened_as, sweep v lst later d'))"

subsection \<open>Codes by e-mail\<close>

text \<open>\<open>n\<close> is the number below a million \<^verbatim>\<open>newEmailCode\<close> draws.\<close>

definition sendCode :: "'a service \<Rightarrow> scope \<Rightarrow> visit \<Rightarrow> account \<Rightarrow> string \<Rightarrow> nat \<Rightarrow> time \<Rightarrow> ('a, unit) idtx" where
  "sendCode S sc v account purpose n now =
     after (lockAccount sc (ID account)) (\<lambda>_.
     after (emailCodesSince sc (ID account) (now - emailCodeEvery)) (\<lambda>lately.
     if lately > 0 then fail ErrCodeTooSoon
     else after (emailCodesSince sc (ID account) (now - hour)) (\<lambda>hourly.
     if hourly \<ge> emailCodesPerHour then fail ErrCodeTooMany
     else
       let (text, h) = newEmailCode (sv_sha256 S) n in
       after (insertEmailCode (sv_new_id S) sc (v_marketplace v) (ID account) purpose h now) (\<lambda>_.
       Request \<lparr>Template = ''second-factor-code'', msg_language = v_language v, To = Email account,
         From = v_name v, msg_marketplace = v_marketplace v,
         Variables = go_map [(''Name'', Name account), (''Code'', text), (''Purpose'', purpose)]\<rparr>))))"

definition challenge_code_tx :: "'a service \<Rightarrow> scope \<Rightarrow> visit \<Rightarrow> string \<Rightarrow> string \<Rightarrow> nat \<Rightarrow> time \<Rightarrow>
    ('a, unit) idtx" where
  "challenge_code_tx S sc v token sid n now =
     after (challenge_for S sc token sid now) (\<lambda>(ch, account).
     after (offers sc account ch) (\<lambda>offer.
     if MethodEmail \<notin> set (of_methods offer)
     then (if of_locked offer then fail ErrCodesLocked else fail ErrNotPermitted)
     else sendCode S sc v account (purposeOf ch) n now))"

definition SendChallengeCode :: "'a service \<Rightarrow> visit \<Rightarrow> string \<Rightarrow> string \<Rightarrow> nat \<Rightarrow> time \<Rightarrow> 'a db \<Rightarrow>
    (id_error + unit) \<times> 'a db" where
  "SendChallengeCode S v token sid n now d =
     within v (\<lambda>sc. challenge_code_tx S sc v token sid n now) d"

definition canEnrolEmail :: "time \<Rightarrow> session \<Rightarrow> id_error option" where
  "canEnrolEmail now s =
     (if \<not> Permits (Kind (se_account s)) MethodEmail Enrol then Some ErrNotPermitted
      else if NeedsStepUp now s ActionFactors then Some ErrStepUpNeeded
      else None)"

definition hasEmailFactor :: "scope \<Rightarrow> uuid \<Rightarrow> ('a, bool) idtx" where
  "hasEmailFactor sc account =
     after (factorsOf sc account) (\<lambda>owned. ret (list_ex (\<lambda>f. f_method f = MethodEmail) owned))"

definition begin_email_tx :: "'a service \<Rightarrow> scope \<Rightarrow> visit \<Rightarrow> session \<Rightarrow> nat \<Rightarrow> time \<Rightarrow> ('a, unit) idtx" where
  "begin_email_tx S sc v s n now =
     after (hasEmailFactor sc (ID (se_account s))) (\<lambda>has.
     if has then fail ErrAlreadyEnrolled
     else sendCode S sc v (se_account s) purposeEnrol n now)"

definition BeginEmail :: "'a service \<Rightarrow> visit \<Rightarrow> session \<Rightarrow> nat \<Rightarrow> time \<Rightarrow> time \<Rightarrow> 'a db \<Rightarrow>
    (id_error + unit) \<times> 'a db" where
  "BeginEmail S v s n at now d =
     (case canEnrolEmail at s of
        Some e \<Rightarrow> (Inl e, d)
      | None \<Rightarrow> within v (\<lambda>sc. begin_email_tx S sc v s n now) d)"

text \<open>The transaction of \<^verbatim>\<open>ConfirmEmail\<close>: whether the code was right.\<close>

definition confirm_email_tx :: "'a service \<Rightarrow> scope \<Rightarrow> visit \<Rightarrow> session \<Rightarrow> string \<Rightarrow> time \<Rightarrow> ('a, bool) idtx" where
  "confirm_email_tx S sc v s typed now =
     (let account = ID (se_account s) in
      after (lockAccount sc account) (\<lambda>_.
      after (hasEmailFactor sc account) (\<lambda>has.
      if has then fail ErrAlreadyEnrolled
      else after (useEmailCode S sc account purposeEnrol typed now) (\<lambda>ok.
      if \<not> ok then ret False
      else after (insertEmailFactor (sv_new_id S) sc (v_marketplace v) account now) (\<lambda>_.
           after (recordWith S sc v account ''identity.second_factor_added''
                    [(''method'', method_name MethodEmail)]) (\<lambda>_.
           after (notify v (se_account s) ''second-factor-added''
                    [(''Method'', method_name MethodEmail)]) (\<lambda>_.
           ret True)))))))"

definition ConfirmEmail :: "'a service \<Rightarrow> visit \<Rightarrow> session \<Rightarrow> string \<Rightarrow> time \<Rightarrow> time \<Rightarrow> 'a db \<Rightarrow>
    (id_error + unit) \<times> 'a db" where
  "ConfirmEmail S v s typed at now d =
     (case canEnrolEmail at s of
        Some e \<Rightarrow> (Inl e, d)
      | None \<Rightarrow>
          (case within v (\<lambda>sc. confirm_email_tx S sc v s typed now) d of
             (Inl e, d') \<Rightarrow> (Inl e, d')
           | (Inr ok, d') \<Rightarrow> (if ok then Inr () else Inl ErrCodeWrong, d')))"

subsection \<open>The step-up\<close>

definition begin_step_up_tx :: "'a service \<Rightarrow> scope \<Rightarrow> visit \<Rightarrow> session \<Rightarrow> action \<Rightarrow> bytes \<Rightarrow> time \<Rightarrow>
    ('a, unit) idtx" where
  "begin_step_up_tx S sc v s act h now =
     (let ch = \<lparr>Account = ID (se_account s), Session = se_id s, Action = act, Attempts = 0,
                WebAuthnSession = []\<rparr> in
      after (offers sc (se_account s) ch) (\<lambda>offer.
      if length (of_methods offer) = 0 \<and> \<not> of_recovery offer \<and> \<not> of_locked offer
      then fail ErrNoSecondFactor
      else insertChallenge sc (v_marketplace v) (ID (se_account s)) h (se_id s) act now))"

definition BeginStepUp :: "'a service \<Rightarrow> visit \<Rightarrow> session \<Rightarrow> action \<Rightarrow> draws \<Rightarrow> time \<Rightarrow> 'a db \<Rightarrow>
    (id_error + string) \<times> 'a db" where
  "BeginStepUp S v s act r now d =
     (let (token, h) = NewToken (sv_sha256 S) (dr_token r) in
      case within v (\<lambda>sc. begin_step_up_tx S sc v s act h now) d of
        (Inl e, d') \<Rightarrow> (Inl e, d')
      | (Inr _, d') \<Rightarrow> (Inr token, d'))"

definition step_up_done :: "'a service \<Rightarrow> visit \<Rightarrow> session \<Rightarrow> answer \<Rightarrow>
    scope \<Rightarrow> challenge \<Rightarrow> account \<Rightarrow> time \<Rightarrow> ('a, unit) idtx" where
  "step_up_done S v s answer sc ch account now =
     after (if an_method answer = MethodEmail
            then after (hasEmailFactor sc (ID account)) (\<lambda>factor. ret (\<not> factor))
            else ret False) (\<lambda>address_only.
     after (if address_only then markEmailConfirmed sc (se_id s) now
            else markSteppedUp sc (se_id s) now) (\<lambda>_.
     recordWith S sc v (ID account)
       (if address_only then ''identity.email_confirmed'' else ''identity.stepped_up'')
       [(''method'', method_name (an_method answer)), (''action'', action_name (Action ch))]))"

definition StepUp :: "'a service \<Rightarrow> visit \<Rightarrow> session \<Rightarrow> string \<Rightarrow> answer \<Rightarrow> time \<Rightarrow> 'a db \<Rightarrow>
    (id_error + unit) \<times> 'a db" where
  "StepUp S v s token answer now d =
     answerChallenge S v token (se_id s) answer (step_up_done S v s answer) now d"

end
