(* ===== verification/Factors.thy ===== *)
theory Factors
  imports Challenges
begin

text \<open>
  Second factors: adding an authenticator app or a key, removing one, recovery codes
  (src/internal/identity/factors.go), and the WebAuthn ceremonies (key.go). \<open>at\<close> is the
  clock when the step-up is asked for, \<open>now\<close> in the transaction.
\<close>

subsection \<open>What the security page shows\<close>

record factor_shown =
  fs_id :: uuid
  fs_method :: fmethod
  fs_label :: string
  fs_created :: time
  fs_used :: "time option"

record security =
  sec_factors :: "factor_shown list"
  sec_issued :: nat
  sec_left :: nat

definition security_tx :: "scope \<Rightarrow> session \<Rightarrow> ('a, security) idtx" where
  "security_tx sc s =
     after (factorsOf sc (ID (se_account s))) (\<lambda>owned.
     after (recoveryCodes sc (ID (se_account s))) (\<lambda>(issued, left).
     ret \<lparr>sec_factors = map (\<lambda>f. \<lparr>fs_id = f_id f, fs_method = f_method f, fs_label = f_label f,
            fs_created = f_created f, fs_used = f_used f\<rparr>) owned,
          sec_issued = issued, sec_left = left\<rparr>))"

definition Security :: "visit \<Rightarrow> session \<Rightarrow> 'a db \<Rightarrow> (id_error + security) \<times> 'a db" where
  "Security v s d = within v (\<lambda>sc. security_tx sc s) d"

subsection \<open>What a change to the factors asks first\<close>

definition may_enrol :: "time \<Rightarrow> session \<Rightarrow> fmethod \<Rightarrow> id_error option" where
  "may_enrol now s m =
     (if \<not> Permits (Kind (se_account s)) m Enrol then Some ErrNotPermitted
      else if NeedsStepUp now s ActionFactors then Some ErrStepUpNeeded
      else None)"

definition first_error :: "id_error option \<Rightarrow> id_error option \<Rightarrow> id_error option" where
  "first_error a b = (case a of None \<Rightarrow> b | Some e \<Rightarrow> Some e)"

definition no_sealer :: "'a service \<Rightarrow> id_error option" where
  "no_sealer S = (case sv_sealer S of None \<Rightarrow> Some ErrNoSealer | Some _ \<Rightarrow> None)"

definition sealing :: "'a service \<Rightarrow> ('a sealer \<Rightarrow> ('a, 'x) idtx) \<Rightarrow> ('a, 'x) idtx" where
  "sealing S f = (case sv_sealer S of None \<Rightarrow> fail ErrNoSealer | Some sealer \<Rightarrow> f sealer)"

subsection \<open>Authenticator apps\<close>

text \<open>The secret as a person types it, and the URI its QR code carries.\<close>

record app_enrolment =
  ae_key :: string
  ae_uri :: string

definition appEnrolment :: "visit \<Rightarrow> session \<Rightarrow> bytes \<Rightarrow> app_enrolment" where
  "appEnrolment v s secret = \<lparr>ae_key = TOTPKey secret,
     ae_uri = TOTPURI (v_name v) (Email (se_account s)) secret\<rparr>"

text \<open>\<^verbatim>\<open>secret\<close> is what \<^verbatim>\<open>NewTOTPSecret\<close> draws.\<close>

definition begin_app_tx :: "'a service \<Rightarrow> scope \<Rightarrow> visit \<Rightarrow> session \<Rightarrow> bytes \<Rightarrow> time \<Rightarrow> ('a, unit) idtx" where
  "begin_app_tx S sc v s secret now =
     sealing S (\<lambda>sealer.
     after (on_trail (seal_for sealer (ID (se_account s)) secret)) (\<lambda>sealed.
     putEnrolment sc (v_marketplace v) (se_id s) (ID (se_account s)) MethodApp (Some sealed) None
       (now + EnrolmentLifetime)))"

definition BeginApp :: "'a service \<Rightarrow> visit \<Rightarrow> session \<Rightarrow> bytes \<Rightarrow> time \<Rightarrow> time \<Rightarrow> 'a db \<Rightarrow>
    (id_error + app_enrolment) \<times> 'a db" where
  "BeginApp S v s secret at now d =
     (case first_error (may_enrol at s MethodApp) (no_sealer S) of
        Some e \<Rightarrow> (Inl e, d)
      | None \<Rightarrow>
          (case within v (\<lambda>sc. begin_app_tx S sc v s secret now) d of
             (Inl e, d') \<Rightarrow> (Inl e, d')
           | (Inr _, d') \<Rightarrow> (Inr (appEnrolment v s secret), d')))"

definition pending_app_tx :: "'a service \<Rightarrow> scope \<Rightarrow> session \<Rightarrow> time \<Rightarrow> ('a, bytes) idtx" where
  "pending_app_tx S sc s now =
     sealing S (\<lambda>sealer.
     after (enrolmentOf sc (se_id s) MethodApp now) (\<lambda>e.
     on_trail (open_for sealer (ID (se_account s)) (some_bytes (en_secret e)))))"

definition PendingApp :: "'a service \<Rightarrow> visit \<Rightarrow> session \<Rightarrow> time \<Rightarrow> time \<Rightarrow> 'a db \<Rightarrow>
    (id_error + app_enrolment) \<times> 'a db" where
  "PendingApp S v s at now d =
     (case first_error (may_enrol at s MethodApp) (no_sealer S) of
        Some e \<Rightarrow> (Inl e, d)
      | None \<Rightarrow>
          (case within v (\<lambda>sc. pending_app_tx S sc s now) d of
             (Inl e, d') \<Rightarrow> (Inl e, d')
           | (Inr secret, d') \<Rightarrow> (Inr (appEnrolment v s secret), d')))"

definition firstRecoverySet :: "'a service \<Rightarrow> scope \<Rightarrow> visit \<Rightarrow> uuid \<Rightarrow> bytes list \<Rightarrow> ('a, bool) idtx" where
  "firstRecoverySet S sc v account hashes =
     after (recoveryCodes sc account) (\<lambda>(issued, left).
     if issued > 0 then ret False
     else after (replaceRecoveryCodes (sv_sha256 S) sc (v_marketplace v) account hashes) (\<lambda>_. ret True))"

text \<open>How a confirmation ends: refused, or added, with a first set of recovery codes or not.\<close>

datatype enrolled = NotProved | Added (first_set: bool)

definition confirm_app_tx :: "'a service \<Rightarrow> scope \<Rightarrow> visit \<Rightarrow> session \<Rightarrow> string \<Rightarrow> string \<Rightarrow> bytes list \<Rightarrow>
    time \<Rightarrow> ('a, enrolled) idtx" where
  "confirm_app_tx S sc v s label typed hashes now =
     (let account = ID (se_account s) in
      sealing S (\<lambda>sealer.
      after (enrolmentOf sc (se_id s) MethodApp now) (\<lambda>e.
      after (on_trail (open_for sealer account (some_bytes (en_secret e)))) (\<lambda>secret.
      case matchTOTP (sv_hmac S) secret typed now 0 of
        None \<Rightarrow> ret NotProved
      | Some step \<Rightarrow>
          after (insertApp (sv_new_id S) sc (v_marketplace v) account label (some_bytes (en_secret e))
                   step now) (\<lambda>_.
          after (dropEnrolment sc (se_id s)) (\<lambda>_.
          after (firstRecoverySet S sc v account hashes) (\<lambda>issued.
          after (recordWith S sc v account ''identity.second_factor_added''
                   [(''method'', method_name MethodApp)]) (\<lambda>_.
          after (notify v (se_account s) ''second-factor-added''
                   [(''Method'', method_name MethodApp)]) (\<lambda>_.
          ret (Added issued))))))))))"

text \<open>The answer is the codes to show, none when the account already had a set.\<close>

definition ConfirmApp :: "'a service \<Rightarrow> visit \<Rightarrow> session \<Rightarrow> string \<Rightarrow> string \<Rightarrow> bytes list \<Rightarrow> time \<Rightarrow>
    time \<Rightarrow> 'a db \<Rightarrow> (id_error + string list) \<times> 'a db" where
  "ConfirmApp S v s label typed rolls at now d =
     (case first_error (may_enrol at s MethodApp) (no_sealer S) of
        Some e \<Rightarrow> (Inl e, d)
      | None \<Rightarrow>
     (case CheckLabel label of
        Inl e \<Rightarrow> (Inl ErrLabelInvalid, d)
      | Inr label \<Rightarrow>
          let (shown, hashes) = newRecoverySet (sv_sha256 S) rolls in
          (case within v (\<lambda>sc. confirm_app_tx S sc v s label typed hashes now) d of
             (Inl e, d') \<Rightarrow> (Inl e, d')
           | (Inr NotProved, d') \<Rightarrow> (Inl ErrCodeWrong, d')
           | (Inr (Added issued), d') \<Rightarrow> (Inr (if issued then shown else []), d'))))"

subsection \<open>Removing a factor, and recovery codes\<close>

definition remove_tx :: "'a service \<Rightarrow> scope \<Rightarrow> visit \<Rightarrow> session \<Rightarrow> string \<Rightarrow> ('a, unit) idtx" where
  "remove_tx S sc v s i =
     (let account = ID (se_account s) in
      after (deleteFactor (sv_parse_uuid S) sc account i) (\<lambda>found.
      case found of
        None \<Rightarrow> fail ErrFactorUnknown
      | Some removed \<Rightarrow>
          after (countFactors sc account) (\<lambda>left.
          after (if left = 0 then
                   (if Required (Kind (se_account s)) then fail ErrFactorRequired
                    else deleteRecoveryCodes sc account)
                 else ret ()) (\<lambda>_.
          after (recordWith S sc v account ''identity.second_factor_removed''
                   [(''method'', method_name (f_method removed))]) (\<lambda>_.
          notify v (se_account s) ''second-factor-removed''
            [(''Method'', method_name (f_method removed))])))))"

definition RemoveFactor :: "'a service \<Rightarrow> visit \<Rightarrow> session \<Rightarrow> string \<Rightarrow> time \<Rightarrow> 'a db \<Rightarrow>
    (id_error + unit) \<times> 'a db" where
  "RemoveFactor S v s i at d =
     (if NeedsStepUp at s ActionFactors then (Inl ErrStepUpNeeded, d)
      else within v (\<lambda>sc. remove_tx S sc v s i) d)"

definition regenerate_tx :: "'a service \<Rightarrow> scope \<Rightarrow> visit \<Rightarrow> session \<Rightarrow> bytes list \<Rightarrow> ('a, unit) idtx" where
  "regenerate_tx S sc v s hashes =
     (let account = ID (se_account s) in
      after (lockAccount sc account) (\<lambda>_.
      after (countFactors sc account) (\<lambda>n.
      if n = 0 then fail ErrNoSecondFactor
      else after (replaceRecoveryCodes (sv_sha256 S) sc (v_marketplace v) account hashes) (\<lambda>_.
           record_own S sc v account ''identity.recovery_codes_regenerated''))))"

definition RegenerateRecoveryCodes :: "'a service \<Rightarrow> visit \<Rightarrow> session \<Rightarrow> bytes list \<Rightarrow> time \<Rightarrow> 'a db \<Rightarrow>
    (id_error + string list) \<times> 'a db" where
  "RegenerateRecoveryCodes S v s rolls at d =
     (if NeedsStepUp at s ActionFactors then (Inl ErrStepUpNeeded, d)
      else
        let (shown, hashes) = newRecoverySet (sv_sha256 S) rolls in
        case within v (\<lambda>sc. regenerate_tx S sc v s hashes) d of
          (Inl e, d') \<Rightarrow> (Inl e, d')
        | (Inr _, d') \<Rightarrow> (Inr shown, d'))"

subsection \<open>Keys (key.go)\<close>

definition keysOf :: "scope \<Rightarrow> account \<Rightarrow> ('a, key_user \<times> factor_row list) idtx" where
  "keysOf sc account =
     after (factorsOf sc (ID account)) (\<lambda>owned.
       let keys = filter (\<lambda>f. f_method f = MethodKey) owned in
       ret (keyUserOf account keys, keys))"

definition begin_key_tx :: "'a service \<Rightarrow> scope \<Rightarrow> visit \<Rightarrow> session \<Rightarrow> relying_party \<Rightarrow> time \<Rightarrow>
    ('a, bytes) idtx" where
  "begin_key_tx S sc v s rp now =
     after (keysOf sc (se_account s)) (\<lambda>(user, keys).
     case wa_begin_registration (sv_webauthn S) rp user (map kc_id (ku_credentials user)) of
       None \<Rightarrow> fail ErrCeremony
     | Some (options, ceremony) \<Rightarrow>
         after (putEnrolment sc (v_marketplace v) (se_id s) (ID (se_account s)) MethodKey None
                  (Some ceremony) (now + EnrolmentLifetime)) (\<lambda>_.
         ret options))"

definition BeginKey :: "'a service \<Rightarrow> visit \<Rightarrow> session \<Rightarrow> time \<Rightarrow> time \<Rightarrow> 'a db \<Rightarrow>
    (id_error + bytes) \<times> 'a db" where
  "BeginKey S v s at now d =
     (case may_enrol at s MethodKey of
        Some e \<Rightarrow> (Inl e, d)
      | None \<Rightarrow>
     (case relyingParty S v of
        None \<Rightarrow> (Inl ErrNoRelyingParty, d)
      | Some rp \<Rightarrow> within v (\<lambda>sc. begin_key_tx S sc v s rp now) d))"

definition confirm_key_tx :: "'a service \<Rightarrow> scope \<Rightarrow> visit \<Rightarrow> session \<Rightarrow> relying_party \<Rightarrow> string \<Rightarrow> bytes \<Rightarrow>
    bytes list \<Rightarrow> time \<Rightarrow> ('a, enrolled) idtx" where
  "confirm_key_tx S sc v s rp label parsed hashes now =
     (let account = ID (se_account s) in
      after (enrolmentOf sc (se_id s) MethodKey now) (\<lambda>e.
      case wa_session (sv_webauthn S) (some_bytes (en_webauthn e)) of
        None \<Rightarrow> fail ErrCeremony
      | Some ceremony \<Rightarrow>
          after (keysOf sc (se_account s)) (\<lambda>(user, keys).
          case wa_create (sv_webauthn S) rp user ceremony parsed of
            None \<Rightarrow> ret NotProved
          | Some credential \<Rightarrow>
              after (insertKey (sv_new_id S) sc (v_marketplace v) account label (kc_id credential)
                       (kc_public credential) (kc_count credential) (kc_flags credential) now) (\<lambda>added.
              if \<not> added then ret NotProved
              else after (dropEnrolment sc (se_id s)) (\<lambda>_.
                   after (firstRecoverySet S sc v account hashes) (\<lambda>issued.
                   after (recordWith S sc v account ''identity.second_factor_added''
                            [(''method'', method_name MethodKey)]) (\<lambda>_.
                   after (notify v (se_account s) ''second-factor-added''
                            [(''Method'', method_name MethodKey)]) (\<lambda>_.
                   ret (Added issued)))))))))"

definition ConfirmKey :: "'a service \<Rightarrow> visit \<Rightarrow> session \<Rightarrow> string \<Rightarrow> bytes \<Rightarrow> bytes list \<Rightarrow> time \<Rightarrow> time \<Rightarrow>
    'a db \<Rightarrow> (id_error + string list) \<times> 'a db" where
  "ConfirmKey S v s label response rolls at now d =
     (case may_enrol at s MethodKey of
        Some e \<Rightarrow> (Inl e, d)
      | None \<Rightarrow>
     (case CheckLabel label of
        Inl e \<Rightarrow> (Inl ErrLabelInvalid, d)
      | Inr label \<Rightarrow>
     (case wa_parse_creation (sv_webauthn S) response of
        None \<Rightarrow> (Inl ErrKeyRefused, d)
      | Some parsed \<Rightarrow>
     (case relyingParty S v of
        None \<Rightarrow> (Inl ErrNoRelyingParty, d)
      | Some rp \<Rightarrow>
          let (shown, hashes) = newRecoverySet (sv_sha256 S) rolls in
          (case within v (\<lambda>sc. confirm_key_tx S sc v s rp label parsed hashes now) d of
             (Inl e, d') \<Rightarrow> (Inl e, d')
           | (Inr NotProved, d') \<Rightarrow> (Inl ErrKeyRefused, d')
           | (Inr (Added issued), d') \<Rightarrow> (Inr (if issued then shown else []), d'))))))"

definition key_options_tx :: "'a service \<Rightarrow> scope \<Rightarrow> relying_party \<Rightarrow> string \<Rightarrow> string \<Rightarrow> time \<Rightarrow>
    ('a, bytes) idtx" where
  "key_options_tx S sc rp token sid now =
     after (challenge_for S sc token sid now) (\<lambda>(ch, account).
     after (keysOf sc account) (\<lambda>(user, keys).
     if length keys = 0 \<or> \<not> Permits (Kind account) MethodKey Verify then fail ErrNotPermitted
     else case wa_begin_login (sv_webauthn S) rp user of
       None \<Rightarrow> fail ErrCeremony
     | Some (options, ceremony) \<Rightarrow>
         after (keepCeremony sc (HashToken (sv_sha256 S) token) ceremony) (\<lambda>_. ret options)))"

definition KeyOptions :: "'a service \<Rightarrow> visit \<Rightarrow> string \<Rightarrow> string \<Rightarrow> time \<Rightarrow> 'a db \<Rightarrow>
    (id_error + bytes) \<times> 'a db" where
  "KeyOptions S v token sid now d =
     (case relyingParty S v of
        None \<Rightarrow> (Inl ErrNoRelyingParty, d)
      | Some rp \<Rightarrow> within v (\<lambda>sc. key_options_tx S sc rp token sid now) d)"

end
