(* ===== verification/Bootstrap.thy ===== *)
theory Bootstrap
  imports Factors
begin

text \<open>
  The owner and the first run: src/internal/staff/staff.go and bootstrap.go, over the
  tables of migration 00017, which only the platform's transactions see (a transaction of
  a marketplace finds them empty and may not write them).
\<close>

subsection \<open>Who may do what\<close>

definition is_owner :: "scope \<Rightarrow> uuid \<Rightarrow> 'a db \<Rightarrow> bool" where
  "is_owner sc account d = (sc = None \<and> list_ex (\<lambda>u. ur_account u = account \<and>
     list_ex (\<lambda>r. ro_id r = ur_role u \<and> ro_owner r) (roles d)) (user_roles d))"

text \<open>\<^verbatim>\<open>Owners.Allows\<close>: the owner is allowed every permission, and nobody else any.\<close>

definition Allows :: "uuid \<Rightarrow> string \<Rightarrow> string \<Rightarrow> 'a db \<Rightarrow> (id_error + bool) \<times> 'a db" where
  "Allows account permission marketplace d = in_tx (reads (is_owner None account)) d"

definition owner_exists :: "scope \<Rightarrow> 'a db \<Rightarrow> bool" where
  "owner_exists sc d = (sc = None \<and> (bootstraps d \<noteq> [] \<or>
     list_ex (\<lambda>u. list_ex (\<lambda>r. ro_id r = ur_role u \<and> ro_owner r) (roles d)) (user_roles d)))"

subsection \<open>The first run\<close>

record first_run =
  fr_hash :: bytes
  fr_set :: bool

definition NewBootstrap :: "(bytes \<Rightarrow> bytes) \<Rightarrow> string \<Rightarrow> first_run" where
  "NewBootstrap sha256 token = \<lparr>fr_hash = sha256 (bytes_of token), fr_set = (token \<noteq> [])\<rparr>"

definition setup_open :: "first_run \<Rightarrow> 'a db \<Rightarrow> (id_error + bool) \<times> 'a db" where
  "setup_open B d =
     (if \<not> fr_set B then (Inr False, d)
      else case in_tx (reads (owner_exists None)) d of
             (Inl e, d') \<Rightarrow> (Inl e, d') | (Inr closed, d') \<Rightarrow> (Inr (\<not> closed), d'))"

text \<open>
  \<^verbatim>\<open>Bootstrap.claim\<close>: the one row of \<^verbatim>\<open>bootstrap\<close>, the owner role (one owner role at most,
  \<^verbatim>\<open>role_one_owner\<close>), and its assignment, audited.
\<close>

definition claim :: "'a service \<Rightarrow> first_run \<Rightarrow> visit \<Rightarrow> time \<Rightarrow> scope \<Rightarrow> uuid \<Rightarrow> ('a, unit) idtx" where
  "claim S B v now sc account =
     (if sc \<noteq> None then fail ErrConstraint
      else after (reads (\<lambda>d. bootstraps d \<noteq> [])) (\<lambda>taken.
      if taken then fail ErrSetupClosed
      else after (checked ErrConstraint (account_exists account)
             (\<lambda>d. d\<lparr>bootstraps := bootstraps d @
                [\<lparr>bo_hash = fr_hash B, bo_used = now, bo_owner = account\<rparr>]\<rparr>)) (\<lambda>_.
      after (fresh_id (sv_new_id S)) (\<lambda>role.
      after (checked ErrConstraint
             (\<lambda>d. role \<notin> ro_id ` set (roles d) \<and> \<not> list_ex ro_owner (roles d))
             (\<lambda>d. d\<lparr>roles := roles d @ [\<lparr>ro_id = role, ro_owner = True\<rparr>]\<rparr>)) (\<lambda>_.
      after (checked ErrConstraint
             (\<lambda>d. account_exists account d \<and> role \<in> ro_id ` set (roles d) \<and>
                  \<lparr>ur_account = account, ur_role = role\<rparr> \<notin> set (user_roles d))
             (\<lambda>d. d\<lparr>user_roles := user_roles d @ [\<lparr>ur_account = account, ur_role = role\<rparr>]\<rparr>)) (\<lambda>_.
      on_trail (sv_audit S sc \<lparr>e_marketplace = [], e_actor = account, e_kind = Staff,
        e_action = ''staff.owner_created'', e_subject_kind = ''account'', e_subject = account,
        e_person = account, e_from = v_ip v, e_before = [],
        e_after = json_map (go_map [(''role'', role), (''scope'', ''platform''),
                                    (''user_agent'', v_agent v)])\<rparr>)))))))"

text \<open>
  \<^verbatim>\<open>Bootstrap.Setup\<close>. Between finding the first run open and creating the account others
  may have done anything (\<open>other\<close>); a taken address is the setup closed when by then an
  owner exists.
\<close>

definition Setup :: "'a service \<Rightarrow> first_run \<Rightarrow> visit \<Rightarrow> string \<Rightarrow> string \<Rightarrow> string \<Rightarrow> string \<Rightarrow> draws \<Rightarrow>
    ('a db \<Rightarrow> 'a db) \<Rightarrow> time \<Rightarrow> 'a db \<Rightarrow> (id_error + string) \<times> 'a db" where
  "Setup S B v token name email password r other now d =
     (case setup_open B d of
        (Inl e, d1) \<Rightarrow> (Inl e, d1)
      | (Inr open, d1) \<Rightarrow>
          if \<not> open then (Inl ErrSetupClosed, d1)
          else if sv_sha256 S (bytes_of token) \<noteq> fr_hash B then (Inl ErrTokenWrong, d1)
          else
            (case CreateStaff S v name email password (Some (claim S B v now)) r now (other d1) of
               (Inr session, d2) \<Rightarrow> (Inr session, d2)
             | (Inl e, d2) \<Rightarrow>
                 if e = ErrAddressTaken \<and> fst (setup_open B d2) = Inr False
                 then (Inl ErrSetupClosed, d2) else (Inl e, d2)))"

end
