(* ===== verification/Steps.thy ===== *)
theory Steps
  imports Bootstrap
begin

text \<open>
  Every transaction the identity flows commit, as one atomic step on the database: the
  interleavings of concurrent requests are the sequences of these steps. A step carries
  any arguments a request could give it (any secret verified, any answer, any clock), so a
  fact about all sequences of steps is a fact about all interleavings of the flows.

  \<open>body\<close> lists the transaction bodies, their results dropped, each with the session ids the
  request holds and the token hashes it draws. \<open>istep\<close> commits one of them on a visit; the
  session a request holds is one it authenticated in its own scope, so while the row is
  there it is of that scope (\<open>held\<close>). \<open>icommit\<close> is a step of any visit.
\<close>

definition silent :: "('a, 'x) idtx \<Rightarrow> ('a, unit) idtx" where
  "silent f = after f (\<lambda>_. ret ())"

definition held :: "scope \<Rightarrow> uuid set \<Rightarrow> 'a db \<Rightarrow> bool" where
  "held sc I d \<longleftrightarrow> (\<forall>r \<in> set (sessions d). s_id r \<in> I \<longrightarrow> s_scope r = sc)"

inductive body :: "'a service \<Rightarrow> first_run \<Rightarrow> visit \<Rightarrow> scope \<Rightarrow> uuid set \<Rightarrow> bytes set \<Rightarrow>
    ('a, unit) idtx \<Rightarrow> bool" for S B v sc where
  signed_up: "body S B v sc {} {h} (silent (signup_tx S sc v name email n secret token h now))"
| confirmed: "body S B v sc {} {} (silent (verify_tx S sc v h now))"
| resent: "body S B v sc {} {h} (silent (resend_tx S sc v n token h now))"
| read_credentials: "body S B v sc {} {} (silent (credentials_tx sc n))"
| refused: "body S B v sc {} {} (silent (refusal S sc v account act))"
| signed_in: "body S B v sc {} {h} (silent (signin_tx S sc v account secret fresh h now))"
| swept: "body S B v sc {} {} (silent (sweepSessions sc (v_marketplace v) now))"
| ended: "body S B v sc {} {} (silent (end_tx S sc v h reason act now))"
| authenticated: "body S B v sc {} {} (silent (authenticate_tx sc h now))"
| read_password: "body S B v sc {} {} (silent (passwordOf sc account))"
| changed: "body S B v sc {se_id s} {h} (silent (change_tx S sc v s secret fresh h now))"
| staff_created: "body S B v sc {} {h} (silent (staff_tx S sc v name email n secret h None now))"
| owner_created: "body S B v sc {} {h} (silent (staff_tx S sc v name email n secret h (Some (claim S B v now)) now))"
| answered_sign_in: "body S B v sc {} {h} (silent (answer_tx S sc v token [] ans (open_session S v ans tok h) now))"
| answered_step_up: "body S B v sc {se_id s} {} (silent (answer_tx S sc v token (se_id s) ans (step_up_done S v s ans) now))"
| read_pending: "body S B v sc {} {} (silent (pending_tx S sc token sid now))"
| sent_code: "body S B v sc {} {} (silent (challenge_code_tx S sc v token sid k now))"
| began_email: "body S B v sc {se_id s} {} (silent (begin_email_tx S sc v s k now))"
| confirmed_email: "body S B v sc {se_id s} {} (silent (confirm_email_tx S sc v s typed now))"
| began_step_up: "body S B v sc {se_id s} {h} (silent (begin_step_up_tx S sc v s act h now))"
| read_security: "body S B v sc {se_id s} {} (silent (security_tx sc s))"
| began_app: "body S B v sc {se_id s} {} (silent (begin_app_tx S sc v s plain now))"
| read_app: "body S B v sc {se_id s} {} (silent (pending_app_tx S sc s now))"
| confirmed_app: "body S B v sc {se_id s} {} (silent (confirm_app_tx S sc v s label typed hashes now))"
| removed: "body S B v sc {se_id s} {} (silent (remove_tx S sc v s i))"
| regenerated: "body S B v sc {se_id s} {} (silent (regenerate_tx S sc v s hashes))"
| began_key: "body S B v sc {se_id s} {} (silent (begin_key_tx S sc v s rp now))"
| confirmed_key: "body S B v sc {se_id s} {} (silent (confirm_key_tx S sc v s rp label parsed hashes now))"
| offered_key: "body S B v sc {} {} (silent (key_options_tx S sc rp token sid now))"

inductive istep :: "'a service \<Rightarrow> first_run \<Rightarrow> visit \<Rightarrow> bytes set \<Rightarrow> 'a db \<Rightarrow> 'a db \<Rightarrow> bool" for S B v where
  committed: "visit_ok v \<Longrightarrow> body S B v (scope_of v) I T f \<Longrightarrow> held (scope_of v) I d \<Longrightarrow>
    f d = Inr ((), d') \<Longrightarrow> istep S B v T d d'"

inductive_cases istepE: "istep S B v T d d'"

text \<open>The steps of one visit, of any visit, and of any visit that draws no token of \<open>avoided\<close>.\<close>

definition vstep :: "'a service \<Rightarrow> first_run \<Rightarrow> visit \<Rightarrow> 'a db \<Rightarrow> 'a db \<Rightarrow> bool" where
  "vstep S B v d d' \<longleftrightarrow> (\<exists>T. istep S B v T d d')"

definition icommit :: "'a service \<Rightarrow> first_run \<Rightarrow> bytes set \<Rightarrow> 'a db \<Rightarrow> 'a db \<Rightarrow> bool" where
  "icommit S B avoided d d' \<longleftrightarrow> (\<exists>v T. T \<inter> avoided = {} \<and> istep S B v T d d')"

definition reachable :: "'a service \<Rightarrow> first_run \<Rightarrow> 'a \<Rightarrow> 'a db \<Rightarrow> bool" where
  "reachable S B t d \<longleftrightarrow> (icommit S B {})\<^sup>*\<^sup>* (empty_db t) d"

text \<open>What every body keeps, every step keeps.\<close>

lemma istep_kept:
  assumes "istep S B v T d d'"
    and "\<And>I f. body S B v (scope_of v) I T f \<Longrightarrow> held (scope_of v) I d \<Longrightarrow> keeps R f"
  shows "R d d'"
  using assms by (auto elim!: istep.cases dest: keepsD)

lemma vstep_icommit: "vstep S B v d d' \<Longrightarrow> icommit S B {} d d'"
  by (auto simp: vstep_def icommit_def)

lemma istep_icommit: "istep S B v T d d' \<Longrightarrow> T \<inter> X = {} \<Longrightarrow> (icommit S B X)\<^sup>*\<^sup>* d d'"
  by (rule r_into_rtranclp) (auto simp: icommit_def)

lemma istep_vstep: "istep S B v T d d' \<Longrightarrow> (vstep S B v)\<^sup>*\<^sup>* d d'"
  by (rule r_into_rtranclp) (auto simp: vstep_def)

lemma silent_Inr: "silent f d = Inr ((), d') \<longleftrightarrow> (\<exists>x. f d = Inr (x, d'))"
  by (auto simp: silent_def tx_simps)

lemma held_empty [simp]: "held sc {} d"
  by (simp add: held_def)

lemma within_step:
  assumes "within v f d = (r, d')" and "body S B v (scope_of v) I T (silent (f (scope_of v)))"
    and "held (scope_of v) I d"
  shows "d' = d \<or> istep S B v T d d'"
proof (cases r)
  case (Inl e)
  then show ?thesis using assms(1) within_Inl by blast
next
  case (Inr x)
  then have "visit_ok v" "f (scope_of v) d = Inr (x, d')"
    using assms(1) by (simp_all add: within_Inr)
  then show ?thesis using assms(2,3) by (auto intro!: istep.committed simp: silent_Inr)
qed

text \<open>What every step keeps, every history keeps.\<close>

lemma icommit_history:
  assumes "frame R" and "\<And>v T e e'. T \<inter> X = {} \<Longrightarrow> istep S B v T e e' \<Longrightarrow> R e e'"
    and "(icommit S B X)\<^sup>*\<^sup>* d d'"
  shows "R d d'"
  using assms(3)
proof (induction rule: rtranclp_induct)
  case base
  show ?case by (rule frame.R_refl [OF assms(1)])
next
  case (step e e')
  then show ?case
    by (auto simp: icommit_def intro: frame.R_trans [OF assms(1)] assms(2))
qed

end
