(* ===== verification/Statements.thy ===== *)
theory Statements
  imports Steps
begin

text \<open>
  The interface between the SQL statements and the flows made of them. \<open>statements\<close> fixes
  what is watched (a preorder \<open>R\<close> on databases), the scope of the transaction, the session
  ids it holds and the token hashes it draws, and assumes of each statement that writes that
  it keeps \<open>R\<close>. Inside it every transaction body is shown to keep \<open>R\<close> as well, once for
  every property of histories: each such property is an interpretation of this locale.
\<close>

lemmas statement_defs = Request_def put_account_def setPassword_def insertVerification_def
  consumeVerification_def insertSession_def touchSession_def revokeSession_def revokeSessions_def
  sweepSessions_def Let_def markSteppedUp_def markEmailConfirmed_def put_factor_def usedApp_def
  usedKey_def deleteFactor_def lockAccount_def deleteRecoveryCodes_def put_recovery_def
  useRecoveryCode_def putEnrolment_def dropEnrolment_def insertChallenge_def endSignIns_def
  challengeAttempt_def the_row_def spendChallenge_def keepCeremony_def insertEmailCode_def
  useEmailCode_def spendCode_def emailFactorUsed_def codeAttempt_def countFailure_def
  clearFailures_def

locale statements = frame R
  for R :: "'a db \<Rightarrow> 'a db \<Rightarrow> bool" +
  fixes S :: "'a service" and sc :: scope and I :: "uuid set" and T :: "bytes set"
  assumes st_fresh_id: "keeps R (fresh_id new)"
    and st_audit: "keeps R (on_trail (sv_audit S sc e))"
    and st_seal: "sv_sealer S = Some sl \<Longrightarrow> keeps R (on_trail (seal_for sl p b))"
    and st_open: "sv_sealer S = Some sl \<Longrightarrow> keeps R (on_trail (open_for sl p b))"
    and st_Request: "keeps R (Request m)"
    and st_put_account: "a_scope row = sc \<Longrightarrow> keeps R (put_account row)"
    and st_setPassword: "keeps R (setPassword sc market i secret)"
    and st_insertVerification: "h \<in> T \<Longrightarrow> keeps R (insertVerification sc market i h expires)"
    and st_consumeVerification: "keeps R (consumeVerification sc h' now)"
    and st_insertSession: "h \<in> T \<Longrightarrow> keeps R (insertSession new sc market i h ip agent now)"
    and st_touchSession: "keeps R (touchSession sc i now)"
    and st_revokeSession: "keeps R (revokeSession sc h' reason now)"
    and st_revokeSessions: "keeps R (revokeSessions sc i now)"
    and st_sweepSessions: "keeps R (sweepSessions sc named now)"
    and st_markSteppedUp: "keeps R (markSteppedUp sc i now)"
    and st_markEmailConfirmed: "keeps R (markEmailConfirmed sc i now)"
    and st_put_factor: "f_scope f = sc \<Longrightarrow> keeps R (put_factor f)"
    and st_usedApp: "keeps R (usedApp sc i step now)"
    and st_usedKey: "keeps R (usedKey sc i n fl now)"
    and st_deleteFactor: "keeps R (deleteFactor parse sc i form)"
    and st_deleteRecoveryCodes: "keeps R (deleteRecoveryCodes sc i)"
    and st_put_recovery: "keeps R (put_recovery sc market i h')"
    and st_useRecoveryCode: "keeps R (useRecoveryCode sha sc i h' now)"
    and st_putEnrolment: "s \<in> I \<Longrightarrow> keeps R (putEnrolment sc market s i meth sealed ceremony expires)"
    and st_dropEnrolment: "keeps R (dropEnrolment sc s')"
    and st_insertChallenge: "h \<in> T \<Longrightarrow> s = [] \<or> s \<in> I \<Longrightarrow> keeps R (insertChallenge sc market i h s act now)"
    and st_endSignIns: "keeps R (endSignIns sc i)"
    and st_challengeAttempt: "keeps R (challengeAttempt sc h' now)"
    and st_spendChallenge: "keeps R (spendChallenge sc h' now)"
    and st_keepCeremony: "keeps R (keepCeremony sc h' answered)"
    and st_insertEmailCode: "keeps R (insertEmailCode new sc market i p h' now)"
    and st_useEmailCode: "keeps R (useEmailCode S sc i p typed now)"
    and st_countFailure: "keeps R (countFailure sc market i now)"
    and st_clearFailures: "keeps R (clearFailures sc i)"
    and st_claim: "keeps R (claim S B v now sc i)"
begin

lemmas given = st_fresh_id st_audit st_seal st_open st_Request st_put_account st_setPassword
  st_insertVerification st_consumeVerification st_insertSession st_touchSession
  st_revokeSession st_revokeSessions st_sweepSessions st_markSteppedUp st_markEmailConfirmed
  st_put_factor st_usedApp st_usedKey st_deleteFactor st_deleteRecoveryCodes st_put_recovery
  st_useRecoveryCode st_putEnrolment st_dropEnrolment st_insertChallenge st_endSignIns
  st_challengeAttempt st_spendChallenge st_keepCeremony st_insertEmailCode st_useEmailCode
  st_countFailure st_clearFailures st_claim

lemma the_row_kept: "keeps R f \<Longrightarrow> keeps R (the_row f)"
  unfolding the_row_def by (intro keeps_rules)

lemma inserts_kept:
  "keeps R (insertAccount new sc m e n name)" "keeps R (insertStaff new sc e n name at)"
  "keeps R (insertApp new sc m i label sealed step now)"
  "keeps R (insertKey new sc m i label c p k fl now)" "keeps R (insertEmailFactor new sc m i now)"
  unfolding insertAccount_def insertStaff_def insertApp_def insertKey_def insertEmailFactor_def
  by (intro keeps_rules given; simp)+

lemma queries_kept:
  "keeps R (accountByEmail sc n)" "keeps R (accountByID sc i)"
  "keeps R (passwordOf sc i)" "keeps R (passwordStill sc i secret)"
  "keeps R (liveSession sc h)" "keeps R (sessionID sc h)"
  "keeps R (factorsOf sc i)" "keeps R (countFactors sc i)"
  "keeps R (appsForUpdate sc i)" "keeps R (keysForUpdate sc i)"
  "keeps R (recoveryCodes sc i)" "keeps R (challengeForUpdate sc h now)"
  "keeps R (emailCodesSince sc i now)" "keeps R (secondFactorFailures sc i)"
  "keeps R (lockAccount sc i)" "keeps R (enrolmentOf sc i m now)"
  unfolding accountByEmail_def accountByID_def passwordOf_def passwordStill_def liveSession_def
    sessionID_def factorsOf_def countFactors_def appsForUpdate_def keysForUpdate_def
    recoveryCodes_def challengeForUpdate_def emailCodesSince_def secondFactorFailures_def
    lockAccount_def enrolmentOf_def
  by (intro keeps_rules the_row_kept)+

lemma put_recoveries_kept: "keeps R (put_recoveries sha sc m i hs)"
  by (induction hs) (auto intro!: keeps_rules given)

lemma replaceRecoveryCodes_kept: "keeps R (replaceRecoveryCodes sha sc m i hs)"
  unfolding replaceRecoveryCodes_def by (intro keeps_rules given put_recoveries_kept)

lemma trail_kept:
  "keeps R (recordWith S sc v i act detail)" "keeps R (record_own S sc v i act)"
  "keeps R (refusalWith S sc v i act detail)" "keeps R (refusal S sc v i act)"
  "keeps R (notify v account template vars)"
  unfolding recordWith_def record_own_def refusalWith_def refusal_def notify_def
  by (intro given)+

lemma hasEmailFactor_kept: "keeps R (hasEmailFactor sc i)"
  unfolding hasEmailFactor_def by (intro keeps_rules queries_kept)

lemmas kept = keeps_rules given the_row_kept inserts_kept queries_kept put_recoveries_kept
  replaceRecoveryCodes_kept trail_kept hasEmailFactor_kept

lemma account_flows_kept:
  "h \<in> T \<Longrightarrow> keeps R (signup_tx S sc v name email n secret token h now)"
  "keeps R (verify_tx S sc v h' now)"
  "h \<in> T \<Longrightarrow> keeps R (resend_tx S sc v n token h now)"
  "keeps R (credentials_tx sc n)"
  "h \<in> T \<Longrightarrow> keeps R (signin_tx S sc v i secret fresh h now)"
  "keeps R (end_tx S sc v h' reason act now)"
  "keeps R (authenticate_tx sc h' now)"
  "h \<in> T \<Longrightarrow> keeps R (change_tx S sc v s secret fresh h now)"
  unfolding signup_tx_def verify_tx_def resend_tx_def credentials_tx_def signin_tx_def end_tx_def
    authenticate_tx_def change_tx_def Let_def
  by (intro kept; simp)+

lemma staff_tx_kept:
  "h \<in> T \<Longrightarrow> (\<And>f i. hook = Some f \<Longrightarrow> keeps R (f sc i)) \<Longrightarrow>
    keeps R (staff_tx S sc v name email n secret h hook now)"
  unfolding staff_tx_def by (intro kept) auto

lemma failed_kept: "keeps R (failed S sc v account now)"
  unfolding failed_def Let_def by (intro kept)

lemma challenge_for_kept: "keeps R (challenge_for S sc token sid now)" "keeps R (offers sc account ch)"
  unfolding challenge_for_def offers_def by (intro kept)+

lemma try_apps_kept: "sv_sealer S = Some sl \<Longrightarrow> keeps R (try_apps S sl sc i typed now apps)"
  by (induction apps) (auto intro!: kept)

lemma checks_kept:
  "keeps R (checkApp S sc i typed now)" "keeps R (checkKey S sc v account ch response now)"
  unfolding checkApp_def checkKey_def by (intro kept try_apps_kept; simp)+

lemma checkOffered_kept: "keeps R (checkOffered S sc v account ch offer ans now)"
  unfolding checkOffered_def by (cases "an_method ans") (auto intro!: kept checks_kept)

lemma check_kept: "keeps R (check S sc v account ch ans now)"
  unfolding check_def by (intro kept challenge_for_kept checkOffered_kept)

lemma recoveryUsed_kept: "keeps R (recoveryUsed S sc v account p)"
  unfolding recoveryUsed_def by (intro kept)

lemma answer_tx_kept:
  "(\<And>ch account. keeps R (completed sc ch account now)) \<Longrightarrow>
    keeps R (answer_tx S sc v token sid ans completed now)"
  unfolding answer_tx_def Let_def
  by (intro kept challenge_for_kept check_kept failed_kept recoveryUsed_kept)

lemma completed_kept:
  "h \<in> T \<Longrightarrow> keeps R (open_session S v ans token h sc ch account now)"
  "keeps R (step_up_done S v s ans sc ch account now)"
  unfolding open_session_def step_up_done_def by (intro kept; simp)+

lemma sendCode_kept: "keeps R (sendCode S sc v account p n now)"
  unfolding sendCode_def Let_def by (intro kept)

lemma challenge_flows_kept:
  "keeps R (pending_tx S sc token sid now)"
  "keeps R (challenge_code_tx S sc v token sid n now)"
  "keeps R (begin_email_tx S sc v s n now)"
  "keeps R (confirm_email_tx S sc v s typed now)"
  "h \<in> T \<Longrightarrow> se_id s \<in> I \<Longrightarrow> keeps R (begin_step_up_tx S sc v s act h now)"
  unfolding pending_tx_def challenge_code_tx_def begin_email_tx_def confirm_email_tx_def
    begin_step_up_tx_def Let_def
  by (intro kept challenge_for_kept sendCode_kept; simp)+

lemma firstRecoverySet_kept: "keeps R (firstRecoverySet S sc v i hs)"
  unfolding firstRecoverySet_def by (intro kept)

lemma keysOf_kept: "keeps R (keysOf sc account)"
  unfolding keysOf_def Let_def by (intro kept)

lemma factor_flows_kept:
  "keeps R (security_tx sc s)"
  "se_id s \<in> I \<Longrightarrow> keeps R (begin_app_tx S sc v s plain now)"
  "keeps R (pending_app_tx S sc s now)"
  "keeps R (confirm_app_tx S sc v s label typed hs now)"
  "keeps R (remove_tx S sc v s i)" "keeps R (regenerate_tx S sc v s hs)"
  "se_id s \<in> I \<Longrightarrow> keeps R (begin_key_tx S sc v s rp now)"
  "keeps R (confirm_key_tx S sc v s rp label parsed hs now)"
  "keeps R (key_options_tx S sc rp token sid now)"
  unfolding security_tx_def begin_app_tx_def pending_app_tx_def confirm_app_tx_def remove_tx_def
    regenerate_tx_def begin_key_tx_def confirm_key_tx_def key_options_tx_def sealing_def Let_def
  by (intro kept firstRecoverySet_kept keysOf_kept challenge_for_kept; simp)+

lemma silent_kept: "keeps R f \<Longrightarrow> keeps R (silent f)"
  unfolding silent_def by (intro keeps_rules)

lemma body_kept: "body S B v sc I' T' f \<Longrightarrow> I' \<subseteq> I \<Longrightarrow> T' \<subseteq> T \<Longrightarrow> keeps R f"
  by (cases rule: body.cases)
    (auto intro!: silent_kept account_flows_kept staff_tx_kept answer_tx_kept completed_kept
      challenge_flows_kept factor_flows_kept queries_kept given trail_kept)

end

end
