(* ===== verification/Isolation.thy ===== *)
theory Isolation
  imports Statements
begin

text \<open>
  Tenant isolation: what a transaction of one scope leaves alone. \<open>isolated sc\<close> says that
  every row of every identity table that is not of the scope \<open>sc\<close> is as it was, and in the
  same order; the platform's own tables too, unless the transaction is the platform's. Here
  for every statement but the sweep, whose cascade stays in its scope only because a
  challenge and its session are of one scope (theory Invariant).
\<close>

definition other_accounts :: "scope \<Rightarrow> 'a db \<Rightarrow> account_row list \<times> credential_row list \<times>
    verification_row list \<times> session_row list" where
  "other_accounts sc d =
     (filter (\<lambda>r. a_scope r \<noteq> sc) (accounts d), filter (\<lambda>r. cr_scope r \<noteq> sc) (credentials d),
      filter (\<lambda>r. ve_scope r \<noteq> sc) (verifications d), filter (\<lambda>r. s_scope r \<noteq> sc) (sessions d))"

definition other_factors :: "scope \<Rightarrow> 'a db \<Rightarrow> factor_row list \<times> recovery_row list \<times> enrolment_row list \<times>
    challenge_row list \<times> code_row list \<times> failure_row list" where
  "other_factors sc d =
     (filter (\<lambda>r. f_scope r \<noteq> sc) (factors d), filter (\<lambda>r. r_scope r \<noteq> sc) (recoveries d),
      filter (\<lambda>r. en_scope r \<noteq> sc) (enrolments d), filter (\<lambda>r. ch_scope r \<noteq> sc) (challenges d),
      filter (\<lambda>r. ec_scope r \<noteq> sc) (codes d), filter (\<lambda>r. fa_scope r \<noteq> sc) (failures d))"

definition platform_rows :: "scope \<Rightarrow> 'a db \<Rightarrow> role_row list \<times> user_role_row list \<times> bootstrap_row list" where
  "platform_rows sc d = (if sc = None then ([], [], []) else (roles d, user_roles d, bootstraps d))"

definition isolated :: "scope \<Rightarrow> 'a db \<Rightarrow> 'a db \<Rightarrow> bool" where
  "isolated sc d d' \<longleftrightarrow> other_accounts sc d' = other_accounts sc d \<and>
     other_factors sc d' = other_factors sc d \<and> platform_rows sc d' = platform_rows sc d"

lemma isolatedI:
  assumes "filter (\<lambda>r. a_scope r \<noteq> sc) (accounts d') = filter (\<lambda>r. a_scope r \<noteq> sc) (accounts d)"
    "filter (\<lambda>r. cr_scope r \<noteq> sc) (credentials d') = filter (\<lambda>r. cr_scope r \<noteq> sc) (credentials d)"
    "filter (\<lambda>r. ve_scope r \<noteq> sc) (verifications d') = filter (\<lambda>r. ve_scope r \<noteq> sc) (verifications d)"
    "filter (\<lambda>r. s_scope r \<noteq> sc) (sessions d') = filter (\<lambda>r. s_scope r \<noteq> sc) (sessions d)"
    "filter (\<lambda>r. f_scope r \<noteq> sc) (factors d') = filter (\<lambda>r. f_scope r \<noteq> sc) (factors d)"
    "filter (\<lambda>r. r_scope r \<noteq> sc) (recoveries d') = filter (\<lambda>r. r_scope r \<noteq> sc) (recoveries d)"
    "filter (\<lambda>r. en_scope r \<noteq> sc) (enrolments d') = filter (\<lambda>r. en_scope r \<noteq> sc) (enrolments d)"
    "filter (\<lambda>r. ch_scope r \<noteq> sc) (challenges d') = filter (\<lambda>r. ch_scope r \<noteq> sc) (challenges d)"
    "filter (\<lambda>r. ec_scope r \<noteq> sc) (codes d') = filter (\<lambda>r. ec_scope r \<noteq> sc) (codes d)"
    "filter (\<lambda>r. fa_scope r \<noteq> sc) (failures d') = filter (\<lambda>r. fa_scope r \<noteq> sc) (failures d)"
    "roles d' = roles d \<or> sc = None" "user_roles d' = user_roles d \<or> sc = None"
    "bootstraps d' = bootstraps d \<or> sc = None"
  shows "isolated sc d d'"
  using assms by (auto simp: isolated_def other_accounts_def other_factors_def platform_rows_def)

interpretation isolated: frame "isolated sc" for sc
  by unfold_locales (auto simp: isolated_def)

named_theorems isolates "statements and flows that touch one scope only"

subsection \<open>Statements\<close>

lemma other_updated:
  "\<forall>r. p r \<longrightarrow> k r = v \<Longrightarrow> \<forall>r. k r = v \<longrightarrow> k (h r) = v \<Longrightarrow>
    filter (\<lambda>r. k r \<noteq> v) (update_where p h rows) = filter (\<lambda>r. k r \<noteq> v) rows"
  by (rule filter_update_where) auto

lemma other_deleted:
  "\<forall>r. p r \<longrightarrow> k r = v \<Longrightarrow>
    filter (\<lambda>r. k r \<noteq> v) (delete_where p rows) = filter (\<lambda>r. k r \<noteq> v) rows"
  by (rule filter_delete_where) auto

lemmas filtered = other_updated other_deleted

lemma isolated_on_trail [isolates]: "keeps (isolated sc) (on_trail f)"
  by (rule keepsI) (auto simp: tx_simps intro!: isolatedI)

lemma isolated_fresh_id [isolates]: "keeps (isolated sc) (fresh_id new)"
  by (rule keepsI) (auto simp: tx_simps intro!: isolatedI)

lemma isolated_Request [isolates]: "keeps (isolated sc) (Request m)"
  unfolding Request_def by (rule isolated.keeps_writes, rule isolatedI) simp_all

lemma isolated_put_account [isolates]: "a_scope r = sc \<Longrightarrow> keeps (isolated sc) (put_account r)"
  unfolding put_account_def by (rule isolated.keeps_checked, rule isolatedI) simp_all

lemma isolated_the_row [isolates]: "keeps (isolated sc) f \<Longrightarrow> keeps (isolated sc) (the_row f)"
  unfolding the_row_def by (intro isolated.keeps_rules)

lemma isolated_insertAccount [isolates]: "keeps (isolated sc) (insertAccount new sc m e n name)"
  unfolding insertAccount_def by (intro isolated.keeps_rules isolates) simp

lemma isolated_insertStaff [isolates]: "keeps (isolated sc) (insertStaff new sc e n name at)"
  unfolding insertStaff_def by (intro isolated.keeps_rules isolates) simp

lemma isolated_reading [isolates]:
  "keeps (isolated sc) (accountByEmail sc n)" "keeps (isolated sc) (accountByID sc i)"
  "keeps (isolated sc) (passwordOf sc i)" "keeps (isolated sc) (passwordStill sc i secret)"
  "keeps (isolated sc) (liveSession sc h)" "keeps (isolated sc) (sessionID sc h)"
  "keeps (isolated sc) (factorsOf sc i)" "keeps (isolated sc) (countFactors sc i)"
  "keeps (isolated sc) (appsForUpdate sc i)" "keeps (isolated sc) (keysForUpdate sc i)"
  "keeps (isolated sc) (recoveryCodes sc i)" "keeps (isolated sc) (challengeForUpdate sc h now)"
  "keeps (isolated sc) (emailCodesSince sc i now)" "keeps (isolated sc) (secondFactorFailures sc i)"
  "keeps (isolated sc) (lockAccount sc i)" "keeps (isolated sc) (enrolmentOf sc i m now)"
  unfolding accountByEmail_def accountByID_def passwordOf_def passwordStill_def liveSession_def
    sessionID_def factorsOf_def countFactors_def appsForUpdate_def keysForUpdate_def
    recoveryCodes_def challengeForUpdate_def emailCodesSince_def secondFactorFailures_def
    lockAccount_def enrolmentOf_def
  by (intro isolated.keeps_rules isolates)+

lemma isolated_setPassword [isolates]: "keeps (isolated sc) (setPassword sc m i secret)"
  unfolding setPassword_def
  by (intro isolated.keeps_rules isolated.keeps_checked isolatedI) (auto simp: filtered)

lemma isolated_insertVerification [isolates]: "keeps (isolated sc) (insertVerification sc m i h e)"
  unfolding insertVerification_def
  by (intro isolated.keeps_rules isolated.keeps_checked isolatedI) simp_all

lemma isolated_consumeVerification [isolates]: "keeps (isolated sc) (consumeVerification sc h now)"
  unfolding consumeVerification_def
  by (intro isolated.keeps_rules isolated.keeps_writes isolatedI)
    (simp_all add: filtered verification_live_def)

lemma isolated_insertSession [isolates]: "keeps (isolated sc) (insertSession new sc m i h ip agent now)"
  unfolding insertSession_def
  by (intro isolated.keeps_rules isolates isolated.keeps_checked isolatedI) simp_all

lemma isolated_sessions [isolates]:
  "keeps (isolated sc) (touchSession sc i now)" "keeps (isolated sc) (revokeSession sc h reason now)"
  "keeps (isolated sc) (revokeSessions sc i now)" "keeps (isolated sc) (markSteppedUp sc i now)"
  "keeps (isolated sc) (markEmailConfirmed sc i now)"
  unfolding touchSession_def revokeSession_def revokeSessions_def markSteppedUp_def markEmailConfirmed_def
  by (intro isolated.keeps_rules isolated.keeps_writes isolatedI; simp add: filtered)+

lemma isolated_put_factor [isolates]: "f_scope f = sc \<Longrightarrow> keeps (isolated sc) (put_factor f)"
  unfolding put_factor_def by (rule isolated.keeps_checked, rule isolatedI) simp_all

lemma isolated_factors [isolates]:
  "keeps (isolated sc) (insertApp new sc m i label sealed step now)"
  "keeps (isolated sc) (insertKey new sc m i label c p n fl now)"
  "keeps (isolated sc) (insertEmailFactor new sc m i now)"
  unfolding insertApp_def insertKey_def insertEmailFactor_def
  by (intro isolated.keeps_rules isolates; simp)+

lemma isolated_factor_uses [isolates]:
  "keeps (isolated sc) (usedApp sc i step now)" "keeps (isolated sc) (usedKey sc i n fl now)"
  "keeps (isolated sc) (emailFactorUsed sc i now)"
  unfolding usedApp_def usedKey_def emailFactorUsed_def
  by (rule isolated.keeps_writes, rule isolatedI; simp add: filtered)+

lemma isolated_deleteFactor [isolates]: "keeps (isolated sc) (deleteFactor parse sc i fid)"
  unfolding deleteFactor_def
  by (intro isolated.keeps_rules isolates isolated.keeps_writes isolatedI) (simp_all add: filtered)

lemma isolated_deleteRecoveryCodes [isolates]: "keeps (isolated sc) (deleteRecoveryCodes sc i)"
  unfolding deleteRecoveryCodes_def
  by (intro isolated.keeps_writes isolatedI) (simp_all add: filtered)

lemma isolated_put_recovery [isolates]: "keeps (isolated sc) (put_recovery sc m i h)"
  unfolding put_recovery_def by (intro isolated.keeps_checked isolatedI) simp_all

lemma isolated_useRecoveryCode [isolates]: "keeps (isolated sc) (useRecoveryCode sha sc i h now)"
  unfolding useRecoveryCode_def Let_def
  by (intro isolated.keeps_rules isolated.keeps_writes isolatedI) (simp_all add: filtered)

lemma isolated_enrolments [isolates]:
  "keeps (isolated sc) (putEnrolment sc m s i meth secret wa e)" "keeps (isolated sc) (dropEnrolment sc s)"
  unfolding putEnrolment_def dropEnrolment_def
  by (intro isolated.keeps_rules isolated.keeps_checked isolated.keeps_writes isolatedI;
      auto simp: filtered)+

lemma isolated_challenges [isolates]:
  "keeps (isolated sc) (insertChallenge sc m i h s act now)" "keeps (isolated sc) (endSignIns sc i)"
  "keeps (isolated sc) (challengeAttempt sc h now)" "keeps (isolated sc) (spendChallenge sc h now)"
  "keeps (isolated sc) (keepCeremony sc h c)"
  unfolding insertChallenge_def endSignIns_def challengeAttempt_def spendChallenge_def keepCeremony_def
  by (intro isolated.keeps_rules isolates isolated.keeps_checked isolated.keeps_writes isolatedI;
      simp add: filtered count_attempt_def)+

lemma isolated_codes [isolates]:
  "keeps (isolated sc) (insertEmailCode new sc m i p h now)" "keeps (isolated sc) (spendCode sc i now)"
  "keeps (isolated sc) (codeAttempt sc i)"
  unfolding insertEmailCode_def spendCode_def codeAttempt_def
  by (intro isolated.keeps_rules isolates isolated.keeps_checked isolated.keeps_writes isolatedI;
      simp add: filtered)+

lemma isolated_failures [isolates]:
  "keeps (isolated sc) (countFailure sc m i now)" "keeps (isolated sc) (clearFailures sc i)"
  unfolding countFailure_def clearFailures_def
  by (intro isolated.keeps_rules isolated.keeps_checked isolated.keeps_writes isolatedI;
      auto simp: filtered)+

lemma isolated_useEmailCode [isolates]: "keeps (isolated sc) (useEmailCode S sc i p typed now)"
  unfolding useEmailCode_def by (intro isolated.keeps_rules isolates)

lemma isolated_claim [isolates]: "keeps (isolated sc) (claim S B v now sc i)"
  unfolding claim_def
  by (intro isolated.keeps_rules isolates isolated.keeps_checked isolatedI) simp_all

end
