(* ===== verification/Invariant.thy ===== *)
theory Invariant
  imports Isolation
begin

text \<open>
  What every reachable database satisfies, whatever requests ran in whatever order: the keys
  of every table, what a live challenge, a code, a factor and a run of failures look like,
  and that a step-up or an enrolment is of its session's scope. \<open>guarded\<close> is the preorder
  "the invariant is kept and the other scopes are untouched"; the interpretation of
  \<open>statements\<close> on it lifts both from the statements to every history.
\<close>

subsection \<open>The invariant\<close>

definition accounts_wf :: "account_row list \<Rightarrow> bool" where
  "accounts_wf rows \<longleftrightarrow> distinct (map a_id rows) \<and>
     distinct (map (\<lambda>r. (a_scope r, a_normalised r)) rows) \<and>
     (\<forall>r \<in> set rows. a_kind r = KindStaff \<longleftrightarrow> a_scope r = None)"

definition factors_wf :: "factor_row list \<Rightarrow> bool" where
  "factors_wf rows \<longleftrightarrow> distinct (map f_id rows) \<and> (\<forall>f \<in> set rows. factor_ok f) \<and>
     distinct (map f_account (filter (\<lambda>f. f_method f = MethodEmail) rows)) \<and>
     distinct (map f_credential (filter (\<lambda>f. f_credential f \<noteq> None) rows))"

definition challenges_wf :: "challenge_row list \<Rightarrow> bool" where
  "challenges_wf rows \<longleftrightarrow> distinct (map ch_hash rows) \<and>
     (\<forall>c \<in> set rows. (ch_used c = None \<longrightarrow> ch_attempts c < ChallengeAttempts) \<and>
        (ch_session c = None \<longleftrightarrow> ch_action c = None))"

definition code_key :: "code_row \<Rightarrow> scope \<times> uuid \<times> string" where
  "code_key c = (ec_scope c, ec_account c, ec_purpose c)"

definition codes_wf :: "code_row list \<Rightarrow> bool" where
  "codes_wf rows \<longleftrightarrow> distinct (map ec_id rows) \<and>
     (\<forall>c \<in> set rows. ec_attempts c \<le> EmailCodeAttempts) \<and>
     distinct (map code_key (filter (\<lambda>c. ec_used c = None) rows))"

definition failures_wf :: "failure_row list \<Rightarrow> bool" where
  "failures_wf rows \<longleftrightarrow> distinct (map fa_account rows) \<and> (\<forall>r \<in> set rows. fa_failures r > 0)"

definition owners_wf :: "role_row list \<Rightarrow> bootstrap_row list \<Rightarrow> bool" where
  "owners_wf rs bs \<longleftrightarrow> distinct (map ro_id rs) \<and> length (filter ro_owner rs) \<le> 1 \<and> length bs \<le> 1"

definition session_keys :: "session_row list \<Rightarrow> (uuid \<times> scope) set" where
  "session_keys rows = set (map (\<lambda>r. (s_id r, s_scope r)) rows)"

definition refs_wf :: "session_row list \<Rightarrow> challenge_row list \<Rightarrow> enrolment_row list \<Rightarrow> bool" where
  "refs_wf ss cs es \<longleftrightarrow>
     (\<forall>c \<in> set cs. \<forall>i. ch_session c = Some i \<longrightarrow> (i, ch_scope c) \<in> session_keys ss) \<and>
     (\<forall>e \<in> set es. (en_session e, en_scope e) \<in> session_keys ss)"

definition sessions_wf :: "session_row list \<Rightarrow> bool" where
  "sessions_wf rows \<longleftrightarrow> distinct (map s_id rows) \<and> distinct (map s_hash rows)"

definition db_wf :: "'a db \<Rightarrow> bool" where
  "db_wf d \<longleftrightarrow> accounts_wf (accounts d) \<and> distinct (map cr_account (credentials d)) \<and>
     distinct (map ve_hash (verifications d)) \<and> sessions_wf (sessions d) \<and>
     factors_wf (factors d) \<and>
     distinct (map (\<lambda>r. (r_account r, r_hash r)) (recoveries d)) \<and>
     distinct (map en_session (enrolments d)) \<and> challenges_wf (challenges d) \<and>
     codes_wf (codes d) \<and> failures_wf (failures d) \<and> owners_wf (roles d) (bootstraps d) \<and>
     refs_wf (sessions d) (challenges d) (enrolments d)"

lemmas wf_tables = accounts_wf_def factors_wf_def challenges_wf_def codes_wf_def
  failures_wf_def owners_wf_def sessions_wf_def

definition guarded :: "scope \<Rightarrow> uuid set \<Rightarrow> 'a db \<Rightarrow> 'a db \<Rightarrow> bool" where
  "guarded sc I d d' \<longleftrightarrow> (db_wf d \<and> held sc I d \<longrightarrow> db_wf d' \<and> held sc I d' \<and> isolated sc d d')"

lemma guardedI:
  assumes "keeps (isolated sc) f"
    and "\<And>d x d'. f d = Inr (x, d') \<Longrightarrow> db_wf d \<Longrightarrow> held sc I d \<Longrightarrow> db_wf d' \<and> held sc I d'"
  shows "keeps (guarded sc I) f"
  using assms by (auto simp: guarded_def intro!: keepsI dest: keepsD)

interpretation guarded: frame "guarded sc I" for sc I
  by unfold_locales (auto simp: guarded_def intro: isolated.R_refl isolated.R_trans)

subsection \<open>Keys of an updated, a shortened and a longer table\<close>

named_theorems keys "the keys of a table after a statement"

lemma keys_update [keys]:
  "\<forall>r. k (h r) = k r \<Longrightarrow> map k (update_where p h rows) = map k rows"
  by (rule map_update_where) simp

lemma keys_delete [keys]: "distinct (map k rows) \<Longrightarrow> distinct (map k (delete_where p rows))"
  by (simp add: delete_where_def distinct_map_filter)

lemma filter_update [keys]:
  "\<forall>r. q (h r) = q r \<Longrightarrow> filter q (update_where p h rows) = update_where p h (filter q rows)"
  by (induction rows) (auto simp: update_where_def)

lemma filter_delete [keys]: "filter q (delete_where p rows) = delete_where p (filter q rows)"
  by (simp add: delete_where_def conj_commute)

lemma all_update:
  "\<forall>r. q r \<longrightarrow> q (h r) \<Longrightarrow> \<forall>r \<in> set rows. q r \<Longrightarrow> \<forall>r \<in> set (update_where p h rows). q r"
  by (auto simp: update_where_def)

lemma session_keys_update [keys]:
  "\<forall>r. s_id (h r) = s_id r \<and> s_scope (h r) = s_scope r \<Longrightarrow>
    session_keys (update_where p h rows) = session_keys rows"
  by (simp add: session_keys_def keys del: set_map)

lemma session_keys_append [simp]:
  "session_keys (rows @ [r]) = insert (s_id r, s_scope r) (session_keys rows)"
  by (simp add: session_keys_def)

lemma held_keys: "held sc I d \<longleftrightarrow> (\<forall>(i, s) \<in> session_keys (sessions d). i \<in> I \<longrightarrow> s = sc)"
  by (auto simp: held_def session_keys_def)

lemma accounts_wf_update [keys]:
  "\<forall>r. a_id (h r) = a_id r \<and> a_scope (h r) = a_scope r \<and> a_normalised (h r) = a_normalised r \<and>
     a_kind (h r) = a_kind r \<Longrightarrow> accounts_wf rows \<Longrightarrow> accounts_wf (update_where p h rows)"
  by (auto simp: accounts_wf_def keys set_update_where)

subsection \<open>Statements\<close>

named_theorems guards "statements that keep the invariant in their scope"

lemma guarded_other [guards]:
  "keeps (guarded sc I) (fresh_id new)" "keeps (guarded sc I) (on_trail f)"
  "keeps (guarded sc I) (Request m)"
  by ((rule guardedI, rule isolates); auto simp: tx_simps Request_def db_wf_def held_def)+

lemma guarded_put_account [guards]: "a_scope row = sc \<Longrightarrow> keeps (guarded sc I) (put_account row)"
  by (rule guardedI, rule isolates, assumption)
    (auto simp: put_account_def tx_simps db_wf_def held_def accounts_wf_def account_id_free_def
      address_taken_def)

lemma guarded_setPassword [guards]: "keeps (guarded sc I) (setPassword sc m i secret)"
  by (rule guardedI, rule isolates)
    (auto simp: setPassword_def tx_simps db_wf_def held_def keys split: if_splits)

lemma guarded_verifications [guards]:
  "keeps (guarded sc I) (insertVerification sc m i h e)"
  "keeps (guarded sc I) (consumeVerification sc h now)"
  by ((rule guardedI, rule isolates);
      auto simp: insertVerification_def consumeVerification_def tx_simps db_wf_def held_def keys
        split: if_splits option.splits)+

lemma guarded_insertSession [guards]: "keeps (guarded sc I) (insertSession new sc m i h ip agent now)"
  by (rule guardedI, rule isolates)
    (auto simp: insertSession_def tx_simps db_wf_def held_def sessions_wf_def refs_wf_def split: if_splits)

lemma guarded_sessions [guards]:
  "keeps (guarded sc I) (touchSession sc i now)" "keeps (guarded sc I) (revokeSession sc h reason now)"
  "keeps (guarded sc I) (revokeSessions sc i now)" "keeps (guarded sc I) (markSteppedUp sc i now)"
  "keeps (guarded sc I) (markEmailConfirmed sc i now)"
  by ((rule guardedI, rule isolates);
      auto simp: touchSession_def revokeSession_def revokeSessions_def markSteppedUp_def
        markEmailConfirmed_def tx_simps db_wf_def held_keys sessions_wf_def refs_wf_def keys
        split: option.splits)+

lemma guarded_sweepSessions [guards]: "keeps (guarded sc I) (sweepSessions sc named now)"
proof (rule keepsI, unfold guarded_def, intro impI, elim conjE)
  fix d d' :: "'a db" and x
  assume run: "sweepSessions sc named now d = Inr (x, d')" and d: "db_wf d" "held sc I d"
  define hit where "hit = (\<lambda>r. s_scope r = sc \<and> s_scope r = nullif named \<and> session_dead now r)"
  define gone where "gone = map s_id (filter hit (sessions d))"
  have d': "d' = d\<lparr>sessions := delete_where hit (sessions d),
      challenges := delete_where (of_sessions gone) (challenges d),
      enrolments := delete_where (\<lambda>e. en_session e \<in> set gone) (enrolments d)\<rparr>"
    using run by (auto simp: sweepSessions_def Let_def hit_def gone_def tx_simps)
  have one: "s = sc" if key: "(i, s) \<in> session_keys (sessions d)" and swept: "i \<in> set gone" for i s
  proof -
    obtain r where r: "r \<in> set (sessions d)" "hit r" "s_id r = i"
      using swept by (auto simp: gone_def)
    obtain q where q: "q \<in> set (sessions d)" "s_id q = i" "s_scope q = s"
      using key by (auto simp: session_keys_def)
    have "inj_on s_id (set (sessions d))"
      using d(1) by (simp add: db_wf_def sessions_wf_def distinct_map)
    then have "r = q" using r q by (auto dest: inj_onD)
    then show ?thesis using r q by (simp add: hit_def)
  qed
  have left: "(i, s) \<in> session_keys (delete_where hit (sessions d))"
    if "(i, s) \<in> session_keys (sessions d)" "i \<notin> set gone" for i s
    using that by (auto simp: session_keys_def gone_def delete_where_def)
  have refs: "refs_wf (sessions d') (challenges d') (enrolments d')"
    using d(1) left
    by (auto simp: d' db_wf_def refs_wf_def set_delete_where of_sessions_def split: option.splits)
  have "db_wf d'"
    using d(1) refs by (auto simp: d' db_wf_def wf_tables keys set_delete_where)
  moreover have "held sc I d'"
    using d(2) by (auto simp: d' held_def set_delete_where)
  moreover have "filter (\<lambda>c. ch_scope c \<noteq> sc) (challenges d') = filter (\<lambda>c. ch_scope c \<noteq> sc) (challenges d)"
    using d(1) one
    by (force simp: d' delete_where_def of_sessions_def db_wf_def refs_wf_def split: option.splits
        intro!: filter_cong)
  moreover have "filter (\<lambda>e. en_scope e \<noteq> sc) (enrolments d') = filter (\<lambda>e. en_scope e \<noteq> sc) (enrolments d)"
    using d(1) one by (force simp: d' delete_where_def db_wf_def refs_wf_def intro!: filter_cong)
  ultimately show "db_wf d' \<and> held sc I d' \<and> isolated sc d d'"
    using d' by (auto simp: hit_def filtered intro!: isolatedI)
qed

lemma guarded_put_factor [guards]: "f_scope f = sc \<Longrightarrow> keeps (guarded sc I) (put_factor f)"
  by (rule guardedI, rule isolates, assumption)
    (auto simp: put_factor_def tx_simps db_wf_def held_def factors_wf_def image_iff)

lemma factors_wf_update [keys]:
  "\<forall>f. f_id (h f) = f_id f \<and> f_account (h f) = f_account f \<and> f_method (h f) = f_method f \<and>
     f_credential (h f) = f_credential f \<and> f_secret (h f) = f_secret f \<and>
     f_public_key (h f) = f_public_key f \<Longrightarrow> factors_wf rows \<Longrightarrow> factors_wf (update_where p h rows)"
  by (auto simp: factors_wf_def keys set_update_where factor_ok_def)

lemma factors_wf_delete [keys]: "factors_wf rows \<Longrightarrow> factors_wf (delete_where p rows)"
  by (auto simp: factors_wf_def keys set_delete_where)

lemma guarded_factors [guards]:
  "keeps (guarded sc I) (usedApp sc i step now)" "keeps (guarded sc I) (usedKey sc i n fl now)"
  "keeps (guarded sc I) (deleteFactor parse sc i form)"
  by ((rule guardedI, rule isolates);
      auto simp: usedApp_def usedKey_def deleteFactor_def lockAccount_def tx_simps db_wf_def held_def
        keys split: option.splits)+

lemma guarded_recoveries [guards]:
  "keeps (guarded sc I) (deleteRecoveryCodes sc i)" "keeps (guarded sc I) (useRecoveryCode sha sc i h now)"
  by ((rule guardedI, rule isolates);
      auto simp: deleteRecoveryCodes_def useRecoveryCode_def Let_def tx_simps db_wf_def held_def keys)+

lemma guarded_put_recovery [guards]: "keeps (guarded sc I) (put_recovery sc m i h)"
  by (rule guardedI, rule isolated_put_recovery)
    (auto simp: put_recovery_def tx_simps db_wf_def held_def)

lemma held_key: "held sc I d \<Longrightarrow> s \<in> I \<Longrightarrow> s \<in> s_id ` set (sessions d) \<Longrightarrow>
    (s, sc) \<in> session_keys (sessions d)"
  by (auto simp: held_def session_keys_def)

lemma refs_wf_enrolled [keys]:
  "refs_wf ss cs (es @ [e]) \<longleftrightarrow> refs_wf ss cs es \<and> (en_session e, en_scope e) \<in> session_keys ss"
  "refs_wf ss cs es \<Longrightarrow> refs_wf ss cs (delete_where q es)"
  "\<forall>e. en_session (g e) = en_session e \<and> en_scope (g e) = en_scope e \<Longrightarrow> refs_wf ss cs es \<Longrightarrow>
    refs_wf ss cs (update_where q g es)"
  by (auto simp: refs_wf_def set_update_where set_delete_where)

lemma guarded_enrolments [guards]:
  "s \<in> I \<Longrightarrow> keeps (guarded sc I) (putEnrolment sc m s i meth sealed ceremony e)"
  "keeps (guarded sc I) (dropEnrolment sc s')"
  by ((rule guardedI, rule isolates);
      auto simp: putEnrolment_def dropEnrolment_def tx_simps db_wf_def keys held_key
        split: if_splits; simp add: held_def)+

lemma challenges_wf_update [keys]:
  "\<forall>c. ch_hash (h c) = ch_hash c \<and> ch_session (h c) = ch_session c \<and> ch_action (h c) = ch_action c \<and>
     (ch_used (h c) = None \<longrightarrow> ch_used c = None \<longrightarrow> ch_attempts c < ChallengeAttempts \<longrightarrow>
       ch_attempts (h c) < ChallengeAttempts) \<and> (ch_used (h c) = None \<longrightarrow> ch_used c = None) \<Longrightarrow>
    challenges_wf rows \<Longrightarrow> challenges_wf (update_where p h rows)"
  by (auto simp: challenges_wf_def keys set_update_where)

lemma refs_wf_update [keys]:
  "\<forall>c. ch_session (h c) = ch_session c \<and> ch_scope (h c) = ch_scope c \<Longrightarrow> refs_wf ss cs es \<Longrightarrow>
    refs_wf ss (update_where p h cs) es"
  by (auto simp: refs_wf_def set_update_where)

lemma challenges_wf_delete [keys]: "challenges_wf rows \<Longrightarrow> challenges_wf (delete_where p rows)"
  by (auto simp: challenges_wf_def keys set_delete_where)

lemma refs_wf_delete [keys]: "refs_wf ss cs es \<Longrightarrow> refs_wf ss (delete_where p cs) es"
  by (auto simp: refs_wf_def set_delete_where)

lemma guarded_challenge_updates [guards]:
  "keeps (guarded sc I) (challengeAttempt sc h now)" "keeps (guarded sc I) (spendChallenge sc h now)"
  "keeps (guarded sc I) (keepCeremony sc h c)" "keeps (guarded sc I) (endSignIns sc i)"
  by ((rule guardedI, rule isolates);
      auto simp: challengeAttempt_def spendChallenge_def keepCeremony_def endSignIns_def the_row_def
        count_attempt_def tx_simps db_wf_def held_def keys split: option.splits if_splits)+

lemma refs_wf_challenge [keys]:
  "refs_wf ss (cs @ [c]) es \<longleftrightarrow> refs_wf ss cs es \<and>
     (\<forall>i. ch_session c = Some i \<longrightarrow> (i, ch_scope c) \<in> session_keys ss)"
  by (auto simp: refs_wf_def)

lemma guarded_insertChallenge [guards]:
  "s = [] \<or> s \<in> I \<Longrightarrow> keeps (guarded sc I) (insertChallenge sc m i h s act now)"
  by (rule guardedI, rule isolates)
    (auto simp: insertChallenge_def tx_simps db_wf_def held_key keys challenges_wf_def
      set_delete_where nullif_def nullif_action_def ChallengeAttempts_def split: if_splits;
      simp add: held_def)

text \<open>A code that is asked for ends the ones asked for before, and a wrong guess counts.\<close>

lemma codes_wf_delete [keys]: "codes_wf rows \<Longrightarrow> codes_wf (delete_where p rows)"
  by (auto simp: codes_wf_def keys set_delete_where)

lemma filter_spent: "filter (\<lambda>c. ec_used c = None) (update_where p (\<lambda>c. c\<lparr>ec_used := Some now\<rparr>) rows) =
    filter (\<lambda>c. ec_used c = None \<and> \<not> p c) rows"
  by (induction rows) (auto simp: update_where_def)

lemma codes_wf_spent [keys]:
  assumes "codes_wf rows"
  shows "codes_wf (update_where p (\<lambda>c. c\<lparr>ec_used := Some now\<rparr>) rows)"
proof -
  have "distinct (map code_key (filter (\<lambda>c. ec_used c = None \<and> \<not> p c) rows))"
    using assms distinct_map_filter [of code_key "filter (\<lambda>c. ec_used c = None) rows" "\<lambda>c. \<not> p c"]
    by (simp add: codes_wf_def conj_commute)
  then show ?thesis using assms by (auto simp: codes_wf_def keys filter_spent set_update_where)
qed

lemma updated_not: "r \<in> set (update_where p h rows) \<Longrightarrow> \<forall>r. \<not> p (h r) \<Longrightarrow> \<not> p r"
  by (auto simp: update_where_def)

lemma guarded_insertEmailCode [guards]: "keeps (guarded sc I) (insertEmailCode new sc m i p h now)"
proof (rule guardedI, rule isolates)
  fix d d' :: "'a db" and x
  assume run: "insertEmailCode new sc m i p h now d = Inr (x, d')" and d: "db_wf d" "held sc I d"
  define mine :: "code_row \<Rightarrow> bool" where
    "mine = (\<lambda>c. ec_scope c = sc \<and> ec_account c = i \<and> ec_purpose c = p \<and> ec_used c = None)"
  define rows where "rows = update_where mine (\<lambda>c. c\<lparr>ec_used := Some now\<rparr>)
      (delete_where (\<lambda>c. ec_scope c = sc \<and> ec_account c = i \<and> ec_created c \<le> now - hour) (codes d))"
  obtain c where d': "d' = d\<lparr>drawn := Suc (drawn d), codes := rows @ [c]\<rparr>"
    and c: "code_key c = (sc, i, p)" "ec_attempts c = 0" "ec_id c \<notin> ec_id ` set rows"
    using run by (auto simp: insertEmailCode_def tx_simps rows_def mine_def code_key_def split: if_splits)
  have rows: "codes_wf rows"
    unfolding rows_def by (intro codes_wf_spent codes_wf_delete) (use d(1) in \<open>simp add: db_wf_def\<close>)
  have "\<not> mine q" if "q \<in> set rows" for q
    using that unfolding rows_def by (rule updated_not) (simp add: mine_def)
  moreover have "mine q" if "q \<in> set rows" "ec_used q = None" "code_key c = code_key q" for q
    using that c(1) by (simp add: code_key_def mine_def)
  ultimately have "code_key c \<notin> code_key ` set (filter (\<lambda>c. ec_used c = None) rows)"
    by auto
  then have "codes_wf (rows @ [c])"
    using rows c by (auto simp: codes_wf_def)
  then show "db_wf d' \<and> held sc I d'"
    using d by (simp add: d' db_wf_def held_def)
qed

lemma youngest_in: "youngest cs = Some c \<Longrightarrow> c \<in> set cs"
  by (auto simp: youngest_def split: list.splits) (metis list.set_intros(1) set_sort)

lemma guarded_useEmailCode [guards]: "keeps (guarded sc I) (useEmailCode S sc i p typed now)"
proof (rule guardedI, rule isolates)
  fix d d' :: "'a db" and ok
  assume run: "useEmailCode S sc i p typed now d = Inr (ok, d')" and d: "db_wf d" "held sc I d"
  show "db_wf d' \<and> held sc I d'"
  proof (cases "youngest (filter (code_live sc i p now) (codes d))")
    case None
    then show ?thesis using run d by (auto simp: useEmailCode_def tx_simps)
  next
    case (Some c)
    then have c: "c \<in> set (codes d)" "ec_attempts c < EmailCodeAttempts"
      by (auto dest!: youngest_in simp: code_live_def)
    have "q = c" if "q \<in> set (codes d)" "ec_id q = ec_id c" for q
      using that c d(1) by (auto simp: db_wf_def codes_wf_def distinct_map dest: inj_onD)
    then have "ec_attempts q < EmailCodeAttempts" if "q \<in> set (codes d)" "ec_id q = ec_id c" for q
      using that c by blast
    then have "codes_wf (update_where (\<lambda>q. ec_scope q = sc \<and> ec_id q = ec_id c)
        (\<lambda>q. q\<lparr>ec_attempts := ec_attempts q + 1\<rparr>) (codes d))"
      using d(1) by (auto simp: db_wf_def codes_wf_def keys set_update_where code_key_def Suc_le_eq)
    then show ?thesis
      using run d Some
      by (auto simp: useEmailCode_def spendCode_def codeAttempt_def emailFactorUsed_def tx_simps
          db_wf_def held_def keys split: if_splits)
  qed
qed

lemma guarded_failures [guards]:
  "keeps (guarded sc I) (countFailure sc m i now)" "keeps (guarded sc I) (clearFailures sc i)"
  by ((rule guardedI, rule isolates);
      auto simp: countFailure_def clearFailures_def tx_simps db_wf_def held_def failures_wf_def keys
        set_update_where set_delete_where split: if_splits)+

lemma guarded_claim [guards]: "keeps (guarded sc I) (claim S B v now sc i)"
  by (rule guardedI, rule isolates)
    (auto simp: claim_def tx_simps db_wf_def held_def owners_wf_def list_ex_iff filter_empty_conv
      split: if_splits)

subsection \<open>Every history\<close>

interpretation guarded_steps: statements "guarded sc I" S sc I T for S sc I T
  by unfold_locales (auto intro: guards)

lemma guarded_istep: "istep S B v T d d' \<Longrightarrow> db_wf d \<Longrightarrow> db_wf d' \<and> isolated (scope_of v) d d'"
  by (erule istepE)
    (auto dest!: guarded_steps.body_kept [OF _ subset_refl subset_refl] keepsD simp: guarded_def)

lemma db_wf_steps: "(icommit S B X)\<^sup>*\<^sup>* d d' \<Longrightarrow> db_wf d \<Longrightarrow> db_wf d'"
  by (induction rule: rtranclp_induct) (auto simp: icommit_def dest: guarded_istep)

lemma isolated_steps: "(vstep S B v)\<^sup>*\<^sup>* d d' \<Longrightarrow> db_wf d \<Longrightarrow> db_wf d' \<and> isolated (scope_of v) d d'"
  by (induction rule: rtranclp_induct)
    (auto simp: vstep_def isolated.R_refl dest!: guarded_istep elim: isolated.R_trans)

lemma db_wf_empty: "db_wf (empty_db t)"
  by (simp add: db_wf_def wf_tables refs_wf_def empty_db_def)

lemma db_wf_reachable: "reachable S B t d \<Longrightarrow> db_wf d"
  by (auto simp: reachable_def intro: db_wf_steps [OF _ db_wf_empty])

end
