(* ===== verification/Histories.thy ===== *)
theory Histories
  imports Invariant
begin

text \<open>
  Facts about histories that are no invariant of one database: a token that opens nothing
  opens nothing ever again, whatever runs, as long as nobody draws it anew; and the audit
  log, whatever the identity flows do with it, is only ever appended to and sealed with.
  Each is an interpretation of \<open>statements\<close>.
\<close>

subsection \<open>Spent tokens\<close>

text \<open>No live session, no unspent challenge, no unspent confirmation for the token's hash.\<close>

definition closed_session :: "scope \<Rightarrow> bytes \<Rightarrow> 'a db \<Rightarrow> bool" where
  "closed_session sc h d = (\<forall>r \<in> set (sessions d). s_scope r = sc \<and> s_hash r = h \<longrightarrow> s_revoked r \<noteq> None)"

definition closed_challenge :: "scope \<Rightarrow> bytes \<Rightarrow> 'a db \<Rightarrow> bool" where
  "closed_challenge sc h d = (\<forall>c \<in> set (challenges d). ch_scope c = sc \<and> ch_hash c = h \<longrightarrow> ch_used c \<noteq> None)"

definition closed_verification :: "scope \<Rightarrow> bytes \<Rightarrow> 'a db \<Rightarrow> bool" where
  "closed_verification sc h d =
     (\<forall>r \<in> set (verifications d). ve_scope r = sc \<and> ve_hash r = h \<longrightarrow> ve_used r \<noteq> None)"

definition stays_closed :: "scope \<Rightarrow> bytes \<Rightarrow> 'a db \<Rightarrow> 'a db \<Rightarrow> bool" where
  "stays_closed sc h d d' \<longleftrightarrow> (closed_session sc h d \<longrightarrow> closed_session sc h d') \<and>
     (closed_challenge sc h d \<longrightarrow> closed_challenge sc h d') \<and>
     (closed_verification sc h d \<longrightarrow> closed_verification sc h d')"

interpretation stays_closed: frame "stays_closed sc h" for sc h
  by unfold_locales (auto simp: stays_closed_def)

text \<open>A statement that only changes rows without reviving them.\<close>

lemma stays_closedI:
  assumes "\<And>r'. r' \<in> set (sessions d') \<Longrightarrow> s_hash r' = h \<Longrightarrow> \<exists>r \<in> set (sessions d). s_scope r = s_scope r' \<and>
      s_hash r = s_hash r' \<and> (s_revoked r \<noteq> None \<longrightarrow> s_revoked r' \<noteq> None)"
    and "\<And>c'. c' \<in> set (challenges d') \<Longrightarrow> ch_hash c' = h \<Longrightarrow> \<exists>c \<in> set (challenges d). ch_scope c = ch_scope c' \<and>
      ch_hash c = ch_hash c' \<and> (ch_used c \<noteq> None \<longrightarrow> ch_used c' \<noteq> None)"
    and "\<And>r'. r' \<in> set (verifications d') \<Longrightarrow> ve_hash r' = h \<Longrightarrow> \<exists>r \<in> set (verifications d). ve_scope r = ve_scope r' \<and>
      ve_hash r = ve_hash r' \<and> (ve_used r \<noteq> None \<longrightarrow> ve_used r' \<noteq> None)"
  shows "stays_closed sc h d d'"
  unfolding stays_closed_def closed_session_def closed_challenge_def closed_verification_def
  by (intro conjI impI ballI) (auto dest: assms)

named_theorems closes "statements that revive no token"

lemma closes_rows [closes]:
  "keeps (stays_closed sc h) (fresh_id new)" "keeps (stays_closed sc h) (on_trail f)"
  "keeps (stays_closed sc h) (Request m)" "keeps (stays_closed sc h) (put_account row)"
  "keeps (stays_closed sc h) (setPassword sc' market i secret)"
  "keeps (stays_closed sc h) (put_factor f')"
  "keeps (stays_closed sc h) (usedApp sc' i step now)" "keeps (stays_closed sc h) (usedKey sc' i n fl now)"
  "keeps (stays_closed sc h) (deleteFactor parse sc' i form)"
  "keeps (stays_closed sc h) (deleteRecoveryCodes sc' i)"
  "keeps (stays_closed sc h) (put_recovery sc' market i hr)"
  "keeps (stays_closed sc h) (useRecoveryCode sha sc' i hr now)"
  "keeps (stays_closed sc h) (putEnrolment sc' market s i meth sealed ceremony e)"
  "keeps (stays_closed sc h) (dropEnrolment sc' s)"
  "keeps (stays_closed sc h) (insertEmailCode new sc' market i p hc now)"
  "keeps (stays_closed sc h) (useEmailCode S sc' i p typed now)"
  "keeps (stays_closed sc h) (countFailure sc' market i now)"
  "keeps (stays_closed sc h) (clearFailures sc' i)"
  "keeps (stays_closed sc h) (claim S B v now sc' i)"
  by (rule keepsI, rule stays_closedI;
      auto simp: statement_defs claim_def tx_simps split: if_splits option.splits)+

lemma closes_sessions [closes]:
  "hs \<noteq> h \<Longrightarrow> keeps (stays_closed sc h) (insertSession new sc' market i hs ip agent now)"
  "keeps (stays_closed sc h) (touchSession sc' i now)"
  "keeps (stays_closed sc h) (revokeSession sc' h' reason now)"
  "keeps (stays_closed sc h) (revokeSessions sc' i now)"
  "keeps (stays_closed sc h) (markSteppedUp sc' i now)"
  "keeps (stays_closed sc h) (markEmailConfirmed sc' i now)"
  "keeps (stays_closed sc h) (sweepSessions sc' named now)"
  by (rule keepsI, rule stays_closedI;
      auto simp: insertSession_def touchSession_def revokeSession_def revokeSessions_def markSteppedUp_def
        markEmailConfirmed_def sweepSessions_def Let_def set_update_where set_delete_where tx_simps
        split: if_splits option.splits)+

lemma closes_challenges [closes]:
  "hc \<noteq> h \<Longrightarrow> keeps (stays_closed sc h) (insertChallenge sc' market i hc s act now)"
  "keeps (stays_closed sc h) (endSignIns sc' i)"
  "keeps (stays_closed sc h) (challengeAttempt sc' h' now)"
  "keeps (stays_closed sc h) (spendChallenge sc' h' now)"
  "keeps (stays_closed sc h) (keepCeremony sc' h' ceremony)"
  by (rule keepsI, rule stays_closedI;
      auto simp: insertChallenge_def endSignIns_def challengeAttempt_def count_attempt_def the_row_def
        spendChallenge_def keepCeremony_def set_update_where set_delete_where tx_simps
        split: if_splits option.splits)+

lemma closes_verifications [closes]:
  "hv \<noteq> h \<Longrightarrow> keeps (stays_closed sc h) (insertVerification sc' market i hv e)"
  "keeps (stays_closed sc h) (consumeVerification sc' h' now)"
  by (rule keepsI, rule stays_closedI;
      auto simp: insertVerification_def consumeVerification_def set_update_where tx_simps
        split: if_splits option.splits)+

interpretation stays_closed_steps: statements "stays_closed sc h" S sc' I "- {h}" for sc h S sc' I
  by unfold_locales (auto intro: closes)

lemma stays_closed_history: "(icommit S B {h})\<^sup>*\<^sup>* d d' \<Longrightarrow> stays_closed sc h d d'"
  by (erule icommit_history [OF stays_closed.frame_axioms, rotated])
    (rule istep_kept, assumption, rule stays_closed_steps.body_kept, assumption, auto)

text \<open>What a closed token gets from the flows.\<close>

lemma closed_session_iff: "closed_session sc h d \<longleftrightarrow> find_session sc h d = None"
  by (auto simp: closed_session_def find_session_def find_None_iff)

lemma closed_session_refused:
  "closed_session sc h d \<Longrightarrow> authenticate_tx sc h now d = Inl ErrSessionInvalid"
  by (simp add: closed_session_iff authenticate_tx_def liveSession_def tx_run)

lemma closed_challenge_refused:
  assumes "closed_challenge sc (HashToken (sv_sha256 S) token) d"
  shows "challenge_for S sc token sid now d = Inl ErrChallengeInvalid"
proof -
  have "find (challenge_live sc (HashToken (sv_sha256 S) token) now) (challenges d) = None"
    using assms by (auto simp: closed_challenge_def find_None_iff challenge_live_def)
  then show ?thesis by (simp add: challenge_for_def challengeForUpdate_def tx_run)
qed

lemma closed_verification_refused:
  assumes "closed_verification sc h d"
  shows "verify_tx S sc v h now d = Inl ErrTokenInvalid"
proof -
  have "find (verification_live sc h now) (verifications d) = None"
    using assms by (auto simp: closed_verification_def find_None_iff verification_live_def)
  then show ?thesis by (simp add: verify_tx_def consumeVerification_def tx_run)
qed

text \<open>What closes one.\<close>

lemma end_tx_closes:
  assumes "end_tx S sc v h reason act now d = Inr ((), d')"
  shows "closed_session sc h d'"
proof (cases "find_session sc h d")
  case None
  then show ?thesis
    using assms by (auto simp: closed_session_iff end_tx_def revokeSession_def tx_simps)
next
  case (Some r)
  then have d': "sessions d' = update_where (\<lambda>r. s_scope r = sc \<and> s_hash r = h \<and> s_revoked r = None)
      (\<lambda>r. r\<lparr>s_revoked := Some (now, reason)\<rparr>) (sessions d)"
    using assms by (auto simp: end_tx_def revokeSession_def record_own_def recordWith_def tx_simps)
  have "\<not> (s_scope q = sc \<and> s_hash q = h \<and> s_revoked q = None)" if "q \<in> set (sessions d')" for q
    using that unfolding d' by (rule updated_not) simp
  then show ?thesis by (auto simp: closed_session_def)
qed

lemma verify_tx_closes:
  assumes run: "verify_tx S sc v h now d = Inr ((), d')" and d: "db_wf d"
  shows "closed_verification sc h d'"
proof -
  obtain r where r: "find (verification_live sc h now) (verifications d) = Some r"
    and d': "verifications d' = update_where (verification_live sc h now) (\<lambda>r. r\<lparr>ve_used := Some now\<rparr>) (verifications d)"
    using run by (auto simp: verify_tx_def consumeVerification_def record_own_def recordWith_def
        tx_simps split: option.splits)
  have "q = r" if "q \<in> set (verifications d)" "ve_hash q = h" for q
    using that r d by (auto simp: find_Some_iff verification_live_def db_wf_def distinct_map
        dest: inj_onD [of ve_hash _ q r])
  then show ?thesis
    using r by (auto simp: closed_verification_def d' set_update_where find_Some_iff)
qed

subsection \<open>The audit log under the identity flows\<close>

text \<open>A service on the audit log of the model, with its keys as the sealer or with none.\<close>

definition on_log :: "audit_world \<Rightarrow> bool \<Rightarrow> audit_db service \<Rightarrow> audit_db service" where
  "on_log W keyed S = S\<lparr>sv_audit := Append W,
     sv_sealer := (if keyed then Some \<lparr>seal_for = SealFor W, open_for = OpenFor W\<rparr> else None)\<rparr>"

definition logged :: "audit_world \<Rightarrow> audit_db db \<Rightarrow> audit_db db \<Rightarrow> bool" where
  "logged W d d' \<longleftrightarrow> (audit_step W)\<^sup>*\<^sup>* (trail d) (trail d')"

interpretation logged: frame "logged W" for W
  by unfold_locales (auto simp: logged_def)

lemma logged_same: "(\<And>d x d'. f d = Inr (x, d') \<Longrightarrow> trail d' = trail d) \<Longrightarrow> keeps (logged W) f"
  by (rule keepsI) (auto simp: logged_def)

lemma logged_trail:
  "keeps (logged W) (on_trail (Append W sc e))" "keeps (logged W) (on_trail (SealFor W p b))"
  "keeps (logged W) (on_trail (OpenFor W p b))"
  by (rule keepsI; auto simp: tx_simps logged_def intro!: r_into_rtranclp
      dest: audit_step.appended audit_step.sealed audit_step.unsealed)+

interpretation logged_steps: statements "logged W" "on_log W keyed S" sc I T for W keyed S sc I T
proof unfold_locales
  fix e sl p b new m row market i secret h expires h' now ip agent reason named f step n fl parse form sha
  fix s meth sealed ceremony s' act answered typed S' B v
  show "keeps (logged W) (on_trail (sv_audit (on_log W keyed S) sc e))"
    by (simp add: on_log_def logged_trail)
  show "sv_sealer (on_log W keyed S) = Some sl \<Longrightarrow> keeps (logged W) (on_trail (seal_for sl p b))"
    by (auto simp: on_log_def logged_trail split: if_splits)
  show "sv_sealer (on_log W keyed S) = Some sl \<Longrightarrow> keeps (logged W) (on_trail (open_for sl p b))"
    by (auto simp: on_log_def logged_trail split: if_splits)
  show "keeps (logged W) (claim (on_log W keyed S) B v now sc i)"
    unfolding claim_def
    by (intro logged.keeps_rules logged.keeps_checked)
      (auto simp: logged_def on_log_def logged_trail fresh_id_def intro!: keepsI)
qed (rule logged_same; auto simp: tx_simps statement_defs split: if_splits option.splits)+

lemma logged_history: "(icommit (on_log W keyed S) B X)\<^sup>*\<^sup>* d d' \<Longrightarrow> logged W d d'"
  by (erule icommit_history [OF logged.frame_axioms, rotated])
    (rule istep_kept, assumption, rule logged_steps.body_kept, assumption, auto)

subsection \<open>Accounts are kept\<close>

text \<open>An account is never removed or changed, and once confirmed stays confirmed.\<close>

definition account_key :: "account_row \<Rightarrow> account_row" where
  "account_key r = r\<lparr>a_verified := None\<rparr>"

definition accounts_kept :: "'a db \<Rightarrow> 'a db \<Rightarrow> bool" where
  "accounts_kept d d' \<longleftrightarrow> (\<exists>more. map account_key (accounts d') = map account_key (accounts d) @ more) \<and>
     (\<forall>r \<in> set (accounts d). a_verified r \<noteq> None \<longrightarrow>  r \<in> set (accounts d'))"

interpretation accounts_kept: frame accounts_kept
proof
  show "accounts_kept d d" for d :: "'a db" by (simp add: accounts_kept_def)
  show "accounts_kept a c" if "accounts_kept a b" "accounts_kept b c" for a b c :: "'a db"
    using that by (auto simp: accounts_kept_def)
qed

lemma accounts_kept_same: "accounts d' = accounts d \<Longrightarrow> accounts_kept d d'"
  by (simp add: accounts_kept_def)

lemma accounts_kept_same_run: "(\<And>d x d'. f d = Inr (x, d') \<Longrightarrow> accounts d' = accounts d) \<Longrightarrow> keeps accounts_kept f"
  by (rule keepsI) (auto intro: accounts_kept_same)

lemma account_again [simp]: "a_verified r = Some t \<Longrightarrow> r\<lparr>a_verified := Some t\<rparr> = r"
  by (cases r) simp

lemma confirmed_stays:
  "r \<in> set rows \<Longrightarrow> a_verified r = Some t \<Longrightarrow> r \<in> set (update_where p
    (\<lambda>a. a\<lparr>a_verified := (case a_verified a of None \<Rightarrow> Some now | Some t \<Rightarrow> Some t)\<rparr>) rows)"
  by (auto simp: update_where_def image_iff intro!: bexI [of _ r])

lemma account_keys_confirmed:
  "map account_key (update_where p
    (\<lambda>a. a\<lparr>a_verified := (case a_verified a of None \<Rightarrow> Some now | Some t \<Rightarrow> Some t)\<rparr>) rows) =
   map account_key rows"
  by (rule keys_update) (simp add: account_key_def)

lemma accounts_kept_confirm: "keeps accounts_kept (consumeVerification sc h now)"
  by (rule keepsI)
    (auto simp: consumeVerification_def tx_simps accounts_kept_def account_keys_confirmed
      confirmed_stays split: option.splits)

interpretation accounts_kept_steps: statements accounts_kept S sc I T for S sc I T
proof unfold_locales
  fix row :: account_row
  show "keeps accounts_kept (put_account row)"
    by (rule keepsI) (auto simp: put_account_def tx_simps accounts_kept_def)
  show "keeps accounts_kept (consumeVerification sc h' now)" for h' now
    by (rule accounts_kept_confirm)
qed (rule accounts_kept_same_run; auto simp: tx_simps statement_defs claim_def split: if_splits option.splits)+

lemma accounts_kept_history: "(icommit S B X)\<^sup>*\<^sup>* d d' \<Longrightarrow> accounts_kept d d'"
  by (erule icommit_history [OF accounts_kept.frame_axioms, rotated])
    (rule istep_kept, assumption, rule accounts_kept_steps.body_kept, assumption, auto)

end
