(* ===== verification/SessionFacts.thy ===== *)
theory SessionFacts
  imports Histories
begin

text \<open>
  What the account flows do, read off their bodies: signing in, authenticating a request,
  changing a password. The properties are the theorems of IdentityProps; here are the
  effects of each transaction on the tables, and what a flow's answer says of them.
\<close>

subsection \<open>Tables a statement does not touch\<close>

text \<open>Only the trail, the messages and the identifiers drawn may differ.\<close>

definition same_tables :: "'a db \<Rightarrow> 'a db \<Rightarrow> bool" where
  "same_tables d d' \<longleftrightarrow> (\<exists>t n ms. d' = d\<lparr>trail := t, drawn := n, outbox := ms\<rparr>)"

interpretation same_tables: frame same_tables
proof
  show "same_tables d d" for d :: "'a db" by (cases d) (auto simp: same_tables_def)
  show "same_tables a c" if "same_tables a b" "same_tables b c" for a b c :: "'a db"
    using that unfolding same_tables_def by (elim exE) (simp, blast)
qed

lemma same_tables_on_trail: "keeps same_tables (on_trail f)"
proof (rule keepsI)
  fix d x d' assume "on_trail f d = Inr (x, d')"
  then obtain t where "d' = d\<lparr>trail := t\<rparr>" by (auto simp: tx_simps)
  then show "same_tables d d'" by (cases d) (auto simp: same_tables_def)
qed

lemma same_tables_Request: "keeps same_tables (Request m)"
proof (rule keepsI)
  fix d x d' assume "Request m d = Inr (x, d')"
  then have "d' = d\<lparr>outbox := outbox d @ [m]\<rparr>" by (auto simp: Request_def tx_simps)
  then show "same_tables d d'" by (cases d) (auto simp: same_tables_def)
qed

lemma same_tables_record:
  "recordWith S sc v i act detail d = Inr (x, d') \<Longrightarrow> same_tables d d'"
  "record_own S sc v i act d = Inr (x, d') \<Longrightarrow> same_tables d d'"
  "refusalWith S sc v i act detail d = Inr (x, d') \<Longrightarrow> same_tables d d'"
  "refusal S sc v i act d = Inr (x, d') \<Longrightarrow> same_tables d d'"
  "Request m d = Inr (x, d') \<Longrightarrow> same_tables d d'"
  "notify v account template vars d = Inr (x, d') \<Longrightarrow> same_tables d d'"
  unfolding recordWith_def record_own_def refusalWith_def refusal_def notify_def
  by (auto dest: keepsD [OF same_tables_on_trail] keepsD [OF same_tables_Request])

lemma same_tables_fields:
  assumes "same_tables d d'"
  shows "accounts d' = accounts d" "credentials d' = credentials d"
    "verifications d' = verifications d" "sessions d' = sessions d" "factors d' = factors d"
    "recoveries d' = recoveries d" "enrolments d' = enrolments d" "challenges d' = challenges d"
    "codes d' = codes d" "failures d' = failures d" "roles d' = roles d"
    "user_roles d' = user_roles d" "bootstraps d' = bootstraps d"
  using assms by (auto simp: same_tables_def)

text \<open>What the flows look up.\<close>

lemma looked_up [simp]:
  "same_tables d d' \<Longrightarrow> find_secret sc i d' = find_secret sc i d"
  "same_tables d d' \<Longrightarrow> has_factor sc i d' = has_factor sc i d"
  "same_tables d d' \<Longrightarrow> failures_of sc i d' = failures_of sc i d"
  "same_tables d d' \<Longrightarrow> find_account sc i d' = find_account sc i d"
  "same_tables d d' \<Longrightarrow> find_session sc h d' = find_session sc h d"
  by (simp_all add: find_secret_def has_factor_def failures_of_def find_account_def find_session_def
      same_tables_fields)

lemma countFactors_Inr [tx_simps]:
  "countFactors sc i d = Inr r \<longleftrightarrow>
    r = (length (filter (\<lambda>f. f_scope f = sc \<and> f_account f = i) (factors d)), d)"
  by (auto simp: countFactors_def tx_simps)

lemma no_factors: "length (filter (\<lambda>f. f_scope f = sc \<and> f_account f = i) (factors d)) > 0 \<longleftrightarrow> has_factor sc i d"
  by (auto simp: has_factor_def filter_empty_conv)

lemma passwordStill_Inr [tx_simps]:
  "passwordStill sc i secret d = Inr r \<longleftrightarrow>
    (\<exists>stored. find_secret sc i d = Some stored \<and> r = (stored = secret, d))"
  by (auto simp: passwordStill_def the_row_def tx_simps split: option.splits)

subsection \<open>Signing in\<close>

text \<open>A session row as it is inserted.\<close>

definition new_session :: "scope \<Rightarrow> uuid \<Rightarrow> bytes \<Rightarrow> time \<Rightarrow> session_row \<Rightarrow> bool" where
  "new_session sc i h now r \<longleftrightarrow> s_scope r = sc \<and> s_account r = i \<and> s_hash r = h \<and> s_created r = now \<and>
     s_seen r = now \<and> s_revoked r = None \<and> s_stepped_up r = None \<and> s_email_confirmed r = None"

lemma insertSession_effect:
  assumes "insertSession new sc m i h ip agent now d = Inr (u, d')"
  obtains r where "sessions d' = sessions d @ [r]" "new_session sc i h now r"
    "h \<notin> s_hash ` set (sessions d)" "s_id r \<notin> s_id ` set (sessions d)"
    "d' = d\<lparr>drawn := Suc (drawn d), sessions := sessions d @ [r]\<rparr>"
  using assms by (fastforce simp: insertSession_def tx_simps new_session_def split: if_splits)

lemma setPassword_effect:
  assumes "setPassword sc m i secret d = Inr (u, d')"
  shows "\<exists>cs. d' = d\<lparr>credentials := cs\<rparr>" "find_secret sc i d' = Some secret"
proof -
  have found: "find (\<lambda>r. cr_scope r = sc \<and> cr_account r = i)
      (update_where (\<lambda>r. cr_account r = i \<and> cr_scope r = sc) (\<lambda>r. r\<lparr>cr_secret := secret\<rparr>) rows) =
      map_option (\<lambda>r. r\<lparr>cr_secret := secret\<rparr>) (find (\<lambda>r. cr_scope r = sc \<and> cr_account r = i) rows)"
    for rows by (induction rows) (auto simp: update_where_def)
  have there: "\<exists>r. find (\<lambda>r. cr_scope r = sc \<and> cr_account r = i) rows = Some r"
    if "i \<in> cr_account ` set rows" "\<forall>r \<in> set rows. cr_account r = i \<longrightarrow> cr_scope r = sc" for rows
    using that by (induction rows) auto
  have new: "find (\<lambda>r. cr_scope r = sc \<and> cr_account r = i) (rows @ [c]) = Some c"
    if "i \<notin> cr_account ` set rows" "cr_scope c = sc" "cr_account c = i" for rows c
    using that by (induction rows) auto
  show "\<exists>cs. d' = d\<lparr>credentials := cs\<rparr>"
    using assms by (auto simp: setPassword_def tx_simps split: if_splits)
  show "find_secret sc i d' = Some secret"
  proof (cases "i \<in> cr_account ` set (credentials d)")
    case True
    then show ?thesis
      using assms there [of "credentials d"]
      by (auto simp: setPassword_def tx_simps find_secret_def found split: if_splits)
  next
    case False
    then show ?thesis
      using assms by (auto simp: setPassword_def tx_simps find_secret_def new split: if_splits)
  qed
qed

text \<open>
  The second transaction of a sign-in. It commits only against the password that was
  verified; it opens a challenge exactly when the account has a second factor, and a
  session otherwise.
\<close>

lemma rehash_effect:
  assumes "(if b then setPassword sc m i fresh else ret ()) d = Inr (u, e)"
  shows "\<exists>cs. e = d\<lparr>credentials := cs\<rparr>"
  using assms setPassword_effect(1) by (cases b) (fastforce simp: tx_simps intro: exI [of _ "credentials d"])+

lemma signin_tx_effect:
  assumes "signin_tx S sc v i secret fresh h now d = Inr (challenged, d')"
  obtains cs e where "find_secret sc i d = Some secret" "e = d\<lparr>credentials := cs\<rparr>"
    "challenged \<longleftrightarrow> has_factor sc i d"
    "challenged \<Longrightarrow> insertChallenge sc (v_marketplace v) i h [] no_action now e = Inr ((), d')"
    "\<not> challenged \<Longrightarrow> \<exists>e'. insertSession (sv_new_id S) sc (v_marketplace v) i h (v_ip v) (v_agent v) now e =
        Inr ((), e') \<and> record_own S sc v i ''identity.signin'' e' = Inr ((), d')"
proof -
  obtain e where e: "(if fresh \<noteq> [] then setPassword sc (v_marketplace v) i fresh else ret ()) d = Inr ((), e)"
    and secret: "find_secret sc i d = Some secret"
    and rest: "(if length (filter (\<lambda>f. f_scope f = sc \<and> f_account f = i) (factors e)) > 0
      then after (insertChallenge sc (v_marketplace v) i h [] no_action now) (\<lambda>_. ret True)
      else after (insertSession (sv_new_id S) sc (v_marketplace v) i h (v_ip v) (v_agent v) now) (\<lambda>_.
           after (record_own S sc v i ''identity.signin'') (\<lambda>_. ret False))) e = Inr (challenged, d')"
    using assms unfolding signin_tx_def
    by (elim after_Inr [THEN iffD1, elim_format] exE conjE)
      (auto simp: tx_simps split: if_splits)
  obtain cs where cs: "e = d\<lparr>credentials := cs\<rparr>" using rehash_effect [OF e] by blast
  have "has_factor sc i e = has_factor sc i d" by (simp add: cs has_factor_def)
  then show ?thesis
    using that [OF secret cs] rest unfolding no_factors by (auto simp: tx_simps split: if_splits)
qed

lemma insertChallenge_sessions:
  "insertChallenge sc m i h s act now d = Inr (u, d') \<Longrightarrow>
    sessions d' = sessions d \<and> accounts d' = accounts d \<and> factors d' = factors d"
  by (auto simp: insertChallenge_def tx_simps split: if_splits)

text \<open>What a sign-in leaves in the session table.\<close>

lemma signin_tx_sessions:
  assumes "signin_tx S sc v i secret fresh h now d = Inr (challenged, d')"
  shows "find_secret sc i d = Some secret" "challenged \<longleftrightarrow> has_factor sc i d"
    "if challenged then sessions d' = sessions d
     else \<exists>row. sessions d' = sessions d @ [row] \<and> new_session sc i h now row \<and>
       h \<notin> s_hash ` set (sessions d)"
    "accounts d' = accounts d" "factors d' = factors d"
proof -
  obtain cs e where e: "find_secret sc i d = Some secret" "e = d\<lparr>credentials := cs\<rparr>"
    "challenged \<longleftrightarrow> has_factor sc i d"
    and asked: "challenged \<Longrightarrow> insertChallenge sc (v_marketplace v) i h [] no_action now e = Inr ((), d')"
    and opened: "\<not> challenged \<Longrightarrow> \<exists>e'. insertSession (sv_new_id S) sc (v_marketplace v) i h (v_ip v) (v_agent v) now e =
        Inr ((), e') \<and> record_own S sc v i ''identity.signin'' e' = Inr ((), d')"
    using assms by (rule signin_tx_effect) blast
  have "(if challenged then sessions d' = sessions d
     else \<exists>row. sessions d' = sessions d @ [row] \<and> new_session sc i h now row \<and>
       h \<notin> s_hash ` set (sessions d)) \<and> accounts d' = accounts d \<and> factors d' = factors d"
  proof (cases challenged)
    case True
    then show ?thesis using insertChallenge_sessions [OF asked] by (simp add: e)
  next
    case False
    then obtain e' where ins: "insertSession (sv_new_id S) sc (v_marketplace v) i h (v_ip v) (v_agent v) now e = Inr ((), e')"
      and rec: "record_own S sc v i ''identity.signin'' e' = Inr ((), d')"
      using opened by blast
    show ?thesis
      using insertSession_effect [OF ins] same_tables_fields [OF same_tables_record(2) [OF rec]] False
      by (fastforce simp: e)
  qed
  then show "find_secret sc i d = Some secret" "challenged \<longleftrightarrow> has_factor sc i d"
    "if challenged then sessions d' = sessions d
     else \<exists>row. sessions d' = sessions d @ [row] \<and> new_session sc i h now row \<and>
       h \<notin> s_hash ` set (sessions d)"
    "accounts d' = accounts d" "factors d' = factors d"
    using e by simp_all
qed

abbreviation drawn_token :: "'a service \<Rightarrow> draws \<Rightarrow> string" where
  "drawn_token S r \<equiv> fst (NewToken (sv_sha256 S) (dr_token r))"

abbreviation hash_of :: "'a service \<Rightarrow> string \<Rightarrow> bytes" where
  "hash_of S token \<equiv> HashToken (sv_sha256 S) token"

lemma NewToken_pair: "NewToken (sv_sha256 S) b = (fst (NewToken (sv_sha256 S) b),
    hash_of S (fst (NewToken (sv_sha256 S) b)))"
  by (metis NewToken_hash prod.collapse)

lemma credentials_of_Inr:
  "credentials_of v normalised d = (Inr x, d1) \<longleftrightarrow> visit_ok v \<and> d1 = d \<and>
    (case find_account_by_email (scope_of v) normalised d of
       None \<Rightarrow> x = None
     | Some account \<Rightarrow> (\<exists>secret. find_secret (scope_of v) (ID account) d = Some secret \<and>
         x = Some (account, secret)))"
  by (auto simp: credentials_of_def within_Inr credentials_tx_def accountByEmail_def passwordOf_def
      the_row_def tx_simps split: option.splits)

lemma signIn_Inr:
  assumes "signIn S v email password r other now d = (Inr out, d')"
  obtains normalised account secret stale fresh challenged where
    "visit_ok v" "NormaliseEmail (sv_parse_address S) email = Inr normalised"
    "find_account_by_email (scope_of v) normalised d = Some account" "VerifiedAt account \<noteq> None"
    "find_secret (scope_of v) (ID account) d = Some secret"
    "VerifyPassword (sv_hasher S) (dr_verify r) password secret = Inr (True, stale)"
    "signin_tx S (scope_of v) v (ID account) secret fresh (hash_of S (drawn_token S r)) now (other d) =
      Inr (challenged, d')"
    "out = (if challenged then ChallengeOpened (drawn_token S r) else SessionOpened (drawn_token S r))"
  using assms unfolding signIn_def Let_def
  by (subst (asm) NewToken_pair)
    (auto simp: credentials_of_Inr within_Inr split: if_splits sum.splits prod.splits option.splits)

text \<open>A refused sign-in leaves everything but the trail as the others left it.\<close>

lemma refusal_trail: "refusal S sc v i act d = Inr (u, d') \<Longrightarrow> \<exists>t. d' = d\<lparr>trail := t\<rparr>"
  by (auto simp: refusal_def refusalWith_def tx_simps)

lemma signIn_Inl:
  assumes "signIn S v email password r other now d = (Inl e, d')"
  shows "d' = d \<or> d' = other d \<or> (\<exists>t. d' = (other d)\<lparr>trail := t\<rparr>)"
  using assms unfolding signIn_def Let_def credentials_of_def
  by (auto split: if_splits sum.splits prod.splits option.splits
      dest!: within_Inl refusal_trail simp: within_Inr credentials_tx_def accountByEmail_def
        passwordOf_def the_row_def tx_simps)

subsection \<open>Authenticating\<close>

definition in_time :: "time \<Rightarrow> session_row \<Rightarrow> bool" where
  "in_time now r \<longleftrightarrow> now - s_seen r \<le> SessionIdle \<and> now - s_created r \<le> SessionLifetime"

definition session_of :: "session_row \<Rightarrow> account \<Rightarrow> bool \<Rightarrow> session" where
  "session_of r a twofold = \<lparr>se_id = s_id r, se_account = a, se_second = twofold,
     se_stepped = s_stepped_up r, se_confirmed = s_email_confirmed r\<rparr>"

lemma touched_account: "touchSession sc i now d = Inr (u, d') \<Longrightarrow> find_account sc' j d' = find_account sc' j d"
  by (auto simp: touchSession_def tx_simps find_account_def)

lemma accountByID_Inr [tx_simps]:
  "accountByID sc i d = Inr r \<longleftrightarrow> (\<exists>a. find_account sc i d = Some a \<and> r = (a, d))"
  by (auto simp: accountByID_def the_row_def tx_simps split: option.splits)

lemma authenticate_tx_Inr:
  "authenticate_tx sc h now d = Inr (s, d') \<longleftrightarrow>
    (\<exists>r a. find_session sc h d = Some r \<and> in_time now r \<and> find_account sc (s_account r) d = Some a \<and>
       s = session_of r a (has_factor sc (s_account r) d) \<and>
       (if now - s_seen r > touchEvery then touchSession sc (s_id r) now d = Inr ((), d') else d' = d))"
proof (cases "find_session sc h d")
  case None
  then show ?thesis by (simp add: authenticate_tx_def liveSession_def tx_run)
next
  case (Some r)
  show ?thesis
    by (auto simp: authenticate_tx_def liveSession_def tx_simps Some in_time_def session_of_def not_less
        touched_account)
qed

lemma authenticate_Inr:
  "authenticate S v token now d = (Inr s, d') \<longleftrightarrow> visit_ok v \<and>
    authenticate_tx (scope_of v) (hash_of S token) now d = Inr (s, d')"
  by (simp add: authenticate_def within_Inr)

lemma find_session_new:
  assumes "sessions d' = ss @ [r]" and "new_session sc i h now r" and "h \<notin> s_hash ` set ss"
  shows "find_session sc h d' = Some r"
proof -
  have "find (\<lambda>r. s_scope r = sc \<and> s_hash r = h \<and> s_revoked r = None) ss = None"
    using assms(3) by (auto simp: find_None_iff)
  then show ?thesis
    using assms(1,2) by (simp add: find_session_def new_session_def find_append)
qed

text \<open>An account is found for as long as it was ever there.\<close>

definition account_ids :: "'a db \<Rightarrow> (scope \<times> uuid) set" where
  "account_ids d = (\<lambda>r. (a_scope r, a_id r)) ` account_key ` set (accounts d)"

lemma find_account_there: "find_account sc i d \<noteq> None \<longleftrightarrow> (sc, i) \<in> account_ids d"
  by (auto simp: find_account_def find_None_iff account_ids_def account_key_def image_image)

lemma find_account_kept:
  assumes "accounts_kept d d'" and "find_account sc i d \<noteq> None"
  shows "find_account sc i d' \<noteq> None"
proof -
  obtain more where "map account_key (accounts d') = map account_key (accounts d) @ more"
    using assms(1) by (auto simp: accounts_kept_def)
  then have "account_key ` set (accounts d) \<subseteq> account_key ` set (accounts d')"
    by (metis list.set_map set_append Un_upper1)
  then show ?thesis
    using assms(2) unfolding find_account_there account_ids_def by blast
qed

lemma find_by_email_account:
  assumes "find_account_by_email sc n d = Some account"
  shows "find_account sc (ID account) d \<noteq> None"
proof -
  obtain r where "find (\<lambda>r. a_scope r = sc \<and> a_normalised r = n) (accounts d) = Some r"
    and account: "account = scanAccount r"
    using assms by (auto simp: find_account_by_email_def)
  then have "r \<in> set (accounts d)" "a_scope r = sc" by (auto simp: find_Some_iff)
  then show ?thesis
    by (auto simp: account scanAccount_def find_account_def find_None_iff)
qed

subsection \<open>Changing a password\<close>

definition live_session :: "scope \<Rightarrow> uuid \<Rightarrow> session_row \<Rightarrow> bool" where
  "live_session sc i r \<longleftrightarrow> s_scope r = sc \<and> s_account r = i \<and> s_revoked r = None"

definition sign_in_challenge :: "scope \<Rightarrow> uuid \<Rightarrow> challenge_row \<Rightarrow> bool" where
  "sign_in_challenge sc i c \<longleftrightarrow> ch_scope c = sc \<and> ch_account c = i \<and> ch_session c = None"

lemma marked_effect:
  assumes "(case stepped of None \<Rightarrow> ret () | Some at \<Rightarrow>
      after (sessionID sc h) (\<lambda>i. markSteppedUp sc i at)) d = Inr ((), d')"
    and "sessions d = ss @ [r]" and "new_session sc i h now r"
    and "h \<notin> s_hash ` set ss" and "s_id r \<notin> s_id ` set ss"
  shows "d' = d\<lparr>sessions := ss @ [r\<lparr>s_stepped_up := stepped\<rparr>]\<rparr>"
proof -
  have none: "find (\<lambda>r. s_scope r = sc \<and> s_hash r = h) ss = None"
    using assms(4) by (auto simp: find_None_iff)
  have same: "update_where (\<lambda>q. s_scope q = sc \<and> s_id q = s_id r) g ss = ss" for g
    using assms(5) by (intro update_where_id) (metis image_eqI)
  have unstepped: "r\<lparr>s_stepped_up := None\<rparr> = r"
    using assms(3) by (cases r) (simp add: new_session_def)
  show ?thesis
  proof (cases stepped)
    case None
    then show ?thesis using assms(1,2) unstepped by (cases d) (simp add: tx_simps)
  next
    case (Some at)
    have "update_where (\<lambda>q. s_scope q = sc \<and> s_id q = s_id r) (\<lambda>q. q\<lparr>s_stepped_up := Some at\<rparr>) [r] =
        [r\<lparr>s_stepped_up := Some at\<rparr>]"
      using assms(3) by (simp add: update_where_def new_session_def)
    then have "update_where (\<lambda>q. s_scope q = sc \<and> s_id q = s_id r) (\<lambda>q. q\<lparr>s_stepped_up := Some at\<rparr>) (ss @ [r]) =
        ss @ [r\<lparr>s_stepped_up := Some at\<rparr>]"
      using same by (simp add: update_where_def)
    then show ?thesis
      using assms(1-3) none
      by (auto simp: Some sessionID_def the_row_def markSteppedUp_def tx_simps find_append new_session_def
          split: option.splits)
  qed
qed

lemma change_tx_steps:
  assumes "change_tx S sc v s secret fresh h now d = Inr (u, d')"
  shows "find_secret sc (ID (se_account s)) d = Some secret \<and> (\<exists>d1.
    setPassword sc (v_marketplace v) (ID (se_account s)) fresh
       (d\<lparr>challenges := delete_where (sign_in_challenge sc (ID (se_account s))) (challenges d)\<rparr>) =
     Inr ((), d1) \<and> (\<exists>d2.
    insertSession (sv_new_id S) sc (v_marketplace v) (ID (se_account s)) h (v_ip v) (v_agent v) now
       (d1\<lparr>sessions := update_where (live_session sc (ID (se_account s)))
          (\<lambda>r. r\<lparr>s_revoked := Some (now, ''password_changed'')\<rparr>) (sessions d1)\<rparr>) =
     Inr ((), d2) \<and> (\<exists>d3.
    (case se_stepped s of None \<Rightarrow> ret () | Some at \<Rightarrow>
        after (sessionID sc h) (\<lambda>i. markSteppedUp sc i at)) d2 = Inr ((), d3) \<and> (\<exists>d4. same_tables d3 d4 \<and>
    d' = d4\<lparr>failures := delete_where
        (\<lambda>r. fa_scope r = sc \<and> fa_account r = ID (se_account s)) (failures d4)\<rparr>))))"
  using assms unfolding change_tx_def Let_def
  by (auto simp: endSignIns_def revokeSessions_def clearFailures_def live_session_def [abs_def]
      sign_in_challenge_def [abs_def] tx_simps split: if_splits option.splits
      dest!: same_tables_record) (blast intro: same_tables.R_trans)+

text \<open>After the change only the new session of the account lives.\<close>

lemma change_tx_effect:
  assumes "change_tx S sc v s secret fresh h now d = Inr (u, d')"
  shows "find_secret sc (ID (se_account s)) d = Some secret"
    "find_secret sc (ID (se_account s)) d' = Some fresh"
    "\<forall>r \<in> set (sessions d'). live_session sc (ID (se_account s)) r \<longrightarrow> s_hash r = h"
    "\<exists>r. find_session sc h d' = Some r \<and> s_account r = ID (se_account s) \<and> s_created r = now \<and>
       s_seen r = now \<and> s_stepped_up r = se_stepped s"
    "\<forall>c \<in> set (challenges d'). \<not> sign_in_challenge sc (ID (se_account s)) c"
    "failures_of sc (ID (se_account s)) d' = 0"
    "accounts d' = accounts d"
proof -
  let ?i = "ID (se_account s)"
  obtain d1 d2 d3 d4 where steps: "find_secret sc ?i d = Some secret"
    "setPassword sc (v_marketplace v) ?i fresh
       (d\<lparr>challenges := delete_where (sign_in_challenge sc ?i) (challenges d)\<rparr>) = Inr ((), d1)"
    "insertSession (sv_new_id S) sc (v_marketplace v) ?i h (v_ip v) (v_agent v) now
       (d1\<lparr>sessions := update_where (live_session sc ?i)
          (\<lambda>r. r\<lparr>s_revoked := Some (now, ''password_changed'')\<rparr>) (sessions d1)\<rparr>) = Inr ((), d2)"
    "(case se_stepped s of None \<Rightarrow> ret () | Some at \<Rightarrow>
        after (sessionID sc h) (\<lambda>i. markSteppedUp sc i at)) d2 = Inr ((), d3)"
    "same_tables d3 d4"
    "d' = d4\<lparr>failures := delete_where (\<lambda>r. fa_scope r = sc \<and> fa_account r = ?i) (failures d4)\<rparr>"
    using change_tx_steps [OF assms] by blast
  define ss where "ss = update_where (live_session sc ?i)
      (\<lambda>r. r\<lparr>s_revoked := Some (now, ''password_changed'')\<rparr>) (sessions d1)"
  obtain cs where d1: "d1 = d\<lparr>challenges := delete_where (sign_in_challenge sc ?i) (challenges d), credentials := cs\<rparr>"
    using setPassword_effect(1) [OF steps(2)] by auto
  obtain r where r: "new_session sc ?i h now r" "h \<notin> s_hash ` set ss" "s_id r \<notin> s_id ` set ss"
    and d2: "d2 = d1\<lparr>sessions := ss @ [r], drawn := Suc (drawn d1)\<rparr>"
    using steps(3) by (rule insertSession_effect) (auto simp: ss_def)
  have d3: "d3 = d2\<lparr>sessions := ss @ [r\<lparr>s_stepped_up := se_stepped s\<rparr>]\<rparr>"
    using steps(4) by (rule marked_effect [where ss = ss, OF _ _ r]) (simp add: d2)
  have tables: "sessions d' = ss @ [r\<lparr>s_stepped_up := se_stepped s\<rparr>]"
    "challenges d' = delete_where (sign_in_challenge sc ?i) (challenges d)"
    "credentials d' = credentials d1" "accounts d' = accounts d"
    using same_tables_fields [OF steps(5)] by (simp_all add: steps(6) d3 d2 d1)
  have dead: "\<not> live_session sc ?i q" if "q \<in> set ss" for q
    using that unfolding ss_def by (rule updated_not) (simp add: live_session_def)
  show "find_secret sc ?i d = Some secret" by fact
  show "find_secret sc ?i d' = Some fresh"
    using setPassword_effect(2) [OF steps(2)] tables(3) by (simp add: find_secret_def)
  show "\<forall>q \<in> set (sessions d'). live_session sc ?i q \<longrightarrow> s_hash q = h"
    using dead r(1) by (auto simp: tables new_session_def)
  show "\<exists>q. find_session sc h d' = Some q \<and> s_account q = ?i \<and> s_created q = now \<and>
      s_seen q = now \<and> s_stepped_up q = se_stepped s"
  proof -
    have "find (\<lambda>q. s_scope q = sc \<and> s_hash q = h \<and> s_revoked q = None) ss = None"
      using r(2) by (auto simp: find_None_iff)
    then show ?thesis using r(1) by (simp add: find_session_def tables find_append new_session_def)
  qed
  show "\<forall>c \<in> set (challenges d'). \<not> sign_in_challenge sc ?i c"
    by (simp add: tables set_delete_where)
  have "find (\<lambda>r. fa_scope r = sc \<and> fa_account r = ?i) (failures d') = None"
    by (auto simp: steps(6) set_delete_where find_None_iff)
  then show "failures_of sc ?i d' = 0" by (simp add: failures_of_def)
  show "accounts d' = accounts d" by fact
qed

lemma passwordOf_Inr [tx_simps]:
  "passwordOf sc i d = Inr r \<longleftrightarrow> (\<exists>secret. find_secret sc i d = Some secret \<and> r = (secret, d))"
  by (auto simp: passwordOf_def the_row_def tx_simps split: option.splits)

lemma ChangePassword_Inr:
  assumes "ChangePassword S v s current new r other at now d = (Inr token, d')"
  obtains secret stale fresh where "visit_ok v" "\<not> NeedsStepUp at s ActionPassword"
    "checkNew S new = Inr ()" "find_secret (scope_of v) (ID (se_account s)) d = Some secret"
    "VerifyPassword (sv_hasher S) (dr_verify r) current secret = Inr (True, stale)"
    "Hash (sv_hasher S) (dr_hash r) (dr_salt r) new = Inr fresh" "token = drawn_token S r"
    "change_tx S (scope_of v) v s secret fresh (hash_of S token) now (other d) = Inr ((), d')"
  using assms unfolding ChangePassword_def Let_def
  by (subst (asm) NewToken_pair)
    (auto simp: within_Inr passwordOf_Inr split: if_splits sum.splits prod.splits)

lemma ChangePassword_Inl:
  assumes "ChangePassword S v s current new r other at now d = (Inl e, d')"
  shows "d' = d \<or> d' = other d"
  using assms unfolding ChangePassword_def Let_def
  by (auto simp: within_Inr passwordOf_Inr split: if_splits sum.splits prod.splits dest!: within_Inl)

text \<open>A session the flow opened authenticates until it is ended or runs out.\<close>

lemma opened_authenticates:
  assumes "visit_ok v" and "find_session (scope_of v) (hash_of S token) d = Some r"
    and "find_account (scope_of v) (s_account r) d \<noteq> None" and "in_time later r"
  shows "\<exists>s d'. authenticate S v token later d = (Inr s, d') \<and> se_id s = s_id r \<and>
      ID (se_account s) = s_account r \<and> se_stepped s = s_stepped_up r \<and>
      se_second s = has_factor (scope_of v) (s_account r) d"
proof -
  obtain a where a: "find_account (scope_of v) (s_account r) d = Some a" using assms(3) by auto
  then have "ID a = s_account r"
    by (auto simp: find_account_def scanAccount_def find_Some_iff)
  then show ?thesis
    using assms a by (auto simp: authenticate_Inr authenticate_tx_Inr session_of_def touchSession_def tx_simps)
qed

end
