(* ===== verification/AuditProps.thy ===== *)
theory AuditProps
  imports AuditTrail
begin

text \<open>
  The properties of the audit log, each with a concrete log on which it applies.
\<close>

subsection \<open>A concrete log\<close>

definition sample_world :: audit_world where
  "sample_world = \<lparr>w_sha256 = (\<lambda>b. take 32 (filter (\<lambda>x. x \<noteq> 0) b @ replicate 32 0)),
     w_gcm_seal = (\<lambda>k n p. p), w_gcm_open = (\<lambda>k n c. Some c), w_keeper = ''local'',
     w_wrap = Some, w_unwrap = Some, w_draw = (\<lambda>i n. replicate n (word_of_nat i)),
     w_now = (\<lambda>i. 1000 * int i)\<rparr>"

definition sample_entry :: entry where
  "sample_entry = \<lparr>e_marketplace = [], e_actor = ''u1'', e_kind = Staff, e_action = ''signin'',
     e_subject_kind = ''account'', e_subject = ''u1'', e_person = ''u1'', e_from = ''::1'',
     e_before = [], e_after = ''{}''\<rparr>"

definition sample_log :: audit_db where
  "sample_log = (case Append sample_world None sample_entry empty_audit of
     Inl e \<Rightarrow> empty_audit | Inr (u, d) \<Rightarrow> d)"

lemma sample_append: "Append sample_world None sample_entry empty_audit = Inr ((), sample_log)"
proof -
  have "case Append sample_world None sample_entry empty_audit of Inl e \<Rightarrow> False | Inr r \<Rightarrow> True"
    by code_simp
  then show ?thesis by (auto simp: sample_log_def split: sum.splits)
qed

lemma sample_history: "(audit_step sample_world)\<^sup>*\<^sup>* empty_audit sample_log"
  using audit_step.appended [OF sample_append] by (rule r_into_rtranclp)

lemma sample_one_row: "length (log sample_log) = 1"
  by code_simp

subsection \<open>Properties\<close>

lemma append_only_step: "audit_step W d d' \<Longrightarrow> \<exists>more. log d' = log d @ more"
proof (induction rule: audit_step.induct)
  case (appended sc e d u d')
  then show ?case using Append_effect [OF appended] by (auto simp: Let_def)
qed (auto dest!: keepsD [OF SealFor_same_log] keepsD [OF OpenFor_same_log]
    keepsD [OF Destroy_same_log] keepsD [OF OpenRecord_same_log] simp: same_log_def)

lemma append_only_history: "(audit_step W)\<^sup>*\<^sup>* d d' \<Longrightarrow> \<exists>more. log d' = log d @ more"
  by (induction rule: rtranclp_induct) (auto dest!: append_only_step)

text \<open>
  C7. Whatever the log has been through, appends in any marketplace, keys created,
  destroyed and used, in any order, verification ends, counts the chains and finds nothing
  broken; and records are only ever added, after those already there.
\<close>

theorem audit_history_verifies:
  assumes "(audit_step W)\<^sup>*\<^sup>* empty_audit d" and "(audit_step W)\<^sup>*\<^sup>* d d'"
  shows "(\<exists>n. VerifyLog W d' = Some \<lparr>Chains = length (chains d'), Records = n, Breaks = []\<rparr>) \<and>
    take (length (log d)) (log d') = log d"
proof -
  have "intact W d'"
    using audit_history_intact [OF assms(2) audit_history_intact [OF assms(1) intact_empty]] .
  then show ?thesis
    using verifiable_verifies [OF intact_verifiable] append_only_history [OF assms(2)] by auto
qed

theorem audit_history_verifies_witness:
  "(\<exists>n. VerifyLog sample_world sample_log =
      Some \<lparr>Chains = length (chains sample_log), Records = n, Breaks = []\<rparr>) \<and>
   take (length (log empty_audit)) (log sample_log) = log empty_audit"
  by (rule audit_history_verifies [OF rtranclp.rtrancl_refl sample_history])

text \<open>
  C9. Verification reads a chain in batches of five hundred, each from where the last
  ended. It always ends, and over a log with one record per place it is the plain walk
  over the whole chain in order: no record is skipped at a boundary and none is checked
  against the wrong predecessor.
\<close>

theorem batched_verification_is_the_walk:
  assumes "one_per_place d"
  shows "verify_chain W d chain =
    Some (length (rows_after d chain 0),
          walk W Genesis (map (read_record chain) (rows_after d chain 0)))"
  using assms by (rule verify_chain_walk)

theorem batched_verification_is_the_walk_witness:
  "verify_chain sample_world sample_log [] =
    Some (length (rows_after sample_log [] 0),
          walk sample_world Genesis (map (read_record []) (rows_after sample_log [] 0)))"
  by (rule batched_verification_is_the_walk)
    (rule intact_one_per_place [OF intact_Append [OF intact_empty sample_append]])

fun hashed :: "bytes \<Rightarrow> log_record list \<Rightarrow> bytes list" where
  "hashed p [] = []"
| "hashed p (r # rs) = preimage p r # hashed (rec_hash r) rs"

text \<open>The texts whose SHA-256 a chain carries, record by record, as the walk hashes them.\<close>

definition hashed_texts :: "audit_db \<Rightarrow> scope \<Rightarrow> bytes list" where
  "hashed_texts d sc = hashed Genesis (map (read_record (coalesce sc)) (rows_of d sc))"

definition collides :: "audit_world \<Rightarrow> bytes \<times> bytes \<Rightarrow> bool" where
  "collides W = (\<lambda>(x, y). x \<noteq> y \<and> w_sha256 W x = w_sha256 W y)"

lemma hashed_append:
  "hashed p (xs @ ys) = hashed p xs @ hashed (if xs = [] then p else rec_hash (last xs)) ys"
  by (induction xs arbitrary: p) auto

lemma length_hashed [simp]: "length (hashed p rs) = length rs"
  by (induction rs arbitrary: p) auto

lemma walks_agree:
  assumes "length rs = length ss" "walk W Genesis rs = []" "walk W Genesis ss = []"
    and "rs \<noteq> [] \<longrightarrow> rec_hash (last rs) = rec_hash (last ss)"
    and "\<forall>r \<in> set rs \<union> set ss. record_sized r \<and> sized (rec_hash r)"
  shows "map content rs = map content ss \<or>
    list_ex (collides W) (zip (hashed Genesis rs) (hashed Genesis ss))"
  using assms
proof (induction rs arbitrary: ss rule: rev_induct)
  case (snoc r rs)
  obtain ss' s where ss: "ss = ss' @ [s]" using snoc.prems(1) by (cases ss rule: rev_cases) auto
  define p where "p = (if rs = [] then Genesis else rec_hash (last rs))"
  define q where "q = (if ss' = [] then Genesis else rec_hash (last ss'))"
  have hashes: "digest W p r = rec_hash r" "digest W q s = rec_hash s" "rec_hash r = rec_hash s"
    and walks: "walk W Genesis rs = []" "walk W Genesis ss' = []"
    using snoc.prems(2-4) by (simp_all add: ss walk_append p_def q_def split: if_splits)
  have len: "length rs = length ss'" using snoc.prems(1) by (simp add: ss)
  have sizes: "record_sized r" "record_sized s" "sized p" "sized q"
    using snoc.prems(5) by (auto simp: ss p_def q_def sized_def Genesis_def)
  have pairs: "zip (hashed Genesis (rs @ [r])) (hashed Genesis ss) =
      zip (hashed Genesis rs) (hashed Genesis ss') @ [(preimage p r, preimage q s)]"
    using len by (simp add: ss hashed_append p_def q_def)
  show ?case
  proof (cases "preimage p r = preimage q s")
    case False
    then have "collides W (preimage p r, preimage q s)"
      using hashes by (simp add: digest_def collides_def)
    then show ?thesis unfolding pairs by simp
  next
    case True
    then have eq: "p = q" "content r = content s" using preimage_inject sizes by blast+
    have "map content rs = map content ss' \<or>
        list_ex (collides W) (zip (hashed Genesis rs) (hashed Genesis ss'))"
      using snoc.prems(5) eq(1) len walks
      by (intro snoc.IH) (auto simp: ss p_def q_def)
    then show ?thesis unfolding pairs using eq(2) by (auto simp: ss)
  qed
qed simp

definition rows_sized :: "audit_db \<Rightarrow> scope \<Rightarrow> bool" where
  "rows_sized d sc = list_all (\<lambda>l. record_sized (read_record (coalesce sc) l) \<and> sized (l_hash l)) (rows_of d sc)"

text \<open>
  C8. The head of a chain pins its whole history: two intact logs whose heads for a
  marketplace are the same, last hash and length, hold the same records there, field by
  field; or else, at some place of the two chains, the texts hashed for the two records
  there (the hash before them and their fields) are themselves different and have one
  SHA-256, a collision that the two logs exhibit. Sizes are those a row can have (below
  2^63 bytes, numbers in an int64).
\<close>

theorem audit_head_pins_history:
  assumes "intact W d" "intact W d'" "head_of d sc = head_of d' sc"
    and "rows_sized d sc" "rows_sized d' sc"
  shows "map (content \<circ> read_record (coalesce sc)) (rows_of d sc) =
      map (content \<circ> read_record (coalesce sc)) (rows_of d' sc) \<or>
    list_ex (\<lambda>(x, y). x \<noteq> y \<and> w_sha256 W x = w_sha256 W y)
      (zip (hashed_texts d sc) (hashed_texts d' sc))"
proof -
  let ?r = "read_record (coalesce sc)"
  have ci: "chain_intact W d sc" "chain_intact W d' sc" using assms by (simp_all add: intact_def)
  then have len: "length (rows_of d sc) = length (rows_of d' sc)"
    using assms(3) by (simp add: chain_intact_def)
  have "map content (map ?r (rows_of d sc)) = map content (map ?r (rows_of d' sc)) \<or>
      list_ex (collides W) (zip (hashed_texts d sc) (hashed_texts d' sc))"
    unfolding hashed_texts_def
  proof (rule walks_agree)
    show "map ?r (rows_of d sc) \<noteq> [] \<longrightarrow>
        rec_hash (last (map ?r (rows_of d sc))) = rec_hash (last (map ?r (rows_of d' sc)))"
      using ci assms(3) len by (auto simp: chain_intact_def last_map read_record_def)
    show "\<forall>r \<in> set (map ?r (rows_of d sc)) \<union> set (map ?r (rows_of d' sc)). record_sized r \<and> sized (rec_hash r)"
      using assms(4,5) by (auto simp: rows_sized_def list_all_iff) (simp_all add: read_record_def)
  qed (use ci len in \<open>simp_all add: chain_intact_def\<close>)
  then show ?thesis by (simp add: collides_def)
qed

text \<open>
  Two logs of one record each, of a sign-in and of a sign-out. Under a hash that is
  constant their heads agree, and the two texts hashed are the collision.
\<close>

definition constant_world :: audit_world where
  "constant_world = sample_world\<lparr>w_sha256 := \<lambda>_. replicate 32 7\<rparr>"

definition log_after :: "entry \<Rightarrow> audit_db" where
  "log_after e = (case Append constant_world None e empty_audit of
     Inl e \<Rightarrow> empty_audit | Inr (u, d) \<Rightarrow> d)"

lemma log_after_intact:
  assumes "case Append constant_world None e empty_audit of Inl e \<Rightarrow> False | Inr r \<Rightarrow> True"
  shows "intact constant_world (log_after e)"
  using assms by (intro intact_Append [OF intact_empty, of _ _ e "()"])
    (auto simp: log_after_def split: sum.splits)

definition small_rows :: "audit_db \<Rightarrow> scope \<Rightarrow> bool" where
  "small_rows d sc = list_all (\<lambda>l. let r = read_record (coalesce sc) l in
      0 \<le> rec_sequence r \<and> rec_sequence r < 1000 \<and> 0 \<le> rec_at r div 1000 \<and> rec_at r div 1000 < 1000 \<and>
      list_all (\<lambda>v. length v < 100) [rec_marketplace r, rec_actor r, rec_kind r, rec_action r,
        rec_subject_kind r, rec_subject r] \<and>
      list_all (\<lambda>v. length v < 100) [rec_actor_secret r, rec_subject_secret r, l_hash l])
      (rows_of d sc)"

lemma small_rows_sized: "small_rows d sc \<Longrightarrow> rows_sized d sc"
  by (auto simp: small_rows_def rows_sized_def list_all_iff record_sized_def sized_def Let_def)

theorem audit_head_pins_history_witness:
  "head_of (log_after sample_entry) None =
      head_of (log_after (sample_entry\<lparr>e_action := ''signout''\<rparr>)) None \<and>
   log_after sample_entry \<noteq> log_after (sample_entry\<lparr>e_action := ''signout''\<rparr>) \<and>
   list_ex (\<lambda>(x, y). x \<noteq> y \<and> w_sha256 constant_world x = w_sha256 constant_world y)
     (zip (hashed_texts (log_after sample_entry) None)
       (hashed_texts (log_after (sample_entry\<lparr>e_action := ''signout''\<rparr>)) None))"
proof -
  let ?d = "log_after sample_entry" and ?e = "log_after (sample_entry\<lparr>e_action := ''signout''\<rparr>)"
  have heads: "head_of ?d None = head_of ?e None" by code_simp
  have differ: "map (content \<circ> read_record (coalesce None)) (rows_of ?d None) \<noteq>
      map (content \<circ> read_record (coalesce None)) (rows_of ?e None)"
    by code_simp
  have "map (content \<circ> read_record (coalesce None)) (rows_of ?d None) =
      map (content \<circ> read_record (coalesce None)) (rows_of ?e None) \<or>
    list_ex (\<lambda>(x, y). x \<noteq> y \<and> w_sha256 constant_world x = w_sha256 constant_world y)
      (zip (hashed_texts ?d None) (hashed_texts ?e None))"
  proof (rule audit_head_pins_history)
    show "intact constant_world ?d" "intact constant_world ?e"
      by (rule log_after_intact; code_simp)+
    show "rows_sized ?d None" "rows_sized ?e None" by (rule small_rows_sized; code_simp)+
  qed (rule heads)
  then show ?thesis using heads differ by fastforce
qed

text \<open>
  A record whose contents were changed out of band, its hashes left as they were, is
  exactly one break, in its own place: the walk goes on from the hash the record carries,
  so the records after it still verify.
\<close>

theorem altered_record_is_one_break:
  assumes "walk W p (before @ [r] @ rest) = []"
    and "rec_previous r' = rec_previous r" "rec_hash r' = rec_hash r"
    and "digest W (rec_previous r') r' \<noteq> rec_hash r"
  shows "walk W p (before @ [r'] @ rest) =
    [\<lparr>b_marketplace = rec_marketplace r', b_sequence = rec_sequence r', b_why = NotMatching\<rparr>]"
  using assms by (simp add: walk_append split: if_splits)

theorem altered_record_is_one_break_witness:
  "\<exists>r. walk sample_world Genesis [r] = [] \<and>
    walk sample_world Genesis ([] @ [r\<lparr>rec_action := ''signout''\<rparr>] @ []) =
      [\<lparr>b_marketplace = [], b_sequence = 1, b_why = NotMatching\<rparr>]"
proof -
  define r where "r = written sample_world sample_entry Genesis 0 0 [] []"
  have ok: "walk sample_world Genesis [r] = []" unfolding r_def by code_simp
  have bad: "digest sample_world (rec_previous (r\<lparr>rec_action := ''signout''\<rparr>)) (r\<lparr>rec_action := ''signout''\<rparr>) \<noteq> rec_hash r"
    unfolding r_def by code_simp
  have "walk sample_world Genesis ([] @ [r\<lparr>rec_action := ''signout''\<rparr>] @ []) =
      [\<lparr>b_marketplace = rec_marketplace (r\<lparr>rec_action := ''signout''\<rparr>),
        b_sequence = rec_sequence (r\<lparr>rec_action := ''signout''\<rparr>), b_why = NotMatching\<rparr>]"
    by (rule altered_record_is_one_break [where r = r]) (use ok bad in simp_all)
  moreover have "rec_marketplace (r\<lparr>rec_action := ''signout''\<rparr>) = []" "rec_sequence (r\<lparr>rec_action := ''signout''\<rparr>) = 1"
    by (simp_all add: r_def written_def Let_def sample_entry_def)
  ultimately show ?thesis using ok by metis
qed

text \<open>
  Verification does not look at the head of a chain: a log that lost its last records,
  however many, while \<^verbatim>\<open>audit_chain\<close> still counts them, verifies with no break.
\<close>

theorem truncated_log_verifies:
  assumes "(audit_step W)\<^sup>*\<^sup>* empty_audit d"
  shows "\<exists>n. VerifyLog W (d\<lparr>log := take k (log d)\<rparr>) =
    Some \<lparr>Chains = length (chains d), Records = n, Breaks = []\<rparr>"
  using verifiable_verifies [OF verifiable_prefix [OF intact_verifiable
    [OF audit_history_intact [OF assms intact_empty]], of k]] by simp

theorem truncated_log_verifies_witness:
  "(\<exists>n. VerifyLog sample_world (sample_log\<lparr>log := take 0 (log sample_log)\<rparr>) =
    Some \<lparr>Chains = length (chains sample_log), Records = n, Breaks = []\<rparr>) \<and>
   snd (head_of (sample_log\<lparr>log := take 0 (log sample_log)\<rparr>) None) = 1"
proof
  show "\<exists>n. VerifyLog sample_world (sample_log\<lparr>log := take 0 (log sample_log)\<rparr>) =
    Some \<lparr>Chains = length (chains sample_log), Records = n, Breaks = []\<rparr>"
    by (rule truncated_log_verifies [OF sample_history])
  show "snd (head_of (sample_log\<lparr>log := take 0 (log sample_log)\<rparr>) None) = 1" by code_simp
qed

text \<open>
  C10. Erasure is final and leaves no hole: once a person's key is destroyed, the records
  and the chains are exactly as they were; and whatever happens afterwards, nothing sealed
  for that person can be opened, nothing more can be sealed for them, and a record's part
  under their key reads as erased. The platform's own key is never destroyed.
\<close>

theorem destroyed_key_is_gone_for_good:
  assumes "Destroy W person d = Inr (u, d')" and "find_key person d \<noteq> None"
    and "(audit_step W)\<^sup>*\<^sup>* d' d''"
  shows "log d' = log d \<and> chains d' = chains d \<and> person \<noteq> Platform \<and>
    OpenFor W person s d'' = Inl (if personal person then ErrDestroyed else ErrPlatformKey) \<and>
    SealFor W person s d'' = Inl (if personal person then ErrDestroyed else ErrPlatformKey) \<and>
    open_part W (Some person) s d'' = Inr (if s = [] then Absent else Erased, d'')"
proof -
  have "same_log d d'" using keepsD [OF Destroy_same_log assms(1)] .
  moreover have "open_key W person d'' = Inl ErrDestroyed"
    using Destroy_effect [OF assms(1)] assms(2) erased_kept [OF key_kept_history [OF assms(3)]]
    by (intro erased_open_key) blast
  ultimately show ?thesis
    using Destroy_effect [OF assms(1)]
    by (auto simp: same_log_def OpenFor_def SealFor_def open_part_def tx_defs coalesce_def)
qed

definition shredded_log :: audit_db where
  "shredded_log = (case Destroy sample_world ''u1'' sample_log of
     Inl e \<Rightarrow> sample_log | Inr (u, d) \<Rightarrow> d)"

theorem destroyed_key_is_gone_for_good_witness:
  "log shredded_log = log sample_log \<and> chains shredded_log = chains sample_log \<and> ''u1'' \<noteq> Platform \<and>
    OpenFor sample_world ''u1'' [7] shredded_log = Inl (if personal ''u1'' then ErrDestroyed else ErrPlatformKey) \<and>
    SealFor sample_world ''u1'' [7] shredded_log = Inl (if personal ''u1'' then ErrDestroyed else ErrPlatformKey) \<and>
    open_part sample_world (Some ''u1'') [7] shredded_log =
      Inr (if [7 :: 8 word] = [] then Absent else Erased, shredded_log)"
proof (rule destroyed_key_is_gone_for_good)
  have "case Destroy sample_world ''u1'' sample_log of Inl e \<Rightarrow> False | Inr r \<Rightarrow> True" by code_simp
  then show "Destroy sample_world ''u1'' sample_log = Inr ((), shredded_log)"
    by (auto simp: shredded_log_def split: sum.splits)
  show "find_key ''u1'' sample_log \<noteq> None" by code_simp
qed simp

text \<open>
  What is sealed for a person opens to what it was, whatever else happened since, until
  that person's key is destroyed. The cipher and the keeper are as documented: AES-GCM
  opens what it sealed under the same key and nonce, and the keeper unwraps what it
  wrapped.
\<close>

theorem sealed_opens_until_destroyed:
  assumes "SealFor W person plaintext d = Inr (s, d1)" and "(audit_step W)\<^sup>*\<^sup>* d1 d2"
    and "\<not> erased person d2"
    and "\<And>k n p. w_gcm_open W k n (w_gcm_seal W k n p) = Some p"
    and "\<And>i n. length (w_draw W i n) = n"
  shows "OpenFor W person s d2 = Inr (plaintext, d2)"
proof -
  obtain key d0 where p: "personal person" and o: "open_key W person d = Inr (key, d0)"
    and sl: "Seal W key plaintext d0 = Inr (s, d1)"
    using assms(1) by (auto simp: SealFor_def tx_simps split: if_splits)
  obtain r where r: "find_key person d0 = Some r"
    and wr: "w_unwrap W (case k_wrapped r of None \<Rightarrow> [] | Some w \<Rightarrow> w) = Some key"
    using open_key_leaves [OF o] by blast
  have "key_kept d0 d2"
    using keepsD [OF key_kept_Seal sl] key_kept_history [OF assms(2)] by (rule key_kept.R_trans)
  then have "find_key person d2 = Some r" using r assms(3) by (auto simp: key_kept_def)
  moreover have "k_destroyed r = None" using calculation assms(3) by (auto simp: erased_def)
  ultimately have "open_key W person d2 = Inr (key, d2)"
    using wr by (simp add: open_key_def read_key_def tx_defs)
  moreover have "Open W key s = Inr plaintext"
  proof -
    obtain i where "length key = KeySize" and "s = w_draw W i NonceSize @ w_gcm_seal W key (w_draw W i NonceSize) plaintext"
      using sl by (auto simp: Seal_def tx_simps split: if_splits)
    then show ?thesis by (simp add: Open_def assms(4,5))
  qed
  ultimately show ?thesis using p by (simp add: OpenFor_def tx_defs)
qed

definition sealed_log :: "bytes \<times> audit_db" where
  "sealed_log = (case SealFor sample_world ''u2'' [1, 2, 3] sample_log of
     Inl e \<Rightarrow> ([], sample_log) | Inr r \<Rightarrow> r)"

theorem sealed_opens_until_destroyed_witness:
  "OpenFor sample_world ''u2'' (fst sealed_log) (snd sealed_log) = Inr ([1, 2, 3], snd sealed_log)"
proof (rule sealed_opens_until_destroyed)
  have "case SealFor sample_world ''u2'' [1, 2, 3] sample_log of Inl e \<Rightarrow> False | Inr r \<Rightarrow> True"
    by code_simp
  then show "SealFor sample_world ''u2'' [1, 2, 3] sample_log = Inr (fst sealed_log, snd sealed_log)"
    by (auto simp: sealed_log_def split: sum.splits)
  show "\<not> erased ''u2'' (snd sealed_log)" by code_simp
qed (simp_all add: sample_world_def)

end
