(* ===== verification/Samples.thy ===== *)
theory Samples
  imports AuditProps Steps
begin

text \<open>
  A concrete service and a short run of it, on which the properties are applied: hashes
  that keep their input, an argon2 that copies the password, the audit log of the model as
  auditor and sealer. A buyer signs up in a marketplace, confirms the address and signs in.
\<close>

definition sample_webauthn :: webauthn where
  "sample_webauthn = \<lparr>wa_host = (\<lambda>u. Some ''m1.example''), wa_new = (\<lambda>_. True),
     wa_begin_registration = (\<lambda>_ _ _. Some ([1], [2])), wa_parse_creation = Some,
     wa_session = Some,
     wa_create = (\<lambda>_ _ _ p. Some \<lparr>kc_id = p, kc_public = [9], kc_flags = 1, kc_count = 0\<rparr>),
     wa_begin_login = (\<lambda>_ _. Some ([3], [4])), wa_parse_assertion = (\<lambda>b. Some (b, 7)),
     wa_validate = (\<lambda>_ _ _ p. Some \<lparr>as_id = p, as_clone = False, as_count = 7, as_flags = 1\<rparr>)\<rparr>"

definition sample_service :: "audit_db service" where
  "sample_service = \<lparr>sv_sha256 = (\<lambda>b. b),
     sv_hmac = (\<lambda>k m. drop 4 m @ k @ replicate 16 0), sv_hasher = plain_hasher,
     sv_breached = (\<lambda>_. Some False), sv_parse_address = (\<lambda>a. Some (a, [])),
     sv_parse_uuid = Some, sv_new_id = (\<lambda>n. ''id'' @ replicate n CHR ''x''),
     sv_audit = Append sample_world,
     sv_sealer = Some \<lparr>seal_for = SealFor sample_world, open_for = OpenFor sample_world\<rparr>,
     sv_webauthn = sample_webauthn\<rparr>"

definition sample_visit :: "string \<Rightarrow> visit" where
  "sample_visit m = \<lparr>v_marketplace = m, v_platform = (m = []), v_name = ''Shop'', v_language = ''en'',
     v_ip = [], v_agent = ''test'', v_base = ''https://m1.example''\<rparr>"

definition sample_draws :: "nat \<Rightarrow> draws" where
  "sample_draws n = \<lparr>dr_verify = True, dr_hash = True, dr_salt = [1, 2], dr_token = [word_of_nat n]\<rparr>"

definition sample_token :: "nat \<Rightarrow> string" where
  "sample_token n = fst (NewToken (\<lambda>b. b) [word_of_nat n])"

definition db0 :: "audit_db db" where "db0 = empty_db empty_audit"

definition signed_up_db :: "audit_db db" where
  "signed_up_db = snd (SignUp sample_service (sample_visit ''m1'') ''Ana'' ''a@b'' ''correct horse'' (sample_draws 1) 0 db0)"

definition confirmed_db :: "audit_db db" where
  "confirmed_db = snd (VerifyEmail sample_service (sample_visit ''m1'') (sample_token 1) 5 signed_up_db)"

definition signed_in_db :: "audit_db db" where
  "signed_in_db = snd (signIn sample_service (sample_visit ''m1'') ''a@b'' ''correct horse'' (sample_draws 2)
     (\<lambda>d. d) 10 confirmed_db)"

lemma sample_sign_up:
  "SignUp sample_service (sample_visit ''m1'') ''Ana'' ''a@b'' ''correct horse'' (sample_draws 1) 0 db0 =
     (Inr (), signed_up_db)"
proof -
  have "fst (SignUp sample_service (sample_visit ''m1'') ''Ana'' ''a@b'' ''correct horse'' (sample_draws 1) 0 db0) =
      Inr ()" by code_simp
  then show ?thesis by (simp add: signed_up_db_def prod_eq_iff)
qed

text \<open>The sign-up as a step of the system.\<close>

lemma sample_step:
  obtains h where "signed_up_db = db0 \<or>
    istep sample_service (NewBootstrap (\<lambda>b. b) []) (sample_visit ''m1'') {h} db0 signed_up_db"
proof -
  obtain name email n secret token h now where
    "within (sample_visit ''m1'') (\<lambda>sc. signup_tx sample_service sc (sample_visit ''m1'') name email n secret token h now)
       db0 = (Inr (), signed_up_db)"
    using sample_sign_up by (auto simp: SignUp_def split: sum.splits prod.splits if_splits)
  then have "signed_up_db = db0 \<or>
      istep sample_service (NewBootstrap (\<lambda>b. b) []) (sample_visit ''m1'') {h} db0 signed_up_db"
    by (rule within_step) (rule body.signed_up, simp)
  then show ?thesis by (rule that)
qed

lemma sample_reachable:
  "reachable sample_service (NewBootstrap (\<lambda>b. b) []) empty_audit signed_up_db"
  by (rule sample_step) (auto simp: reachable_def db0_def dest: istep_icommit [where X = "{}"])

subsection \<open>A lighter service\<close>

text \<open>
  The same service with an auditor that keeps nothing and a sealer that seals nothing, and
  a database in which a buyer has confirmed the address: for the properties that do not
  speak of the audit log.
\<close>

definition light :: "unit service" where
  "light = \<lparr>sv_sha256 = (\<lambda>b. b),
     sv_hmac = (\<lambda>k m. drop 4 m @ k @ replicate 16 0), sv_hasher = plain_hasher,
     sv_breached = (\<lambda>_. Some False), sv_parse_address = (\<lambda>a. Some (a, [])),
     sv_parse_uuid = Some, sv_new_id = (\<lambda>n. ''id'' @ replicate n CHR ''x''),
     sv_audit = (\<lambda>sc e t. Inr ((), t)),
     sv_sealer = Some \<lparr>seal_for = (\<lambda>p b t. Inr (b, t)), open_for = (\<lambda>p b t. Inr (b, t))\<rparr>,
     sv_webauthn = sample_webauthn\<rparr>"

definition buyer_row :: account_row where
  "buyer_row = \<lparr>a_id = ''u1'', a_scope = Some ''m1'', a_kind = KindBuyer, a_email = ''a@b'',
     a_normalised = ''a@b'', a_name = ''Ana'', a_verified = Some 1\<rparr>"

definition buyer :: account where
  "buyer = scanAccount buyer_row"

definition buyer_secret :: string where
  "buyer_secret = encode plain_hasher [1, 2] (bytes_of ''horse'')"

definition buyer_db :: "unit db" where
  "buyer_db = (empty_db ())\<lparr>accounts := [buyer_row],
     credentials := [\<lparr>cr_account = ''u1'', cr_scope = Some ''m1'', cr_secret = buyer_secret\<rparr>]\<rparr>"

lemma buyer_verifies:
  "VerifyPassword plain_hasher True ''horse'' buyer_secret = Inr (True, False)"
proof -
  have "buyer_secret = phc (h_params plain_hasher) [1, 2] (plain_kdf (bytes_of ''horse'') [1, 2] 1 64 1 4)"
    by (simp add: buyer_secret_def encode_def plain_hasher_def Let_def)
  moreover have "decode (phc (h_params plain_hasher) [1, 2] (plain_kdf (bytes_of ''horse'') [1, 2] 1 64 1 4)) =
      Some (h_params plain_hasher, [1, 2], plain_kdf (bytes_of ''horse'') [1, 2] 1 64 1 4)"
    by (rule decode_phc) (simp_all add: plain_hasher_def plain_kdf_def params_ok_def maxMemoryKiB_def
        maxTime_def maxEncodedLen_def)
  ultimately show ?thesis
    by (simp add: VerifyPassword_def plain_hasher_def Let_def)
qed

lemma buyer_found:
  "visit_ok (sample_visit ''m1'')" "scope_of (sample_visit ''m1'') = Some ''m1''"
  "NormaliseEmail (sv_parse_address light) ''a@b'' = Inr ''a@b''"
  "find_account_by_email (Some ''m1'') ''a@b'' buyer_db = Some buyer"
  "find_secret (Some ''m1'') ''u1'' buyer_db = Some buyer_secret"
  "ID buyer = ''u1''" "VerifiedAt buyer = Some 1" "Kind buyer = KindBuyer"
proof -
  show "NormaliseEmail (sv_parse_address light) ''a@b'' = Inr ''a@b''" by code_simp
qed (simp_all add: visit_ok_def scope_of_def sample_visit_def nullif_def find_account_by_email_def
    buyer_db_def empty_db_def buyer_row_def buyer_def scanAccount_def find_secret_def)

definition buyer_in :: "unit db" where
  "buyer_in = (case signin_tx light (Some ''m1'') (sample_visit ''m1'') ''u1'' buyer_secret []
     (HashToken (sv_sha256 light) (fst (NewToken (sv_sha256 light) [2]))) 10 buyer_db of
     Inl e \<Rightarrow> buyer_db | Inr (b, d) \<Rightarrow> d)"

lemma buyer_signs_in:
  "signin_tx light (Some ''m1'') (sample_visit ''m1'') ''u1'' buyer_secret []
     (HashToken (sv_sha256 light) (fst (NewToken (sv_sha256 light) [2]))) 10 buyer_db = Inr (False, buyer_in)"
proof -
  have "(case signin_tx light (Some ''m1'') (sample_visit ''m1'') ''u1'' buyer_secret []
     (HashToken (sv_sha256 light) (fst (NewToken (sv_sha256 light) [2]))) 10 buyer_db of
     Inl e \<Rightarrow> False | Inr (b, d) \<Rightarrow> \<not> b)"
    by code_simp
  then show ?thesis by (auto simp: buyer_in_def split: sum.splits)
qed

end
