(* ===== verification/SessionProps.thy ===== *)
theory SessionProps
  imports SessionFacts Samples
begin

text \<open>
  The properties of signing in, of sessions and of passwords, each applied to a buyer of a
  marketplace who signs in with the right password.
\<close>

lemma buyer_sign_in:
  "signIn light (sample_visit ''m1'') ''a@b'' ''horse'' (sample_draws 2) (\<lambda>d. d) 10 buyer_db =
     (Inr (SessionOpened (drawn_token light (sample_draws 2))), buyer_in)"
proof -
  have creds: "credentials_of (sample_visit ''m1'') ''a@b'' buyer_db = (Inr (Some (buyer, buyer_secret)), buyer_db)"
    by (simp add: credentials_of_Inr buyer_found)
  have hasher: "sv_hasher light = plain_hasher" "dr_verify (sample_draws 2) = True"
    "dr_token (sample_draws 2) = [2]" "sv_sha256 light = (\<lambda>b. b)"
    by (simp_all add: light_def sample_draws_def)
  show ?thesis
    unfolding signIn_def Let_def
    using buyer_signs_in
    by (simp add: case_prod_beta maxPasswordBytes_def MaxPasswordLength_def buyer_found creds hasher buyer_verifies within_ok in_tx_def)
qed

subsection \<open>Signing in\<close>

text \<open>
  C4. A sign-in answers only for a confirmed account whose stored password, verified before,
  is still the stored one when the session opens, whatever anybody did in between; and a
  correct password opens a session exactly when the account has no second factor by then,
  and otherwise a challenge and no session.
\<close>

theorem sign_in_opens_only_what_it_may:
  assumes "signIn S v email password r other now d = (Inr out, d')"
  shows "\<exists>normalised account secret stale.
    NormaliseEmail (sv_parse_address S) email = Inr normalised \<and>
    find_account_by_email (scope_of v) normalised d = Some account \<and> VerifiedAt account \<noteq> None \<and>
    VerifyPassword (sv_hasher S) (dr_verify r) password secret = Inr (True, stale) \<and>
    find_secret (scope_of v) (ID account) (other d) = Some secret \<and>
    (if has_factor (scope_of v) (ID account) (other d)
     then out = ChallengeOpened (drawn_token S r) \<and> sessions d' = sessions (other d)
     else out = SessionOpened (drawn_token S r) \<and> (\<exists>row. sessions d' = sessions (other d) @ [row] \<and>
       new_session (scope_of v) (ID account) (hash_of S (drawn_token S r)) now row))"
proof -
  obtain normalised account secret stale fresh challenged where
    facts: "NormaliseEmail (sv_parse_address S) email = Inr normalised"
      "find_account_by_email (scope_of v) normalised d = Some account" "VerifiedAt account \<noteq> None"
      "VerifyPassword (sv_hasher S) (dr_verify r) password secret = Inr (True, stale)"
    and tx: "signin_tx S (scope_of v) v (ID account) secret fresh (hash_of S (drawn_token S r)) now (other d) =
      Inr (challenged, d')"
    and out: "out = (if challenged then ChallengeOpened (drawn_token S r) else SessionOpened (drawn_token S r))"
    using assms by (rule signIn_Inr)
  have effect: "find_secret (scope_of v) (ID account) (other d) = Some secret"
    "challenged \<longleftrightarrow> has_factor (scope_of v) (ID account) (other d)"
    "if challenged then sessions d' = sessions (other d)
     else \<exists>row. sessions d' = sessions (other d) @ [row] \<and>
       new_session (scope_of v) (ID account) (hash_of S (drawn_token S r)) now row"
    using signin_tx_sessions [OF tx] by auto
  then show ?thesis using facts out by (auto split: if_splits)
qed

theorem sign_in_opens_only_what_it_may_witness:
  "\<exists>normalised account secret stale.
    NormaliseEmail (sv_parse_address light) ''a@b'' = Inr normalised \<and>
    find_account_by_email (scope_of (sample_visit ''m1'')) normalised buyer_db = Some account \<and>
    VerifiedAt account \<noteq> None \<and>
    VerifyPassword (sv_hasher light) (dr_verify (sample_draws 2)) ''horse'' secret = Inr (True, stale) \<and>
    find_secret (scope_of (sample_visit ''m1'')) (ID account) buyer_db = Some secret \<and>
    (if has_factor (scope_of (sample_visit ''m1'')) (ID account) buyer_db
     then SessionOpened (drawn_token light (sample_draws 2)) = ChallengeOpened (drawn_token light (sample_draws 2)) \<and>
       sessions buyer_in = sessions buyer_db
     else SessionOpened (drawn_token light (sample_draws 2)) = SessionOpened (drawn_token light (sample_draws 2)) \<and>
       (\<exists>row. sessions buyer_in = sessions buyer_db @ [row] \<and>
         new_session (scope_of (sample_visit ''m1'')) (ID account) (hash_of light (drawn_token light (sample_draws 2))) 10 row))"
  by (rule sign_in_opens_only_what_it_may [OF buyer_sign_in])

text \<open>
  A sign-in that opened a session lets the browser in: whatever committed between the two
  transactions of the sign-in, the token authenticates as that account, with no second
  factor and no step-up, until thirty days pass unseen.
\<close>

theorem sign_in_then_authenticate:
  assumes "signIn S v email password r other now d = (Inr (SessionOpened token), d')"
    and "NormaliseEmail (sv_parse_address S) email = Inr normalised"
    and "find_account_by_email (scope_of v) normalised d = Some account"
    and "(icommit S B X)\<^sup>*\<^sup>* d (other d)" and "later - now \<le> SessionIdle"
  shows "\<exists>s d''. authenticate S v token later d' = (Inr s, d'') \<and> ID (se_account s) = ID account \<and>
    \<not> se_second s \<and> se_stepped s = None"
proof -
  obtain secret fresh challenged where ok: "visit_ok v" and out: "SessionOpened token =
      (if challenged then ChallengeOpened (drawn_token S r) else SessionOpened (drawn_token S r))"
    and tx: "signin_tx S (scope_of v) v (ID account) secret fresh (hash_of S (drawn_token S r)) now (other d) =
      Inr (challenged, d')"
    using signIn_Inr [OF assms(1)] assms(2,3) by (metis Inr_inject option.inject)
  then have token: "token = drawn_token S r" "\<not> challenged" by (auto split: if_splits)
  obtain row where row: "sessions d' = sessions (other d) @ [row]"
      "new_session (scope_of v) (ID account) (hash_of S token) now row"
      "hash_of S token \<notin> s_hash ` set (sessions (other d))"
    using signin_tx_sessions(3) [OF tx] token by auto
  have factor: "\<not> has_factor (scope_of v) (ID account) d'"
    using signin_tx_sessions(2,5) [OF tx] token(2) by (simp add: has_factor_def)
  have found: "find_session (scope_of v) (hash_of S token) d' = Some row"
    by (rule find_session_new [OF row])
  have "find_account (scope_of v) (ID account) (other d) \<noteq> None"
    using find_account_kept [OF accounts_kept_history [OF assms(4)]] find_by_email_account [OF assms(3)] by blast
  then have there: "find_account (scope_of v) (s_account row) d' \<noteq> None"
    using row(2) signin_tx_sessions(4) [OF tx] by (simp add: find_account_def new_session_def)
  have "in_time later row"
    using row(2) assms(5) by (simp add: in_time_def new_session_def durations)
  from opened_authenticates [OF ok found there this] show ?thesis
    using row(2) factor by (metis new_session_def)
qed

theorem sign_in_then_authenticate_witness:
  "\<exists>s d''. authenticate light (sample_visit ''m1'') (drawn_token light (sample_draws 2)) 3000 buyer_in = (Inr s, d'') \<and>
    ID (se_account s) = ID buyer \<and> \<not> se_second s \<and> se_stepped s = None"
  by (rule sign_in_then_authenticate [OF buyer_sign_in buyer_found(3)])
    (simp_all add: buyer_found durations)


definition password_moved :: "unit db \<Rightarrow> unit db" where
  "password_moved d = d\<lparr>credentials := [\<lparr>cr_account = ''u1'', cr_scope = Some ''m1'', cr_secret = []\<rparr>]\<rparr>"

lemma raced_sign_in:
  "signIn light (sample_visit ''m1'') ''a@b'' ''horse'' (sample_draws 2) password_moved 10 buyer_db =
     (Inl ErrCredentials, password_moved buyer_db)"
proof -
  have creds: "credentials_of (sample_visit ''m1'') ''a@b'' buyer_db = (Inr (Some (buyer, buyer_secret)), buyer_db)"
    by (simp add: credentials_of_Inr buyer_found)
  have hasher: "sv_hasher light = plain_hasher" "dr_verify (sample_draws 2) = True"
    by (simp_all add: light_def sample_draws_def)
  have "buyer_secret \<noteq> []" by (simp add: buyer_secret_def encode_def phc_def Let_def)
  then have "signin_tx light (Some ''m1'') (sample_visit ''m1'') ''u1'' buyer_secret [] h 10 (password_moved buyer_db) =
      Inl ErrCredentials" for h
    by (simp add: signin_tx_def passwordStill_def the_row_def tx_run password_moved_def find_secret_def)
  then show ?thesis
    unfolding signIn_def Let_def
    by (simp add: case_prod_beta maxPasswordBytes_def MaxPasswordLength_def buyer_found creds hasher
        buyer_verifies within_ok in_tx_def)
qed


subsection \<open>Sessions\<close>

text \<open>
  C16. A request is let in exactly by a session of its own scope that nobody ended, seen in
  the last thirty days and opened in the last ninety, whose account is there; token hashes
  being unique, as they are in every database the flows can reach.
\<close>

theorem authenticate_accepts_exactly:
  assumes "db_wf d"
  shows "(\<exists>s d'. authenticate S v token now d = (Inr s, d')) \<longleftrightarrow> visit_ok v \<and>
    (\<exists>r \<in> set (sessions d). s_scope r = scope_of v \<and> s_hash r = hash_of S token \<and> s_revoked r = None \<and>
       in_time now r \<and> find_account (scope_of v) (s_account r) d \<noteq> None)"
proof -
  have one: "find_session (scope_of v) (hash_of S token) d = Some r \<longleftrightarrow>
      r \<in> set (sessions d) \<and> s_scope r = scope_of v \<and> s_hash r = hash_of S token \<and> s_revoked r = None" for r
  proof
    assume r: "r \<in> set (sessions d) \<and> s_scope r = scope_of v \<and> s_hash r = hash_of S token \<and> s_revoked r = None"
    then obtain q where q: "find_session (scope_of v) (hash_of S token) d = Some q"
      by (metis (mono_tags, lifting) closed_session_def closed_session_iff not_None_eq)
    then have "q \<in> set (sessions d)" "s_hash q = hash_of S token"
      by (auto simp: find_session_def find_Some_iff)
    moreover have "inj_on s_hash (set (sessions d))"
      using assms by (simp add: db_wf_def sessions_wf_def distinct_map)
    ultimately have "q = r" using r by (metis inj_onD)
    then show "find_session (scope_of v) (hash_of S token) d = Some r" using q by simp
  qed (auto simp: find_session_def find_Some_iff)
  show ?thesis
  proof
    assume "\<exists>s d'. authenticate S v token now d = (Inr s, d')"
    then show "visit_ok v \<and> (\<exists>r \<in> set (sessions d). s_scope r = scope_of v \<and> s_hash r = hash_of S token \<and>
        s_revoked r = None \<and> in_time now r \<and> find_account (scope_of v) (s_account r) d \<noteq> None)"
      unfolding authenticate_Inr authenticate_tx_Inr one by blast
  qed (use one opened_authenticates in blast)
qed

lemma buyer_in_wf: "db_wf buyer_in"
proof -
  have "db_wf buyer_db"
    by (simp add: db_wf_def wf_tables refs_wf_def buyer_db_def empty_db_def buyer_row_def)
  then have "guarded (Some ''m1'') {} buyer_db buyer_in \<and> db_wf buyer_db"
    using keepsD [OF guarded_steps.account_flows_kept(5) [OF UNIV_I] buyer_signs_in] by blast
  then show ?thesis by (simp add: guarded_def)
qed

theorem authenticate_accepts_exactly_witness:
  "(\<exists>s d'. authenticate light (sample_visit ''m1'') (sample_token 2) 3000 buyer_in = (Inr s, d')) \<longleftrightarrow>
   visit_ok (sample_visit ''m1'') \<and>
    (\<exists>r \<in> set (sessions buyer_in). s_scope r = scope_of (sample_visit ''m1'') \<and>
       s_hash r = hash_of light (sample_token 2) \<and> s_revoked r = None \<and> in_time 3000 r \<and>
       find_account (scope_of (sample_visit ''m1'')) (s_account r) buyer_in \<noteq> None)"
  by (rule authenticate_accepts_exactly [OF buyer_in_wf])

text \<open>
  C6. A session that was ended never comes back: after a sign-out or a replacement the token
  is refused in every later state, whatever any request of any marketplace or of the
  platform does, as long as nobody draws the same token again.
\<close>

theorem ended_session_stays_ended:
  assumes "end_session S v token reason act now d = (Inr (), d')"
    and "(icommit S B {hash_of S token})\<^sup>*\<^sup>* d' e"
  shows "authenticate S v token later e = (Inl ErrSessionInvalid, e)"
proof -
  have ok: "visit_ok v" and tx: "end_tx S (scope_of v) v (hash_of S token) reason act now d = Inr ((), d')"
    using assms(1) by (simp_all add: end_session_def within_Inr)
  have "closed_session (scope_of v) (hash_of S token) e"
    using stays_closed_history [OF assms(2), of "scope_of v"] end_tx_closes [OF tx]
    by (simp add: stays_closed_def)
  then show ?thesis
    by (simp add: authenticate_def within_ok [OF ok] closed_session_refused in_tx_def)
qed

definition buyer_out :: "unit db" where
  "buyer_out = snd (SignOut light (sample_visit ''m1'') (sample_token 2) 20 buyer_in)"

lemma buyer_signs_out:
  "end_session light (sample_visit ''m1'') (sample_token 2) ''signout'' ''identity.signout'' 20 buyer_in =
     (Inr (), buyer_out)"
proof -
  have "fst (SignOut light (sample_visit ''m1'') (sample_token 2) 20 buyer_in) = Inr ()" by code_simp
  then show ?thesis by (simp add: buyer_out_def SignOut_def prod_eq_iff)
qed

theorem ended_session_stays_ended_witness:
  "authenticate light (sample_visit ''m1'') (sample_token 2) 30 buyer_out = (Inl ErrSessionInvalid, buyer_out)"
  by (rule ended_session_stays_ended [OF buyer_signs_out rtranclp.rtrancl_refl])

subsection \<open>Confirming an address\<close>

text \<open>
  A confirmation link confirms once: after it did, it is refused in every later state,
  and nothing changes when it is tried.
\<close>

theorem confirmation_link_works_once:
  assumes "reachable S B t d" and "VerifyEmail S v token now d = (Inr (), d')"
    and "(icommit S B {hash_of S token})\<^sup>*\<^sup>* d' e"
  shows "VerifyEmail S v token later e = (Inl ErrTokenInvalid, e)"
proof -
  have ok: "visit_ok v" and tx: "verify_tx S (scope_of v) v (hash_of S token) now d = Inr ((), d')"
    using assms(2) by (simp_all add: VerifyEmail_def within_Inr)
  have "closed_verification (scope_of v) (hash_of S token) e"
    using stays_closed_history [OF assms(3), of "scope_of v"]
      verify_tx_closes [OF tx db_wf_reachable [OF assms(1)]] by (simp add: stays_closed_def)
  then show ?thesis
    by (simp add: VerifyEmail_def within_ok [OF ok] closed_verification_refused in_tx_def)
qed

theorem confirmation_link_works_once_witness:
  "VerifyEmail sample_service (sample_visit ''m1'') (sample_token 1) 9 confirmed_db =
     (Inl ErrTokenInvalid, confirmed_db)"
proof -
  have "fst (VerifyEmail sample_service (sample_visit ''m1'') (sample_token 1) 5 signed_up_db) = Inr ()"
    by code_simp
  then have "VerifyEmail sample_service (sample_visit ''m1'') (sample_token 1) 5 signed_up_db = (Inr (), confirmed_db)"
    by (simp add: confirmed_db_def prod_eq_iff)
  then show ?thesis by (rule confirmation_link_works_once [OF sample_reachable _ rtranclp.rtrancl_refl])
qed

subsection \<open>Changing a password\<close>

text \<open>
  C5. A changed password leaves the account one live session, the one it answers with,
  carrying the old session's step-up; no sign-in begun with the old password can be
  completed, the run of failed codes is cleared, and the stored password is the new one. It
  asks for a step-up, and the password it verified is the stored one when it commits,
  whatever anybody did in between.
\<close>

theorem password_change_ends_everything_else:
  assumes "ChangePassword S v s current new r other at now d = (Inr token, d')"
  shows "\<not> NeedsStepUp at s ActionPassword \<and>
    (\<exists>secret stale fresh. find_secret (scope_of v) (ID (se_account s)) (other d) = Some secret \<and>
       VerifyPassword (sv_hasher S) (dr_verify r) current secret = Inr (True, stale) \<and>
       Hash (sv_hasher S) (dr_hash r) (dr_salt r) new = Inr fresh \<and>
       find_secret (scope_of v) (ID (se_account s)) d' = Some fresh) \<and>
    (\<forall>q \<in> set (sessions d'). live_session (scope_of v) (ID (se_account s)) q \<longrightarrow> s_hash q = hash_of S token) \<and>
    (\<exists>q. find_session (scope_of v) (hash_of S token) d' = Some q \<and> s_account q = ID (se_account s) \<and>
       s_stepped_up q = se_stepped s) \<and>
    (\<forall>c \<in> set (challenges d'). \<not> sign_in_challenge (scope_of v) (ID (se_account s)) c) \<and>
    failures_of (scope_of v) (ID (se_account s)) d' = 0"
proof -
  obtain secret stale fresh where facts: "\<not> NeedsStepUp at s ActionPassword"
    "VerifyPassword (sv_hasher S) (dr_verify r) current secret = Inr (True, stale)"
    "Hash (sv_hasher S) (dr_hash r) (dr_salt r) new = Inr fresh"
    and tx: "change_tx S (scope_of v) v s secret fresh (hash_of S token) now (other d) = Inr ((), d')"
    using assms by (rule ChangePassword_Inr) blast
  show ?thesis using facts change_tx_effect [OF tx] by blast
qed

definition buyer_session :: session where
  "buyer_session = \<lparr>se_id = ''idx'', se_account = buyer, se_second = False,
     se_stepped = None, se_confirmed = None\<rparr>"

definition buyer_fresh :: string where
  "buyer_fresh = encode plain_hasher [1, 2] (bytes_of ''a longer horse'')"

definition buyer_changed :: "unit db" where
  "buyer_changed = (case change_tx light (Some ''m1'') (sample_visit ''m1'') buyer_session buyer_secret
     buyer_fresh (HashToken (sv_sha256 light) (fst (NewToken (sv_sha256 light) [3]))) 20 buyer_in of
     Inl e \<Rightarrow> buyer_in | Inr (u, d) \<Rightarrow> d)"

lemma buyer_changes:
  "change_tx light (Some ''m1'') (sample_visit ''m1'') buyer_session buyer_secret
     buyer_fresh (HashToken (sv_sha256 light) (fst (NewToken (sv_sha256 light) [3]))) 20 buyer_in =
   Inr ((), buyer_changed)"
proof -
  have "(case change_tx light (Some ''m1'') (sample_visit ''m1'') buyer_session buyer_secret
     buyer_fresh (HashToken (sv_sha256 light) (fst (NewToken (sv_sha256 light) [3]))) 20 buyer_in of
     Inl e \<Rightarrow> False | Inr (u, d) \<Rightarrow> True)"
    by code_simp
  then show ?thesis by (auto simp: buyer_changed_def split: sum.splits)
qed

lemma buyer_changes_password:
  "ChangePassword light (sample_visit ''m1'') buyer_session ''horse'' ''a longer horse'' (sample_draws 3)
     (\<lambda>d. d) 20 20 buyer_in = (Inr (drawn_token light (sample_draws 3)), buyer_changed)"
proof -
  have new: "checkNew light ''a longer horse'' = Inr ()" by code_simp
  have calm: "\<not> NeedsStepUp 20 buyer_session ActionPassword"
    by (simp add: NeedsStepUp_def buyer_session_def buyer_found StepUpFor_def Required_def Let_def)
  have secret: "find_secret (Some ''m1'') ''u1'' buyer_in = Some buyer_secret" by code_simp
  have hashed: "Hash plain_hasher True [1, 2] ''a longer horse'' = Inr buyer_fresh"
    by (simp add: Hash_def buyer_fresh_def plain_hasher_def)
  have parts: "sv_hasher light = plain_hasher" "dr_verify (sample_draws 3) = True"
    "dr_hash (sample_draws 3) = True" "dr_salt (sample_draws 3) = [1, 2]"
    "dr_token (sample_draws 3) = [3]" "sv_sha256 light = (\<lambda>b. b)" "ID (se_account buyer_session) = ''u1''"
    by (simp_all add: light_def sample_draws_def buyer_session_def buyer_found)
  show ?thesis
    unfolding ChangePassword_def Let_def
    using buyer_changes
    by (simp add: case_prod_beta maxPasswordBytes_def MaxPasswordLength_def new calm buyer_found parts
        buyer_verifies hashed within_ok in_tx_def passwordOf_def the_row_def tx_run secret)
qed

theorem password_change_ends_everything_else_witness:
  "(\<exists>q. find_session (Some ''m1'') (hash_of light (drawn_token light (sample_draws 3))) buyer_changed = Some q \<and>
      s_account q = ''u1'' \<and> s_stepped_up q = None) \<and>
    \<not> (\<exists>q. q \<in> set (sessions buyer_changed) \<and> live_session (Some ''m1'') ''u1'' q \<and>
      s_hash q = hash_of light (sample_token 2)) \<and>
    failures_of (Some ''m1'') ''u1'' buyer_changed = 0"
proof -
  have names: "scope_of (sample_visit ''m1'') = Some ''m1''" "ID (se_account buyer_session) = ''u1''"
    "se_stepped buyer_session = None"
    by (simp_all add: buyer_found buyer_session_def)
  have other: "hash_of light (sample_token 2) \<noteq> hash_of light (drawn_token light (sample_draws 3))"
    by code_simp
  show ?thesis
    using password_change_ends_everything_else [OF buyer_changes_password, unfolded names] other by metis
qed

end
