(* ===== verification/ChallengeFacts.thy ===== *)
theory ChallengeFacts
  imports SessionFacts
begin

text \<open>
  What an answer to a challenge does: the challenge it spends or counts against, the codes
  it may be checked against, the run of failures. The properties are in ChallengeProps.
\<close>

subsection \<open>Checking leaves the challenges and the sessions\<close>

text \<open>What \<open>check\<close> may touch: factors, recovery codes, e-mail codes and the trail.\<close>

definition same_gate :: "'a db \<Rightarrow> 'a db \<Rightarrow> bool" where
  "same_gate d d' \<longleftrightarrow> accounts d' = accounts d \<and> sessions d' = sessions d \<and>
     challenges d' = challenges d \<and> failures d' = failures d \<and> outbox d' = outbox d \<and>
     map f_id (factors d') = map f_id (factors d) \<and>
     map f_method (factors d') = map f_method (factors d) \<and>
     map (\<lambda>r. (r_scope r, r_account r)) (recoveries d') = map (\<lambda>r. (r_scope r, r_account r)) (recoveries d)"

interpretation same_gate: frame same_gate
  by unfold_locales (auto simp: same_gate_def)

lemma same_gate_rows:
  "keeps same_gate (on_trail f)" "keeps same_gate (usedApp sc i step now)"
  "keeps same_gate (usedKey sc i n fl now)" "keeps same_gate (emailFactorUsed sc i now)"
  "keeps same_gate (spendCode sc c now)" "keeps same_gate (codeAttempt sc c)"
  "keeps same_gate (useRecoveryCode sha sc i h now)"
  by (rule keepsI; auto simp: same_gate_def usedApp_def usedKey_def emailFactorUsed_def spendCode_def
      codeAttempt_def useRecoveryCode_def Let_def tx_simps keys)+

lemma same_gate_try_apps: "keeps same_gate (try_apps S sl sc i typed now apps)"
  by (induction apps) (auto intro!: same_gate.keeps_rules same_gate_rows)

lemma same_gate_checks:
  "keeps same_gate (checkApp S sc i typed now)" "keeps same_gate (checkKey S sc v account ch response now)"
  "keeps same_gate (useEmailCode S sc i p typed now)"
  unfolding checkApp_def checkKey_def useEmailCode_def appsForUpdate_def keysForUpdate_def refusalWith_def
  by (intro same_gate.keeps_rules same_gate_rows same_gate_try_apps)+

lemma same_gate_checkOffered: "keeps same_gate (checkOffered S sc v account ch offer ans now)"
  unfolding checkOffered_def
  by (cases "an_method ans") (auto intro!: same_gate.keeps_rules same_gate_rows same_gate_checks)

subsection \<open>What is offered\<close>

definition offered :: "scope \<Rightarrow> account \<Rightarrow> action \<Rightarrow> 'a db \<Rightarrow> offer" where
  "offered sc account act d = offer_of (Kind account) act (map f_method (factors_of sc (ID account) d))
     (failures_of sc (ID account) d) (codes_left sc (ID account) d)"

lemma offers_Inr [tx_simps]:
  "offers sc account ch d = Inr r \<longleftrightarrow> r = (offered sc account (Action ch) d, d)"
  by (auto simp: offers_def offered_def factorsOf_def secondFactorFailures_def recoveryCodes_def tx_simps)

lemma check_Inr:
  "check S sc v account ch ans now d = Inr r \<longleftrightarrow> (\<exists>ok d'. r = ((ok, offered sc account (Action ch) d), d') \<and>
    checkOffered S sc v account ch (offered sc account (Action ch) d) ans now d = Inr (ok, d'))"
  by (auto simp: check_def tx_simps)

lemma challenge_for_Inr:
  "challenge_for S sc token sid now d = Inr r \<longleftrightarrow> (\<exists>row account.
    find (challenge_live sc (hash_of S token) now) (challenges d) = Some row \<and>
    Session (challenge_of row) = sid \<and> find_account sc (ch_account row) d = Some account \<and>
    r = ((challenge_of row, account), d))"
  by (auto simp: challenge_for_def challengeForUpdate_def tx_simps challenge_of_def split: option.splits if_splits)

lemma recoveryUsed_same: "recoveryUsed S sc v account p d = Inr (u, d') \<Longrightarrow> same_tables d d'"
  by (auto simp: recoveryUsed_def recoveryCodes_def tx_simps intro: same_tables.R_trans
      dest!: same_tables_record)

lemma maybe_recoveryUsed:
  "(if b then recoveryUsed S sc v account p else ret ()) d = Inr (u, d') \<Longrightarrow> same_tables d d'"
  by (auto simp: tx_simps same_tables.R_refl dest: recoveryUsed_same split: if_splits)

text \<open>
  An answer, step by step: the live challenge and its account, the check, and then either
  the wrong answer counted and refused, or the challenge spent and what it opens.
\<close>

lemma answer_tx_checked:
  assumes "answer_tx S sc v token sid ans completed now d = Inr (out, d')"
  obtains row account ok d1 where
    "find (challenge_live sc (hash_of S token) now) (challenges d) = Some row"
    "Session (challenge_of row) = sid" "find_account sc (ch_account row) d = Some account"
    "checkOffered S sc v account (challenge_of row)
       (offered sc account (Action (challenge_of row)) d) ans now d = Inr (ok, d1)"
    "(if \<not> ok then
        after (challengeAttempt sc (hash_of S token) now) (\<lambda>attempts.
        after (refusalWith S sc v (ID account) ''identity.second_factor_failed''
                 [(''method'', method_name (an_method ans))]) (\<lambda>_.
        after (if secondFactor (offered sc account (Action (challenge_of row)) d) (an_method ans)
               then failed S sc v account now else ret ()) (\<lambda>_.
        ret (Wrong (locks (offered sc account (Action (challenge_of row)) d) (an_method ans))
               (attempts \<ge> ChallengeAttempts)))))
      else
        after (spendChallenge sc (hash_of S token) now) (\<lambda>_.
        after (if an_method ans = MethodRecovery
               then recoveryUsed S sc v account (purposeOf (challenge_of row)) else ret ()) (\<lambda>_.
        after (completed sc (challenge_of row) account now) (\<lambda>x.
        after (if secondFactor (offered sc account (Action (challenge_of row)) d) (an_method ans)
               then clearFailures sc (ID account) else ret ()) (\<lambda>_.
        ret (Right x)))))) d1 = Inr (out, d')"
  using assms unfolding answer_tx_def Let_def after_Inr [of "challenge_for S sc token sid now"]
    after_Inr [of "check S sc v a c ans now" for a c] challenge_for_Inr check_Inr
  by (clarsimp simp: after_Inr [of "check S sc v a c ans now" for a c] check_Inr)

lemma answer_tx_right:
  assumes "answer_tx S sc v token sid ans completed now d = Inr (Right x, d')"
  obtains row account d1 d2 d3 d4 where
    "find (challenge_live sc (hash_of S token) now) (challenges d) = Some row"
    "Session (challenge_of row) = sid" "find_account sc (ch_account row) d = Some account"
    "checkOffered S sc v account (challenge_of row)
       (offered sc account (Action (challenge_of row)) d) ans now d = Inr (True, d1)"
    "spendChallenge sc (hash_of S token) now d1 = Inr ((), d2)" "same_tables d2 d3"
    "completed sc (challenge_of row) account now d3 = Inr (x, d4)"
    "(if secondFactor (offered sc account (Action (challenge_of row)) d) (an_method ans)
      then clearFailures sc (ID account) else ret ()) d4 = Inr ((), d')"
  using assms
proof (rule answer_tx_checked)
  fix row account ok d1
  let ?o = "offered sc account (Action (challenge_of row)) d"
  assume base: "find (challenge_live sc (hash_of S token) now) (challenges d) = Some row"
    "Session (challenge_of row) = sid" "find_account sc (ch_account row) d = Some account"
    "checkOffered S sc v account (challenge_of row) ?o ans now d = Inr (ok, d1)"
    and rest: "(if \<not> ok then
        after (challengeAttempt sc (hash_of S token) now) (\<lambda>attempts.
        after (refusalWith S sc v (ID account) ''identity.second_factor_failed''
                 [(''method'', method_name (an_method ans))]) (\<lambda>_.
        after (if secondFactor ?o (an_method ans) then failed S sc v account now else ret ()) (\<lambda>_.
        ret (Wrong (locks ?o (an_method ans)) (attempts \<ge> ChallengeAttempts)))))
      else
        after (spendChallenge sc (hash_of S token) now) (\<lambda>_.
        after (if an_method ans = MethodRecovery
               then recoveryUsed S sc v account (purposeOf (challenge_of row)) else ret ()) (\<lambda>_.
        after (completed sc (challenge_of row) account now) (\<lambda>x.
        after (if secondFactor ?o (an_method ans) then clearFailures sc (ID account) else ret ()) (\<lambda>_.
        ret (Right x)))))) d1 = Inr (Right x, d')"
  have ok: ok using rest by (cases ok) (auto simp: after_Inr ret_Inr)
  then show ?thesis
    using rest that [OF base(1-3) base(4) [unfolded ok [THEN eqTrueI]]]
    by (clarsimp simp: after_Inr ret_Inr) (blast dest: maybe_recoveryUsed)
qed

lemma answer_tx_wrong:
  assumes "answer_tx S sc v token sid ans completed now d = Inr (Wrong locked spent, d')"
  obtains row account d1 n d2 d3 where
    "find (challenge_live sc (hash_of S token) now) (challenges d) = Some row"
    "Session (challenge_of row) = sid" "find_account sc (ch_account row) d = Some account"
    "checkOffered S sc v account (challenge_of row)
       (offered sc account (Action (challenge_of row)) d) ans now d = Inr (False, d1)"
    "challengeAttempt sc (hash_of S token) now d1 = Inr (n, d2)" "same_tables d2 d3"
    "(if secondFactor (offered sc account (Action (challenge_of row)) d) (an_method ans)
      then failed S sc v account now else ret ()) d3 = Inr ((), d')"
    "locked = locks (offered sc account (Action (challenge_of row)) d) (an_method ans)"
    "spent \<longleftrightarrow> n \<ge> ChallengeAttempts"
  using assms
proof (rule answer_tx_checked)
  fix row account ok d1
  let ?o = "offered sc account (Action (challenge_of row)) d"
  assume base: "find (challenge_live sc (hash_of S token) now) (challenges d) = Some row"
    "Session (challenge_of row) = sid" "find_account sc (ch_account row) d = Some account"
    "checkOffered S sc v account (challenge_of row) ?o ans now d = Inr (ok, d1)"
    and rest: "(if \<not> ok then
        after (challengeAttempt sc (hash_of S token) now) (\<lambda>attempts.
        after (refusalWith S sc v (ID account) ''identity.second_factor_failed''
                 [(''method'', method_name (an_method ans))]) (\<lambda>_.
        after (if secondFactor ?o (an_method ans) then failed S sc v account now else ret ()) (\<lambda>_.
        ret (Wrong (locks ?o (an_method ans)) (attempts \<ge> ChallengeAttempts)))))
      else
        after (spendChallenge sc (hash_of S token) now) (\<lambda>_.
        after (if an_method ans = MethodRecovery
               then recoveryUsed S sc v account (purposeOf (challenge_of row)) else ret ()) (\<lambda>_.
        after (completed sc (challenge_of row) account now) (\<lambda>x.
        after (if secondFactor ?o (an_method ans) then clearFailures sc (ID account) else ret ()) (\<lambda>_.
        ret (Right x)))))) d1 = Inr (Wrong locked spent, d')"
  have ok: "\<not> ok" using rest by (cases ok) (auto simp: after_Inr ret_Inr)
  then show ?thesis
    using rest that [OF base(1-3) base(4) [unfolded ok [THEN eq_False [THEN iffD2]]]]
    by (clarsimp simp: after_Inr ret_Inr) (blast dest: same_tables_record)
qed

subsection \<open>The challenge after an answer\<close>

lemma count_attempt_key [simp]:
  "ch_hash (count_attempt now c) = ch_hash c" "ch_scope (count_attempt now c) = ch_scope c"
  by (simp_all add: count_attempt_def)

lemma updated_all: "r \<in> set (update_where p h rows) \<Longrightarrow> \<forall>r. Q (h r) \<Longrightarrow> p r \<Longrightarrow> Q r"
  by (auto simp: update_where_def)

lemma spend_closes:
  assumes "spendChallenge sc h now d = Inr (u, d')"
  shows "closed_challenge sc h d'"
proof -
  have d': "challenges d' = update_where (\<lambda>c. ch_scope c = sc \<and> ch_hash c = h) (\<lambda>c. c\<lparr>ch_used := Some now\<rparr>) (challenges d)"
    using assms by (auto simp: spendChallenge_def tx_simps)
  show ?thesis
    unfolding closed_challenge_def d' by (intro ballI impI, erule updated_all [where Q = "\<lambda>c. ch_used c \<noteq> None"]) simp_all
qed

lemma closed_challenge_same: "challenges d' = challenges d \<Longrightarrow> closed_challenge sc h d \<Longrightarrow> closed_challenge sc h d'"
  by (simp add: closed_challenge_def)

lemma find_SomeD: "find P xs = Some x \<Longrightarrow> x \<in> set xs \<and> P x"
  by (induction xs) (auto split: if_splits)

lemma one_challenge:
  assumes "challenges_wf cs" and "find (challenge_live sc h now) cs = Some row"
    and "c \<in> set cs" and "ch_hash c = h"
  shows "c = row"
proof -
  have "row \<in> set cs" "ch_hash row = h" using assms(2) by (auto simp: find_Some_iff challenge_live_def)
  moreover have "inj_on ch_hash (set cs)" using assms(1) by (simp add: challenges_wf_def distinct_map)
  ultimately show ?thesis using assms(3,4) by (metis inj_onD)
qed

text \<open>A wrong answer is counted, and the fifth closes the challenge.\<close>

lemma attempt_effect:
  assumes "challenges_wf (challenges d)" and "find (challenge_live sc h now) (challenges d) = Some row"
    and "challengeAttempt sc h now d = Inr (n, d')"
  shows "n = Suc (ch_attempts row)" and "n \<ge> ChallengeAttempts \<Longrightarrow> closed_challenge sc h d'"
    and "d' = d\<lparr>challenges := update_where (\<lambda>c. ch_scope c = sc \<and> ch_hash c = h) (count_attempt now) (challenges d)\<rparr>"
proof -
  let ?p = "\<lambda>c. ch_scope c = sc \<and> ch_hash c = h"
  have d': "d' = d\<lparr>challenges := update_where ?p (count_attempt now) (challenges d)\<rparr>"
    and found: "map_option ch_attempts (find ?p (update_where ?p (count_attempt now) (challenges d))) = Some n"
    using assms(3) by (auto simp: challengeAttempt_def the_row_def tx_simps split: option.splits)
  then obtain c where "find ?p (update_where ?p (count_attempt now) (challenges d)) = Some c"
    and n_c: "n = ch_attempts c" by auto
  then have c: "c \<in> set (update_where ?p (count_attempt now) (challenges d))" "?p c"
    using find_SomeD by fastforce+
  have only: "c' = count_attempt now row"
    if "c' \<in> set (update_where ?p (count_attempt now) (challenges d))" "?p c'" for c'
    using in_update_whereD [OF that(1)] that(2) one_challenge [OF assms(1,2)] by (metis count_attempt_key)
  have n: "n = Suc (ch_attempts row)" using only [OF c] n_c by (simp add: count_attempt_def)
  then show "n = Suc (ch_attempts row)" .
  show "d' = d\<lparr>challenges := update_where ?p (count_attempt now) (challenges d)\<rparr>" by fact
  show "closed_challenge sc h d'" if "n \<ge> ChallengeAttempts"
    unfolding closed_challenge_def
  proof (intro ballI impI)
    fix c assume "c \<in> set (challenges d')" "?p c"
    then have "c = count_attempt now row" using only by (simp add: d')
    then show "ch_used c \<noteq> None" using that n by (simp add: count_attempt_def)
  qed
qed

lemma maybe_cleared: "(if b then clearFailures sc i else ret ()) d = Inr (u, d') \<Longrightarrow>
    d' = (if b then d\<lparr>failures := delete_where (\<lambda>r. fa_scope r = sc \<and> fa_account r = i) (failures d)\<rparr> else d)"
  by (auto simp: clearFailures_def tx_simps split: if_splits)

text \<open>A counted failure, and the notice at the tenth and the hundredth.\<close>

definition warning :: "visit \<Rightarrow> account \<Rightarrow> string \<Rightarrow> message" where
  "warning v account template = \<lparr>Template = template, msg_language = v_language v, To = Email account,
     From = v_name v, msg_marketplace = v_marketplace v,
     Variables = copy_into (go_map [(''Name'', Name account)]) []\<rparr>"

lemma countFailure_effect:
  assumes "countFailure sc m i now d = Inr (n, d')"
  shows "\<exists>fs. d' = d\<lparr>failures := fs\<rparr>" "n = failures_of sc i d'"
  using assms by (auto simp: countFailure_def tx_simps split: if_splits)

lemma notify_Inr: "notify v account template [] d = Inr r \<longleftrightarrow>
    r = ((), d\<lparr>outbox := outbox d @ [warning v account template]\<rparr>)"
  by (auto simp: notify_def Request_def tx_simps warning_def)

lemma refusalWith_Inr:
  "refusalWith S sc v i act detail d = Inr (u, d') \<Longrightarrow> \<exists>t. d' = d\<lparr>trail := t\<rparr>"
  by (auto simp: refusalWith_def tx_simps)

lemma tell_Inr:
  assumes "after (refusalWith S sc v i act detail) (\<lambda>_. notify v account template []) d = Inr (u, d')"
  shows "\<exists>t. d' = d\<lparr>trail := t, outbox := outbox d @ [warning v account template]\<rparr>"
  using assms unfolding after_Inr notify_Inr by (auto dest!: refusalWith_Inr)

definition warnings :: "visit \<Rightarrow> account \<Rightarrow> nat \<Rightarrow> message list" where
  "warnings v account n =
     (if n = FailuresNotified then [warning v account ''second-factor-failures'']
      else if n = FailuresLocked then [warning v account ''second-factor-locked''] else [])"

lemma failed_Inr:
  assumes "failed S sc v account now d = Inr (u, d')"
  shows "\<exists>n d1 t. countFailure sc (v_marketplace v) (ID account) now d = Inr (n, d1) \<and>
    d' = d1\<lparr>trail := t, outbox := outbox d1 @ warnings v account n\<rparr>"
proof -
  from assms obtain n d1 where count: "countFailure sc (v_marketplace v) (ID account) now d = Inr (n, d1)"
    and rest: "(if n = FailuresNotified
       then after (refusalWith S sc v (ID account) ''identity.second_factor_failures_notified'' [(''failures'', dec n)])
          (\<lambda>_. notify v account ''second-factor-failures'' [])
       else if n = FailuresLocked
       then after (refusalWith S sc v (ID account) ''identity.second_factor_locked'' [(''failures'', dec n)])
          (\<lambda>_. notify v account ''second-factor-locked'' [])
       else ret ()) d1 = Inr (u, d')"
    unfolding failed_def Let_def after_Inr [of "countFailure sc (v_marketplace v) (ID account) now"] by blast
  have "\<exists>t. d' = d1\<lparr>trail := t, outbox := outbox d1 @ warnings v account n\<rparr>"
  proof (cases "n = FailuresNotified \<or> n = FailuresLocked")
    case True
    then show ?thesis
      using rest by (auto simp: warnings_def dest!: tell_Inr split: if_splits)
  next
    case False
    then have "d' = d1" using rest by (simp add: ret_Inr)
    then show ?thesis using False by (cases d1) (auto simp: warnings_def)
  qed
  with count show ?thesis by blast
qed

lemma failed_challenges:
  assumes "(if b then failed S sc v account now else ret ()) d = Inr (u, d')"
  shows "challenges d' = challenges d \<and> sessions d' = sessions d \<and> factors d' = factors d"
proof (cases b)
  case True
  then obtain n d1 t where "countFailure sc (v_marketplace v) (ID account) now d = Inr (n, d1)"
    "d' = d1\<lparr>trail := t, outbox := outbox d1 @ warnings v account n\<rparr>"
    using assms failed_Inr by fastforce
  then show ?thesis using countFailure_effect(1) by fastforce
qed (use assms in \<open>simp add: ret_Inr\<close>)

text \<open>A right answer, or the fifth wrong one, closes the challenge.\<close>

lemma answer_closes:
  assumes run: "answer_tx S sc v token sid ans completed now d = Inr (out, d')" and d: "db_wf d"
    and rest: "\<And>ch account e x e'. completed sc ch account now e = Inr (x, e') \<Longrightarrow> challenges e' = challenges e"
    and over: "\<And>locked. out \<noteq> Wrong locked False"
  shows "closed_challenge sc (hash_of S token) d'"
proof (cases out)
  case (Right x)
  from answer_tx_right [OF run [unfolded Right]] obtain row account d1 d2 d3 d4 b where
    steps: "spendChallenge sc (hash_of S token) now d1 = Inr ((), d2)" "same_tables d2 d3"
      "completed sc (challenge_of row) account now d3 = Inr (x, d4)"
      "(if b then clearFailures sc (ID account) else ret ()) d4 = Inr ((), d')"
    by metis
  have "challenges d' = challenges d2"
    using maybe_cleared [OF steps(4)] rest [OF steps(3)] same_tables_fields(8) [OF steps(2)]
    by (auto split: if_splits)
  then show ?thesis by (rule closed_challenge_same) (rule spend_closes [OF steps(1)])
next
  case (Wrong locked spent)
  from answer_tx_wrong [OF run [unfolded Wrong]] obtain row account d1 n d2 d3 b o' where
    steps: "find (challenge_live sc (hash_of S token) now) (challenges d) = Some row"
      "checkOffered S sc v account (challenge_of row) o' ans now d = Inr (False, d1)"
      "challengeAttempt sc (hash_of S token) now d1 = Inr (n, d2)" "same_tables d2 d3"
      "(if b then failed S sc v account now else ret ()) d3 = Inr ((), d')"
      "spent \<longleftrightarrow> n \<ge> ChallengeAttempts"
    by metis
  have same: "challenges d1 = challenges d"
    using keepsD [OF same_gate_checkOffered steps(2)] by (simp add: same_gate_def)
  have "n \<ge> ChallengeAttempts" using over Wrong steps(6) by (cases spent) auto
  then have "closed_challenge sc (hash_of S token) d2"
    using attempt_effect(2) [of d1 sc _ now row n d2] d same steps(1,3)
    by (simp add: db_wf_def)
  then show ?thesis
    using closed_challenge_same failed_challenges [OF steps(5)] same_tables_fields(8) [OF steps(4)] by metis
qed

lemma opening_keeps_challenges:
  "open_session S v ans tok h sc ch account now d = Inr (x, d') \<Longrightarrow> challenges d' = challenges d"
  "step_up_done S v s ans sc ch account now d = Inr (u, d') \<Longrightarrow> challenges d' = challenges d"
  by (auto simp: open_session_def step_up_done_def insertSession_def sessionID_def the_row_def
      markSteppedUp_def markEmailConfirmed_def recoveryCodes_def recordWith_def hasEmailFactor_def
      factorsOf_def tx_simps split: if_splits option.splits)

end
