(* ===== verification/CodeFacts.thy ===== *)
theory CodeFacts
  imports ChallengeFacts
begin

text \<open>
  Codes: the step an accepted authenticator code leaves behind, the life of a code sent by
  e-mail, and the first run. The properties are in ChallengeProps.
\<close>

subsection \<open>Authenticator apps\<close>

text \<open>What an accepted code does to the app it was checked against.\<close>

definition app_moved :: "'a service \<Rightarrow> scope \<Rightarrow> string \<Rightarrow> time \<Rightarrow> factor_row \<Rightarrow> int \<Rightarrow> 'a db \<Rightarrow> 'a db \<Rightarrow> bool" where
  "app_moved S sc typed now f step d d' \<longleftrightarrow>
     (case f_last_step f of None \<Rightarrow> 0 | Some n \<Rightarrow> n) < step \<and> \<bar>step - totpStep now\<bar> \<le> totpDrift \<and>
     (\<exists>secret. totpCode (sv_hmac S) secret step = drop_spaces typed) \<and>
     factors d' = update_where (\<lambda>g. f_scope g = sc \<and> f_id g = f_id f)
       (\<lambda>g. g\<lparr>f_last_step := Some step, f_used := Some now\<rparr>) (factors d)"

lemma on_trail_only: "on_trail f d = Inr (x, d') \<Longrightarrow> factors d' = factors d \<and> codes d' = codes d"
  by (auto simp: tx_simps)

lemma app_moved_same: "factors e = factors d \<Longrightarrow> app_moved S sc typed now f step e d' \<Longrightarrow>
    app_moved S sc typed now f step d d'"
  by (simp add: app_moved_def)

lemma try_apps_True:
  assumes "try_apps S sl sc i typed now apps d = Inr (True, d')"
  shows "\<exists>f \<in> set apps. \<exists>step. app_moved S sc typed now f step d d'"
  using assms
proof (induction apps arbitrary: d)
  case Nil
  then show ?case by (simp add: ret_Inr)
next
  case (Cons app apps)
  then obtain secret d1 where opened:
      "on_trail (open_for sl i (case f_secret app of None \<Rightarrow> [] | Some b \<Rightarrow> b)) d = Inr (secret, d1)"
    and rest: "(case matchTOTP (sv_hmac S) secret typed now (case f_last_step app of None \<Rightarrow> 0 | Some n \<Rightarrow> n) of
       Some step \<Rightarrow> after (usedApp sc (f_id app) step now) (\<lambda>_. ret True)
     | None \<Rightarrow> try_apps S sl sc i typed now apps) d1 = Inr (True, d')"
    unfolding try_apps.simps by (auto simp: after_Inr)
  have same: "factors d1 = factors d" using on_trail_only [OF opened] by blast
  show ?case
  proof (cases "matchTOTP (sv_hmac S) secret typed now (case f_last_step app of None \<Rightarrow> 0 | Some n \<Rightarrow> n)")
    case None
    then have "\<exists>f \<in> set apps. \<exists>step. app_moved S sc typed now f step d1 d'" using rest Cons.IH by simp
    then show ?thesis by (auto intro: app_moved_same [OF same])
  next
    case (Some step)
    then have "app_moved S sc typed now app step d d'"
      using rest matchTOTP_sound [OF Some] same
      by (auto simp: app_moved_def usedApp_def tx_simps)
    then show ?thesis by auto
  qed
qed

lemma checkApp_True:
  assumes "checkApp S sc i typed now d = Inr (True, d')"
  shows "\<exists>f \<in> set (factors d). f_scope f = sc \<and> f_account f = i \<and> f_method f = MethodApp \<and>
    (\<exists>step. app_moved S sc typed now f step d d')"
proof -
  obtain sl where "try_apps S sl sc i typed now
      (by_age (filter (\<lambda>f. f_scope f = sc \<and> f_account f = i \<and> f_method f = MethodApp) (factors d))) d = Inr (True, d')"
    using assms by (auto simp: checkApp_def appsForUpdate_def tx_simps split: option.splits)
  from try_apps_True [OF this] show ?thesis by (auto simp: by_age_def)
qed

subsection \<open>A right answer was offered\<close>

lemma offered_method:
  assumes "m \<in> set (of_methods (offered sc account act d))"
  shows "Permits (Kind account) m Verify"
    "(\<exists>f \<in> set (factors d). f_scope f = sc \<and> f_account f = ID account \<and> f_method f = m) \<or>
      m = MethodEmail \<and> act \<notin> {no_action, ActionPassword, ActionFactors}"
    "m \<in> {MethodApp, MethodEmail} \<Longrightarrow> failures_of sc (ID account) d < FailuresLocked"
  using assms
  by (auto simp: offered_def offer_of_def Let_def Strongest_set factors_of_def by_age_def StepUpFor_def
      split: if_splits)

lemma checkOffered_True:
  assumes "checkOffered S sc v account ch (offered sc account act d) ans now d = Inr (True, d')"
  shows "(if an_method ans = MethodRecovery then codes_left sc (ID account) d > 0
     else Permits (Kind account) (an_method ans) Verify \<and>
       (if \<exists>f \<in> set (factors d). f_scope f = sc \<and> f_account f = ID account \<and> f_method f = an_method ans
        then True else an_method ans = MethodEmail \<and> act \<notin> {no_action, ActionPassword, ActionFactors})) \<and>
    (if an_method ans \<in> {MethodApp, MethodEmail} then failures_of sc (ID account) d < FailuresLocked else True)"
proof (cases "an_method ans = MethodRecovery")
  case True
  then have "of_recovery (offered sc account act d)"
    using assms by (auto simp: checkOffered_def ret_Inr split: if_splits)
  then show ?thesis using True by (simp add: offered_def offer_of_def Let_def)
next
  case False
  then have "an_method ans \<in> set (of_methods (offered sc account act d))"
    using assms by (auto simp: checkOffered_def ret_Inr split: if_splits)
  from offered_method [OF this] show ?thesis using False by auto
qed

subsection \<open>Codes by e-mail\<close>

lemma youngest_one: "youngest (filter P cs) = Some c" if "filter P cs = [c]"
  by (simp add: that youngest_def)

lemma youngest_none: "filter P cs = [] \<Longrightarrow> youngest (filter P cs) = None"
  by (simp add: youngest_def)

text \<open>What a mailed code leaves: the row it is checked against, and the message that carries it.\<close>

definition code_mail :: "visit \<Rightarrow> account \<Rightarrow> string \<Rightarrow> string \<Rightarrow> message" where
  "code_mail v account purpose text = \<lparr>Template = ''second-factor-code'', msg_language = v_language v,
     To = Email account, From = v_name v, msg_marketplace = v_marketplace v,
     Variables = go_map [(''Name'', Name account), (''Code'', text), (''Purpose'', purpose)]\<rparr>"

definition new_code :: "scope \<Rightarrow> uuid \<Rightarrow> string \<Rightarrow> bytes \<Rightarrow> time \<Rightarrow> code_row \<Rightarrow> bool" where
  "new_code sc i purpose h now c \<longleftrightarrow> ec_account c = i \<and> ec_scope c = sc \<and> ec_purpose c = purpose \<and>
     ec_hash c = h \<and> ec_expires c = now + EmailCodeLifetime \<and> ec_attempts c = 0 \<and> ec_used c = None \<and>
     ec_created c = now"

lemma sendCode_Inr:
  assumes "sendCode S sc v account purpose n now d = Inr (u, d')"
  obtains c where
    "codes_since sc (ID account) (now - emailCodeEvery) d = 0"
    "codes_since sc (ID account) (now - hour) d < emailCodesPerHour"
    "new_code sc (ID account) purpose (snd (newEmailCode (sv_sha256 S) n)) now c"
    "codes d' = update_where
       (\<lambda>c. ec_scope c = sc \<and> ec_account c = ID account \<and> ec_purpose c = purpose \<and> ec_used c = None)
       (\<lambda>c. c\<lparr>ec_used := Some now\<rparr>)
       (delete_where (\<lambda>c. ec_scope c = sc \<and> ec_account c = ID account \<and> ec_created c \<le> now - hour) (codes d)) @ [c]"
    "outbox d' = outbox d @ [code_mail v account purpose (fst (newEmailCode (sv_sha256 S) n))]"
proof -
  let ?h = "snd (newEmailCode (sv_sha256 S) n)"
  from assms obtain d1 where few: "codes_since sc (ID account) (now - emailCodeEvery) d = 0"
      "codes_since sc (ID account) (now - hour) d < emailCodesPerHour"
    and ins: "insertEmailCode (sv_new_id S) sc (v_marketplace v) (ID account) purpose ?h now d = Inr ((), d1)"
    and out: "d' = d1\<lparr>outbox := outbox d1 @ [code_mail v account purpose (fst (newEmailCode (sv_sha256 S) n))]\<rparr>"
    by (auto simp: sendCode_def lockAccount_def emailCodesSince_def Request_def code_mail_def tx_simps case_prod_beta
        not_le split: if_splits)
  from ins obtain c where c: "new_code sc (ID account) purpose ?h now c"
    and d1: "codes d1 = update_where
       (\<lambda>c. ec_scope c = sc \<and> ec_account c = ID account \<and> ec_purpose c = purpose \<and> ec_used c = None)
       (\<lambda>c. c\<lparr>ec_used := Some now\<rparr>)
       (delete_where (\<lambda>c. ec_scope c = sc \<and> ec_account c = ID account \<and> ec_created c \<le> now - hour) (codes d)) @ [c]"
      "outbox d1 = outbox d"
    by (fastforce simp: insertEmailCode_def new_code_def tx_simps split: if_splits)
  show ?thesis by (rule that [OF few c]) (simp_all add: out d1)
qed

text \<open>At most five codes an hour, and the one just sent is the only one of its minute.\<close>

lemma since_update:
  "length (filter (\<lambda>c. ec_scope c = sc \<and> ec_account c = i \<and> ec_created c > t)
     (update_where p (\<lambda>c. c\<lparr>ec_used := Some now\<rparr>) cs)) =
   length (filter (\<lambda>c. ec_scope c = sc \<and> ec_account c = i \<and> ec_created c > t) cs)"
  by (induction cs) (auto simp: update_where_def)

lemma since_delete:
  "length (filter q (delete_where p cs)) \<le> length (filter q cs)"
  by (induction cs) (auto simp: delete_where_def)

lemma sent_codes_rationed:
  assumes "sendCode S sc v account purpose n now d = Inr (u, d')"
  shows "codes_since sc (ID account) (now - emailCodeEvery) d' = 1"
    "codes_since sc (ID account) (now - hour) d' \<le> emailCodesPerHour"
proof -
  obtain c where few: "codes_since sc (ID account) (now - emailCodeEvery) d = 0"
      "codes_since sc (ID account) (now - hour) d < emailCodesPerHour"
    and c: "new_code sc (ID account) purpose (snd (newEmailCode (sv_sha256 S) n)) now c"
    and d': "codes d' = update_where
       (\<lambda>c. ec_scope c = sc \<and> ec_account c = ID account \<and> ec_purpose c = purpose \<and> ec_used c = None)
       (\<lambda>c. c\<lparr>ec_used := Some now\<rparr>)
       (delete_where (\<lambda>c. ec_scope c = sc \<and> ec_account c = ID account \<and> ec_created c \<le> now - hour) (codes d)) @ [c]"
    using assms by (rule sendCode_Inr)
  have count: "codes_since sc (ID account) t d' \<le> codes_since sc (ID account) t d + 1"
    "t < now \<Longrightarrow> codes_since sc (ID account) t d' \<ge> 1" for t
    using c since_delete [of "\<lambda>c. ec_scope c = sc \<and> ec_account c = ID account \<and> ec_created c > t"
        "\<lambda>c. ec_scope c = sc \<and> ec_account c = ID account \<and> ec_created c \<le> now - hour" "codes d"]
    by (auto simp: codes_since_def d' since_update new_code_def)
  show "codes_since sc (ID account) (now - hour) d' \<le> emailCodesPerHour"
    using count(1) [of "now - hour"] few(2) by simp
  have "now - emailCodeEvery < now" by (simp add: emailCodeEvery_def durations)
  then show "codes_since sc (ID account) (now - emailCodeEvery) d' = 1"
    using count [of "now - emailCodeEvery"] few(1) by simp
qed

text \<open>The code that was mailed is the live one, and using it leaves none.\<close>

lemma sent_code_is_live:
  assumes "sendCode S sc v account purpose n now d = Inr (u, d')" and "later < now + EmailCodeLifetime"
  obtains c where "filter (code_live sc (ID account) purpose later) (codes d') = [c]"
    "new_code sc (ID account) purpose (snd (newEmailCode (sv_sha256 S) n)) now c"
proof -
  obtain c where c: "new_code sc (ID account) purpose (snd (newEmailCode (sv_sha256 S) n)) now c"
    and d': "codes d' = update_where
       (\<lambda>c. ec_scope c = sc \<and> ec_account c = ID account \<and> ec_purpose c = purpose \<and> ec_used c = None)
       (\<lambda>c. c\<lparr>ec_used := Some now\<rparr>)
       (delete_where (\<lambda>c. ec_scope c = sc \<and> ec_account c = ID account \<and> ec_created c \<le> now - hour) (codes d)) @ [c]"
    using assms(1) by (rule sendCode_Inr)
  have spent: "filter (code_live sc (ID account) purpose later) (update_where
       (\<lambda>c. ec_scope c = sc \<and> ec_account c = ID account \<and> ec_purpose c = purpose \<and> ec_used c = None)
       (\<lambda>c. c\<lparr>ec_used := Some now\<rparr>) cs) = []" for cs
    by (induction cs) (auto simp: update_where_def code_live_def)
  have "code_live sc (ID account) purpose later c"
    using c assms(2) by (simp add: code_live_def new_code_def EmailCodeAttempts_def)
  then show ?thesis using that [of c] c spent by (simp add: d')
qed

lemma typed_hash: "drop_spaces typed = fst (newEmailCode sha n) \<Longrightarrow>
    emailCodeHash sha typed = Some (snd (newEmailCode sha n))"
proof -
  assume typed: "drop_spaces typed = fst (newEmailCode sha n)"
  have "fst (newEmailCode sha n) = padded 6 (n mod 1000000)"
    by (simp add: newEmailCode_def email_code_def zero_padded_def Let_def)
  then have "emailCodeHash sha typed = emailCodeHash sha (fst (newEmailCode sha n))"
    using typed by (simp add: emailCodeHash_def drop_spaces_digits padded_only_digits)
  then show ?thesis by (simp add: emailCodeHash_new)
qed

lemma used_code_spent:
  assumes "filter (code_live sc i purpose later) cs = [c]"
  shows "filter (code_live sc i purpose later) (update_where (\<lambda>r. ec_scope r = sc \<and> ec_id r = ec_id c)
    (\<lambda>r. r\<lparr>ec_used := Some later\<rparr>) cs) = []"
proof -
  let ?p = "\<lambda>r. ec_scope r = sc \<and> ec_id r = ec_id c"
  have only: "r = c" if "r \<in> set cs" "code_live sc i purpose later r" for r
  proof -
    have "r \<in> set (filter (code_live sc i purpose later) cs)" using that by simp
    then show ?thesis by (simp add: assms)
  qed
  have "c \<in> set (filter (code_live sc i purpose later) cs)" by (simp add: assms)
  then have scope: "ec_scope c = sc" by (simp add: code_live_def)
  have "\<not> code_live sc i purpose later q" if q: "q \<in> set (update_where ?p (\<lambda>r. r\<lparr>ec_used := Some later\<rparr>) cs)" for q
  proof -
    obtain r where r: "r \<in> set cs" "q = (if ?p r then r\<lparr>ec_used := Some later\<rparr> else r)"
      using q by (auto simp: update_where_def)
    show ?thesis
    proof (cases "?p r")
      case True
      then show ?thesis using r by (simp add: code_live_def)
    next
      case False
      then show ?thesis using r only [of r] scope by auto
    qed
  qed
  then show ?thesis by (simp add: filter_empty_conv)
qed

lemma live_code_accepted:
  assumes "filter (code_live sc i purpose later) (codes d) = [c]"
    and "emailCodeHash (sv_sha256 S) typed = Some (ec_hash c)"
  shows "\<exists>e. useEmailCode S sc i purpose typed later d = Inr (True, e) \<and>
    filter (code_live sc i purpose later) (codes e) = []"
  using assms
  by (auto simp: useEmailCode_def tx_run youngest_def spendCode_def emailFactorUsed_def used_code_spent)

text \<open>No live code for a purpose: nothing typed is right, and nothing changes.\<close>

lemma no_live_code:
  assumes "filter (code_live sc i purpose now) (codes d) = []" and "now \<le> later"
  shows "useEmailCode S sc i purpose typed later d = Inr (False, d)"
proof -
  have "filter (code_live sc i purpose later) (codes d) = []"
    using assms by (auto simp: filter_empty_conv code_live_def)
  then show ?thesis by (simp add: useEmailCode_def tx_run youngest_def)
qed

subsection \<open>The first run\<close>

text \<open>Once the owner is there, the first run stays closed.\<close>

definition setup_kept :: "'a db \<Rightarrow> 'a db \<Rightarrow> bool" where
  "setup_kept d d' \<longleftrightarrow> (\<exists>more. bootstraps d' = bootstraps d @ more) \<and>
     (\<exists>more. roles d' = roles d @ more) \<and> (\<exists>more. user_roles d' = user_roles d @ more)"

interpretation setup_kept: frame setup_kept
  by unfold_locales (auto simp: setup_kept_def)

lemma setup_kept_same: "(\<And>d x d'. f d = Inr (x, d') \<Longrightarrow> bootstraps d' = bootstraps d \<and> roles d' = roles d \<and>
    user_roles d' = user_roles d) \<Longrightarrow> keeps setup_kept f"
  by (rule keepsI) (auto simp: setup_kept_def)

lemma setup_kept_claim: "keeps setup_kept (claim S B v now sc i)"
  by (rule keepsI) (auto simp: claim_def tx_simps setup_kept_def split: if_splits)

interpretation setup_kept_steps: statements setup_kept S sc I T for S sc I T
proof unfold_locales
  show "keeps setup_kept (claim S B v now sc i)" for B v now i by (rule setup_kept_claim)
qed (rule setup_kept_same; auto simp: tx_simps statement_defs split: if_splits option.splits)+

lemma setup_kept_history: "(icommit S B X)\<^sup>*\<^sup>* d d' \<Longrightarrow> setup_kept d d'"
  by (erule icommit_history [OF setup_kept.frame_axioms, rotated])
    (rule istep_kept, assumption, rule setup_kept_steps.body_kept, assumption, auto)

lemma claim_Inr:
  assumes "claim S B v now sc i d = Inr (u, d')"
  shows "sc = None" "bootstraps d = []" "bootstraps d' \<noteq> []" "is_owner None i d'"
  using assms by (auto simp: claim_def tx_simps is_owner_def split: if_splits)

lemma owner_kept: "setup_kept d d' \<Longrightarrow> is_owner None i d \<Longrightarrow> is_owner None i d'"
  unfolding setup_kept_def is_owner_def list_ex_iff by (elim exE conjE) (simp, blast)

end
