(* ===== verification/ChallengeProps.thy ===== *)
theory ChallengeProps
  imports CodeFacts Samples
begin

text \<open>
  The properties of the second step, of codes and of the first run, each applied to a buyer
  whose second factor is the e-mail address and whose sign-in waits for the code.
\<close>

definition waiting_db :: "unit db" where
  "waiting_db = buyer_db\<lparr>
     factors := [\<lparr>f_id = ''f1'', f_account = ''u1'', f_scope = Some ''m1'', f_method = MethodEmail,
       f_label = [], f_secret = None, f_last_step = None, f_credential = None, f_public_key = None,
       f_sign_count = 0, f_flags = 0, f_created = 1, f_used = None\<rparr>],
     challenges := [\<lparr>ch_hash = bytes_of ''tok'', ch_account = ''u1'', ch_scope = Some ''m1'',
       ch_session = None, ch_action = None, ch_expires = 100, ch_attempts = 0, ch_used = None,
       ch_webauthn = None\<rparr>],
     codes := [\<lparr>ec_id = ''c1'', ec_account = ''u1'', ec_scope = Some ''m1'', ec_purpose = purposeSignIn,
       ec_hash = bytes_of ''004217'', ec_expires = 100, ec_attempts = 0, ec_used = None,
       ec_created = 1\<rparr>]\<rparr>"

definition typed_answer :: answer where
  "typed_answer = \<lparr>an_method = MethodEmail, an_code = ''004 217'', an_key = []\<rparr>"

definition answering :: "scope \<Rightarrow> (unit, signed_in outcome) idtx" where
  "answering sc = answer_tx light sc (sample_visit ''m1'') ''tok'' [] typed_answer
     (open_session light (sample_visit ''m1'') typed_answer ''new'' (bytes_of ''new'')) 50"

definition answered_db :: "unit db" where
  "answered_db = snd (within (sample_visit ''m1'') answering waiting_db)"

definition waiting_opened :: signed_in where
  "waiting_opened = \<lparr>si_session = ''new'', si_recovery = False, si_left = 0\<rparr>"

definition waiting_session :: session where
  "waiting_session = \<lparr>se_id = ''s1'', se_account = buyer, se_second = True, se_stepped = None,
     se_confirmed = None\<rparr>"

lemma waiting_wf: "db_wf waiting_db"
  by (simp add: db_wf_def waiting_db_def buyer_db_def empty_db_def buyer_row_def wf_tables refs_wf_def
      ChallengeAttempts_def EmailCodeAttempts_def factor_ok_def session_keys_def)

lemma waiting_answered: "within (sample_visit ''m1'') answering waiting_db = (Inr (Right waiting_opened), answered_db)"
proof -
  have "fst (within (sample_visit ''m1'') answering waiting_db) = Inr (Right waiting_opened)" by code_simp
  then show ?thesis by (simp add: answered_db_def prod_eq_iff)
qed

lemma waiting_answer:
  "answerChallenge light (sample_visit ''m1'') ''tok'' [] typed_answer
     (open_session light (sample_visit ''m1'') typed_answer ''new'' (bytes_of ''new'')) 50 waiting_db =
   (Inr waiting_opened, answered_db)"
  using waiting_answered by (simp add: answerChallenge_def answering_def [abs_def])

lemma waiting_hash: "hash_of light ''tok'' = bytes_of ''tok''"
  by (simp add: HashToken_def light_def)

subsection \<open>Challenges\<close>

text \<open>
  The transactions that end a challenge: an answer to it, to open a session or to step one
  up, that was right, or the wrong one that used up its attempts.
\<close>

fun settles :: "'x outcome \<Rightarrow> bool" where
  "settles (Right x) = True"
| "settles (Wrong locked exhausted) = exhausted"

definition ends_challenge :: "'a service \<Rightarrow> visit \<Rightarrow> string \<Rightarrow> 'a db \<Rightarrow> 'a db \<Rightarrow> bool" where
  "ends_challenge S v token d d' \<longleftrightarrow>
     (\<exists>ans session h now outcome. settles outcome \<and>
        within v (\<lambda>sc. answer_tx S sc v token [] ans (open_session S v ans session h) now) d = (Inr outcome, d')) \<or>
     (\<exists>ans s now outcome. settles outcome \<and>
        within v (\<lambda>sc. answer_tx S sc v token (se_id s) ans (step_up_done S v s ans) now) d = (Inr outcome, d'))"

lemma settles_over: "settles outcome \<Longrightarrow> outcome \<noteq> Wrong locked False"
  by auto

lemma ended_is_closed:
  assumes "ends_challenge S v token d d'" and "db_wf d"
  shows "visit_ok v" "closed_challenge (scope_of v) (hash_of S token) d'"
  using assms
  by (auto simp: ends_challenge_def within_Inr intro: answer_closes [OF _ _ opening_keeps_challenges(1) settles_over]
      answer_closes [OF _ _ opening_keeps_challenges(2) settles_over])

text \<open>
  C18. A challenge is answered once. After the right answer, in a sign-in or a step-up, or the
  fifth wrong one, it is refused in every later state by every flow that takes one: signing
  in, stepping up, showing what it accepts, sending a code, and the options of a key (unless
  the visit has no relying party, which is said first); whatever the answer, whatever anybody
  did in between, and nothing changes when it is tried.
\<close>

theorem answered_challenge_stays_closed:
  assumes "db_wf d" and "ends_challenge S v token d d'"
    and "(icommit S B {hash_of S token})\<^sup>*\<^sup>* d' e"
  shows "CompleteSignIn S v token ans' r later lst swept e = (Inl ErrChallengeInvalid, lst, e) \<and>
    StepUp S v s token ans' later e = (Inl ErrChallengeInvalid, e) \<and>
    Pending S v token sid later e = (Inl ErrChallengeInvalid, e) \<and>
    SendChallengeCode S v token sid n later e = (Inl ErrChallengeInvalid, e) \<and>
    KeyOptions S v token sid later e =
      (Inl (if relyingParty S v = None then ErrNoRelyingParty else ErrChallengeInvalid), e)"
proof -
  note ok = ended_is_closed(1) [OF assms(2,1)]
  have closed: "closed_challenge (scope_of v) (hash_of S token) e"
    using stays_closed_history [OF assms(3), of "scope_of v"] ended_is_closed(2) [OF assms(2,1)]
    by (simp add: stays_closed_def)
  have "answerChallenge S v token i a f later e = (Inl ErrChallengeInvalid, e)" for i a and f :: "scope \<Rightarrow> challenge \<Rightarrow> account \<Rightarrow> time \<Rightarrow> ('a, 'x) idtx"
    by (simp add: answerChallenge_def within_ok [OF ok] in_tx_def answer_tx_def Let_def after_def
        closed_challenge_refused [OF closed])
  then show ?thesis
    by (simp add: CompleteSignIn_def StepUp_def SendChallengeCode_def Pending_def KeyOptions_def case_prod_beta
        within_ok [OF ok] in_tx_def answerChallenge_def answer_tx_def challenge_code_tx_def pending_tx_def
        key_options_tx_def Let_def after_def closed_challenge_refused [OF closed] split: option.split)
qed

text \<open>The buyer's sign-in completes; and a session of the buyer steps up, with the same code.\<close>

definition stepping_db :: "unit db" where
  "stepping_db = waiting_db\<lparr>
     sessions := [\<lparr>s_id = ''s1'', s_account = ''u1'', s_scope = Some ''m1'', s_hash = bytes_of ''old'',
       s_created = 1, s_seen = 1, s_ip = [], s_agent = ''test'', s_revoked = None,
       s_stepped_up = None, s_email_confirmed = None\<rparr>],
     challenges := [\<lparr>ch_hash = bytes_of ''tok'', ch_account = ''u1'', ch_scope = Some ''m1'',
       ch_session = Some ''s1'', ch_action = Some ActionFactors, ch_expires = 100, ch_attempts = 0, ch_used = None,
       ch_webauthn = None\<rparr>],
     codes := [\<lparr>ec_id = ''c1'', ec_account = ''u1'', ec_scope = Some ''m1'', ec_purpose = purposeStepUp,
       ec_hash = bytes_of ''004217'', ec_expires = 100, ec_attempts = 0, ec_used = None,
       ec_created = 1\<rparr>]\<rparr>"

definition stepped_db :: "unit db" where
  "stepped_db = snd (StepUp light (sample_visit ''m1'') waiting_session ''tok'' typed_answer 50 stepping_db)"

lemma stepping_wf: "db_wf stepping_db"
  by (simp add: db_wf_def stepping_db_def waiting_db_def buyer_db_def empty_db_def buyer_row_def wf_tables refs_wf_def
      ChallengeAttempts_def EmailCodeAttempts_def factor_ok_def session_keys_def)

lemma stepping_ends: "ends_challenge light (sample_visit ''m1'') ''tok'' stepping_db stepped_db"
proof -
  let ?run = "within (sample_visit ''m1'') (\<lambda>sc. answer_tx light sc (sample_visit ''m1'') ''tok'' (se_id waiting_session)
    typed_answer (step_up_done light (sample_visit ''m1'') waiting_session typed_answer) 50) stepping_db"
  have "fst ?run = Inr (Right ())" by code_simp
  moreover have "snd ?run = stepped_db"
    by (simp add: stepped_db_def StepUp_def answerChallenge_def split: prod.splits sum.splits outcome.splits)
  ultimately have "settles (Right ()) \<and> ?run = (Inr (Right ()), stepped_db)" by (simp add: prod_eq_iff)
  then show ?thesis unfolding ends_challenge_def by blast
qed

theorem answered_challenge_stays_closed_witness:
  "CompleteSignIn light (sample_visit ''m1'') ''tok'' typed_answer (sample_draws 3) 60 0 60 stepped_db =
     (Inl ErrChallengeInvalid, 0, stepped_db) \<and>
   StepUp light (sample_visit ''m1'') waiting_session ''tok'' typed_answer 60 stepped_db = (Inl ErrChallengeInvalid, stepped_db) \<and>
   Pending light (sample_visit ''m1'') ''tok'' ''s1'' 60 stepped_db = (Inl ErrChallengeInvalid, stepped_db) \<and>
   SendChallengeCode light (sample_visit ''m1'') ''tok'' ''s1'' 7 60 stepped_db = (Inl ErrChallengeInvalid, stepped_db) \<and>
   KeyOptions light (sample_visit ''m1'') ''tok'' ''s1'' 60 stepped_db =
     (Inl (if relyingParty light (sample_visit ''m1'') = None then ErrNoRelyingParty else ErrChallengeInvalid), stepped_db)"
  by (rule answered_challenge_stays_closed [OF stepping_wf stepping_ends rtranclp.rtrancl_refl])

text \<open>
  C19. A right answer was one the challenge asked for: the challenge was live and of the
  session that answers (or of none), and the method was one the policy permits the account
  to answer with and the account has, or its address where the action lets the address
  stand in, or an unused recovery code was left. A code of an app or by e-mail is never
  right once a hundred failures in a row locked the account's codes.
\<close>

theorem right_answer_was_offered:
  assumes "answerChallenge S v token sid ans completed now d = (Inr x, d')"
  shows "\<exists>row account. row \<in> set (challenges d) \<and> challenge_live (scope_of v) (hash_of S token) now row \<and>
    Session (challenge_of row) = sid \<and> find_account (scope_of v) (ch_account row) d = Some account \<and>
    (if an_method ans = MethodRecovery then codes_left (scope_of v) (ID account) d > 0
     else Permits (Kind account) (an_method ans) Verify \<and>
       (if \<exists>f \<in> set (factors d). f_scope f = scope_of v \<and> f_account f = ID account \<and> f_method f = an_method ans
        then True else an_method ans = MethodEmail \<and>
          Action (challenge_of row) \<notin> {no_action, ActionPassword, ActionFactors})) \<and>
    (if an_method ans \<in> {MethodApp, MethodEmail}
     then failures_of (scope_of v) (ID account) d < FailuresLocked else True)"
proof -
  obtain "visit_ok v" and run: "answer_tx S (scope_of v) v token sid ans completed now d = Inr (Right x, d')"
    using assms by (auto simp: answerChallenge_def within_Inr split: prod.splits sum.splits outcome.splits)
  obtain row account d1 where
    live: "find (challenge_live (scope_of v) (hash_of S token) now) (challenges d) = Some row"
    and rest: "Session (challenge_of row) = sid" "find_account (scope_of v) (ch_account row) d = Some account"
    and checked: "checkOffered S (scope_of v) v account (challenge_of row)
       (offered (scope_of v) account (Action (challenge_of row)) d) ans now d = Inr (True, d1)"
    using run by (rule answer_tx_right)
  show ?thesis
    using find_SomeD [OF live] rest checkOffered_True [OF checked] by blast
qed


theorem right_answer_was_offered_witness:
  "\<exists>row account. row \<in> set (challenges waiting_db) \<and>
    challenge_live (scope_of (sample_visit ''m1'')) (hash_of light ''tok'') 50 row \<and>
    Session (challenge_of row) = [] \<and>
    find_account (scope_of (sample_visit ''m1'')) (ch_account row) waiting_db = Some account \<and>
    (if an_method typed_answer = MethodRecovery
     then codes_left (scope_of (sample_visit ''m1'')) (ID account) waiting_db > 0
     else Permits (Kind account) (an_method typed_answer) Verify \<and>
       (if \<exists>f \<in> set (factors waiting_db). f_scope f = scope_of (sample_visit ''m1'') \<and>
          f_account f = ID account \<and> f_method f = an_method typed_answer
        then True else an_method typed_answer = MethodEmail \<and>
          Action (challenge_of row) \<notin> {no_action, ActionPassword, ActionFactors})) \<and>
    (if an_method typed_answer \<in> {MethodApp, MethodEmail}
     then failures_of (scope_of (sample_visit ''m1'')) (ID account) waiting_db < FailuresLocked else True)"
  by (rule right_answer_was_offered [OF waiting_answer])

subsection \<open>Codes\<close>

text \<open>
  C20. An authenticator code that is accepted belongs to one app of the account, to a time
  step within the drift of the clock and after the last step the app was used with; and it
  leaves that step as the app's last, so neither it nor an older code of the app is
  accepted again. No other factor changes.
\<close>

theorem app_code_moves_the_app_forward:
  assumes "checkApp S sc i typed now d = Inr (True, d')" and "factors_wf (factors d)"
  shows "\<exists>f step secret. f \<in> set (factors d) \<and> f_scope f = sc \<and> f_account f = i \<and> f_method f = MethodApp \<and>
    (case f_last_step f of None \<Rightarrow> 0 | Some n \<Rightarrow> n) < step \<and> \<bar>step - totpStep now\<bar> \<le> totpDrift \<and>
    totpCode (sv_hmac S) secret step = drop_spaces typed \<and>
    f\<lparr>f_last_step := Some step, f_used := Some now\<rparr> \<in> set (factors d') \<and>
    filter (\<lambda>g. f_id g \<noteq> f_id f) (factors d') = filter (\<lambda>g. f_id g \<noteq> f_id f) (factors d) \<and>
    (\<forall>k later. matchTOTP (sv_hmac S) k typed later step \<noteq> Some step)"
proof -
  obtain f step where f: "f \<in> set (factors d)" "f_scope f = sc" "f_account f = i" "f_method f = MethodApp"
    and moved: "app_moved S sc typed now f step d d'"
    using checkApp_True [OF assms(1)] by blast
  then obtain secret where facts: "(case f_last_step f of None \<Rightarrow> 0 | Some n \<Rightarrow> n) < step"
      "\<bar>step - totpStep now\<bar> \<le> totpDrift" "totpCode (sv_hmac S) secret step = drop_spaces typed"
    and d': "factors d' = update_where (\<lambda>g. f_scope g = sc \<and> f_id g = f_id f)
       (\<lambda>g. g\<lparr>f_last_step := Some step, f_used := Some now\<rparr>) (factors d)"
    by (auto simp: app_moved_def)
  have "f\<lparr>f_last_step := Some step, f_used := Some now\<rparr> \<in> set (factors d')"
    using f by (auto simp: d' update_where_def)
  moreover have "filter (\<lambda>g. f_id g \<noteq> f_id f) (factors d') = filter (\<lambda>g. f_id g \<noteq> f_id f) (factors d)"
    unfolding d' by (rule filter_update_where) auto
  moreover have "\<forall>k later. matchTOTP (sv_hmac S) k typed later step \<noteq> Some step"
    using matchTOTP_sound(1) by blast
  ultimately show ?thesis using f facts by blast
qed

definition app_row :: factor_row where
  "app_row = \<lparr>f_id = ''f2'', f_account = ''u1'', f_scope = Some ''m1'', f_method = MethodApp,
     f_label = ''phone'', f_secret = Some [7], f_last_step = None, f_credential = None,
     f_public_key = None, f_sign_count = 0, f_flags = 0, f_created = 1, f_used = None\<rparr>"

definition app_db :: "unit db" where
  "app_db = buyer_db\<lparr>factors := [app_row]\<rparr>"

lemma app_code: "totpCode (sv_hmac light) [7] 1 = ''000001''"
proof -
  have hmac: "sv_hmac light = (\<lambda>k m. drop 4 m @ k @ replicate 16 0)" by (simp add: light_def)
  show ?thesis
  proof -
    have counter: "be64 1 = [0, 0, 0, 0, 0, 0, 0, 1]"
      by (simp add: be64_def eval_nat_numeral)
    have number: "be32 (drop 4 (be64 1)) = 1" by (simp add: counter be32_def)
    have "digit 0 = CHR ''0''" "digit 1 = CHR ''1''" by code_simp+
    then have shown: "zero_padded totpDigits 1 = ''000001''"
      by (simp add: totpDigits_def zero_padded_def padded_numeral)
    show ?thesis
      unfolding hmac totpCode_def hotp_def Let_def by (simp add: number shown [unfolded One_nat_def])
  qed
qed

lemma app_code_checked:
  "\<exists>d'. checkApp light (Some ''m1'') ''u1'' ''000 001'' (30 * second) app_db = Inr (True, d')"
proof -
  have steps: "totpStep (30 * second) = 1" by (simp add: totpStep_def totpPeriod_def durations)
  have match: "matchTOTP (sv_hmac light) [7] ''000 001'' (30 * second) 0 = Some 1"
    by (simp add: matchTOTP_def Let_def drop_spaces_def steps totpDigits_def only_of_def digits10_def
        totpDrift_def app_code upto.simps)
  have sealer: "sv_sealer light = Some \<lparr>seal_for = (\<lambda>p b t. Inr (b, t)), open_for = (\<lambda>p b t. Inr (b, t))\<rparr>"
    by (simp add: light_def)
  show ?thesis
    by (simp add: checkApp_def sealer appsForUpdate_def tx_run app_db_def app_row_def by_age_def
        on_trail_def tx_defs match usedApp_def)
qed

theorem app_code_moves_the_app_forward_witness:
  "\<exists>(d' :: unit db) f step secret. f \<in> set (factors app_db) \<and> f_scope f = Some ''m1'' \<and> f_account f = ''u1'' \<and>
    f_method f = MethodApp \<and> (case f_last_step f of None \<Rightarrow> 0 | Some n \<Rightarrow> n) < step \<and>
    \<bar>step - totpStep (30 * second)\<bar> \<le> totpDrift \<and>
    totpCode (sv_hmac light) secret step = drop_spaces ''000 001'' \<and>
    f\<lparr>f_last_step := Some step, f_used := Some (30 * second)\<rparr> \<in> set (factors d') \<and>
    filter (\<lambda>g. f_id g \<noteq> f_id f) (factors d') = filter (\<lambda>g. f_id g \<noteq> f_id f) (factors app_db) \<and>
    (\<forall>k later. matchTOTP (sv_hmac light) k ''000 001'' later step \<noteq> Some step)"
proof -
  have wf: "factors_wf (factors app_db)"
    by (simp add: app_db_def app_row_def factors_wf_def factor_ok_def)
  obtain d' where run: "checkApp light (Some ''m1'') ''u1'' ''000 001'' (30 * second) app_db = Inr (True, d')"
    using app_code_checked by blast
  show ?thesis by (rule exI [of _ d']) (rule app_code_moves_the_app_forward [OF run wf])
qed

text \<open>
  C21. The code that was mailed is the code that is accepted, with spaces or without, for its
  purpose and within ten minutes, and once: after it nothing typed is accepted until another
  is sent. Sending is rationed: one a minute and five an hour for an account.
\<close>

theorem mailed_code_is_accepted_once:
  assumes "sendCode S sc v account purpose n now d = Inr (u, d')"
    and "drop_spaces typed = fst (newEmailCode (sv_sha256 S) n)" and "later < now + EmailCodeLifetime"
  shows "outbox d' = outbox d @ [code_mail v account purpose (fst (newEmailCode (sv_sha256 S) n))] \<and>
    (\<exists>e. useEmailCode S sc (ID account) purpose typed later d' = Inr (True, e) \<and>
      (\<forall>again. \<forall>soon. useEmailCode S sc (ID account) purpose again (later + of_nat soon) e = Inr (False, e))) \<and>
    codes_since sc (ID account) (now - emailCodeEvery) d' = 1 \<and>
    codes_since sc (ID account) (now - hour) d' \<le> emailCodesPerHour"
proof (intro conjI)
  show "outbox d' = outbox d @ [code_mail v account purpose (fst (newEmailCode (sv_sha256 S) n))]"
    using assms(1) by (rule sendCode_Inr)
  show "codes_since sc (ID account) (now - emailCodeEvery) d' = 1"
    "codes_since sc (ID account) (now - hour) d' \<le> emailCodesPerHour"
    by (rule sent_codes_rationed [OF assms(1)])+
  obtain c where c: "filter (code_live sc (ID account) purpose later) (codes d') = [c]"
      "new_code sc (ID account) purpose (snd (newEmailCode (sv_sha256 S) n)) now c"
    using assms(1,3) by (rule sent_code_is_live)
  then have "emailCodeHash (sv_sha256 S) typed = Some (ec_hash c)"
    using typed_hash [OF assms(2)] by (simp add: new_code_def)
  then show "\<exists>e. useEmailCode S sc (ID account) purpose typed later d' = Inr (True, e) \<and>
      (\<forall>again. \<forall>soon. useEmailCode S sc (ID account) purpose again (later + of_nat soon) e = Inr (False, e))"
    using live_code_accepted [OF c(1)] no_live_code by (metis le_add_same_cancel1 of_nat_0_le_iff)
qed

definition mailed_db :: "unit db" where
  "mailed_db = (case sendCode light (Some ''m1'') (sample_visit ''m1'') buyer purposeSignIn 4217 9000 buyer_db of
     Inl e \<Rightarrow> buyer_db | Inr (u, d) \<Rightarrow> d)"

lemma mailed_text: "newEmailCode (sv_sha256 light) 4217 = (''004217'', bytes_of ''004217'')"
proof -
  have "digit 0 = CHR ''0''" "digit 1 = CHR ''1''" "digit 2 = CHR ''2''" "digit 4 = CHR ''4''"
    "digit 7 = CHR ''7''" by code_simp+
  then have "email_code 4217 = ''004217''" by (simp add: email_code_def zero_padded_def padded_numeral)
  moreover have "emailCodeHash (\<lambda>b. b) ''004217'' = Some (bytes_of ''004217'')" by code_simp
  ultimately show ?thesis by (simp add: newEmailCode_def light_def Let_def)
qed

lemma buyer_mailed:
  "sendCode light (Some ''m1'') (sample_visit ''m1'') buyer purposeSignIn 4217 9000 buyer_db = Inr ((), mailed_db)"
proof -
  have new: "sv_new_id light = (\<lambda>n. ''id'' @ replicate n CHR ''x'')" by (simp add: light_def)
  have "\<exists>d. sendCode light (Some ''m1'') (sample_visit ''m1'') buyer purposeSignIn 4217 9000 buyer_db = Inr ((), d)"
    unfolding sendCode_def mailed_text new
    by (simp add: tx_run lockAccount_def emailCodesSince_def codes_since_def insertEmailCode_def Request_def
        fresh_id_def buyer_db_def empty_db_def emailCodesPerHour_def nullif_def sample_visit_def
        account_exists_def buyer_row_def buyer_found delete_where_def update_where_def case_prod_beta tx_defs)
  then show ?thesis by (auto simp: mailed_db_def)
qed

theorem mailed_code_is_accepted_once_witness:
  "outbox mailed_db = outbox buyer_db @
     [code_mail (sample_visit ''m1'') buyer purposeSignIn (fst (newEmailCode (sv_sha256 light) 4217))] \<and>
   (\<exists>e. useEmailCode light (Some ''m1'') (ID buyer) purposeSignIn ''004 217'' 9001 mailed_db = Inr (True, e) \<and>
      (\<forall>again. \<forall>soon. useEmailCode light (Some ''m1'') (ID buyer) purposeSignIn again (9001 + of_nat soon) e =
         Inr (False, e))) \<and>
   codes_since (Some ''m1'') (ID buyer) (9000 - emailCodeEvery) mailed_db = 1 \<and>
   codes_since (Some ''m1'') (ID buyer) (9000 - hour) mailed_db \<le> emailCodesPerHour"
proof (rule mailed_code_is_accepted_once [OF buyer_mailed])
  show "drop_spaces ''004 217'' = fst (newEmailCode (sv_sha256 light) 4217)"
    by (simp add: mailed_text drop_spaces_def)
  show "9001 < 9000 + EmailCodeLifetime" by (simp add: EmailCodeLifetime_def durations)
qed


subsection \<open>The first run\<close>

text \<open>
  Once a first run is on record, the roles and who has them never change: the only statement
  that writes them is the claim, which finds the record and fails.
\<close>

definition owner_fixed :: "'a db \<Rightarrow> 'a db \<Rightarrow> bool" where
  "owner_fixed d d' \<longleftrightarrow> (bootstraps d \<noteq> [] \<longrightarrow>
     bootstraps d' = bootstraps d \<and> roles d' = roles d \<and> user_roles d' = user_roles d)"

interpretation owner_fixed: frame owner_fixed
  by unfold_locales (auto simp: owner_fixed_def)

lemma owner_fixed_same: "(\<And>d x d'. f d = Inr (x, d') \<Longrightarrow> bootstraps d' = bootstraps d \<and> roles d' = roles d \<and>
    user_roles d' = user_roles d) \<Longrightarrow> keeps owner_fixed f"
  by (rule keepsI) (auto simp: owner_fixed_def)

lemma owner_fixed_claim: "keeps owner_fixed (claim S B v now sc i)"
  by (rule keepsI) (auto simp: claim_def tx_simps owner_fixed_def split: if_splits)

interpretation owner_fixed_steps: statements owner_fixed S sc I T for S sc I T
proof unfold_locales
  show "keeps owner_fixed (claim S B v now sc i)" for B v now i by (rule owner_fixed_claim)
qed (rule owner_fixed_same; auto simp: tx_simps statement_defs split: if_splits option.splits)+

lemma owner_fixed_history: "(icommit S B X)\<^sup>*\<^sup>* d d' \<Longrightarrow> owner_fixed d d'"
  by (erule icommit_history [OF owner_fixed.frame_axioms, rotated])
    (rule istep_kept, assumption, rule owner_fixed_steps.body_kept, assumption, auto)

text \<open>Every assignment of a role is of a role there is: \<^verbatim>\<open>user_role\<close>'s foreign key.\<close>

definition roles_referenced :: "'a db \<Rightarrow> bool" where
  "roles_referenced d \<longleftrightarrow> (\<forall>u \<in> set (user_roles d). ur_role u \<in> ro_id ` set (roles d))"

text \<open>What the claim leaves: one record of the first run and one owner.\<close>

lemma claim_owner:
  assumes "claim S B v now sc i d = Inr (u, d')"
  shows "bootstraps d' = [\<lparr>bo_hash = fr_hash B, bo_used = now, bo_owner = i\<rparr>]" "accounts d' = accounts d"
    and "roles_referenced d \<Longrightarrow> is_owner None j d' \<longleftrightarrow> j = i"
  using assms
  by (auto simp: claim_def tx_simps is_owner_def roles_referenced_def list_ex_iff image_iff split: if_splits) metis

lemma written_around:
  "setPassword sc m i secret d = Inr (u, d') \<Longrightarrow> accounts d' = accounts d \<and> roles d' = roles d \<and> user_roles d' = user_roles d"
  "record_own S sc v i act d = Inr (u, d') \<Longrightarrow> accounts d' = accounts d"
  "insertSession new sc m i h ip agent now d = Inr (u, d') \<Longrightarrow> accounts d' = accounts d"
  by (auto simp: setPassword_def record_own_def recordWith_def insertSession_def tx_simps split: if_splits)

lemma insertStaff_Inr:
  assumes "insertStaff new sc email n name at d = Inr (Some i, d')"
  shows "roles d' = roles d \<and> user_roles d' = user_roles d \<and> account_id_free i d \<and>
    accounts d' = accounts d @ [\<lparr>a_id = i, a_scope = None, a_kind = KindStaff, a_email = email, a_normalised = n,
      a_name = name, a_verified = Some at\<rparr>]"
  using assms by (auto simp: insertStaff_def put_account_def account_id_free_def tx_simps split: if_splits)

lemma staff_tx_claims:
  assumes "staff_tx S sc v name email n secret h (Some (claim S B v now)) at d = Inr (u, d')"
  obtains i where "account_id_free i d" "bootstraps d' = [\<lparr>bo_hash = fr_hash B, bo_used = now, bo_owner = i\<rparr>]"
    "accounts d' = accounts d @ [\<lparr>a_id = i, a_scope = None, a_kind = KindStaff, a_email = trim_space email,
      a_normalised = n, a_name = name, a_verified = Some at\<rparr>]"
    "\<And>j. roles_referenced d \<Longrightarrow> is_owner None j d' \<longleftrightarrow> j = i"
proof -
  obtain i d1 d2 d3 d4 d5 where ins: "insertStaff (sv_new_id S) sc (trim_space email) n name at d = Inr (Some i, d1)"
    and set: "setPassword sc [] i secret d1 = Inr ((), d2)" and claimed: "claim S B v now sc i d2 = Inr ((), d3)"
    and rest: "record_own S sc v i ''identity.staff_created'' d3 = Inr ((), d4)"
      "insertSession (sv_new_id S) sc [] i h (v_ip v) (v_agent v) at d4 = Inr ((), d5)"
      "record_own S sc v i ''identity.signin'' d5 = Inr (u, d')"
    using assms by (auto simp: staff_tx_def after_Inr fail_Inr split: option.splits)
  have "keeps owner_fixed (after (record_own S sc v i ''identity.staff_created'') (\<lambda>_.
        after (insertSession (sv_new_id S) sc [] i h (v_ip v) (v_agent v) at) (\<lambda>_.
        record_own S sc v i ''identity.signin'')))"
    by (intro owner_fixed.keeps_rules owner_fixed_steps.trail_kept owner_fixed_steps.st_insertSession [OF UNIV_I])
  then have kept: "owner_fixed d3 d'" using rest keepsD by (fastforce simp: after_Inr)
  have before: "roles_referenced d2" if "roles_referenced d"
    using that insertStaff_Inr [OF ins] written_around(1) [OF set] by (simp add: roles_referenced_def)
  show ?thesis
  proof (rule that)
    show "account_id_free i d" using insertStaff_Inr [OF ins] by blast
    show "bootstraps d' = [\<lparr>bo_hash = fr_hash B, bo_used = now, bo_owner = i\<rparr>]"
      using kept claim_owner(1) [OF claimed] by (simp add: owner_fixed_def)
    show "accounts d' = accounts d @ [\<lparr>a_id = i, a_scope = None, a_kind = KindStaff, a_email = trim_space email,
        a_normalised = n, a_name = name, a_verified = Some at\<rparr>]"
      using insertStaff_Inr [OF ins] written_around(1) [OF set] claim_owner(2) [OF claimed]
        written_around(2) [OF rest(1)] written_around(3) [OF rest(2)] written_around(2) [OF rest(3)] by simp
    show "is_owner None j d' \<longleftrightarrow> j = i" if "roles_referenced d" for j
      using claim_owner(3) [OF claimed before [OF that]] kept claim_owner(1) [OF claimed]
      by (simp add: owner_fixed_def is_owner_def)
  qed
qed

lemma CreateStaff_Inr:
  assumes "CreateStaff S v name email password hook r now d = (Inr session, d')"
  shows "\<exists>name' n secret h. visit_ok v \<and> v_platform v \<and>
    staff_tx S (scope_of v) v name' email n secret h hook now d = Inr ((), d')"
  using assms
  by (auto simp: CreateStaff_def Let_def within_Inr split: if_splits sum.splits prod.splits)


text \<open>
  C22. The first run happens once. Who completed it named the token the operator set, and there
  was no owner before. The account it created, which did not exist until then, is the owner on
  its record, and stays the one owner: in every later state that account is allowed everything
  and no other account anything, the record is as it was written, the setup is closed, and
  whoever tries it, with whatever token, changes nothing.
\<close>

theorem first_run_happens_once:
  assumes "Setup S B v token name email password r other now d = (Inr session, d')"
    and "roles_referenced (other d)" and "(icommit S' B' X)\<^sup>*\<^sup>* d' e"
  shows "fr_set B \<and> sv_sha256 S (bytes_of token) = fr_hash B \<and> \<not> owner_exists None d \<and>
    (\<exists>owner row. accounts d' = accounts (other d) @ [row] \<and> a_id row = owner \<and> a_kind row = KindStaff \<and>
       \<not> account_exists owner (other d) \<and>
       bootstraps d' = [\<lparr>bo_hash = fr_hash B, bo_used = now, bo_owner = owner\<rparr>] \<and> bootstraps e = bootstraps d' \<and>
       (\<forall>account permission marketplace. Allows account permission marketplace e = (Inr (account = owner), e))) \<and>
    (\<forall>v' token' name' email' password' r' other' later.
      Setup S' B' v' token' name' email' password' r' other' later e = (Inl ErrSetupClosed, e))"
proof -
  have begun: "fr_set B" "sv_sha256 S (bytes_of token) = fr_hash B" "\<not> owner_exists None d"
    and staff: "CreateStaff S v name email password (Some (claim S B v now)) r now (other d) = (Inr session, d')"
    using assms(1)
    by (auto simp: Setup_def setup_open_def in_tx_def reads_def split: if_splits sum.splits prod.splits)
  obtain name' n secret h where tx: "staff_tx S (scope_of v) v name' email n secret h
      (Some (claim S B v now)) now (other d) = Inr ((), d')"
    using CreateStaff_Inr [OF staff] by blast
  obtain i where free: "account_id_free i (other d)"
    and i: "accounts d' = accounts (other d) @ [\<lparr>a_id = i, a_scope = None, a_kind = KindStaff,
        a_email = trim_space email, a_normalised = n, a_name = name', a_verified = Some now\<rparr>]"
      "bootstraps d' = [\<lparr>bo_hash = fr_hash B, bo_used = now, bo_owner = i\<rparr>]"
    and only: "\<And>j. is_owner None j d' \<longleftrightarrow> j = i"
    by (rule staff_tx_claims [OF tx]) (use assms(2) in blast)
  have "\<not> account_exists i (other d)" using free by (simp add: account_id_free_def account_exists_def)
  then have there: "\<exists>owner row. accounts d' = accounts (other d) @ [row] \<and> a_id row = owner \<and> a_kind row = KindStaff \<and>
      \<not> account_exists owner (other d) \<and> bootstraps d' = [\<lparr>bo_hash = fr_hash B, bo_used = now, bo_owner = owner\<rparr>] \<and> owner = i"
    using i by simp
  have kept: "owner_fixed d' e" by (rule owner_fixed_history [OF assms(3)])
  then have e: "is_owner None j e \<longleftrightarrow> j = i" "bootstraps e = bootstraps d'" for j
    using i(2) only [of j] by (auto simp: owner_fixed_def is_owner_def)
  then have "Allows j permission marketplace e = (Inr (j = i), e)" for j permission marketplace
    by (simp add: Allows_def in_tx_def reads_def)
  moreover have "owner_exists None e" using e(2) i(2) by (simp add: owner_exists_def)
  then have "Setup S' B' v' token' name' email' password' r' other' later e = (Inl ErrSetupClosed, e)"
    for v' token' name' email' password' r' other' later
    by (auto simp: Setup_def setup_open_def in_tx_def reads_def)
  ultimately show ?thesis using begun there e(2) by blast
qed


definition owned_db :: "unit db" where
  "owned_db = snd (Setup light (NewBootstrap (\<lambda>b. b) ''owner'') (sample_visit []) ''owner'' ''Ana'' ''a@b''
     ''correct horse'' (sample_draws 4) (\<lambda>d. d) 5 (empty_db ()))"

lemma sample_setup:
  "\<exists>session. Setup light (NewBootstrap (\<lambda>b. b) ''owner'') (sample_visit []) ''owner'' ''Ana'' ''a@b''
     ''correct horse'' (sample_draws 4) (\<lambda>d. d) 5 (empty_db ()) = (Inr session, owned_db)"
proof -
  have "\<not> isl (fst (Setup light (NewBootstrap (\<lambda>b. b) ''owner'') (sample_visit []) ''owner'' ''Ana'' ''a@b''
     ''correct horse'' (sample_draws 4) (\<lambda>d. d) 5 (empty_db ())))" by code_simp
  then show ?thesis
    by (cases "fst (Setup light (NewBootstrap (\<lambda>b. b) ''owner'') (sample_visit []) ''owner'' ''Ana'' ''a@b''
     ''correct horse'' (sample_draws 4) (\<lambda>d. d) 5 (empty_db ()))") (auto simp: owned_db_def prod_eq_iff)
qed

theorem first_run_happens_once_witness:
  "fr_set (NewBootstrap (\<lambda>b. b) ''owner'') \<and>
   sv_sha256 light (bytes_of ''owner'') = fr_hash (NewBootstrap (\<lambda>b. b) ''owner'') \<and>
   \<not> owner_exists None (empty_db ()) \<and>
   (\<exists>owner row. accounts owned_db = accounts (empty_db ()) @ [row] \<and> a_id row = owner \<and> a_kind row = KindStaff \<and>
      \<not> account_exists owner (empty_db ()) \<and>
      bootstraps owned_db = [\<lparr>bo_hash = fr_hash (NewBootstrap (\<lambda>b. b) ''owner''), bo_used = 5, bo_owner = owner\<rparr>] \<and>
      bootstraps owned_db = bootstraps owned_db \<and>
      (\<forall>account permission marketplace. Allows account permission marketplace owned_db =
         (Inr (account = owner), owned_db))) \<and>
   (\<forall>v' token' name' email' password' r' other' later.
      Setup light (NewBootstrap (\<lambda>b. b) ''owner'') v' token' name' email' password' r' other' later owned_db =
        (Inl ErrSetupClosed, owned_db))"
proof -
  obtain session where run: "Setup light (NewBootstrap (\<lambda>b. b) ''owner'') (sample_visit []) ''owner'' ''Ana'' ''a@b''
     ''correct horse'' (sample_draws 4) (\<lambda>d. d) 5 (empty_db ()) = (Inr session, owned_db)"
    using sample_setup by blast
  have "roles_referenced (empty_db ())" by (simp add: roles_referenced_def empty_db_def)
  then show ?thesis
    by (rule first_run_happens_once [OF run _ rtranclp.rtrancl_refl])
qed

end
