(* ===== verification/Outbox.thy ===== *)
theory Outbox
  imports IdStore
begin

text \<open>
  The outbox: src/internal/platform/outbox (outbox.go, dispatcher.go, consumer.go) over the
  tables and functions of migrations 00006 and 00010.

  A platform is the two tables and \<open>p_world\<close>, whatever the queue and the consumers act on. A
  dispatcher runs outside a transaction: each of its statements commits on its own, so a
  dispatch is a sequence of steps and other dispatchers may run between them. What may go
  wrong with the connection is an argument: \<open>marked\<close> says for which events the statement that
  marks them reaches the database, a \<open>fate\<close> how a consumer's transaction ends.
\<close>

subsection \<open>Events\<close>

datatype queue = Webhooks | Notifications | Jobs | OtherQueue string

text \<open>A payload is a JSON object: its keys with strings, or objects of strings, as values.\<close>

datatype json = JString string | JObject "(string \<times> string) list"

type_synonym payload = "(string \<times> json) list"

record event =
  ev_id :: uuid
  ev_marketplace :: string
  ev_kind :: string
  ev_queue :: queue
  ev_payload :: payload
  ev_attempts :: nat

datatype event_state = Pending | Dispatched | Parked

record event_row =
  oe_id :: uuid
  oe_scope :: scope
  oe_kind :: string
  oe_queue :: queue
  oe_payload :: payload
  oe_state :: event_state
  oe_attempts :: nat
  oe_error :: "string option"
  oe_created :: time
  oe_dispatched :: "time option"

record 'w platform =
  p_events :: "event_row list"
  p_deliveries :: "(uuid \<times> string) list"
  p_world :: 'w

datatype out_error = CannotWrite string | CannotRead | UnknownKind string
  | NotHandled string string | CannotBegin | CannotClaim | CannotCommit

text \<open>
  \<^verbatim>\<open>Write\<close>, in the transaction that caused the event. The row's key is drawn by the
  database; its queue is one of the three, and row-level security wants the event's
  marketplace to be the transaction's.
\<close>

definition Write :: "scope \<Rightarrow> uuid \<Rightarrow> time \<Rightarrow> event \<Rightarrow> ('w platform, out_error, unit) tx" where
  "Write sc i now event = checked (CannotWrite (ev_kind event))
     (\<lambda>p. i \<notin> oe_id ` set (p_events p) \<and> ev_queue event \<in> {Webhooks, Notifications, Jobs} \<and>
          nullif (ev_marketplace event) = sc)
     (\<lambda>p. p\<lparr>p_events := p_events p @ [\<lparr>oe_id = i, oe_scope = nullif (ev_marketplace event),
        oe_kind = ev_kind event, oe_queue = ev_queue event, oe_payload = ev_payload event,
        oe_state = Pending, oe_attempts = 0, oe_error = None, oe_created = now,
        oe_dispatched = None\<rparr>]\<rparr>)"

subsection \<open>The functions of the schema\<close>

definition KindSend :: string where "KindSend = ''email.send''"

text \<open>\<^verbatim>\<open>payload - 'Variables'\<close>, for a message that nothing reads from the table again.\<close>

definition strip_variables :: "payload \<Rightarrow> payload" where
  "strip_variables payload = filter (\<lambda>(k, x). k \<noteq> ''Variables'') payload"

definition redacted :: "string \<Rightarrow> payload \<Rightarrow> payload" where
  "redacted kind payload = (if kind = KindSend then strip_variables payload else payload)"

definition outbox_pending :: "nat \<Rightarrow> event_row list \<Rightarrow> event_row list" where
  "outbox_pending n rows = take n (sort_key oe_created (filter (\<lambda>r. oe_state r = Pending) rows))"

definition outbox_dispatched :: "uuid \<Rightarrow> time \<Rightarrow> event_row list \<Rightarrow> event_row list" where
  "outbox_dispatched i now = update_where (\<lambda>r. oe_id r = i)
     (\<lambda>r. r\<lparr>oe_state := Dispatched, oe_dispatched := Some now, oe_attempts := oe_attempts r + 1,
            oe_payload := redacted (oe_kind r) (oe_payload r)\<rparr>)"

definition attemptsAllowed :: nat where "attemptsAllowed = 5"

definition outbox_failed :: "uuid \<Rightarrow> string \<Rightarrow> nat \<Rightarrow> event_row list \<Rightarrow> event_row list" where
  "outbox_failed i reason allowed = update_where (\<lambda>r. oe_id r = i)
     (\<lambda>r. r\<lparr>oe_attempts := oe_attempts r + 1, oe_error := Some reason,
            oe_state := (if oe_attempts r + 1 \<ge> allowed then Parked else Pending),
            oe_payload := (if oe_attempts r + 1 \<ge> allowed then redacted (oe_kind r) (oe_payload r)
                           else oe_payload r)\<rparr>)"

subsection \<open>The dispatcher\<close>

definition event_of :: "event_row \<Rightarrow> event" where
  "event_of r = \<lparr>ev_id = oe_id r, ev_marketplace = coalesce (oe_scope r), ev_kind = oe_kind r,
     ev_queue = oe_queue r, ev_payload = oe_payload r, ev_attempts = oe_attempts r\<rparr>"

text \<open>A \<^verbatim>\<open>Queuer\<close>: hands an event over, or says why it could not.\<close>

type_synonym 'w queuer = "event \<Rightarrow> 'w platform \<Rightarrow> string option \<times> 'w platform"

definition failed_event :: "(uuid \<Rightarrow> bool) \<Rightarrow> event \<Rightarrow> string \<Rightarrow> 'w platform \<Rightarrow> 'w platform" where
  "failed_event marked event cause p =
     (if marked (ev_id event)
      then p\<lparr>p_events := outbox_failed (ev_id event) cause attemptsAllowed (p_events p)\<rparr> else p)"

fun dispatch_each :: "'w queuer \<Rightarrow> (uuid \<Rightarrow> bool) \<Rightarrow> time \<Rightarrow> event list \<Rightarrow> nat \<Rightarrow> 'w platform \<Rightarrow>
    nat \<times> 'w platform" where
  "dispatch_each q marked now [] dispatched p = (dispatched, p)"
| "dispatch_each q marked now (event # events) dispatched p =
     (case q event p of
        (Some cause, p') \<Rightarrow>
          dispatch_each q marked now events dispatched (failed_event marked event cause p')
      | (None, p') \<Rightarrow>
          if \<not> marked (ev_id event) then dispatch_each q marked now events dispatched p'
          else dispatch_each q marked now events (dispatched + 1)
                 (p'\<lparr>p_events := outbox_dispatched (ev_id event) now (p_events p')\<rparr>))"

definition batch :: nat where "batch = 100"

definition waiting_batch :: "'w platform \<Rightarrow> event list" where
  "waiting_batch p = map event_of (outbox_pending batch (p_events p))"

text \<open>\<^verbatim>\<open>Dispatch\<close>; \<open>readable\<close> is whether the query answered.\<close>

definition Dispatch :: "'w queuer \<Rightarrow> bool \<Rightarrow> (uuid \<Rightarrow> bool) \<Rightarrow> time \<Rightarrow> 'w platform \<Rightarrow>
    (out_error + nat) \<times> 'w platform" where
  "Dispatch q readable marked now p =
     (if \<not> readable then (Inl CannotRead, p)
      else let (n, p') = dispatch_each q marked now (waiting_batch p) 0 p in (Inr n, p'))"

subsection \<open>Consumers\<close>

record 'w consumer =
  co_name :: string
  co_handle :: "event \<Rightarrow> 'w \<Rightarrow> string option \<times> 'w"

type_synonym 'w registry = "string \<Rightarrow> 'w consumer list"

definition NewRegistry :: "'w registry" where "NewRegistry = (\<lambda>kind. [])"

definition On :: "string \<Rightarrow> 'w consumer \<Rightarrow> 'w registry \<Rightarrow> 'w registry" where
  "On kind consumer r = r(kind := r kind @ [consumer])"

definition For :: "'w registry \<Rightarrow> string \<Rightarrow> 'w consumer list" where
  "For r kind = r kind"

text \<open>
  How the transaction of one consumer ends: reached and committed, never begun, or begun and
  lost at the commit. A consumer's own work is in transactions of its own and with a
  provider (\<^verbatim>\<open>Handle\<close> is not given the transaction), so what it did stays when the claim is
  rolled back.
\<close>

datatype fate = Reached | Unbegun | Lost

definition claim_event :: "uuid \<Rightarrow> string \<Rightarrow> ('w platform, out_error, bool) tx" where
  "claim_event event consumer =
     after (reads (\<lambda>p. (event, consumer) \<in> set (p_deliveries p))) (\<lambda>taken.
     if taken then ret False
     else after (checked CannotClaim (\<lambda>p. event \<in> oe_id ` set (p_events p))
            (\<lambda>p. p\<lparr>p_deliveries := p_deliveries p @ [(event, consumer)]\<rparr>)) (\<lambda>_. ret True))"

text \<open>One consumer of \<^verbatim>\<open>Deliver\<close>: its claim and its work.\<close>

definition deliver_to :: "fate \<Rightarrow> 'w consumer \<Rightarrow> event \<Rightarrow> 'w platform \<Rightarrow> out_error option \<times> 'w platform" where
  "deliver_to f consumer event p =
     (if f = Unbegun then (Some CannotBegin, p)
      else case claim_event (ev_id event) (co_name consumer) p of
        Inl e \<Rightarrow> (Some e, p)
      | Inr (claimed, p') \<Rightarrow>
          if \<not> claimed then (if f = Lost then Some CannotCommit else None, p)
          else (case co_handle consumer event (p_world p) of
              (Some cause, w) \<Rightarrow> (Some (NotHandled (co_name consumer) cause), p\<lparr>p_world := w\<rparr>)
            | (None, w) \<Rightarrow>
                if f = Lost then (Some CannotCommit, p\<lparr>p_world := w\<rparr>)
                else (None, p'\<lparr>p_world := w\<rparr>)))"

fun deliver_each :: "(string \<Rightarrow> fate) \<Rightarrow> 'w consumer list \<Rightarrow> event \<Rightarrow> 'w platform \<Rightarrow>
    out_error option \<times> 'w platform" where
  "deliver_each fates [] event p = (None, p)"
| "deliver_each fates (c # cs) event p =
     (case deliver_to (fates (co_name c)) c event p of
        (Some e, p') \<Rightarrow> (Some e, p')
      | (None, p') \<Rightarrow> deliver_each fates cs event p')"

definition Deliver :: "(string \<Rightarrow> fate) \<Rightarrow> 'w registry \<Rightarrow> event \<Rightarrow> 'w platform \<Rightarrow>
    out_error option \<times> 'w platform" where
  "Deliver fates r event p =
     (if length (For r (ev_kind event)) = 0 then (Some (UnknownKind (ev_kind event)), p)
      else deliver_each fates (For r (ev_kind event)) event p)"

text \<open>\<^verbatim>\<open>Inline\<close>, a queuer that delivers there and then. \<open>said\<close> is the text of an error.\<close>

definition Inline :: "(out_error \<Rightarrow> string) \<Rightarrow> (string \<Rightarrow> fate) \<Rightarrow> 'w registry \<Rightarrow> 'w queuer" where
  "Inline said fates r event p =
     (case Deliver fates r event p of (Some e, p') \<Rightarrow> (Some (said e), p') | (None, p') \<Rightarrow> (None, p'))"

subsection \<open>Cloud Tasks\<close>

text \<open>
  \<^verbatim>\<open>tasks.Client\<close>: a task is named after its event. What \<^verbatim>\<open>CreateTask\<close> answers is the
  service's, a parameter over its own state: created, a name it has seen, or an error.
\<close>

datatype created = Created | AlreadyExists | Refused string

record task =
  t_name :: string
  t_url :: string
  t_invoker :: string
  t_audience :: string
  t_event :: event

record queue_settings =
  Project :: string
  Location :: string
  URL :: string
  Invoker :: string
  Audience :: string

definition tasksPath :: string where "tasksPath = ''/internal/tasks''"

text \<open>\<^verbatim>\<open>tasks.New\<close>: a setting that is missing, or the client, whose audience falls back to the URL.\<close>

definition NewTasksClient :: "queue_settings \<Rightarrow> string list + queue_settings" where
  "NewTasksClient s =
     (let missing = map fst (filter (\<lambda>(name, x). x = [])
        [(''TASKS_PROJECT'', Project s), (''TASKS_LOCATION'', Location s),
         (''SERVICE_URL'', URL s), (''TASKS_INVOKER'', Invoker s)])
      in if missing \<noteq> [] then Inl missing
         else Inr (s\<lparr>Audience := (if Audience s = [] then URL s else Audience s)\<rparr>))"

fun queue_name :: "queue \<Rightarrow> string" where
  "queue_name Webhooks = ''webhooks''"
| "queue_name Notifications = ''notifications''"
| "queue_name Jobs = ''jobs''"
| "queue_name (OtherQueue s) = s"

definition task_of :: "queue_settings \<Rightarrow> event \<Rightarrow> task" where
  "task_of s event =
     (let queue = ''projects/'' @ Project s @ ''/locations/'' @ Location s @ ''/queues/'' @
                  queue_name (ev_queue event)
      in \<lparr>t_name = queue @ ''/tasks/'' @ ev_id event, t_url = URL s @ tasksPath,
          t_invoker = Invoker s, t_audience = Audience s, t_event = event\<rparr>)"

definition EnqueueTask :: "(task \<Rightarrow> 'w \<Rightarrow> created \<times> 'w) \<Rightarrow> queue_settings \<Rightarrow> 'w queuer" where
  "EnqueueTask create s event p =
     (case create (task_of s event) (p_world p) of
        (Refused cause, w) \<Rightarrow> (Some cause, p\<lparr>p_world := w\<rparr>)
      | (_, w) \<Rightarrow> (None, p\<lparr>p_world := w\<rparr>))"

end
