(* ===== verification/OutboxProps.thy ===== *)
theory OutboxProps
  imports Outbox
begin

text \<open>
  What the outbox promises: an event that was written ends dispatched or parked, what a
  consumer did for an event it does not do again, and a message the table no longer needs
  keeps none of its variables.
\<close>

subsection \<open>The steps of a platform\<close>

text \<open>
  Statements and transactions of any number of requests, dispatchers and deliveries, in any
  order, for one registry.
\<close>

inductive pstep :: "'w registry \<Rightarrow> 'w platform \<Rightarrow> 'w platform \<Rightarrow> bool" for reg where
  wrote: "Write sc i now event p = Inr ((), p') \<Longrightarrow> pstep reg p p'"
| dispatched: "pstep reg p (p\<lparr>p_events := outbox_dispatched i now (p_events p)\<rparr>)"
| refused: "pstep reg p (p\<lparr>p_events := outbox_failed i reason attemptsAllowed (p_events p)\<rparr>)"
| delivered: "pstep reg p (snd (Deliver fates reg event p))"
| worked: "pstep reg p (p\<lparr>p_world := w\<rparr>)"

inductive_cases pstepE: "pstep reg p p'"

subsection \<open>Rows\<close>

definition row_ok :: "event_row \<Rightarrow> bool" where
  "row_ok r \<longleftrightarrow> (oe_state r = Pending \<longrightarrow> oe_attempts r < attemptsAllowed) \<and>
     (oe_state r = Parked \<longrightarrow> oe_attempts r \<ge> attemptsAllowed \<and> oe_error r \<noteq> None) \<and>
     (oe_state r \<noteq> Pending \<and> oe_kind r = KindSend \<longrightarrow> ''Variables'' \<notin> fst ` set (oe_payload r))"

definition rows_ok :: "event_row list \<Rightarrow> bool" where
  "rows_ok rows \<longleftrightarrow> distinct (map oe_id rows) \<and> (\<forall>r \<in> set rows. row_ok r)"

lemma stripped [simp]: "''Variables'' \<notin> fst ` set (redacted KindSend payload)"
  by (auto simp: redacted_def strip_variables_def)

lemma rows_ok_update:
  "rows_ok rows \<Longrightarrow> (\<And>r. oe_id (h r) = oe_id r) \<Longrightarrow> (\<And>r. row_ok r \<Longrightarrow> row_ok (h r)) \<Longrightarrow>
    rows_ok (update_where p h rows)"
  by (auto simp: rows_ok_def map_update_where set_update_where)

lemma rows_ok_marked:
  "rows_ok rows \<Longrightarrow> rows_ok (outbox_dispatched i now rows)"
  "rows_ok rows \<Longrightarrow> rows_ok (outbox_failed i reason attemptsAllowed rows)"
  unfolding outbox_dispatched_def outbox_failed_def
  by (rule rows_ok_update; auto simp: row_ok_def)+

lemma Write_Inr:
  "Write sc i now event p = Inr (u, p') \<longleftrightarrow> i \<notin> oe_id ` set (p_events p) \<and>
    ev_queue event \<in> {Webhooks, Notifications, Jobs} \<and> nullif (ev_marketplace event) = sc \<and>
    p' = p\<lparr>p_events := p_events p @ [\<lparr>oe_id = i, oe_scope = sc, oe_kind = ev_kind event,
      oe_queue = ev_queue event, oe_payload = ev_payload event, oe_state = Pending, oe_attempts = 0,
      oe_error = None, oe_created = now, oe_dispatched = None\<rparr>]\<rparr>"
  by (auto simp: Write_def checked_Inr)

lemma claim_event_Inr:
  "claim_event i c p = Inr (b, p') \<longleftrightarrow>
    (if (i, c) \<in> set (p_deliveries p) then \<not> b \<and> p' = p
     else b \<and> i \<in> oe_id ` set (p_events p) \<and> p' = p\<lparr>p_deliveries := p_deliveries p @ [(i, c)]\<rparr>)"
  by (auto simp: claim_event_def tx_simps)

text \<open>One consumer: skipped, or its work and, when it succeeded and committed, its claim.\<close>

lemma deliver_to_cases:
  obtains (skipped) "snd (deliver_to f c event p) = p" "(fst (deliver_to f c event p) = None \<Longrightarrow>
      (ev_id event, co_name c) \<in> set (p_deliveries p))"
    | (undone) w e where "deliver_to f c event p = (Some e, p\<lparr>p_world := w\<rparr>)"
    | (handled) w where "deliver_to f c event p =
        (None, p\<lparr>p_deliveries := p_deliveries p @ [(ev_id event, co_name c)], p_world := w\<rparr>)"
proof (cases "f = Unbegun")
  case True
  then show ?thesis using skipped by (simp add: deliver_to_def)
next
  case begun: False
  show ?thesis
  proof (cases "claim_event (ev_id event) (co_name c) p")
    case (Inl e)
    then show ?thesis using skipped begun by (simp add: deliver_to_def)
  next
    case (Inr r)
    then obtain b p' where claim: "claim_event (ev_id event) (co_name c) p = Inr (b, p')" by (cases r) simp
    show ?thesis
    proof (cases b)
      case False
      then show ?thesis
        using skipped begun claim by (cases f) (simp_all add: deliver_to_def claim_event_Inr split: if_splits)
    next
      case True
      then have p': "p' = p\<lparr>p_deliveries := p_deliveries p @ [(ev_id event, co_name c)]\<rparr>"
        using claim by (simp add: claim_event_Inr split: if_splits)
      obtain o' w where "co_handle c event (p_world p) = (o', w)" by fastforce
      then have run: "deliver_to f c event p = (case o' of
          Some cause \<Rightarrow> (Some (NotHandled (co_name c) cause), p\<lparr>p_world := w\<rparr>)
        | None \<Rightarrow> if f = Lost then (Some CannotCommit, p\<lparr>p_world := w\<rparr>)
            else (None, p\<lparr>p_deliveries := p_deliveries p @ [(ev_id event, co_name c)], p_world := w\<rparr>))"
        using begun claim True by (simp add: deliver_to_def p' split: option.split)
      show ?thesis
      proof (cases o')
        case (Some cause)
        then show ?thesis using run by (intro undone) simp
      next
        case None
        show ?thesis
        proof (cases "f = Lost")
          case True
          then show ?thesis using run None by (intro undone) simp
        next
          case False
          then show ?thesis using run None by (intro handled) simp
        qed
      qed
    qed
  qed
qed

definition grown :: "'w platform \<Rightarrow> 'w platform \<Rightarrow> bool" where
  "grown p p' \<longleftrightarrow> set (p_deliveries p) \<subseteq> set (p_deliveries p')"

lemma deliver_to_grown: "grown p (snd (deliver_to f c event p))"
  by (rule deliver_to_cases [of f c event p]) (auto simp: grown_def)

lemma deliver_to_events: "p_events (snd (deliver_to f c event p)) = p_events p"
  by (rule deliver_to_cases [of f c event p]) auto

lemma deliver_each_grown: "grown p (snd (deliver_each fates cs event p))"
proof (induction cs arbitrary: p)
  case (Cons c cs)
  have "grown p (snd (deliver_to (fates (co_name c)) c event p))" by (rule deliver_to_grown)
  then show ?case
    using Cons.IH [of "snd (deliver_to (fates (co_name c)) c event p)"]
    by (auto simp: grown_def split: prod.splits option.splits)
qed (simp add: grown_def)

lemma deliver_each_events: "p_events (snd (deliver_each fates cs event p)) = p_events p"
proof (induction cs arbitrary: p)
  case (Cons c cs)
  then show ?case
    using deliver_to_events [of "fates (co_name c)" c event p]
    by (auto split: prod.splits option.splits)
qed simp

lemma Deliver_grown: "grown p (snd (Deliver fates reg event p))"
  by (simp add: Deliver_def deliver_each_grown) (simp add: grown_def)

lemma Deliver_events: "p_events (snd (Deliver fates reg event p)) = p_events p"
  by (simp add: Deliver_def deliver_each_events)

lemma attempts_left: "0 < attemptsAllowed"
  by (simp add: attemptsAllowed_def)

lemma rows_ok_append: "rows_ok (rows @ [r]) \<longleftrightarrow> rows_ok rows \<and> row_ok r \<and> oe_id r \<notin> oe_id ` set rows"
  by (auto simp: rows_ok_def)

lemma pstep_rows_ok: "pstep reg p p' \<Longrightarrow> rows_ok (p_events p) \<Longrightarrow> rows_ok (p_events p')"
  by (erule pstepE)
    (auto simp: Write_Inr rows_ok_marked Deliver_events rows_ok_append row_ok_def attempts_left)

lemma pstep_grown: "pstep reg p p' \<Longrightarrow> grown p p'"
  by (erule pstepE) (auto simp: Write_Inr Deliver_grown, auto simp: grown_def)

lemma psteps_grown: "(pstep reg)\<^sup>*\<^sup>* p p' \<Longrightarrow> grown p p'"
proof (induction rule: rtranclp_induct)
  case (step y z)
  then show ?case using pstep_grown [OF step(2)] unfolding grown_def by (rule_tac subset_trans)
qed (simp add: grown_def)

subsection \<open>A consumer's work is done once\<close>

lemma deliver_each_claims:
  "fst (deliver_each fates cs event p) = None \<Longrightarrow> c \<in> set cs \<Longrightarrow>
    (ev_id event, co_name c) \<in> set (p_deliveries (snd (deliver_each fates cs event p)))"
proof (induction cs arbitrary: p)
  case (Cons b cs)
  let ?one = "deliver_to (fates (co_name b)) b event p"
  have ok: "fst ?one = None" and rest: "fst (deliver_each fates cs event (snd ?one)) = None"
    using Cons.prems(1) by (auto split: prod.splits option.splits)
  have same: "deliver_each fates (b # cs) event p = deliver_each fates cs event (snd ?one)"
    using ok by (auto split: prod.splits option.splits)
  show ?case
  proof (cases "c \<in> set cs")
    case True
    then show ?thesis using Cons.IH [OF rest] same by simp
  next
    case False
    then have "c = b" using Cons.prems(2) by simp
    then have "(ev_id event, co_name c) \<in> set (p_deliveries (snd ?one))"
      using ok by (cases rule: deliver_to_cases [of "fates (co_name b)" b event p]) auto
    then show ?thesis
      using deliver_each_grown [of "snd ?one" fates cs event] same by (auto simp: grown_def)
  qed
qed simp

lemma claimed_skips:
  assumes "(ev_id event, co_name c) \<in> set (p_deliveries p)"
  shows "deliver_to f c event p = (if f = Reached then None else Some (if f = Unbegun then CannotBegin else CannotCommit), p)"
  using assms by (cases f) (auto simp: deliver_to_def claim_event_def tx_run)

lemma all_claimed_skip:
  assumes "\<And>c. c \<in> set cs \<Longrightarrow> (ev_id event, co_name c) \<in> set (p_deliveries p)"
  shows "snd (deliver_each fates cs event p) = p"
    "(\<And>c. c \<in> set cs \<Longrightarrow> fates (co_name c) = Reached) \<Longrightarrow> fst (deliver_each fates cs event p) = None"
  using assms by (induction cs) (auto simp: claimed_skips)

text \<open>
  C23. What the consumers of an event did, they do not do again. Once a delivery of an event
  answered that it was handled, delivering the event again, however often, in whatever
  later state, changes nothing at all: no consumer runs, and it answers handled when its
  transactions reach the database.
\<close>

theorem handled_event_is_not_handled_again:
  assumes "Deliver fates reg event p = (None, p')" and "(pstep reg)\<^sup>*\<^sup>* p' p''"
    and "ev_id again = ev_id event" and "ev_kind again = ev_kind event"
  shows "snd (Deliver fates' reg again p'') = p'' \<and> fst (Deliver (\<lambda>_. Reached) reg again p'') = None"
proof -
  let ?cs = "reg (ev_kind event)"
  have run: "?cs \<noteq> []" "deliver_each fates ?cs event p = (None, p')"
    using assms(1) by (auto simp: Deliver_def For_def split: if_splits)
  then have "(ev_id event, co_name c) \<in> set (p_deliveries p')" if "c \<in> set ?cs" for c
    using deliver_each_claims [OF _ that, of fates event p] by simp
  then have "(ev_id again, co_name c) \<in> set (p_deliveries p'')" if "c \<in> set ?cs" for c
    using that psteps_grown [OF assms(2)] assms(3) by (auto simp: grown_def)
  then show ?thesis
    using run(1) by (simp add: Deliver_def For_def assms(4) all_claimed_skip)
qed

definition sample_event :: event where
  "sample_event = \<lparr>ev_id = ''e1'', ev_marketplace = ''m1'', ev_kind = KindSend, ev_queue = Notifications,
     ev_payload = [(''To'', JString ''a@b''), (''Variables'', JObject [(''Code'', ''004217'')])], ev_attempts = 0\<rparr>"

definition sample_row :: event_row where
  "sample_row = \<lparr>oe_id = ''e1'', oe_scope = Some ''m1'', oe_kind = KindSend, oe_queue = Notifications,
     oe_payload = ev_payload sample_event, oe_state = Pending, oe_attempts = 0, oe_error = None,
     oe_created = 3, oe_dispatched = None\<rparr>"

definition sample_platform :: "nat platform" where
  "sample_platform = \<lparr>p_events = [sample_row], p_deliveries = [], p_world = 0\<rparr>"

definition sample_registry :: "nat registry" where
  "sample_registry = On KindSend \<lparr>co_name = ''mail.send'', co_handle = (\<lambda>event w. (None, Suc w))\<rparr> NewRegistry"

theorem handled_event_is_not_handled_again_witness:
  "snd (Deliver (\<lambda>_. Lost) sample_registry sample_event
     (sample_platform\<lparr>p_deliveries := [(''e1'', ''mail.send'')], p_world := 1\<rparr>)) =
     sample_platform\<lparr>p_deliveries := [(''e1'', ''mail.send'')], p_world := 1\<rparr> \<and>
   fst (Deliver (\<lambda>_. Reached) sample_registry sample_event
     (sample_platform\<lparr>p_deliveries := [(''e1'', ''mail.send'')], p_world := 1\<rparr>)) = None"
proof (rule handled_event_is_not_handled_again [OF _ rtranclp.rtrancl_refl refl refl])
  show "Deliver (\<lambda>_. Reached) sample_registry sample_event sample_platform =
      (None, sample_platform\<lparr>p_deliveries := [(''e1'', ''mail.send'')], p_world := 1\<rparr>)"
    by (simp add: Deliver_def For_def sample_registry_def On_def NewRegistry_def sample_event_def deliver_to_def
        claim_event_def tx_run sample_platform_def sample_row_def)
qed

subsection \<open>Rows keep no secrets\<close>

text \<open>
  C24. Whatever any number of requests, dispatchers and deliveries did to an outbox that began
  empty: its events have their own identifiers; one that waits has attempts left; one that
  is parked has used five and says why; and a message that was handed over or parked holds
  none of its variables any more, a confirmation link among them.
\<close>

theorem outbox_rows_are_sound:
  assumes "(pstep reg)\<^sup>*\<^sup>* p p'" and "p_events p = []"
  shows "rows_ok (p_events p')"
  using assms(1)
proof (induction rule: rtranclp_induct)
  case base
  then show ?case by (simp add: assms(2) rows_ok_def)
next
  case (step y z)
  then show ?case by (blast intro: pstep_rows_ok)
qed

theorem outbox_rows_are_sound_witness:
  "rows_ok (outbox_dispatched ''e1'' 9 (p_events sample_platform))"
proof -
  let ?p = "sample_platform\<lparr>p_events := []\<rparr>"
  have written: "Write (Some ''m1'') ''e1'' 3 sample_event ?p = Inr ((), sample_platform)"
    by (simp add: Write_def checked_def sample_platform_def sample_event_def sample_row_def nullif_def)
  have "pstep sample_registry sample_platform
      (sample_platform\<lparr>p_events := outbox_dispatched ''e1'' 9 (p_events sample_platform)\<rparr>)"
    by (rule pstep.dispatched)
  then have "(pstep sample_registry)\<^sup>*\<^sup>* ?p
      (sample_platform\<lparr>p_events := outbox_dispatched ''e1'' 9 (p_events sample_platform)\<rparr>)"
    using pstep.wrote [OF written, where reg = sample_registry] by (meson rtranclp.intros)
  then show ?thesis using outbox_rows_are_sound by fastforce
qed

subsection \<open>Every event is settled\<close>

text \<open>How many attempts the pending events still have.\<close>

definition owed :: "event_row list \<Rightarrow> nat" where
  "owed rows = (\<Sum>r \<leftarrow> rows. if oe_state r = Pending then attemptsAllowed - oe_attempts r else 0)"

definition pending_ids :: "event_row list \<Rightarrow> uuid set" where
  "pending_ids rows = oe_id ` {r \<in> set rows. oe_state r = Pending}"

lemma sum_list_update:
  assumes "distinct (map oe_id rows)" and "\<exists>r \<in> set rows. oe_id r = i \<and> f (h r) < f r"
  shows "(\<Sum>r \<leftarrow> update_where (\<lambda>r. oe_id r = i) h rows. f r) < (\<Sum>r \<leftarrow> rows. (f r :: nat))"
  using assms
proof (induction rows)
  case (Cons r rows)
  show ?case
  proof (cases "oe_id r = i")
    case True
    then have "update_where (\<lambda>r. oe_id r = i) h rows = rows"
      using Cons.prems(1) by (intro update_where_id) (metis distinct.simps(2) image_eqI list.map(2) set_map)
    moreover have "f (h r) < f r"
    proof -
      have "oe_id r \<notin> oe_id ` set rows" using Cons.prems(1) by simp
      then show ?thesis using Cons.prems(2) True by (metis image_eqI set_ConsD)
    qed
    ultimately show ?thesis using True by (simp add: update_where_def)
  next
    case False
    then have "(\<Sum>r \<leftarrow> update_where (\<lambda>r. oe_id r = i) h rows. f r) < (\<Sum>r \<leftarrow> rows. f r)"
      using Cons.prems by (intro Cons.IH) auto
    then show ?thesis using False by (simp add: update_where_def)
  qed
qed simp

lemma owed_marked:
  assumes "rows_ok rows" and "i \<in> pending_ids rows"
  shows "owed (outbox_dispatched i now rows) < owed rows"
    "owed (outbox_failed i reason attemptsAllowed rows) < owed rows"
  unfolding owed_def outbox_dispatched_def outbox_failed_def
  using assms by (intro sum_list_update; force simp: rows_ok_def row_ok_def pending_ids_def)+

lemma pending_marked:
  "j \<noteq> i \<Longrightarrow> j \<in> pending_ids rows \<Longrightarrow> j \<in> pending_ids (outbox_dispatched i now rows)"
  "j \<noteq> i \<Longrightarrow> j \<in> pending_ids rows \<Longrightarrow> j \<in> pending_ids (outbox_failed i reason n rows)"
  by (auto simp: pending_ids_def outbox_dispatched_def outbox_failed_def set_update_where image_iff)

text \<open>A queuer that leaves the table of events alone, as both of the program's do.\<close>

definition leaves_events :: "'w queuer \<Rightarrow> bool" where
  "leaves_events q \<longleftrightarrow> (\<forall>event p. p_events (snd (q event p)) = p_events p)"

lemma Inline_leaves_events: "leaves_events (Inline said fates reg)"
  unfolding leaves_events_def Inline_def
proof (intro allI)
  fix event and p :: "'a platform"
  show "p_events (snd (case Deliver fates reg event p of (Some e, p') \<Rightarrow> (Some (said e), p') | (None, p') \<Rightarrow> (None, p'))) =
      p_events p"
    using Deliver_events [of fates reg event p] by (auto split: prod.split option.split)
qed

lemma EnqueueTask_leaves_events: "leaves_events (EnqueueTask create s)"
  by (auto simp: leaves_events_def EnqueueTask_def split: prod.split created.split)

lemma dispatch_each_owed:
  assumes "leaves_events q" and "rows_ok (p_events p)" and "distinct (map ev_id es)"
    and "ev_id ` set es \<subseteq> pending_ids (p_events p)"
  shows "rows_ok (p_events (snd (dispatch_each q (\<lambda>_. True) now es n p))) \<and>
    owed (p_events (snd (dispatch_each q (\<lambda>_. True) now es n p))) + length es \<le> owed (p_events p)"
  using assms(2-)
proof (induction es arbitrary: n p)
  case (Cons e es)
  obtain o' p1 where q: "q e p = (o', p1)" by fastforce
  then have same: "p_events p1 = p_events p" using assms(1) by (metis leaves_events_def snd_conv)
  define p2 where "p2 = (case o' of None \<Rightarrow> p1\<lparr>p_events := outbox_dispatched (ev_id e) now (p_events p1)\<rparr>
    | Some cause \<Rightarrow> failed_event (\<lambda>_. True) e cause p1)"
  have step: "\<exists>m. dispatch_each q (\<lambda>_. True) now (e # es) n p = dispatch_each q (\<lambda>_. True) now es m p2"
    by (cases o') (auto simp: q p2_def)
  have e: "ev_id e \<in> pending_ids (p_events p)" using Cons.prems(3) by simp
  have marked: "p_events p2 = outbox_dispatched (ev_id e) now (p_events p) \<or>
      (\<exists>cause. p_events p2 = outbox_failed (ev_id e) cause attemptsAllowed (p_events p))"
    by (cases o') (auto simp: p2_def failed_event_def same)
  then have p2: "rows_ok (p_events p2)" "owed (p_events p2) < owed (p_events p)"
    using rows_ok_marked [OF Cons.prems(1)] owed_marked [OF Cons.prems(1) e] by (elim disjE exE; simp)+
  have "j \<in> pending_ids (p_events p2)" if "j \<in> ev_id ` set es" for j
  proof -
    have "j \<noteq> ev_id e" "j \<in> pending_ids (p_events p)"
      using Cons.prems(2,3) that by (metis distinct.simps(2) list.map(2) set_map, auto)
    then show ?thesis using marked pending_marked by (elim disjE exE) simp_all
  qed
  then have left: "ev_id ` set es \<subseteq> pending_ids (p_events p2)" by blast
  obtain m where m: "dispatch_each q (\<lambda>_. True) now (e # es) n p = dispatch_each q (\<lambda>_. True) now es m p2"
    using step by blast
  have es: "distinct (map ev_id es)" using Cons.prems(2) by simp
  show ?case
    unfolding m using Cons.IH [OF p2(1) es left, of m] p2(2) by simp
qed simp

fun dispatches :: "(nat \<Rightarrow> 'w queuer) \<Rightarrow> (nat \<Rightarrow> time) \<Rightarrow> nat \<Rightarrow> 'w platform \<Rightarrow> 'w platform" where
  "dispatches q at 0 p = p"
| "dispatches q at (Suc n) p = snd (Dispatch (q n) True (\<lambda>_. True) (at n) (dispatches q at n p))"

lemma waiting_batch_facts:
  assumes "rows_ok (p_events p)"
  shows "distinct (map ev_id (waiting_batch p))" "ev_id ` set (waiting_batch p) \<subseteq> pending_ids (p_events p)"
    "pending_ids (p_events p) \<noteq> {} \<Longrightarrow> length (waiting_batch p) > 0"
proof -
  let ?pending = "filter (\<lambda>r. oe_state r = Pending) (p_events p)"
  have ids: "map ev_id (waiting_batch p) = map oe_id (outbox_pending batch (p_events p))"
    by (simp add: waiting_batch_def event_of_def)
  have "distinct (map oe_id ?pending)"
    using assms by (simp add: rows_ok_def distinct_map_filter)
  then have "distinct (map oe_id (sort_key oe_created ?pending))"
    by (simp add: distinct_map)
  then show "distinct (map ev_id (waiting_batch p))"
    unfolding ids outbox_pending_def by (metis distinct_take take_map)
  show "ev_id ` set (waiting_batch p) \<subseteq> pending_ids (p_events p)"
    by (auto simp: waiting_batch_def outbox_pending_def event_of_def pending_ids_def dest!: in_set_takeD)
  show "length (waiting_batch p) > 0" if "pending_ids (p_events p) \<noteq> {}"
  proof -
    have "?pending \<noteq> []" using that by (auto simp: pending_ids_def filter_empty_conv)
    moreover have "0 < batch" by (simp add: batch_def)
    ultimately show ?thesis by (simp add: waiting_batch_def outbox_pending_def)
  qed
qed

lemma owed_pending: "rows_ok rows \<Longrightarrow> owed rows = 0 \<longleftrightarrow> pending_ids rows = {}"
proof -
  assume ok: "rows_ok rows"
  have zero: "(\<Sum>r \<leftarrow> rows. f r) = 0 \<longleftrightarrow> (\<forall>r \<in> set rows. f r = 0)" for f :: "event_row \<Rightarrow> nat" and rows
    by (induction rows) simp_all
  have "owed rows = 0 \<longleftrightarrow> (\<forall>r \<in> set rows. oe_state r = Pending \<longrightarrow> attemptsAllowed \<le> oe_attempts r)"
    unfolding owed_def zero by auto
  also have "\<dots> \<longleftrightarrow> (\<forall>r \<in> set rows. oe_state r \<noteq> Pending)"
    using ok by (force simp: rows_ok_def row_ok_def)
  also have "\<dots> \<longleftrightarrow> pending_ids rows = {}" by (auto simp: pending_ids_def)
  finally show ?thesis .
qed

lemma dispatches_owed:
  assumes "\<And>k. leaves_events (q k)" and "rows_ok (p_events p)"
  shows "rows_ok (p_events (dispatches q at n p)) \<and>
    owed (p_events (dispatches q at n p)) \<le> owed (p_events p) - n"
proof (induction n)
  case (Suc n)
  let ?p = "dispatches q at n p"
  have ok: "rows_ok (p_events ?p)" and IH: "owed (p_events ?p) \<le> owed (p_events p) - n" using Suc by auto
  note batch = waiting_batch_facts [OF ok]
  have run: "p_events (dispatches q at (Suc n) p) =
      p_events (snd (dispatch_each (q n) (\<lambda>_. True) (at n) (waiting_batch ?p) 0 ?p))"
    by (simp add: Dispatch_def case_prod_beta Let_def)
  have each: "rows_ok (p_events (dispatches q at (Suc n) p)) \<and>
      owed (p_events (dispatches q at (Suc n) p)) + length (waiting_batch ?p) \<le> owed (p_events ?p)"
    unfolding run by (rule dispatch_each_owed [OF assms(1) ok batch(1,2)])
  show ?case
  proof (cases "pending_ids (p_events ?p) = {}")
    case True
    then have "owed (p_events ?p) = 0" using owed_pending [OF ok] by simp
    then show ?thesis using each by simp
  next
    case False
    then show ?thesis using each IH batch(3) by linarith
  qed
qed (use assms in simp)

lemma marked_ids [simp]:
  "map oe_id (outbox_dispatched i now rows) = map oe_id rows"
  "map oe_id (outbox_failed i reason n rows) = map oe_id rows"
  by (simp_all add: outbox_dispatched_def outbox_failed_def map_update_where)

lemma dispatch_each_ids:
  "leaves_events q \<Longrightarrow> map oe_id (p_events (snd (dispatch_each q marked now es n p))) = map oe_id (p_events p)"
proof (induction es arbitrary: n p)
  case (Cons e es)
  obtain o' p1 where q: "q e p = (o', p1)" by fastforce
  then have "p_events p1 = p_events p" using Cons.prems by (metis leaves_events_def snd_conv)
  then show ?case by (cases o') (simp_all add: q Cons.IH [OF Cons.prems] failed_event_def)
qed simp

lemma dispatches_ids:
  "(\<And>k. leaves_events (q k)) \<Longrightarrow> map oe_id (p_events (dispatches q at n p)) = map oe_id (p_events p)"
  by (induction n) (simp_all add: Dispatch_def case_prod_beta Let_def dispatch_each_ids)

lemma owed_bound: "owed rows \<le> attemptsAllowed * length (filter (\<lambda>r. oe_state r = Pending) rows)"
  by (induction rows) (auto simp: owed_def)

definition accepting :: "'w queuer" where
  "accepting = (\<lambda>event p. (None, p))"

definition refusing :: "string \<Rightarrow> 'w queuer" where
  "refusing cause = (\<lambda>event p. (Some cause, p))"

definition settled :: "event_row \<Rightarrow> bool" where
  "settled r \<longleftrightarrow> oe_state r = Dispatched \<or>
     oe_state r = Parked \<and> oe_attempts r \<ge> attemptsAllowed \<and> oe_error r \<noteq> None"

text \<open>
  C25. An event that was written does not wait forever. Whatever the queue answers, run after
  run, five runs for each event that waits are enough for none to wait any more: each has
  been handed to the queue or is parked, with its five attempts behind it and the reason of
  the last one; and no event is lost or invented on the way.
\<close>

theorem every_event_is_settled:
  assumes "\<And>k. leaves_events (q k)" and "rows_ok (p_events p)"
    and "n \<ge> attemptsAllowed * length (filter (\<lambda>r. oe_state r = Pending) (p_events p))"
  shows "map oe_id (p_events (dispatches q at n p)) = map oe_id (p_events p) \<and>
    list_all settled (p_events (dispatches q at n p))"
proof -
  have after: "rows_ok (p_events (dispatches q at n p)) \<and>
      owed (p_events (dispatches q at n p)) \<le> owed (p_events p) - n"
    by (rule dispatches_owed) (fact assms)+
  have "owed (p_events (dispatches q at n p)) = 0"
    using after owed_bound [of "p_events p"] assms(3) by linarith
  then have none: "pending_ids (p_events (dispatches q at n p)) = {}" using owed_pending after by blast
  have "settled r" if r: "r \<in> set (p_events (dispatches q at n p))" for r
  proof -
    have "row_ok r" using after r by (simp add: rows_ok_def)
    moreover have "oe_state r \<noteq> Pending" using none r by (auto simp: pending_ids_def)
    ultimately show ?thesis by (cases "oe_state r") (auto simp: row_ok_def settled_def)
  qed
  then show ?thesis using dispatches_ids [OF assms(1)] by (simp add: list_all_iff)
qed

theorem every_event_is_settled_witness:
  "map oe_id (p_events (dispatches (\<lambda>k. refusing ''down'') int 5 sample_platform)) = map oe_id (p_events sample_platform) \<and>
   list_all settled (p_events (dispatches (\<lambda>k. refusing ''down'') int 5 sample_platform))"
proof (rule every_event_is_settled)
  show "leaves_events (refusing ''down'')" by (simp add: leaves_events_def refusing_def)
  show "rows_ok (p_events sample_platform)"
    by (simp add: sample_platform_def sample_row_def rows_ok_def row_ok_def attempts_left)
  show "attemptsAllowed * length (filter (\<lambda>r. oe_state r = Pending) (p_events sample_platform)) \<le> 5"
    by (simp add: sample_platform_def sample_row_def attemptsAllowed_def)
qed

subsection \<open>Two dispatchers at once\<close>

text \<open>
  Two dispatchers may offer the same event: the rows \<^verbatim>\<open>outbox_pending\<close> locks are locked for
  that statement only. When the first hands the event to the queue and marks it, and the
  second, which read it before, is then refused by the queue, the second's mark puts a
  dispatched event back to waiting, and an e-mail's variables are gone by then.
\<close>

theorem late_refusal_reopens_a_dispatched_event:
  assumes "r \<in> set (p_events p)" and "oe_attempts r + 2 < attemptsAllowed"
    and "p1 = snd (dispatch_each accepting (\<lambda>_. True) now [event_of r] 0 p)"
    and "p2 = snd (dispatch_each (refusing cause) (\<lambda>_. True) later [event_of r] 0 p1)"
  shows "(\<exists>r1. r1 \<in> set (p_events p1) \<and> oe_id r1 = oe_id r \<and> oe_state r1 = Dispatched) \<and>
    (\<exists>r2. r2 \<in> set (p_events p2) \<and> oe_id r2 = oe_id r \<and> oe_state r2 = Pending \<and>
      oe_payload r2 = redacted (oe_kind r) (oe_payload r))"
proof -
  have p1: "p_events p1 = outbox_dispatched (oe_id r) now (p_events p)"
    by (simp add: assms(3) event_of_def accepting_def)
  have p2: "p_events p2 = outbox_failed (oe_id r) cause attemptsAllowed (p_events p1)"
    by (simp add: assms(4) event_of_def failed_event_def refusing_def)
  define r1 where "r1 = r\<lparr>oe_state := Dispatched, oe_dispatched := Some now, oe_attempts := oe_attempts r + 1,
    oe_payload := redacted (oe_kind r) (oe_payload r)\<rparr>"
  define r2 where "r2 = r1\<lparr>oe_attempts := oe_attempts r1 + 1, oe_error := Some cause, oe_state := Pending\<rparr>"
  have r1: "r1 \<in> set (p_events p1)"
    using assms(1) by (auto simp: p1 outbox_dispatched_def set_update_where r1_def)
  then have r2: "r2 \<in> set (p_events p2)"
    using assms(2) by (force simp: p2 outbox_failed_def set_update_where r2_def r1_def image_iff)
  have "oe_id r1 = oe_id r" "oe_state r1 = Dispatched" "oe_id r2 = oe_id r" "oe_state r2 = Pending"
    "oe_payload r2 = redacted (oe_kind r) (oe_payload r)"
    by (simp_all add: r1_def r2_def)
  then show ?thesis using r1 r2 by blast
qed

theorem late_refusal_reopens_a_dispatched_event_witness:
  "(\<exists>r1. r1 \<in> set (p_events (snd (dispatch_each accepting (\<lambda>_. True) 4 [event_of sample_row] 0 sample_platform))) \<and>
     oe_id r1 = oe_id sample_row \<and> oe_state r1 = Dispatched) \<and>
   (\<exists>r2. r2 \<in> set (p_events (snd (dispatch_each (refusing ''down'') (\<lambda>_. True) 5 [event_of sample_row] 0
       (snd (dispatch_each accepting (\<lambda>_. True) 4 [event_of sample_row] 0 sample_platform))))) \<and>
     oe_id r2 = oe_id sample_row \<and> oe_state r2 = Pending \<and>
     oe_payload r2 = redacted (oe_kind sample_row) (oe_payload sample_row))"
  by (rule late_refusal_reopens_a_dispatched_event [OF _ _ refl refl])
    (simp_all add: sample_platform_def sample_row_def attemptsAllowed_def)

end
