(* ===== verification/Leases.thy ===== *)
theory Leases
  imports IdStore
begin

text \<open>
  Scheduled jobs: src/internal/platform/jobs/jobs.go over the table \<^verbatim>\<open>job_lock\<close> of migration
  00006. A run takes the job's lease, does its work and releases the lease. \<open>take\<close> and
  \<open>release\<close> are one statement each, so they are atomic; a job's work is any function of the
  state, other runs' takes and releases included.
\<close>

definition lease :: int where "lease = 10 * minute"

record lock_row =
  jl_name :: string
  jl_holder :: string
  jl_until :: time
  jl_finished :: "time option"

datatype job_error = UnknownJob string | Busy | CannotTake | JobFailed string

definition take_lease :: "string \<Rightarrow> string \<Rightarrow> time \<Rightarrow> lock_row list \<Rightarrow> bool \<times> lock_row list" where
  "take_lease holder name now rows =
     (if name \<notin> jl_name ` set rows
      then (True, rows @ [\<lparr>jl_name = name, jl_holder = holder, jl_until = now + lease, jl_finished = None\<rparr>])
      else (list_ex (\<lambda>r. jl_name r = name \<and> jl_until r < now) rows,
            update_where (\<lambda>r. jl_name r = name \<and> jl_until r < now)
              (\<lambda>r. r\<lparr>jl_holder := holder, jl_until := now + lease\<rparr>) rows))"

definition release_lease :: "string \<Rightarrow> string \<Rightarrow> time \<Rightarrow> lock_row list \<Rightarrow> lock_row list" where
  "release_lease holder name now rows = update_where (\<lambda>r. jl_name r = name \<and> jl_holder r = holder)
     (\<lambda>r. r\<lparr>jl_until := now, jl_finished := Some now\<rparr>) rows"

subsection \<open>The runner\<close>

record 'w job_db =
  j_locks :: "lock_row list"
  j_world :: 'w

type_synonym 'w job = "'w job_db \<Rightarrow> string option \<times> 'w job_db"

record 'w runner =
  ru_holder :: string
  ru_jobs :: "string \<Rightarrow> 'w job option"

definition NewRunner :: "string \<Rightarrow> 'w runner" where
  "NewRunner holder = \<lparr>ru_holder = holder, ru_jobs = (\<lambda>name. None)\<rparr>"

definition Register :: "string \<Rightarrow> 'w job \<Rightarrow> 'w runner \<Rightarrow> 'w runner" where
  "Register name job r = r\<lparr>ru_jobs := (ru_jobs r)(name \<mapsto> job)\<rparr>"

definition Names :: "'w runner \<Rightarrow> string set" where
  "Names r = dom (ru_jobs r)"

text \<open>
  \<^verbatim>\<open>Runner.Run\<close>: at \<open>t0\<close> the take, at \<open>t1\<close> the release. \<open>takes\<close> and \<open>releases\<close> are whether the
  two transactions reached the database; a release that did not is only logged.
\<close>

definition Run :: "'w runner \<Rightarrow> string \<Rightarrow> bool \<Rightarrow> bool \<Rightarrow> time \<Rightarrow> time \<Rightarrow> 'w job_db \<Rightarrow>
    job_error option \<times> 'w job_db" where
  "Run r name takes releases t0 t1 d =
     (case ru_jobs r name of
        None \<Rightarrow> (Some (UnknownJob name), d)
      | Some job \<Rightarrow>
          if \<not> takes then (Some CannotTake, d)
          else let (taken, locks) = take_lease (ru_holder r) name t0 (j_locks d) in
            if \<not> taken then (Some Busy, d\<lparr>j_locks := locks\<rparr>)
            else let (cause, d') = job (d\<lparr>j_locks := locks\<rparr>) in
              (map_option JobFailed cause,
               if releases then d'\<lparr>j_locks := release_lease (ru_holder r) name t1 (j_locks d')\<rparr> else d'))"

subsection \<open>One run at a time\<close>

text \<open>
  The runs of one job, as the clock goes on: \<open>running\<close> lists who is running and since when.
  A run takes the lease to begin and releases it at its end, or dies without releasing it.
\<close>

record runs =
  lock_rows :: "lock_row list"
  clock :: time
  running :: "(string \<times> time) list"

inductive rstep :: "string \<Rightarrow> runs \<Rightarrow> runs \<Rightarrow> bool" for name where
  waits: "clock s \<le> t \<Longrightarrow> rstep name s (s\<lparr>clock := t\<rparr>)"
| begins: "take_lease holder name (clock s) (lock_rows s) = (True, rows) \<Longrightarrow>
    rstep name s (s\<lparr>lock_rows := rows, running := (holder, clock s) # running s\<rparr>)"
| stands_down: "take_lease holder name (clock s) (lock_rows s) = (False, rows) \<Longrightarrow> rstep name s (s\<lparr>lock_rows := rows\<rparr>)"
| ends: "(holder, t) \<in> set (running s) \<Longrightarrow>
    rstep name s (s\<lparr>lock_rows := release_lease holder name (clock s) (lock_rows s), running := remove1 (holder, t) (running s)\<rparr>)"
| dies: "(holder, t) \<in> set (running s) \<Longrightarrow> rstep name s (s\<lparr>running := remove1 (holder, t) (running s)\<rparr>)"

text \<open>No run outlives its lease.\<close>

definition in_lease :: "runs \<Rightarrow> bool" where
  "in_lease s \<longleftrightarrow> (\<forall>(holder, t) \<in> set (running s). clock s \<le> t + lease)"

definition leased :: "string \<Rightarrow> runs \<Rightarrow> bool" where
  "leased name s \<longleftrightarrow> distinct (map jl_name (lock_rows s)) \<and> length (running s) \<le> 1 \<and>
     (\<forall>(holder, t) \<in> set (running s). \<exists>r \<in> set (lock_rows s). jl_name r = name \<and> jl_holder r = holder \<and>
        jl_until r = t + lease)"

lemma one_lock: "distinct (map jl_name rows) \<Longrightarrow> r \<in> set rows \<Longrightarrow> q \<in> set rows \<Longrightarrow>
    jl_name r = jl_name q \<Longrightarrow> r = q"
  by (metis distinct_map inj_onD)

lemma lock_names:
  "map jl_name (release_lease holder name now rows) = map jl_name rows"
  "take_lease holder name now rows = (b, rows') \<Longrightarrow> distinct (map jl_name rows) \<Longrightarrow> distinct (map jl_name rows')"
  by (auto simp: release_lease_def take_lease_def map_update_where split: if_splits)

lemma take_False: "take_lease holder name now rows = (False, rows') \<Longrightarrow> rows' = rows"
  by (auto simp: take_lease_def list_ex_iff intro!: update_where_id split: if_splits)

lemma take_True:
  assumes "take_lease holder name now rows = (True, rows')" and "distinct (map jl_name rows)"
  shows "\<exists>r \<in> set rows'. jl_name r = name \<and> jl_holder r = holder \<and> jl_until r = now + lease"
    "r \<in> set rows \<Longrightarrow> jl_name r = name \<Longrightarrow> jl_until r < now"
proof -
  show "\<exists>r \<in> set rows'. jl_name r = name \<and> jl_holder r = holder \<and> jl_until r = now + lease"
  proof (cases "name \<in> jl_name ` set rows")
    case True
    then obtain q where q: "q \<in> set rows" "jl_name q = name" "jl_until q < now"
      and rows': "rows' = update_where (\<lambda>r. jl_name r = name \<and> jl_until r < now)
        (\<lambda>r. r\<lparr>jl_holder := holder, jl_until := now + lease\<rparr>) rows"
      using assms(1) by (auto simp: take_lease_def list_ex_iff)
    have "q\<lparr>jl_holder := holder, jl_until := now + lease\<rparr> \<in> set rows'"
      using q by (auto simp: rows' update_where_def)
    then show ?thesis using q(2)
      by (intro bexI [of _ "q\<lparr>jl_holder := holder, jl_until := now + lease\<rparr>"]) simp_all
  qed (use assms(1) in \<open>simp add: take_lease_def, force\<close>)
  show "jl_until r < now" if "r \<in> set rows" "jl_name r = name"
    using assms that one_lock [OF assms(2)] by (fastforce simp: take_lease_def list_ex_iff split: if_splits)
qed

lemma leased_step:
  assumes "rstep name s s'" and "leased name s" and "in_lease s"
  shows "leased name s'"
  using assms(1)
proof (cases rule: rstep.cases)
  case (begins holder rows)
  have names: "distinct (map jl_name (lock_rows s))" using assms(2) by (simp add: leased_def)
  have "running s = []"
  proof (rule ccontr)
    assume "running s \<noteq> []"
    then obtain h t where run: "(h, t) \<in> set (running s)" by (metis list.set_intros(1) neq_Nil_conv surj_pair)
    then obtain r where "r \<in> set (lock_rows s)" "jl_name r = name" "jl_until r = t + lease"
      using assms(2) by (fastforce simp: leased_def)
    then have "t + lease < clock s" using take_True(2) [OF begins(2) names] by metis
    then show False using assms(3) run by (fastforce simp: in_lease_def)
  qed
  then show ?thesis
    using take_True(1) [OF begins(2) names] lock_names(2) [OF begins(2) names]
    by (simp add: begins(1) leased_def)
next
  case (stands_down holder rows)
  then show ?thesis using take_False [OF stands_down(2)] assms(2) by (simp add: leased_def)
next
  case (ends holder t)
  then have "running s = [(holder, t)]"
    using assms(2) by (cases "running s") (auto simp: leased_def)
  then show ?thesis using assms(2) by (simp add: ends(1) leased_def lock_names(1))
next
  case (dies holder t)
  then have "running s = [(holder, t)]"
    using assms(2) by (cases "running s") (auto simp: leased_def)
  then show ?thesis using assms(2) by (simp add: dies(1) leased_def)
qed (use assms(2) in \<open>simp add: leased_def\<close>)

text \<open>Histories in which no run outlives its lease.\<close>

inductive timely :: "string \<Rightarrow> runs \<Rightarrow> runs \<Rightarrow> bool" for name where
  start: "timely name s s"
| goes_on: "timely name s s' \<Longrightarrow> in_lease s' \<Longrightarrow> rstep name s' s'' \<Longrightarrow> timely name s s''"

lemma timely_leased: "timely name s s' \<Longrightarrow> leased name s \<Longrightarrow> leased name s'"
  by (induction rule: timely.induct) (auto intro: leased_step)

text \<open>
  C26. A job runs once at a time. From a state in which nobody runs it, whatever instances ask
  for it and whichever of them die, at most one run is going on, as long as no run outlives
  its lease of ten minutes; and a run that stands down changes nothing.
\<close>

theorem one_run_at_a_time:
  assumes "timely name s s'" and "distinct (map jl_name (lock_rows s))" and "running s = []"
  shows "length (running s') \<le> 1 \<and> distinct (map jl_name (lock_rows s')) \<and>
    (\<forall>holder rows. take_lease holder name (clock s') (lock_rows s') = (False, rows) \<longrightarrow> rows = lock_rows s')"
proof -
  have "leased name s" using assms(2,3) by (simp add: leased_def)
  then have "leased name s'" by (rule timely_leased [OF assms(1)])
  then show ?thesis using take_False by (auto simp: leased_def)
qed

theorem one_run_at_a_time_witness:
  "length (running \<lparr>lock_rows = snd (take_lease ''i1'' ''dispatch'' 0 []), clock = 0, running = [(''i1'', 0)]\<rparr>) \<le> 1 \<and>
   distinct (map jl_name (lock_rows \<lparr>lock_rows = snd (take_lease ''i1'' ''dispatch'' 0 []), clock = 0,
     running = [(''i1'', 0)]\<rparr>)) \<and>
   list_all (\<lambda>holder. snd (take_lease holder ''dispatch'' 0 (snd (take_lease ''i1'' ''dispatch'' 0 []))) =
     snd (take_lease ''i1'' ''dispatch'' 0 [])) [''i1'', ''i2'']"
proof -
  let ?s = "\<lparr>lock_rows = [], clock = 0, running = []\<rparr> :: runs"
  let ?s' = "\<lparr>lock_rows = snd (take_lease ''i1'' ''dispatch'' 0 []), clock = 0, running = [(''i1'', 0)]\<rparr> :: runs"
  have "rstep ''dispatch'' ?s ?s'"
    using rstep.begins [where name = "''dispatch''" and s = ?s and holder = "''i1''"]
    by (simp add: take_lease_def)
  then have "timely ''dispatch'' ?s ?s'"
    by (rule timely.goes_on [OF timely.start, rotated]) (simp add: in_lease_def)
  from one_run_at_a_time [OF this] show ?thesis
    by (auto simp: take_lease_def lease_def durations)
qed

text \<open>
  A run that outlived its lease releases by its instance's name, so it frees the lease of the
  next run of the same instance, and a third run begins beside the second.
\<close>

lemma overrun_frees_the_next_run:
  assumes "take_lease a name 0 [] = (True, l1)"
    and "take_lease a name (11 * minute) l1 = (True, l2)"
    and "take_lease b name (13 * minute) (release_lease a name (12 * minute) l2) = (ok, l3)"
  shows ok
proof -
  have l1: "l1 = [\<lparr>jl_name = name, jl_holder = a, jl_until = lease, jl_finished = None\<rparr>]"
    using assms(1) by (simp add: take_lease_def)
  have l2: "l2 = [\<lparr>jl_name = name, jl_holder = a, jl_until = 11 * minute + lease, jl_finished = None\<rparr>]"
    using assms(2) by (simp add: l1 take_lease_def update_where_def lease_def durations)
  show ?thesis
    using assms(3) by (simp add: l2 take_lease_def release_lease_def update_where_def durations)
qed

end
