(* ===== verification/Tenancy.thy ===== *)
theory Tenancy
  imports GoText IdStore
begin

text \<open>
  Which marketplace a request belongs to: src/internal/tenancy over the tables
  \<^verbatim>\<open>marketplace\<close>, \<^verbatim>\<open>marketplace_language\<close> and \<^verbatim>\<open>marketplace_host\<close> of migration 00002 and the
  function \<^verbatim>\<open>tenancy_host_map\<close> of migration 00004. The resolver's cache is shared by
  concurrent requests, so the parts of \<open>Resolve\<close> between two of its locks are definitions of
  their own. JSON of the declared marketplaces is decoded by Go's library: a parameter.
\<close>

subsection \<open>Host names\<close>

text \<open>\<^verbatim>\<open>net.SplitHostPort\<close>; every error is \<open>None\<close>.\<close>

definition last_position :: "char \<Rightarrow> string \<Rightarrow> nat option" where
  "last_position c s = map_option (\<lambda>i. length s - 1 - i) (position c (rev s))"

definition SplitHostPort :: "string \<Rightarrow> (string \<times> string) option" where
  "SplitHostPort hostport =
     (case last_position (CHR '':'') hostport of
        None \<Rightarrow> None
      | Some i \<Rightarrow>
          if hd hostport = CHR ''['' then
            (case position (CHR '']'') hostport of
               None \<Rightarrow> None
             | Some close \<Rightarrow>
                 if close + 1 \<noteq> i then None
                 else if CHR ''['' \<in> set (drop 1 hostport) \<or> CHR '']'' \<in> set (drop (close + 1) hostport) then None
                 else Some (drop 1 (take close hostport), drop (i + 1) hostport))
          else if CHR '':'' \<in> set (take i hostport) then None
          else if CHR ''['' \<in> set hostport \<or> CHR '']'' \<in> set hostport then None
          else Some (take i hostport, drop (i + 1) hostport))"

definition Normalise :: "string \<Rightarrow> string" where
  "Normalise host =
     (let host = trim_space host in
      if host = [] then []
      else let host = (case SplitHostPort host of Some (withoutPort, _) \<Rightarrow> withoutPort | None \<Rightarrow> host) in
        to_lower (trim_suffix_char (CHR ''.'') host))"

subsection \<open>Marketplaces and what a host is\<close>

definition InPreparation :: string where "InPreparation = ''in_preparation''"
definition Active :: string where "Active = ''active''"

record marketplace =
  mp_id :: string
  mp_slug :: string
  mp_name :: string
  mp_market :: string
  mp_revenue :: string
  mp_state :: string
  mp_language :: string
  mp_languages :: "string list"
  mp_detect :: bool
  mp_reveal :: bool

datatype resolution = Unknown | PlatformHost | MarketplaceHost marketplace | ConsoleHost

type_synonym host_map = "string \<rightharpoonup> marketplace"

subsection \<open>The resolver\<close>

definition defaultTTL :: int where "defaultTTL = 30 * second"

text \<open>\<open>re_cache\<close> is the map held and the moment it was stored; \<open>None\<close> when there is none.\<close>

record resolver =
  re_platform :: string
  re_console :: string
  re_ttl :: int
  re_cache :: "(host_map \<times> time) option"

definition NewResolver :: "string \<Rightarrow> resolver" where
  "NewResolver platformHost =
     \<lparr>re_platform = Normalise platformHost, re_console = [], re_ttl = defaultTTL, re_cache = None\<rparr>"

definition WithConsoleHost :: "string \<Rightarrow> resolver \<Rightarrow> resolver" where
  "WithConsoleHost host r = r\<lparr>re_console := Normalise host\<rparr>"

definition Invalidate :: "resolver \<Rightarrow> resolver" where
  "Invalidate r = r\<lparr>re_cache := None\<rparr>"

text \<open>What needs no host map: no name, the platform's host, the console's.\<close>

definition own_host :: "resolver \<Rightarrow> string \<Rightarrow> resolution option" where
  "own_host r name =
     (if name = [] then Some Unknown
      else if re_platform r \<noteq> [] \<and> name = re_platform r then Some PlatformHost
      else if re_console r \<noteq> [] \<and> name = re_console r then Some ConsoleHost
      else None)"

definition answer_from :: "host_map \<Rightarrow> string \<Rightarrow> resolution" where
  "answer_from hosts name = (case hosts name of Some m \<Rightarrow> MarketplaceHost m | None \<Rightarrow> Unknown)"

text \<open>\<^verbatim>\<open>load\<close>: what the read lock finds, and what the write lock stores.\<close>

definition cached_hosts :: "resolver \<Rightarrow> time \<Rightarrow> host_map option" where
  "cached_hosts r now =
     (case re_cache r of None \<Rightarrow> None | Some (hosts, loadedAt) \<Rightarrow> if now - loadedAt < re_ttl r then Some hosts else None)"

definition store_hosts :: "host_map \<Rightarrow> time \<Rightarrow> resolver \<Rightarrow> resolver" where
  "store_hosts hosts now r = r\<lparr>re_cache := Some (hosts, now)\<rparr>"

text \<open>
  \<^verbatim>\<open>Resolve\<close> by a request that runs alone: \<open>now\<close> and \<open>later\<close> are the clock's two answers,
  \<open>loaded\<close> what the loader gives; \<open>None\<close> is an error, the loader's.
\<close>

definition load :: "host_map option \<Rightarrow> time \<Rightarrow> time \<Rightarrow> resolver \<Rightarrow> host_map option \<times> resolver" where
  "load loaded now later r =
     (case cached_hosts r now of
        Some hosts \<Rightarrow> (Some hosts, r)
      | None \<Rightarrow> (case loaded of None \<Rightarrow> (None, r) | Some hosts \<Rightarrow> (Some hosts, store_hosts hosts later r)))"

definition Resolve :: "host_map option \<Rightarrow> time \<Rightarrow> time \<Rightarrow> string \<Rightarrow> resolver \<Rightarrow> resolution option \<times> resolver" where
  "Resolve loaded now later host r =
     (let name = Normalise host in
      case own_host r name of
        Some answer \<Rightarrow> (Some answer, r)
      | None \<Rightarrow> (case load loaded now later r of (hosts, r') \<Rightarrow> (map_option (\<lambda>hosts. answer_from hosts name) hosts, r')))"

subsection \<open>The middleware\<close>

datatype page = Next "resolution option" | CouldNotTell | UnknownHostPage | InPreparationPage marketplace

definition resolve_middleware :: "string list \<Rightarrow> string \<Rightarrow> resolution option \<Rightarrow> page" where
  "resolve_middleware bypass path resolved =
     (if path \<in> set bypass then Next None
      else case resolved of
        None \<Rightarrow> CouldNotTell
      | Some Unknown \<Rightarrow> UnknownHostPage
      | Some (MarketplaceHost m) \<Rightarrow> if mp_state m \<noteq> Active then InPreparationPage m else Next resolved
      | Some PlatformHost \<Rightarrow> Next resolved
      | Some ConsoleHost \<Rightarrow> Next resolved)"

subsection \<open>The tables\<close>

record market_row =
  mr_id :: string
  mr_slug :: string
  mr_name :: string
  mr_market :: string
  mr_revenue :: string
  mr_state :: string
  mr_detect :: bool
  mr_reveal :: bool
  mr_language :: string

record tenant_db =
  td_markets :: "string list"
  td_marketplaces :: "market_row list"
  td_languages :: "(string \<times> string) list"
  td_hosts :: "(string \<times> string) list"

text \<open>
  \<^verbatim>\<open>tenancy_host_map\<close>: the join of hosts and marketplaces, each with its languages in order
  (the order of bytes, which for language tags is the database's).
\<close>

definition languages_of :: "tenant_db \<Rightarrow> string \<Rightarrow> string list" where
  "languages_of d mid = sort (map snd (filter (\<lambda>l. fst l = mid) (td_languages d)))"

definition marketplace_of :: "tenant_db \<Rightarrow> market_row \<Rightarrow> marketplace" where
  "marketplace_of d m = \<lparr>mp_id = mr_id m, mp_slug = mr_slug m, mp_name = mr_name m, mp_market = mr_market m,
     mp_revenue = mr_revenue m, mp_state = mr_state m, mp_language = mr_language m,
     mp_languages = languages_of d (mr_id m), mp_detect = mr_detect m, mp_reveal = mr_reveal m\<rparr>"

definition tenancy_host_map :: "tenant_db \<Rightarrow> (string \<times> marketplace) list" where
  "tenancy_host_map d = List.map_filter
     (\<lambda>(host, mid). map_option (\<lambda>m. (host, marketplace_of d m)) (find (\<lambda>m. mr_id m = mid) (td_marketplaces d)))
     (td_hosts d)"

text \<open>\<^verbatim>\<open>Repository.Hosts\<close>: one value per marketplace, the first read; a later row of a host wins.\<close>

definition read_host :: "string \<times> marketplace \<Rightarrow> (string \<rightharpoonup> marketplace) \<times> host_map \<Rightarrow>
    (string \<rightharpoonup> marketplace) \<times> host_map" where
  "read_host = (\<lambda>(host, m) (byID, hosts).
     (let shared = (case byID (mp_id m) of Some shared \<Rightarrow> shared | None \<Rightarrow> m) in
      (byID(mp_id m \<mapsto> shared), hosts(Normalise host \<mapsto> shared))))"

definition Hosts :: "tenant_db \<Rightarrow> host_map" where
  "Hosts d = snd (fold read_host (tenancy_host_map d) (Map.empty, Map.empty))"

subsection \<open>What an environment declares\<close>

record spec =
  sp_slug :: string
  sp_name :: string
  sp_market :: string
  sp_revenue :: string
  sp_state :: string
  sp_language :: string
  sp_languages :: "string list"
  sp_hosts :: "string list"
  sp_detect :: bool
  sp_reveal :: bool

text \<open>Which of the missing fields is named is up to the order of a Go map.\<close>

definition validate_spec :: "spec \<Rightarrow> bool" where
  "validate_spec s \<longleftrightarrow> sp_slug s \<noteq> [] \<and> sp_name s \<noteq> [] \<and> sp_market s \<noteq> [] \<and> sp_revenue s \<noteq> [] \<and> sp_hosts s \<noteq> []"

datatype specs_error = NotJSON | BadSpec nat

fun first_bad :: "nat \<Rightarrow> spec list \<Rightarrow> nat option" where
  "first_bad i [] = None"
| "first_bad i (s # ss) = (if validate_spec s then first_bad (i + 1) ss else Some (i + 1))"

definition ParseSpecs :: "(string \<Rightarrow> spec list option) \<Rightarrow> string \<Rightarrow> specs_error + spec list" where
  "ParseSpecs unmarshal declared =
     (if declared = [] then Inr []
      else case unmarshal declared of
        None \<Rightarrow> Inl NotJSON
      | Some specs \<Rightarrow> (case first_bad 0 specs of Some i \<Rightarrow> Inl (BadSpec i) | None \<Rightarrow> Inr specs))"

subsection \<open>Seeding\<close>

datatype seed_error = CannotWriteMarketplace | CannotAddHosts

record applied =
  ap_spec :: spec
  ap_id :: string
  ap_created :: bool

text \<open>The constraints of the tables.\<close>

definition slug_edge :: "char \<Rightarrow> bool" where
  "slug_edge c \<longleftrightarrow> c \<in> set ''abcdefghijklmnopqrstuvwxyz0123456789''"

definition is_handle :: "string \<Rightarrow> bool" where
  "is_handle s \<longleftrightarrow> s \<noteq> [] \<and> slug_edge (hd s) \<and> slug_edge (last s) \<and> list_all (\<lambda>c. slug_edge c \<or> c = CHR ''-'') s"

definition row_allowed :: "tenant_db \<Rightarrow> market_row \<Rightarrow> bool" where
  "row_allowed d m \<longleftrightarrow> mr_market m \<in> set (td_markets d) \<and> is_handle (mr_slug m) \<and>
     mr_revenue m \<in> {''commission'', ''paid_listings''} \<and> mr_state m \<in> {InPreparation, Active}"

definition host_allowed :: "string \<Rightarrow> bool" where
  "host_allowed host \<longleftrightarrow> host = to_lower host \<and> CHR '':'' \<notin> set host"

text \<open>The row a declaration becomes, with the defaults of its state and its language.\<close>

definition stated :: "spec \<Rightarrow> string" where
  "stated s = (if sp_state s = [] then Active else sp_state s)"

definition spoken :: "spec \<Rightarrow> string" where
  "spoken s = (if sp_language s = [] then ''en-US'' else sp_language s)"

definition row_for :: "string \<Rightarrow> spec \<Rightarrow> market_row" where
  "row_for mid s = \<lparr>mr_id = mid, mr_slug = sp_slug s, mr_name = sp_name s, mr_market = sp_market s,
     mr_revenue = sp_revenue s, mr_state = stated s, mr_detect = sp_detect s, mr_reveal = sp_reveal s,
     mr_language = spoken s\<rparr>"

text \<open>
  The upsert by slug: a new row with a new identifier, or the one there with everything but
  its identifier replaced. A new identifier that is taken breaks the primary key.
\<close>

definition put_marketplace :: "(tenant_db \<Rightarrow> string) \<Rightarrow> spec \<Rightarrow> (tenant_db, seed_error, string \<times> bool) tx" where
  "put_marketplace gen s = (\<lambda>d.
     case find (\<lambda>m. mr_slug m = sp_slug s) (td_marketplaces d) of
       Some m \<Rightarrow>
         if \<not> row_allowed d (row_for (mr_id m) s) then Inl CannotWriteMarketplace
         else Inr ((mr_id m, False), d\<lparr>td_marketplaces :=
                update_where (\<lambda>m. mr_slug m = sp_slug s) (\<lambda>m. row_for (mr_id m) s) (td_marketplaces d)\<rparr>)
     | None \<Rightarrow>
         if gen d \<in> mr_id ` set (td_marketplaces d) \<or> \<not> row_allowed d (row_for (gen d) s)
         then Inl CannotWriteMarketplace
         else Inr ((gen d, True), d\<lparr>td_marketplaces := td_marketplaces d @ [row_for (gen d) s]\<rparr>))"

definition all_languages :: "spec \<Rightarrow> string list" where
  "all_languages s =
     (if spoken s \<notin> set (sp_languages s) then sp_languages s @ [spoken s] else sp_languages s)"

definition keep_languages :: "string \<Rightarrow> string list \<Rightarrow> (string \<times> string) list \<Rightarrow> (string \<times> string) list" where
  "keep_languages mid languages rows = delete_where (\<lambda>(i, l). i = mid \<and> l \<notin> set languages) rows"

fun add_languages :: "string \<Rightarrow> string list \<Rightarrow> (string \<times> string) list \<Rightarrow> (string \<times> string) list" where
  "add_languages mid [] rows = rows"
| "add_languages mid (l # ls) rows =
     add_languages mid ls (if (mid, l) \<in> set rows then rows else rows @ [(mid, l)])"

definition keep_hosts :: "string \<Rightarrow> string list \<Rightarrow> (string \<times> string) list \<Rightarrow> (string \<times> string) list" where
  "keep_hosts mid hosts rows = delete_where (\<lambda>(h, i). i = mid \<and> h \<notin> set hosts) rows"

definition put_host :: "string \<Rightarrow> string \<Rightarrow> (string \<times> string) list \<Rightarrow> (string \<times> string) list" where
  "put_host mid host rows =
     (if host \<in> fst ` set rows then update_where (\<lambda>r. fst r = host) (\<lambda>r. (host, mid)) rows
      else rows @ [(host, mid)])"

text \<open>One statement may not touch a row twice, so a host may not be declared twice.\<close>

definition add_hosts :: "string \<Rightarrow> string list \<Rightarrow> (tenant_db, seed_error, unit) tx" where
  "add_hosts mid hosts = checked CannotAddHosts (\<lambda>d. list_all host_allowed hosts \<and> distinct hosts)
     (\<lambda>d. d\<lparr>td_hosts := fold (put_host mid) hosts (td_hosts d)\<rparr>)"

definition seedOne :: "(tenant_db \<Rightarrow> string) \<Rightarrow> spec \<Rightarrow> (tenant_db, seed_error, applied) tx" where
  "seedOne gen s =
     after (put_marketplace gen s) (\<lambda>(mid, created).
     after (writes (\<lambda>d. d\<lparr>td_languages := keep_languages mid (all_languages s) (td_languages d)\<rparr>)) (\<lambda>_.
     after (writes (\<lambda>d. d\<lparr>td_languages := add_languages mid (all_languages s) (td_languages d)\<rparr>)) (\<lambda>_.
     let hosts = map Normalise (sp_hosts s) in
     after (writes (\<lambda>d. d\<lparr>td_hosts := keep_hosts mid hosts (td_hosts d)\<rparr>)) (\<lambda>_.
     after (add_hosts mid hosts) (\<lambda>_.
     ret \<lparr>ap_spec = s, ap_id = mid, ap_created = created\<rparr>)))))"

fun Seed :: "(tenant_db \<Rightarrow> string) \<Rightarrow> spec list \<Rightarrow> (tenant_db, seed_error, applied list) tx" where
  "Seed gen [] = ret []"
| "Seed gen (s # ss) =
     after (seedOne gen s) (\<lambda>one. after (Seed gen ss) (\<lambda>others. ret (one # others)))"

end
