(* ===== verification/Urls.thy ===== *)
theory Urls
  imports Tenancy
begin

text \<open>
  What the pages use of Go's packages net/url, path and strings: comparing text without case,
  escaping a path, reading and writing a query, \<^verbatim>\<open>path.Clean\<close> of a rooted path, and the
  address \<^verbatim>\<open>http.Redirect\<close> writes. A target of the program starts with one slash, so the
  parts of these functions about schemes and authorities are left out.
\<close>

subsection \<open>Text\<close>

definition has_prefix :: "string \<Rightarrow> string \<Rightarrow> bool" where
  "has_prefix p s \<longleftrightarrow> take (length p) s = p"

definition has_suffix_char :: "char \<Rightarrow> string \<Rightarrow> bool" where
  "has_suffix_char c s \<longleftrightarrow> s \<noteq> [] \<and> last s = c"

definition trim_prefix_char :: "char \<Rightarrow> string \<Rightarrow> string" where
  "trim_prefix_char c s = (if s \<noteq> [] \<and> hd s = c then tl s else s)"

text \<open>\<^verbatim>\<open>strings.Cut(s, sep)\<close> for a separator of one byte.\<close>

definition cut_at :: "char \<Rightarrow> string \<Rightarrow> string \<times> string \<times> bool" where
  "cut_at c s = (case position c s of
     None \<Rightarrow> (s, [], False)
   | Some i \<Rightarrow> (take i s, drop (i + 1) s, True))"

text \<open>
  \<^verbatim>\<open>strings.EqualFold\<close>, exact when one of the two is ASCII, as the language tags and schemes
  it is asked about are: besides the letters, the long s and the kelvin sign fold to ASCII.
\<close>

definition fold_rune :: "int \<Rightarrow> int" where
  "fold_rune r = (if 65 \<le> r \<and> r \<le> 90 then r + 32 else if r = 0x17F then 115 else if r = 0x212A then 107 else r)"

definition fold_text :: "string \<Rightarrow> int list" where
  "fold_text s = map (\<lambda>(r, _). fold_rune (case r of None \<Rightarrow> 0xFFFD | Some r \<Rightarrow> r)) (runes s)"

definition EqualFold :: "string \<Rightarrow> string \<Rightarrow> bool" where
  "EqualFold s t \<longleftrightarrow> fold_text s = fold_text t"

lemma EqualFold_refl [simp]: "EqualFold s s"
  by (simp add: EqualFold_def)

subsection \<open>Escapes\<close>

definition percent :: "char \<Rightarrow> string" where
  "percent c = [CHR ''%'', upper_hex (code c div 16), upper_hex (code c mod 16)]"

text \<open>\<^verbatim>\<open>hex.EncodeToString\<close>.\<close>

definition hex_of :: "bytes \<Rightarrow> string" where
  "hex_of bs = concat (map (\<lambda>b. [hex_digit (unat b div 16), hex_digit (unat b mod 16)]) bs)"

definition path_safe :: "char \<Rightarrow> bool" where
  "path_safe c \<longleftrightarrow> unreserved c \<or> c \<in> set ''$&+,/:;=@''"

definition path_escape :: "string \<Rightarrow> string" where
  "path_escape s = concat (map (\<lambda>c. if path_safe c then [c] else percent c) s)"

definition hex_value :: "char \<Rightarrow> nat option" where
  "hex_value c =
     (if 48 \<le> code c \<and> code c \<le> 57 then Some (code c - 48)
      else if 65 \<le> code c \<and> code c \<le> 70 then Some (code c - 55)
      else if 97 \<le> code c \<and> code c \<le> 102 then Some (code c - 87)
      else None)"

fun unescape :: "bool \<Rightarrow> string \<Rightarrow> string option" where
  "unescape q [] = Some []"
| "unescape q (c # s) =
     (if c = CHR ''%'' then
        (case s of
           a # b # r \<Rightarrow>
             (case (hex_value a, hex_value b) of
                (Some x, Some y) \<Rightarrow> map_option ((#) (char_of (16 * x + y))) (unescape q r)
              | _ \<Rightarrow> None)
         | _ \<Rightarrow> None)
      else map_option ((#) (if q \<and> c = CHR ''+'' then CHR '' '' else c)) (unescape q s))"

definition path_unescape :: "string \<Rightarrow> string option" where "path_unescape s = unescape False s"
definition QueryUnescape :: "string \<Rightarrow> string option" where "QueryUnescape s = unescape True s"

lemma upper_hex_value: "n < 16 \<Longrightarrow> hex_value (upper_hex n) = Some n"
proof -
  have "list_all (\<lambda>n. hex_value (upper_hex n) = Some n) [0..<16]"
    by (simp add: upt_rec hex_value_def upper_hex_def digit_def code_def)
  then show "n < 16 \<Longrightarrow> ?thesis" by (simp add: list_all_iff)
qed

lemma unescape_percent: "unescape q (percent c @ s) = map_option ((#) c) (unescape q s)"
proof -
  have "code c div 16 < 16" "code c mod 16 < 16" using code_less [of c] by auto
  then show ?thesis by (simp add: percent_def upper_hex_value) (simp add: code_def)
qed

lemma path_unescape_escape: "path_unescape (path_escape s) = Some s"
proof (induction s)
  case (Cons c s)
  have percent_sign: "\<not> path_safe (CHR ''%'')" by code_simp
  show ?case
  proof (cases "path_safe c")
    case True
    then have "c \<noteq> CHR ''%''" using percent_sign by metis
    with True Cons.IH show ?thesis by (simp add: path_escape_def path_unescape_def)
  next
    case False
    with Cons.IH show ?thesis by (simp add: path_escape_def path_unescape_def unescape_percent)
  qed
qed (simp add: path_escape_def path_unescape_def)

subsection \<open>Queries\<close>

text \<open>
  \<^verbatim>\<open>url.ParseQuery\<close>: the pairs it could read, in order, and whether it could read them all.
  \<^verbatim>\<open>Values.Encode\<close> sorts by key and keeps the order of one key's values.
\<close>

definition read_pair :: "string \<Rightarrow> (string \<times> string) option" where
  "read_pair p =
     (if CHR '';'' \<in> set p then None
      else case cut_at (CHR ''='') p of (k, v, _) \<Rightarrow>
        (case (QueryUnescape k, QueryUnescape v) of
           (Some k, Some v) \<Rightarrow> Some (k, v)
         | _ \<Rightarrow> None))"

definition ParseQuery :: "string \<Rightarrow> (string \<times> string) list \<times> bool" where
  "ParseQuery s =
     (let pieces = map read_pair (filter (\<lambda>p. p \<noteq> []) (split_at (CHR ''&'') s)) in
      (List.map_filter (\<lambda>p. p) pieces, list_all (\<lambda>p. p \<noteq> None) pieces))"

definition query_get :: "string \<Rightarrow> string \<Rightarrow> string" where
  "query_get query key = (case map_of (fst (ParseQuery query)) key of None \<Rightarrow> [] | Some v \<Rightarrow> v)"

definition Encode :: "(string \<times> string) list \<Rightarrow> string" where
  "Encode q = encode_query (sort_key fst q)"

subsection \<open>Paths\<close>

fun join_with :: "char \<Rightarrow> string list \<Rightarrow> string" where
  "join_with c [] = []"
| "join_with c [s] = s"
| "join_with c (s # t # ss) = s @ c # join_with c (t # ss)"

fun clean_onto :: "string list \<Rightarrow> string list \<Rightarrow> string list" where
  "clean_onto st [] = rev st"
| "clean_onto st (s # ss) =
     (if s = [] \<or> s = ''.'' then clean_onto st ss
      else if s = ''..'' then clean_onto (tl st) ss
      else clean_onto (s # st) ss)"

text \<open>\<^verbatim>\<open>path.Clean\<close> of a path that starts with a slash.\<close>

definition Clean :: "string \<Rightarrow> string" where
  "Clean path = CHR ''/'' # join_with (CHR ''/'') (clean_onto [] (split_at (CHR ''/'') (tl path)))"

definition clean_keeping_slash :: "string \<Rightarrow> string" where
  "clean_keeping_slash path =
     (if has_suffix_char (CHR ''/'') path \<and> \<not> has_suffix_char (CHR ''/'') (Clean path)
      then Clean path @ ''/'' else Clean path)"

text \<open>\<^verbatim>\<open>URL.String\<close> of a URL with a path that starts with a slash, a query and nothing else.\<close>

definition url_string :: "string \<Rightarrow> string \<Rightarrow> string" where
  "url_string path query = path_escape path @ (if query = [] then [] else CHR ''?'' # query)"

subsection \<open>The address of a redirect\<close>

text \<open>
  \<^verbatim>\<open>url.Parse\<close> reads a target that starts with one slash when it has no control character
  before its fragment, and when the path's and the fragment's escapes are whole.
\<close>

definition control :: "char \<Rightarrow> bool" where "control c \<longleftrightarrow> code c < 32 \<or> code c = 127"

definition url_parses :: "string \<Rightarrow> bool" where
  "url_parses target =
     (case cut_at (CHR ''#'') target of (u, fragment, _) \<Rightarrow>
        list_all (\<lambda>c. \<not> control c) u \<and> path_unescape (fst (cut_at (CHR ''?'') u)) \<noteq> None \<and>
        path_unescape fragment \<noteq> None)"

definition hexEscapeNonASCII :: "string \<Rightarrow> string" where
  "hexEscapeNonASCII s = concat (map (\<lambda>c. if code c \<ge> 128
     then [CHR ''%'', hex_digit (code c div 16), hex_digit (code c mod 16)] else [c]) s)"

text \<open>
  The header Location of \<^verbatim>\<open>http.Redirect\<close>: when the target parses, its path is cleaned and
  keeps its last slash; otherwise it is sent as it is.
\<close>

definition Location :: "string \<Rightarrow> string" where
  "Location target = hexEscapeNonASCII
     (if url_parses target
      then (case cut_at (CHR ''?'') target of (path, query, asked) \<Rightarrow>
              clean_keeping_slash path @ (if asked then CHR ''?'' # query else []))
      else target)"

text \<open>
  What the browser asks for next, and what the server reads: the path unescaped, the query
  up to the fragment, which a browser does not send.
\<close>

definition followed :: "string \<Rightarrow> (string \<times> string) option" where
  "followed location =
     (case cut_at (CHR ''?'') (fst (cut_at (CHR ''#'') location)) of (path, query, _) \<Rightarrow>
        map_option (\<lambda>p. (p, query)) (path_unescape path))"

lemma example_clean:
  "Clean ''/en-US/../x//y/.'' = ''/x/y''"
  "clean_keeping_slash ''/en-US//'' = ''/en-US/''"
  "Location (url_string ''/pt-BR/a b/../c/'' ''q=1'') = ''/pt-BR/c/?q=1''"
  by code_simp+

end
