(* ===== verification/Callbacks.thy ===== *)
theory Callbacks
  imports Outbox Leases Urls
begin

text \<open>
  The endpoint Cloud Tasks and Cloud Scheduler call: src/internal/platform/httpx/internaltasks.go.
  Validating a token is Google's library, a parameter: the e-mail of the account it belongs
  to, or why it does not hold. A body that does not decode is \<open>None\<close>.
\<close>

record call =
  call_event :: "event option"
  call_job :: string

record 'w endpoint =
  ep_validate :: "string \<Rightarrow> string \<Rightarrow> string + string"
  ep_audience :: string
  ep_invoker :: string
  ep_registry :: "'w registry"
  ep_run :: "string \<Rightarrow> 'w platform \<Rightarrow> job_error option \<times> 'w platform"

text \<open>\<^verbatim>\<open>strings.CutPrefix\<close>.\<close>

definition CutPrefix :: "string \<Rightarrow> string \<Rightarrow> string option" where
  "CutPrefix s prefix = (if take (length prefix) s = prefix then Some (drop (length prefix) s) else None)"

lemma CutPrefix_Some: "CutPrefix s prefix = Some t \<longleftrightarrow> s = prefix @ t"
proof -
  have "s = prefix @ t \<longleftrightarrow> take (length prefix) s = prefix \<and> drop (length prefix) s = t"
    by (metis append_eq_conv_conj)
  then show ?thesis by (auto simp: CutPrefix_def)
qed

definition StatusNoContent :: nat where "StatusNoContent = 204"
definition StatusBadRequest :: nat where "StatusBadRequest = 400"
definition StatusUnauthorized :: nat where "StatusUnauthorized = 401"
definition StatusInternalServerError :: nat where "StatusInternalServerError = 500"

lemmas statuses = StatusNoContent_def StatusBadRequest_def StatusUnauthorized_def
  StatusInternalServerError_def

definition caller_allowed :: "'w endpoint \<Rightarrow> string \<Rightarrow> bool" where
  "caller_allowed t authorization =
     (case CutPrefix authorization ''Bearer '' of
        None \<Rightarrow> False
      | Some token \<Rightarrow>
          if token = [] then False
          else case ep_validate t token (ep_audience t) of
                 Inl e \<Rightarrow> False
               | Inr email \<Rightarrow> EqualFold email (ep_invoker t))"

definition event_status :: "out_error option \<Rightarrow> nat" where
  "event_status answer =
     (case answer of
        None \<Rightarrow> StatusNoContent
      | Some (UnknownKind kind) \<Rightarrow> StatusBadRequest
      | Some _ \<Rightarrow> StatusInternalServerError)"

definition job_status :: "job_error option \<Rightarrow> nat" where
  "job_status answer =
     (case answer of
        None \<Rightarrow> StatusNoContent
      | Some Busy \<Rightarrow> StatusNoContent
      | Some (UnknownJob name) \<Rightarrow> StatusBadRequest
      | Some _ \<Rightarrow> StatusInternalServerError)"

definition HandleTask :: "'w endpoint \<Rightarrow> string \<Rightarrow> call option \<Rightarrow> (string \<Rightarrow> fate) \<Rightarrow> 'w platform \<Rightarrow>
    nat \<times> 'w platform" where
  "HandleTask t authorization body fates p =
     (if \<not> caller_allowed t authorization then (StatusUnauthorized, p)
      else case body of
        None \<Rightarrow> (StatusBadRequest, p)
      | Some c \<Rightarrow>
          if call_job c \<noteq> [] then
            (case ep_run t (call_job c) p of (answer, p') \<Rightarrow> (job_status answer, p'))
          else case call_event c of
            None \<Rightarrow> (StatusBadRequest, p)
          | Some event \<Rightarrow>
              (case Deliver fates (ep_registry t) event p of (answer, p') \<Rightarrow> (event_status answer, p')))"

subsection \<open>What the queue is told\<close>

lemma event_status_cases:
  "event_status a = StatusNoContent \<longleftrightarrow> a = None"
  "event_status a = StatusBadRequest \<longleftrightarrow> (\<exists>kind. a = Some (UnknownKind kind))"
  "event_status a = StatusInternalServerError \<longleftrightarrow> a \<noteq> None \<and> \<not> (\<exists>kind. a = Some (UnknownKind kind))"
  by (auto simp: event_status_def statuses split: option.splits out_error.splits)

lemma Deliver_unknown: "fst (Deliver fates reg event p) = Some (UnknownKind kind) \<Longrightarrow>
    For reg (ev_kind event) = [] \<and> snd (Deliver fates reg event p) = p"
proof -
  have "fst (deliver_each fates cs event p) \<noteq> Some (UnknownKind kind)" for cs
  proof (induction cs arbitrary: p)
    case (Cons c cs)
    have "fst (deliver_to (fates (co_name c)) c event p) \<noteq> Some (UnknownKind kind)"
      by (auto simp: deliver_to_def claim_event_def tx_defs split: sum.splits prod.splits option.splits if_splits)
    then show ?case using Cons.IH by (auto split: prod.splits option.splits)
  qed simp
  then show "fst (Deliver fates reg event p) = Some (UnknownKind kind) \<Longrightarrow> ?thesis"
    by (auto simp: Deliver_def split: if_splits)
qed

lemma job_status_cases:
  "job_status a = StatusNoContent \<longleftrightarrow> a = None \<or> a = Some Busy"
  "job_status a = StatusBadRequest \<longleftrightarrow> (\<exists>name. a = Some (UnknownJob name))"
  "job_status a \<in> {StatusNoContent, StatusBadRequest, StatusInternalServerError}"
  by (auto simp: job_status_def statuses split: option.splits job_error.splits)

lemma allowed_caller:
  "caller_allowed t authorization \<longleftrightarrow> (\<exists>token email. token \<noteq> [] \<and> authorization = ''Bearer '' @ token \<and>
     ep_validate t token (ep_audience t) = Inr email \<and> EqualFold email (ep_invoker t))"
proof (cases "CutPrefix authorization ''Bearer ''")
  case None
  then have "authorization \<noteq> ''Bearer '' @ token" for token
    using CutPrefix_Some [of authorization "''Bearer ''" token] by simp
  then show ?thesis using None by (simp add: caller_allowed_def)
next
  case (Some token)
  then have "authorization = ''Bearer '' @ token" by (simp only: CutPrefix_Some)
  then show ?thesis using Some by (auto simp: caller_allowed_def split: sum.splits)
qed

lemma unknown_is_unread:
  "(\<exists>kind. fst (Deliver fates reg event p) = Some (UnknownKind kind)) \<longleftrightarrow> For reg (ev_kind event) = []"
proof
  assume "\<exists>kind. fst (Deliver fates reg event p) = Some (UnknownKind kind)"
  then show "For reg (ev_kind event) = []" using Deliver_unknown by blast
qed (simp add: Deliver_def)

lemma called_back:
  assumes "HandleTask t authorization body fates p = (status, p')"
  shows "(if caller_allowed t authorization
     then case body of
         None \<Rightarrow> status = StatusBadRequest \<and> p' = p
       | Some c \<Rightarrow>
           status \<in> {StatusNoContent, StatusBadRequest, StatusInternalServerError} \<and>
           (if call_job c \<noteq> [] then
              p' = snd (ep_run t (call_job c) p) \<and>
              (status = StatusNoContent \<longleftrightarrow> fst (ep_run t (call_job c) p) \<in> {None, Some Busy}) \<and>
              (status = StatusBadRequest \<longleftrightarrow> (\<exists>name. fst (ep_run t (call_job c) p) = Some (UnknownJob name)))
            else case call_event c of
              None \<Rightarrow> status = StatusBadRequest \<and> p' = p
            | Some event \<Rightarrow>
                p' = snd (Deliver fates (ep_registry t) event p) \<and>
                (status = StatusNoContent \<longleftrightarrow> fst (Deliver fates (ep_registry t) event p) = None) \<and>
                (status = StatusBadRequest \<longleftrightarrow> For (ep_registry t) (ev_kind event) = []) \<and>
                (if status = StatusBadRequest then p' = p else True))
     else status = StatusUnauthorized \<and> p' = p)"
proof (cases "caller_allowed t authorization")
  case False
  then show ?thesis using assms by (simp add: HandleTask_def)
next
  case True
  note allowed = True
  show ?thesis
  proof (cases body)
    case None
    then show ?thesis using assms True allowed by (simp add: HandleTask_def)
  next
    case (Some c)
    consider (job) "call_job c \<noteq> []" | (none) "call_job c = []" "call_event c = None"
      | (event) event where "call_job c = []" "call_event c = Some event" by fastforce
    then show ?thesis
    proof cases
      case job
      then have "status = job_status (fst (ep_run t (call_job c) p))" "p' = snd (ep_run t (call_job c) p)"
        using assms True Some by (auto simp: HandleTask_def split: prod.splits)
      then show ?thesis
        using allowed Some job job_status_cases [of "fst (ep_run t (call_job c) p)"] by simp
    next
      case none
      then show ?thesis using assms True allowed Some by (simp add: HandleTask_def)
    next
      case event
      let ?a = "fst (Deliver fates (ep_registry t) event p)"
      have run: "status = event_status ?a" "p' = snd (Deliver fates (ep_registry t) event p)"
        using assms True Some event by (auto simp: HandleTask_def split: prod.splits)
      have bad: "status = StatusBadRequest \<longleftrightarrow> For (ep_registry t) (ev_kind event) = []"
        unfolding run event_status_cases unknown_is_unread by (rule refl)
      moreover have "status = StatusNoContent \<longleftrightarrow> ?a = None" unfolding run by (rule event_status_cases(1))
      moreover have "status \<in> {StatusNoContent, StatusBadRequest, StatusInternalServerError}"
        unfolding run using event_status_cases [of ?a] by auto
      moreover have "if status = StatusBadRequest then p' = p else True"
        using bad run(2) by (simp add: Deliver_def)
      ultimately show ?thesis using allowed Some event run(2) by simp
    qed
  qed
qed


text \<open>An endpoint with one consumer, and a job that is running elsewhere; called by its account.\<close>

definition sample_endpoint :: "nat endpoint" where
  "sample_endpoint = \<lparr>ep_validate = (\<lambda>token audience. if token = ''t'' then Inr ''Tasks@p'' else Inl ''bad''),
     ep_audience = ''https://s'', ep_invoker = ''tasks@p'',
     ep_registry = On KindSend \<lparr>co_name = ''mail.send'', co_handle = (\<lambda>event w. (None, Suc w))\<rparr> NewRegistry,
     ep_run = (\<lambda>name p. (Some (if name = ''sweep'' then Busy else UnknownJob name), p))\<rparr>"

definition calm :: "nat platform" where
  "calm = \<lparr>p_events = [], p_deliveries = [], p_world = 0\<rparr>"


end
