(* ===== verification/TenancyProps.thy ===== *)
theory TenancyProps
  imports Tenancy
begin

text \<open>
  What the resolver promises. Requests resolve side by side over one cache, the database's
  host map changes under them, and a read of it may still be under way when the cache is
  forgotten: every answer is still what the host map said at a moment at most the cache's
  life and one read ago. And what is seeded is what resolves.
\<close>

subsection \<open>Requests side by side\<close>

text \<open>
  \<open>asked\<close> are the requests that found no map: before their read, \<open>None\<close>, and after it the
  moment of the read and the map read. \<open>held\<close> is what the database's map was, and when;
  \<open>answers\<close> what was answered, and when.
\<close>

record visits =
  resolver_of :: resolver
  moment :: time
  map_now :: host_map
  held :: "(time \<times> host_map) set"
  asked :: "(string \<times> (time \<times> host_map) option) list"
  answers :: "(time \<times> string \<times> resolution) list"

inductive host_step :: "visits \<Rightarrow> visits \<Rightarrow> bool" where
  waits: "moment s \<le> t \<Longrightarrow> host_step s (s\<lparr>moment := t, held := held s \<union> {(u, map_now s) | u. moment s \<le> u \<and> u \<le> t}\<rparr>)"
| changes: "host_step s (s\<lparr>map_now := m, held := insert (moment s, m) (held s)\<rparr>)"
| invalidates: "host_step s (s\<lparr>resolver_of := Invalidate (resolver_of s)\<rparr>)"
| answers_itself: "own_host (resolver_of s) (Normalise host) = Some a \<Longrightarrow>
    host_step s (s\<lparr>answers := (moment s, Normalise host, a) # answers s\<rparr>)"
| answers_cached: "own_host (resolver_of s) (Normalise host) = None \<Longrightarrow>
    cached_hosts (resolver_of s) (moment s) = Some hosts \<Longrightarrow>
    host_step s (s\<lparr>answers := (moment s, Normalise host, answer_from hosts (Normalise host)) # answers s\<rparr>)"
| misses: "own_host (resolver_of s) (Normalise host) = None \<Longrightarrow> cached_hosts (resolver_of s) (moment s) = None \<Longrightarrow>
    host_step s (s\<lparr>asked := (Normalise host, None) # asked s\<rparr>)"
| fetches: "(name, None) \<in> set (asked s) \<Longrightarrow>
    host_step s (s\<lparr>asked := (name, Some (moment s, map_now s)) # remove1 (name, None) (asked s)\<rparr>)"
| fails: "(name, None) \<in> set (asked s) \<Longrightarrow> host_step s (s\<lparr>asked := remove1 (name, None) (asked s)\<rparr>)"
| stores: "(name, Some (u, hosts)) \<in> set (asked s) \<Longrightarrow>
    host_step s (s\<lparr>resolver_of := store_hosts hosts (moment s) (resolver_of s),
      asked := remove1 (name, Some (u, hosts)) (asked s),
      answers := (moment s, name, answer_from hosts name) # answers s\<rparr>)"

text \<open>\<open>Resolve\<close>, run alone, is these steps one after the other.\<close>

lemma Resolve_alone:
  "Resolve loaded now later host r =
     (case own_host r (Normalise host) of
        Some a \<Rightarrow> (Some a, r)
      | None \<Rightarrow> (case cached_hosts r now of
          Some hosts \<Rightarrow> (Some (answer_from hosts (Normalise host)), r)
        | None \<Rightarrow> (case loaded of
            None \<Rightarrow> (None, r)
          | Some hosts \<Rightarrow> (Some (answer_from hosts (Normalise host)), store_hosts hosts later r))))"
  by (simp add: Resolve_def load_def Let_def split: option.splits)

text \<open>No request waits longer than \<open>d\<close> between its read and the cache.\<close>

definition reads_within :: "int \<Rightarrow> visits \<Rightarrow> bool" where
  "reads_within d s \<longleftrightarrow> (\<forall>name u hosts. (name, Some (u, hosts)) \<in> set (asked s) \<longrightarrow> moment s \<le> u + d)"

inductive visited :: "int \<Rightarrow> visits \<Rightarrow> visits \<Rightarrow> bool" for d where
  start: "visited d s s"
| goes_on: "visited d s s' \<Longrightarrow> reads_within d s' \<Longrightarrow> host_step s' s'' \<Longrightarrow> visited d s s''"

text \<open>The contract, without cache or concurrency: an answer of a map held at most \<open>age\<close> ago.\<close>

definition rightly :: "resolver \<Rightarrow> (time \<times> host_map) set \<Rightarrow> int \<Rightarrow> time \<times> string \<times> resolution \<Rightarrow> bool" where
  "rightly r H age = (\<lambda>(t, name, a).
     (case own_host r name of
        Some b \<Rightarrow> a = b
      | None \<Rightarrow> \<exists>(u, m) \<in> H. t - age \<le> u \<and> u \<le> t \<and> a = answer_from m name))"

lemma rightly_mono: "rightly r H age x \<Longrightarrow> H \<subseteq> H' \<Longrightarrow> rightly r H' age x"
  by (cases x) (fastforce simp: rightly_def split: option.splits)

lemma rightly_from:
  "own_host r name = None \<Longrightarrow> (u, m) \<in> H \<Longrightarrow> t - age \<le> u \<Longrightarrow> u \<le> t \<Longrightarrow> rightly r H age (t, name, answer_from m name)"
  unfolding rightly_def by fastforce

lemma own_host_cache: "own_host (r\<lparr>re_cache := c\<rparr>) name = own_host r name"
  by (simp add: own_host_def)

definition fair :: "resolver \<Rightarrow> int \<Rightarrow> visits \<Rightarrow> bool" where
  "fair r d s \<longleftrightarrow>
     (\<exists>c. resolver_of s = r\<lparr>re_cache := c\<rparr>) \<and> (moment s, map_now s) \<in> held s \<and>
     (\<forall>m t. re_cache (resolver_of s) = Some (m, t) \<longrightarrow> (\<exists>u. (u, m) \<in> held s \<and> t - d \<le> u \<and> u \<le> t \<and> t \<le> moment s)) \<and>
     (\<forall>name x. (name, x) \<in> set (asked s) \<longrightarrow> own_host r name = None \<and>
        (\<forall>u m. x = Some (u, m) \<longrightarrow> (u, m) \<in> held s \<and> u \<le> moment s)) \<and>
     (\<forall>x \<in> set (answers s). rightly r (held s) (re_ttl r + d) x)"

lemma fairD:
  assumes "fair r d s"
  shows "\<exists>c. resolver_of s = r\<lparr>re_cache := c\<rparr>" "(moment s, map_now s) \<in> held s"
    "re_cache (resolver_of s) = Some (m, t) \<Longrightarrow> \<exists>u. (u, m) \<in> held s \<and> t - d \<le> u \<and> u \<le> t \<and> t \<le> moment s"
    "(name, x) \<in> set (asked s) \<Longrightarrow> own_host r name = None"
    "(name, Some (u, m)) \<in> set (asked s) \<Longrightarrow> (u, m) \<in> held s \<and> u \<le> moment s"
    "x' \<in> set (answers s) \<Longrightarrow> rightly r (held s) (re_ttl r + d) x'"
  using assms unfolding fair_def by blast+

lemma fairI:
  assumes "\<exists>c. resolver_of s = r\<lparr>re_cache := c\<rparr>" and "(moment s, map_now s) \<in> held s"
    and "\<And>m t. re_cache (resolver_of s) = Some (m, t) \<Longrightarrow> \<exists>u. (u, m) \<in> held s \<and> t - d \<le> u \<and> u \<le> t \<and> t \<le> moment s"
    and "\<And>name x. (name, x) \<in> set (asked s) \<Longrightarrow> own_host r name = None"
    and "\<And>name u m. (name, Some (u, m)) \<in> set (asked s) \<Longrightarrow> (u, m) \<in> held s \<and> u \<le> moment s"
    and "\<And>x. x \<in> set (answers s) \<Longrightarrow> rightly r (held s) (re_ttl r + d) x"
  shows "fair r d s"
  using assms unfolding fair_def by blast

lemma fair_own: "fair r d s \<Longrightarrow> own_host (resolver_of s) name = own_host r name \<and> re_ttl (resolver_of s) = re_ttl r"
  using fairD(1) by (fastforce simp: own_host_cache)

lemma in_remove1D: "x \<in> set (remove1 y xs) \<Longrightarrow> x \<in> set xs"
  by (metis notin_set_remove1)

text \<open>More moments and maps held keep what was fair.\<close>

lemma fair_held:
  assumes "fair r d s" and "held s \<subseteq> H" and "moment s \<le> t" and "(t, m) \<in> H"
  shows "fair r d (s\<lparr>moment := t, map_now := m, held := H\<rparr>)"
proof (rule fairI, goal_cases)
  case (3 m t)
  then show ?case using fairD(3) [OF assms(1), of m t] assms(2,3) by (simp, meson order_trans subsetD)
next
  case (5 name u m)
  then show ?case using fairD(5) [OF assms(1), of name u m] assms(2,3) by (simp, meson order_trans subsetD)
next
  case (6 x)
  then show ?case using rightly_mono [OF fairD(6) [OF assms(1), of x] assms(2)] by simp
qed (use fairD(1) [OF assms(1)] fairD(4) [OF assms(1)] assms(4) in simp_all)

text \<open>One answer more, that is right.\<close>

lemma fair_answer:
  assumes "fair r d s" and "rightly r (held s) (re_ttl r + d) x"
  shows "fair r d (s\<lparr>answers := x # answers s\<rparr>)"
proof (rule fairI, goal_cases)
  case (3 m t)
  then show ?case using fairD(3) [OF assms(1), of m t] by simp
next
  case (5 name u m)
  then show ?case using fairD(5) [OF assms(1), of name u m] by simp
next
  case (6 y)
  then show ?case using fairD(6) [OF assms(1), of y] assms(2) by auto
qed (use fairD(1,2) [OF assms(1)] fairD(4) [OF assms(1)] in simp_all)

lemma fair_asked:
  assumes "fair r d s" and "\<And>name x. (name, x) \<in> set xs \<Longrightarrow> (name, x) \<in> set (asked s) \<or>
    own_host r name = None \<and> (\<forall>u m. x = Some (u, m) \<longrightarrow> (u, m) \<in> held s \<and> u \<le> moment s)"
  shows "fair r d (s\<lparr>asked := xs\<rparr>)"
proof (rule fairI, goal_cases)
  case (3 m t)
  then show ?case using fairD(3) [OF assms(1), of m t] by simp
next
  case (4 name x)
  then show ?case using fairD(4) [OF assms(1), of name x] assms(2) [of name x] by auto
next
  case (5 name u m)
  then show ?case using fairD(5) [OF assms(1), of name u m] assms(2) [of name "Some (u, m)"] by auto
qed (use fairD(1,2) [OF assms(1)] fairD(6) [OF assms(1)] in simp_all)

lemma fair_cache:
  assumes "fair r d s" and "\<exists>c. q = r\<lparr>re_cache := c\<rparr>"
    and "\<And>m t. re_cache q = Some (m, t) \<Longrightarrow> \<exists>u. (u, m) \<in> held s \<and> t - d \<le> u \<and> u \<le> t \<and> t \<le> moment s"
  shows "fair r d (s\<lparr>resolver_of := q\<rparr>)"
proof (rule fairI, goal_cases)
  case (3 m t)
  then show ?case using assms(3) [of m t] by simp
next
  case (5 name u m)
  then show ?case using fairD(5) [OF assms(1), of name u m] by simp
qed (use fairD(2) [OF assms(1)] fairD(4,6) [OF assms(1)] assms(2) in simp_all)

lemma fair_step:
  assumes "host_step s s'" and fair: "fair r d s" and "reads_within d s" and ttl: "0 \<le> re_ttl r" and "0 \<le> d"
  shows "fair r d s'"
  using assms(1)
proof (cases rule: host_step.cases)
  case (waits t)
  have "fair r d (s\<lparr>moment := t, map_now := map_now s, held := held s \<union> {(u, map_now s) | u. moment s \<le> u \<and> u \<le> t}\<rparr>)"
    by (rule fair_held [OF fair]) (use waits(2) in auto)
  then show ?thesis unfolding waits(1) by simp
next
  case (changes m)
  have "fair r d (s\<lparr>moment := moment s, map_now := m, held := insert (moment s, m) (held s)\<rparr>)"
    by (rule fair_held [OF fair]) auto
  then show ?thesis unfolding changes by simp
next
  case invalidates
  show ?thesis unfolding invalidates
    by (rule fair_cache [OF fair]) (use fairD(1) [OF fair] in \<open>auto simp: Invalidate_def\<close>)
next
  case (answers_itself host a)
  show ?thesis unfolding answers_itself(1)
    by (rule fair_answer [OF fair]) (use answers_itself(2) fair_own [OF fair] in \<open>simp add: rightly_def\<close>)
next
  case (answers_cached host hosts)
  obtain t where t: "re_cache (resolver_of s) = Some (hosts, t)" "moment s - t < re_ttl r"
    using answers_cached(3) fair_own [OF fair] by (auto simp: cached_hosts_def split: option.splits if_splits)
  obtain u where u: "(u, hosts) \<in> held s" "t - d \<le> u" "u \<le> t" "t \<le> moment s"
    using fairD(3) [OF fair t(1)] by blast
  have "moment s - (re_ttl r + d) \<le> u" "u \<le> moment s" using t(2) u by linarith+
  then have "rightly r (held s) (re_ttl r + d) (moment s, Normalise host, answer_from hosts (Normalise host))"
    using rightly_from [OF _ u(1)] answers_cached(2) fair_own [OF fair] by simp
  then show ?thesis unfolding answers_cached(1) by (rule fair_answer [OF fair])
next
  case (misses host)
  show ?thesis unfolding misses(1)
    by (rule fair_asked [OF fair]) (use misses(2) fair_own [OF fair] in auto)
next
  case (fetches name)
  have "own_host r name = None" using fairD(4) [OF fair fetches(2)] .
  then show ?thesis unfolding fetches(1)
    by (intro fair_asked [OF fair]) (use fairD(2) [OF fair] in \<open>auto dest: in_remove1D\<close>)
next
  case (fails name)
  show ?thesis unfolding fails(1)
    by (rule fair_asked [OF fair]) (auto dest: in_remove1D)
next
  case (stores name u hosts)
  have u: "(u, hosts) \<in> held s" "u \<le> moment s" "own_host r name = None"
    using fairD(4,5) [OF fair] stores(2) by blast+
  have near: "moment s - d \<le> u"
    using assms(3) stores(2) unfolding reads_within_def by force
  let ?q = "store_hosts hosts (moment s) (resolver_of s)"
  have "rightly r (held s) (re_ttl r + d) (moment s, name, answer_from hosts name)"
    using rightly_from [OF u(3,1) _ u(2), of "re_ttl r + d"] near ttl by simp
  moreover have "\<exists>c. ?q = r\<lparr>re_cache := c\<rparr>" "re_cache ?q = Some (hosts, moment s)"
    using fairD(1) [OF fair] by (auto simp: store_hosts_def)
  then have "fair r d (s\<lparr>resolver_of := ?q\<rparr>)"
    by (intro fair_cache [OF fair]) (use u near in auto)
  then have "fair r d (s\<lparr>resolver_of := ?q, asked := remove1 (name, Some (u, hosts)) (asked s)\<rparr>)"
    by (rule fair_asked) (auto dest: in_remove1D)
  ultimately show ?thesis unfolding stores(1)
    using fair_answer [of r d "s\<lparr>resolver_of := ?q, asked := remove1 (name, Some (u, hosts)) (asked s)\<rparr>"] by simp
qed

lemma visited_fair:
  "visited d s s' \<Longrightarrow> fair r d s \<Longrightarrow> 0 \<le> re_ttl r \<Longrightarrow> 0 \<le> d \<Longrightarrow> fair r d s'"
  by (induction rule: visited.induct) (auto intro: fair_step)

text \<open>The state an instance starts in.\<close>

definition fresh_visits :: "string \<Rightarrow> string \<Rightarrow> time \<Rightarrow> host_map \<Rightarrow> visits" where
  "fresh_visits platform console t m =
     \<lparr>resolver_of = WithConsoleHost console (NewResolver platform), moment = t, map_now = m, held = {(t, m)},
      asked = [], answers = []\<rparr>"

text \<open>
  C29. The resolver refines the lookup it stands for. However requests, reads of the host map,
  changes of it and \<open>Invalidate\<close> interleave, every answer is the one the platform's hosts
  give, or the one of a host map the database held at most thirty seconds and one read
  before the answer. So when the map has been the same for that long, every answer is its.
\<close>

theorem answers_are_recent:
  assumes "visited d (fresh_visits platform console t m) s" and "0 \<le> d" and "(now, name, a) \<in> set (answers s)"
  shows "(case own_host (WithConsoleHost console (NewResolver platform)) name of
       Some b \<Rightarrow> a = b
     | None \<Rightarrow> (\<exists>(u, hosts) \<in> held s. now - (30 * second + d) \<le> u \<and> u \<le> now \<and> a = answer_from hosts name) \<and>
         (\<forall>hosts. (\<forall>(u, h) \<in> held s. now - (30 * second + d) \<le> u \<longrightarrow> h = hosts) \<longrightarrow> a = answer_from hosts name))"
proof -
  let ?r = "WithConsoleHost console (NewResolver platform)"
  have ttl: "re_ttl ?r = 30 * second" by (simp add: WithConsoleHost_def NewResolver_def defaultTTL_def)
  have "?r\<lparr>re_cache := None\<rparr> = ?r" by (simp add: WithConsoleHost_def NewResolver_def)
  then have "fair ?r d (fresh_visits platform console t m)"
    unfolding fair_def fresh_visits_def by (auto intro: exI [of _ None] simp: WithConsoleHost_def NewResolver_def)
  then have "fair ?r d s"
    by (rule visited_fair [OF assms(1)]) (simp_all add: ttl second_def assms(2))
  then have right: "rightly ?r (held s) (30 * second + d) (now, name, a)"
    using fairD(6) assms(3) ttl by metis
  then show ?thesis by (fastforce simp: rightly_def split: option.splits)
qed

definition shop :: marketplace where
  "shop = \<lparr>mp_id = ''m1'', mp_slug = ''shop'', mp_name = ''Shop'', mp_market = ''BR'', mp_revenue = ''commission'',
     mp_state = Active, mp_language = ''en-US'', mp_languages = [''en-US''], mp_detect = True, mp_reveal = False\<rparr>"

definition shop_map :: host_map where
  "shop_map = [''shop.example'' \<mapsto> shop]"

lemma shop_unowned: "own_host (WithConsoleHost [] (NewResolver [])) ''shop.example'' = None"
  by code_simp

lemma shop_name: "Normalise ''Shop.example:8080'' = ''shop.example''"
  by code_simp

text \<open>A request that asks, reads and stores, one step after the other.\<close>

lemma one_visit:
  assumes "own_host (resolver_of s) (Normalise host) = None" and "cached_hosts (resolver_of s) (moment s) = None"
    and "asked s = []" and "0 \<le> d" and "visited d s0 s"
  shows "visited d s0 (s\<lparr>resolver_of := store_hosts (map_now s) (moment s) (resolver_of s), asked := [],
    answers := (moment s, Normalise host, answer_from (map_now s) (Normalise host)) # answers s\<rparr>)"
proof -
  let ?n = "Normalise host"
  let ?s1 = "s\<lparr>asked := [(?n, None)]\<rparr>" and ?s2 = "s\<lparr>asked := [(?n, Some (moment s, map_now s))]\<rparr>"
  have 1: "visited d s0 ?s1"
    using visited.goes_on [OF assms(5) _ misses [OF assms(1,2)]] assms(3) by (simp add: reads_within_def)
  have 2: "visited d s0 ?s2"
    using visited.goes_on [OF 1 _ fetches [of ?n]] by (simp add: reads_within_def)
  show ?thesis
    using visited.goes_on [OF 2 _ stores [of ?n "moment s" "map_now s"]] assms(4) by (simp add: reads_within_def)
qed

theorem answers_are_recent_witness:
  "case own_host (WithConsoleHost [] (NewResolver [])) ''shop.example'' of
     Some b \<Rightarrow> MarketplaceHost shop = b
   | None \<Rightarrow> (\<exists>(u, hosts) \<in> {(0, shop_map)}. 0 - (30 * second + 2 * second) \<le> u \<and> u \<le> 0 \<and>
        MarketplaceHost shop = answer_from hosts ''shop.example'')"
proof -
  let ?begun = "fresh_visits [] [] 0 shop_map"
  let ?s = "?begun\<lparr>resolver_of := store_hosts shop_map 0 (resolver_of ?begun), asked := [],
    answers := [(0, ''shop.example'', answer_from shop_map ''shop.example'')]\<rparr>"
  have begun: "resolver_of ?begun = WithConsoleHost [] (NewResolver [])" "moment ?begun = 0" "map_now ?begun = shop_map"
    "asked ?begun = []" "answers ?begun = []"
    by (simp_all add: fresh_visits_def)
  have cached: "cached_hosts (resolver_of ?begun) (moment ?begun) = None"
    by (simp add: begun cached_hosts_def WithConsoleHost_def NewResolver_def)
  have own: "own_host (resolver_of ?begun) (Normalise ''Shop.example:8080'') = None"
    by (simp only: shop_name begun shop_unowned)
  have "visited (2 * second) ?begun (?begun\<lparr>resolver_of := store_hosts (map_now ?begun) (moment ?begun) (resolver_of ?begun), asked := [],
      answers := (moment ?begun, Normalise ''Shop.example:8080'', answer_from (map_now ?begun) (Normalise ''Shop.example:8080'')) # answers ?begun\<rparr>)"
    by (rule one_visit [OF own cached begun(4) _ visited.start]) (simp add: second_def)
  then have "visited (2 * second) ?begun ?s" by (simp only: shop_name begun)
  from answers_are_recent [OF this, of 0 "''shop.example''" "MarketplaceHost shop"] show ?thesis
    unfolding shop_unowned by (simp add: fresh_visits_def answer_from_def shop_map_def second_def)
qed

text \<open>
  \<open>Invalidate\<close> makes the next request that begins read again; it does not reach a read under
  way, whose map is stored afterwards and served until it is as old as the cache's life.
\<close>

lemma invalidated_reads_again:
  "own_host r (Normalise host) = None \<Longrightarrow>
    fst (Resolve (Some hosts) now later host (Invalidate r)) = Some (answer_from hosts (Normalise host))"
  using own_host_cache [where r = r] by (simp add: Resolve_alone Invalidate_def cached_hosts_def)

lemma read_under_way_survives_invalidate:
  "now - later < re_ttl r \<Longrightarrow> cached_hosts (store_hosts before later (Invalidate r)) now = Some before"
  by (simp add: cached_hosts_def store_hosts_def Invalidate_def)

end
