(* ===== verification/SeedProps.thy ===== *)
theory SeedProps
  imports TenancyProps
begin

text \<open>
  What an environment declares is what its hosts resolve to: from \<open>Seed\<close> over the tables, the
  host map read back, to the resolver and the middleware.
\<close>

subsection \<open>Reading the map back\<close>

text \<open>The rows of hosts, each its own normal form and each once.\<close>

definition tenant_ok :: "tenant_db \<Rightarrow> bool" where
  "tenant_ok d \<longleftrightarrow> distinct (map mr_id (td_marketplaces d)) \<and> distinct (map mr_slug (td_marketplaces d)) \<and>
     distinct (map fst (td_hosts d)) \<and> list_all (\<lambda>(h, i). Normalise h = h) (td_hosts d)"

definition row_with :: "tenant_db \<Rightarrow> string \<Rightarrow> market_row option" where
  "row_with d mid = find (\<lambda>m. mr_id m = mid) (td_marketplaces d)"

lemma row_with_id: "row_with d mid = Some m \<Longrightarrow> mr_id m = mid"
  by (auto simp: row_with_def find_Some_iff)

lemma read_hosts:
  "(\<And>h m. (h, m) \<in> set xs \<Longrightarrow> f (mp_id m) = m) \<Longrightarrow> (\<And>i m. b i = Some m \<Longrightarrow> m = f i) \<Longrightarrow>
    snd (fold read_host xs (b, hosts)) = hosts ++ map_of (rev (map (\<lambda>(h, m). (Normalise h, m)) xs))"
proof (induction xs arbitrary: b hosts)
  case (Cons x xs)
  obtain h m where x: "x = (h, m)" by (cases x)
  have m: "f (mp_id m) = m" by (rule Cons.prems(1) [of h]) (simp add: x)
  have "read_host x (b, hosts) = (b(mp_id m \<mapsto> m), hosts(Normalise h \<mapsto> m))"
    using Cons.prems(2) m by (auto simp: read_host_def x Let_def split: option.splits)
  moreover have "snd (fold read_host xs (b(mp_id m \<mapsto> m), hosts(Normalise h \<mapsto> m))) =
      hosts(Normalise h \<mapsto> m) ++ map_of (rev (map (\<lambda>(h, m). (Normalise h, m)) xs))"
    by (rule Cons.IH) (use Cons.prems m in \<open>auto split: if_splits\<close>)
  ultimately show ?case by (simp add: x)
qed simp

lemma map_of_joined:
  "distinct (map fst rows) \<Longrightarrow>
    map_of (List.map_filter (\<lambda>(h, i). map_option (\<lambda>m. (h, g m)) (r i)) rows) n =
    (case map_of rows n of None \<Rightarrow> None | Some i \<Rightarrow> map_option g (r i))"
proof (induction rows)
  case (Cons x rows)
  obtain h i where x: "x = (h, i)" by (cases x)
  have "map_of rows h = None" using Cons.prems by (simp add: x map_of_eq_None_iff)
  then show ?case using Cons by (auto simp: x split: option.splits)
qed simp

lemma in_joined:
  "(h, x) \<in> set (List.map_filter (\<lambda>(h, i). map_option (\<lambda>m. (h, g m)) (r i)) rows) \<Longrightarrow>
    \<exists>i m. (h, i) \<in> set rows \<and> r i = Some m \<and> x = g m"
proof (induction rows)
  case (Cons y rows)
  obtain k i where "y = (k, i)" by (cases y)
  then show ?case using Cons by (cases "r i") auto
qed simp

lemma fst_joined: "fst ` set (List.map_filter (\<lambda>(h, i). map_option (\<lambda>m. (h, g m)) (r i)) rows) \<subseteq> fst ` set rows"
  by (induction rows) (auto split: option.splits)

lemma distinct_joined:
  "distinct (map fst rows) \<Longrightarrow> distinct (map fst (List.map_filter (\<lambda>(h, i). map_option (\<lambda>m. (h, g m)) (r i)) rows))"
proof (induction rows)
  case (Cons x rows)
  obtain h i where x: "x = (h, i)" by (cases x)
  have "h \<notin> fst ` set (List.map_filter (\<lambda>(h, i). map_option (\<lambda>m. (h, g m)) (r i)) rows)"
    using fst_joined [of g r rows] Cons.prems by (auto simp: x)
  then show ?case using Cons by (auto simp: x split: option.splits)
qed simp

lemma map_of_rev_distinct: "distinct (map fst xs) \<Longrightarrow> map_of (rev xs) = map_of xs"
  by (rule map_of_inject_set [THEN iffD2]) (simp_all add: rev_map [symmetric])

lemma Hosts_is_join:
  assumes "tenant_ok d"
  shows "Hosts d n = (case map_of (td_hosts d) n of
    None \<Rightarrow> None | Some i \<Rightarrow> map_option (marketplace_of d) (row_with d i))"
proof -
  let ?rows = "tenancy_host_map d"
  have rows: "?rows = List.map_filter (\<lambda>(h, i). map_option (\<lambda>m. (h, marketplace_of d m)) (row_with d i)) (td_hosts d)"
    by (simp add: tenancy_host_map_def row_with_def)
  have hosts: "distinct (map fst (td_hosts d))" using assms by (simp add: tenant_ok_def)
  have stable: "Normalise h = h" if "(h, m) \<in> set ?rows" for h m
  proof -
    have "h \<in> fst ` set ?rows" by (rule rev_image_eqI [OF that]) simp
    then have "h \<in> fst ` set (td_hosts d)" unfolding rows by (rule subsetD [OF fst_joined])
    then obtain i where "(h, i) \<in> set (td_hosts d)" by (metis imageE prod.collapse)
    moreover have "\<forall>x \<in> set (td_hosts d). case x of (h, i) \<Rightarrow> Normalise h = h"
      using assms unfolding tenant_ok_def list_all_iff by blast
    ultimately show ?thesis by blast
  qed
  then have same: "map (\<lambda>(h, m). (Normalise h, m)) ?rows = ?rows"
    by (auto intro: map_idI)
  have "marketplace_of d (the (row_with d (mp_id m))) = m" if read: "(h, m) \<in> set ?rows" for h m
  proof -
    obtain i row where "row_with d i = Some row" "m = marketplace_of d row"
      using in_joined [OF read [unfolded rows]] by blast
    then show ?thesis using row_with_id by (fastforce simp: marketplace_of_def)
  qed
  then have "Hosts d = Map.empty ++ map_of (rev (map (\<lambda>(h, m). (Normalise h, m)) ?rows))"
    unfolding Hosts_def by (intro read_hosts [where f = "\<lambda>i. marketplace_of d (the (row_with d i))"]) auto
  also have "\<dots> = map_of ?rows"
    unfolding same unfolding empty_map_add rows by (rule map_of_rev_distinct [OF distinct_joined [OF hosts]])
  finally show ?thesis using map_of_joined [OF hosts] by (simp add: rows)
qed

subsection \<open>One declaration\<close>

text \<open>A host that leads to what a declaration says.\<close>

definition routed :: "tenant_db \<Rightarrow> string \<Rightarrow> string \<Rightarrow> spec \<Rightarrow> bool" where
  "routed d host mid s \<longleftrightarrow> map_of (td_hosts d) host = Some mid \<and> row_with d mid = Some (row_for mid s) \<and>
     set (languages_of d mid) = set (all_languages s)"

lemma put_host_map: "map_of (put_host mid host rows) = (map_of rows)(host \<mapsto> mid)"
proof (cases "host \<in> fst ` set rows")
  case True
  then have "map_of (update_where (\<lambda>r. fst r = host) (\<lambda>r. (host, mid)) rows) = (map_of rows)(host \<mapsto> mid)"
  proof (induction rows)
    case (Cons r rows)
    have gone: "map_of (update_where (\<lambda>r. fst r = host) (\<lambda>r. (host, mid)) rows) n = map_of rows n" if "n \<noteq> host" for n
      using that by (induction rows) (auto simp: update_where_def)
    show ?case
    proof (cases "fst r = host")
      case True
      then show ?thesis using gone by (intro ext) (auto simp: update_where_def)
    next
      case False
      then have "host \<in> fst ` set rows" using Cons.prems by auto
      then show ?thesis using Cons.IH False by (cases r) (auto simp: update_where_def fun_upd_twist)
    qed
  qed simp
  then show ?thesis using True by (simp add: put_host_def)
next
  case False
  then have "map_of rows host = None" by (simp add: map_of_eq_None_iff)
  then show ?thesis using False by (intro ext) (auto simp: put_host_def map_add_def split: option.splits)
qed

lemma fst_put_host: "fst ` set (put_host mid host rows) = insert host (fst ` set rows)"
proof -
  have "dom (map_of (put_host mid host rows)) = insert host (dom (map_of rows))" by (simp add: put_host_map)
  then show ?thesis by (simp add: dom_map_of_conv_image_fst)
qed

lemma distinct_put_host: "distinct (map fst rows) \<Longrightarrow> distinct (map fst (put_host mid host rows))"
  by (auto simp: put_host_def map_update_where)

lemma put_hosts_map: "map_of (fold (put_host mid) hosts rows) n =
    (if n \<in> set hosts then Some mid else map_of rows n)"
  by (induction hosts arbitrary: rows) (auto simp: put_host_map)

lemma fst_put_hosts: "fst ` set (fold (put_host mid) hosts rows) = set hosts \<union> fst ` set rows"
  by (induction hosts arbitrary: rows) (auto simp: fst_put_host)

lemma distinct_put_hosts: "distinct (map fst rows) \<Longrightarrow> distinct (map fst (fold (put_host mid) hosts rows))"
  by (induction hosts arbitrary: rows) (simp_all add: distinct_put_host)

lemma keep_hosts_map: "distinct (map fst rows) \<Longrightarrow>
    map_of (keep_hosts mid hosts rows) n = (case map_of rows n of
      None \<Rightarrow> None | Some i \<Rightarrow> if i = mid \<and> n \<notin> set hosts then None else Some i)"
proof (induction rows)
  case (Cons r rows)
  obtain h i where r: "r = (h, i)" by (cases r)
  have "map_of rows h = None" using Cons.prems by (simp add: r map_of_eq_None_iff)
  then show ?case using Cons by (auto simp: r keep_hosts_def delete_where_def split: option.splits)
qed (simp add: keep_hosts_def delete_where_def)

lemma keep_hosts_fst:
  "fst ` set (keep_hosts mid hosts rows) \<subseteq> fst ` set rows"
  "distinct (map fst rows) \<Longrightarrow> distinct (map fst (keep_hosts mid hosts rows))"
  by (auto simp: keep_hosts_def delete_where_def distinct_map_filter)

lemma add_languages_set: "set (add_languages mid ls rows) = set rows \<union> {mid} \<times> set ls"
  by (induction ls arbitrary: rows) auto

lemma set_languages_of: "set (languages_of d i) = {l. (i, l) \<in> set (td_languages d)}"
  by (force simp: languages_of_def)

text \<open>The languages of the marketplace after the two statements, and of any other.\<close>

lemma languages_after:
  "{l. (i, l) \<in> set (add_languages mid ls (keep_languages mid ls rows))} =
     (if i = mid then set ls else {l. (i, l) \<in> set rows})"
  by (auto simp: add_languages_set keep_languages_def delete_where_def)

lemma find_row_update: "(\<And>r. mr_id (h r) = mr_id r) \<Longrightarrow>
    find (\<lambda>m. mr_id m = i) (update_where p h rows) =
    map_option (\<lambda>m. if p m then h m else m) (find (\<lambda>m. mr_id m = i) rows)"
  by (induction rows) (auto simp: update_where_def)

lemma find_row: "q \<in> set rows \<Longrightarrow> distinct (map mr_id rows) \<Longrightarrow> find (\<lambda>m. mr_id m = mr_id q) rows = Some q"
  by (induction rows) auto

lemma put_marketplace_row:
  assumes "put_marketplace gen s d = Inr ((mid, created), d')" and "distinct (map mr_slug (td_marketplaces d))"
    and "distinct (map mr_id (td_marketplaces d))"
  shows "row_with d' mid = Some (row_for mid s)" "td_hosts d' = td_hosts d" "td_languages d' = td_languages d"
    "distinct (map mr_id (td_marketplaces d'))" "distinct (map mr_slug (td_marketplaces d'))"
    "row_with d i = Some m \<Longrightarrow> mr_slug m \<noteq> sp_slug s \<Longrightarrow> i \<noteq> mid \<and> row_with d' i = Some m"
proof -
  have only: "row_with d' mid = Some (row_for mid s) \<and> td_hosts d' = td_hosts d \<and> td_languages d' = td_languages d \<and>
      distinct (map mr_id (td_marketplaces d')) \<and> distinct (map mr_slug (td_marketplaces d')) \<and>
      (row_with d i = Some m \<longrightarrow> mr_slug m \<noteq> sp_slug s \<longrightarrow> i \<noteq> mid \<and> row_with d' i = Some m)" for i m
  proof (cases "find (\<lambda>m. mr_slug m = sp_slug s) (td_marketplaces d)")
    case None
    then have new: "mid = gen d" "gen d \<notin> mr_id ` set (td_marketplaces d)"
      "d' = d\<lparr>td_marketplaces := td_marketplaces d @ [row_for (gen d) s]\<rparr>"
      using assms(1) by (auto simp: put_marketplace_def split: if_splits)
    have "find (\<lambda>m. mr_id m = gen d) (td_marketplaces d) = None"
      using new(2) unfolding find_None_iff by (metis imageI)
    moreover have "sp_slug s \<notin> mr_slug ` set (td_marketplaces d)" using None by (auto simp: find_None_iff)
    moreover have "find P (xs @ [x]) = (case find P xs of Some y \<Rightarrow> Some y | None \<Rightarrow> if P x then Some x else None)"
      for P :: "market_row \<Rightarrow> bool" and xs x by (induction xs) auto
    ultimately show ?thesis
      using new assms(2,3) by (auto simp: row_with_def row_for_def)
  next
    case (Some q)
    then have q: "q \<in> set (td_marketplaces d)" "mr_slug q = sp_slug s" by (auto simp: find_Some_iff)
    let ?p = "\<lambda>m. mr_slug m = sp_slug s" and ?h = "\<lambda>m. row_for (mr_id m) s"
    have up: "mid = mr_id q" "d' = d\<lparr>td_marketplaces := update_where ?p ?h (td_marketplaces d)\<rparr>"
      using assms(1) Some by (auto simp: put_marketplace_def split: if_splits)
    have h: "mr_id (?h m) = mr_id m" "mr_slug (?h m) = sp_slug s" for m by (simp_all add: row_for_def)
    have row: "row_with d' i = map_option (\<lambda>m. if ?p m then ?h m else m) (row_with d i)" for i
      unfolding up row_with_def by (simp add: find_row_update h)
    have mine: "row_with d mid = Some q"
      using q(1) assms(3) unfolding up(1) row_with_def by (rule find_row)
    have other: "i \<noteq> mid" if "row_with d i = Some m" "mr_slug m \<noteq> sp_slug s" for i m
      using that mine q(2) by auto
    have "map mr_id (td_marketplaces d') = map mr_id (td_marketplaces d)"
      "map mr_slug (td_marketplaces d') = map mr_slug (td_marketplaces d)"
      by (auto simp: up(2) update_where_def h)
    then show ?thesis using row mine q(2) up(2) assms(2,3) other up(1) by simp
  qed
  then show "row_with d' mid = Some (row_for mid s)" "td_hosts d' = td_hosts d" "td_languages d' = td_languages d"
    "distinct (map mr_id (td_marketplaces d'))" "distinct (map mr_slug (td_marketplaces d'))"
    "row_with d i = Some m \<Longrightarrow> mr_slug m \<noteq> sp_slug s \<Longrightarrow> i \<noteq> mid \<and> row_with d' i = Some m"
    by blast+
qed

text \<open>Declared hosts that a second normalisation leaves alone, as the names of hosts are.\<close>

definition stable_hosts :: "spec \<Rightarrow> bool" where
  "stable_hosts s \<longleftrightarrow> list_all (\<lambda>h. Normalise (Normalise h) = Normalise h) (sp_hosts s)"

abbreviation names_of :: "spec \<Rightarrow> string list" where
  "names_of s \<equiv> map Normalise (sp_hosts s)"

lemma seedOne_Inr:
  "seedOne gen s d = Inr (a, d') \<longleftrightarrow> (\<exists>mid created d1. put_marketplace gen s d = Inr ((mid, created), d1) \<and>
     list_all host_allowed (names_of s) \<and> distinct (names_of s) \<and> a = \<lparr>ap_spec = s, ap_id = mid, ap_created = created\<rparr> \<and>
     d' = d1\<lparr>td_languages := add_languages mid (all_languages s) (keep_languages mid (all_languages s) (td_languages d1)),
       td_hosts := fold (put_host mid) (names_of s) (keep_hosts mid (names_of s) (td_hosts d1))\<rparr>)"
  by (auto simp: seedOne_def Let_def add_hosts_def tx_simps split: prod.splits)

lemma seedOne_routes:
  assumes "seedOne gen s d = Inr (a, d')" and ok: "tenant_ok d" and "stable_hosts s"
  shows "tenant_ok d'" "h \<in> set (sp_hosts s) \<Longrightarrow> routed d' (Normalise h) (ap_id a) s"
    "routed d n i q \<Longrightarrow> sp_slug q \<noteq> sp_slug s \<Longrightarrow> n \<notin> set (names_of s) \<Longrightarrow> routed d' n i q"
proof -
  obtain mid created d1 where put: "put_marketplace gen s d = Inr ((mid, created), d1)"
    and a: "ap_id a = mid"
    and d': "d' = d1\<lparr>td_languages := add_languages mid (all_languages s) (keep_languages mid (all_languages s) (td_languages d1)),
       td_hosts := fold (put_host mid) (names_of s) (keep_hosts mid (names_of s) (td_hosts d1))\<rparr>"
    using assms(1) unfolding seedOne_Inr by auto
  note keys = ok [unfolded tenant_ok_def]
  note row = put_marketplace_row [OF put conjunct1 [OF conjunct2 [OF keys]] conjunct1 [OF keys]]
  let ?rows = "keep_hosts mid (names_of s) (td_hosts d)"
  have hosts: "td_hosts d' = fold (put_host mid) (names_of s) ?rows" by (simp add: d' row(2))
  have rows': "row_with d' i = row_with d1 i" for i by (simp add: d' row_with_def)
  have langs: "set (languages_of d' i) = (if i = mid then set (all_languages s) else set (languages_of d i))" for i
    by (simp add: d' row(3) set_languages_of languages_after)
  have kept: "distinct (map fst ?rows)" by (rule keep_hosts_fst(2)) (use keys in blast)
  have look: "map_of (td_hosts d') n = (if n \<in> set (names_of s) then Some mid else map_of ?rows n)" for n
    unfolding hosts by (rule put_hosts_map)
  show "tenant_ok d'"
  proof -
    have "Normalise n = n" if "(n, i) \<in> set (td_hosts d')" for n i
    proof -
      have "n \<in> fst ` set (td_hosts d')" by (rule rev_image_eqI [OF that]) simp
      then have "n \<in> set (names_of s) \<or> n \<in> fst ` set (td_hosts d)"
        unfolding hosts fst_put_hosts using keep_hosts_fst(1) by blast
      then show ?thesis
      proof
        assume "n \<in> set (names_of s)"
        then obtain h where "h \<in> set (sp_hosts s)" "n = Normalise h" by auto
        then show ?thesis using assms(3) unfolding stable_hosts_def list_all_iff by metis
      next
        assume "n \<in> fst ` set (td_hosts d)"
        then obtain j where "(n, j) \<in> set (td_hosts d)" by (metis imageE prod.collapse)
        then show ?thesis using keys unfolding list_all_iff by blast
      qed
    qed
    then have "list_all (\<lambda>(h, i). Normalise h = h) (td_hosts d')" unfolding list_all_iff by blast
    moreover have "distinct (map fst (td_hosts d'))" unfolding hosts by (rule distinct_put_hosts [OF kept])
    ultimately show ?thesis using row(4,5) by (simp add: tenant_ok_def d')
  qed
  show "routed d' (Normalise h) (ap_id a) s" if "h \<in> set (sp_hosts s)"
    using that row(1) by (simp add: routed_def look rows' langs a)
  show "routed d' n i q" if r: "routed d n i q" and slug: "sp_slug q \<noteq> sp_slug s" and n: "n \<notin> set (names_of s)"
  proof -
    have i: "i \<noteq> mid \<and> row_with d1 i = Some (row_for i q)"
      by (rule row(6)) (use r slug in \<open>auto simp: routed_def row_for_def\<close>)
    have dist: "distinct (map fst (td_hosts d))" using keys by blast
    have "map_of (td_hosts d) n = Some i" using r by (simp only: routed_def)
    then have "map_of ?rows n = Some i" using i by (simp add: keep_hosts_map [OF dist])
    then show ?thesis using r n i by (simp add: routed_def look rows' langs)
  qed
qed

lemma Seed_Cons: "Seed gen (s # ss) d = Inr (as, d') \<longleftrightarrow>
    (\<exists>a d1 as'. seedOne gen s d = Inr (a, d1) \<and> Seed gen ss d1 = Inr (as', d') \<and> as = a # as')"
  by (auto simp: tx_simps)

lemma Seed_keeps:
  "Seed gen ss d = Inr (as, d') \<Longrightarrow> tenant_ok d \<Longrightarrow> list_all stable_hosts ss \<Longrightarrow>
    tenant_ok d' \<and> (routed d n i q \<longrightarrow> list_all (\<lambda>s. sp_slug q \<noteq> sp_slug s \<and> n \<notin> set (names_of s)) ss \<longrightarrow> routed d' n i q)"
proof (induction ss arbitrary: d as)
  case (Cons s ss)
  obtain a d1 as' where one: "seedOne gen s d = Inr (a, d1)" and rest: "Seed gen ss d1 = Inr (as', d')"
    using Cons.prems(1) unfolding Seed_Cons by blast
  have s: "stable_hosts s" "list_all stable_hosts ss" using Cons.prems(3) by simp_all
  show ?case
    using Cons.IH [OF rest seedOne_routes(1) [OF one Cons.prems(2) s(1)] s(2)]
      seedOne_routes(3) [OF one Cons.prems(2) s(1)] by simp
qed (simp add: tx_simps)

lemma Seed_append: "Seed gen (ss @ ts) d = Inr (as, d') \<Longrightarrow>
    \<exists>as1 d1 as2. Seed gen ss d = Inr (as1, d1) \<and> Seed gen ts d1 = Inr (as2, d')"
proof (induction ss arbitrary: d as)
  case (Cons s ss)
  then show ?case by (metis Seed_Cons append_Cons)
qed (simp add: tx_simps)

lemma Seed_routes:
  assumes "Seed gen (before @ s # later) d = Inr (as, d')" and "tenant_ok d" and "list_all stable_hosts (before @ s # later)"
    and "host \<in> set (sp_hosts s)"
    and "list_all (\<lambda>q. sp_slug s \<noteq> sp_slug q \<and> Normalise host \<notin> set (names_of q)) later"
  shows "tenant_ok d' \<and> (\<exists>mid. routed d' (Normalise host) mid s)"
proof -
  obtain as1 d1 as2 where "Seed gen before d = Inr (as1, d1)" and rest: "Seed gen (s # later) d1 = Inr (as2, d')"
    using Seed_append [OF assms(1)] by blast
  then have d1: "tenant_ok d1" using Seed_keeps assms(2,3) by fastforce
  obtain a d2 as3 where one: "seedOne gen s d1 = Inr (a, d2)" and last: "Seed gen later d2 = Inr (as3, d')"
    using rest unfolding Seed_Cons by blast
  have s: "stable_hosts s" "list_all stable_hosts later" using assms(3) by simp_all
  show ?thesis
    using Seed_keeps [OF last seedOne_routes(1) [OF one d1 s(1)] s(2)] seedOne_routes(2) [OF one d1 s(1) assms(4)] assms(5)
    by blast
qed

text \<open>
  What an environment declares is what its hosts answer. After \<open>Seed\<close>, a host of a
  declaration that no later declaration takes over resolves, however it is written in the
  request, to the marketplace as declared: its slug, market, state and flags, with its
  default language among its languages; and the middleware serves it exactly when its state
  is active, showing the page of a marketplace in preparation otherwise.
\<close>

theorem seeded_host_answers:
  assumes "Seed gen (before @ s # later) d = Inr (done', d')" and "tenant_ok d"
    and "list_all stable_hosts (before @ s # later)" and "host \<in> set (sp_hosts s)"
    and "list_all (\<lambda>q. sp_slug s \<noteq> sp_slug q \<and> Normalise host \<notin> set (names_of q)) later"
    and "Normalise asked_as = Normalise host" and "own_host r (Normalise host) = None" and "cached_hosts r now = None"
  shows "\<exists>m. fst (Resolve (Some (Hosts d')) now after' asked_as r) = Some (MarketplaceHost m) \<and>
    mp_slug m = sp_slug s \<and> mp_name m = sp_name s \<and> mp_market m = sp_market s \<and> mp_revenue m = sp_revenue s \<and>
    mp_state m = stated s \<and> mp_detect m = sp_detect s \<and> mp_reveal m = sp_reveal s \<and> mp_language m = spoken s \<and>
    set (mp_languages m) = insert (spoken s) (set (sp_languages s)) \<and>
    resolve_middleware [] path (Some (MarketplaceHost m)) =
      (if stated s = Active then Next (Some (MarketplaceHost m)) else InPreparationPage m)"
proof -
  obtain mid where ok: "tenant_ok d'" and r: "routed d' (Normalise host) mid s"
    using Seed_routes [OF assms(1-5)] by blast
  let ?m = "marketplace_of d' (row_for mid s)"
  have "Hosts d' (Normalise host) = Some ?m"
    using r unfolding routed_def Hosts_is_join [OF ok] by simp
  then have "fst (Resolve (Some (Hosts d')) now after' asked_as r) = Some (MarketplaceHost ?m)"
    using assms(6-8) by (simp add: Resolve_alone answer_from_def)
  moreover have "set (mp_languages ?m) = insert (spoken s) (set (sp_languages s))"
    using r by (auto simp: routed_def marketplace_of_def all_languages_def row_for_def)
  ultimately show ?thesis
    by (intro exI [of _ ?m]) (simp add: marketplace_of_def row_for_def resolve_middleware_def)
qed

definition shop_spec :: spec where
  "shop_spec = \<lparr>sp_slug = ''shop'', sp_name = ''Shop'', sp_market = ''BR'', sp_revenue = ''commission'', sp_state = [],
     sp_language = [], sp_languages = [''pt-BR''], sp_hosts = [''Shop.example''], sp_detect = True, sp_reveal = False\<rparr>"

definition cars_spec :: spec where
  "cars_spec = shop_spec\<lparr>sp_slug := ''cars'', sp_revenue := ''paid_listings'', sp_state := InPreparation,
     sp_hosts := [''cars.example'']\<rparr>"

definition new_id :: "tenant_db \<Rightarrow> string" where
  "new_id d = replicate (Suc (length (td_marketplaces d))) (CHR ''m'')"

definition brazil :: tenant_db where
  "brazil = \<lparr>td_markets = [''BR''], td_marketplaces = [], td_languages = [], td_hosts = []\<rparr>"

definition seeded_db :: tenant_db where
  "seeded_db = snd (projr (Seed new_id [shop_spec, cars_spec] brazil))"

lemma seeded: "Seed new_id ([] @ shop_spec # [cars_spec]) brazil =
    Inr (fst (projr (Seed new_id [shop_spec, cars_spec] brazil)), seeded_db)"
proof -
  have "\<not> isl (Seed new_id [shop_spec, cars_spec] brazil)" by code_simp
  then show ?thesis by (cases "Seed new_id [shop_spec, cars_spec] brazil") (auto simp: seeded_db_def)
qed

theorem seeded_host_answers_witness:
  "\<exists>m. fst (Resolve (Some (Hosts seeded_db)) 0 0 ''SHOP.example:443'' (NewResolver [])) = Some (MarketplaceHost m) \<and>
    mp_slug m = sp_slug shop_spec \<and> mp_name m = sp_name shop_spec \<and> mp_market m = sp_market shop_spec \<and>
    mp_revenue m = sp_revenue shop_spec \<and> mp_state m = stated shop_spec \<and> mp_detect m = sp_detect shop_spec \<and>
    mp_reveal m = sp_reveal shop_spec \<and> mp_language m = spoken shop_spec \<and>
    set (mp_languages m) = insert (spoken shop_spec) (set (sp_languages shop_spec)) \<and>
    resolve_middleware [] ''/'' (Some (MarketplaceHost m)) =
      (if stated shop_spec = Active then Next (Some (MarketplaceHost m)) else InPreparationPage m)"
proof (rule seeded_host_answers [OF seeded])
  show "tenant_ok brazil" by code_simp
  show "list_all stable_hosts ([] @ shop_spec # [cars_spec])"
    by (simp add: stable_hosts_def shop_spec_def cars_spec_def) code_simp
  show "''Shop.example'' \<in> set (sp_hosts shop_spec)" by (simp add: shop_spec_def)
  have "Normalise ''Shop.example'' = ''shop.example''" "Normalise ''cars.example'' = ''cars.example''" by code_simp+
  then show "list_all (\<lambda>q. sp_slug shop_spec \<noteq> sp_slug q \<and> Normalise ''Shop.example'' \<notin> set (names_of q)) [cars_spec]"
    by (simp add: shop_spec_def cars_spec_def)
  show "Normalise ''SHOP.example:443'' = Normalise ''Shop.example''" by code_simp
  show "own_host (NewResolver []) (Normalise ''Shop.example'') = None" by code_simp
  show "cached_hosts (NewResolver []) 0 = None" by (simp add: cached_hosts_def NewResolver_def)
qed

text \<open>
  A marketplace an environment stops declaring keeps its hosts: only hosts of marketplaces
  still declared are removed.
\<close>

lemma undeclared_marketplace_still_answers:
  assumes "Seed gen ss d = Inr (as, d')" and "tenant_ok d" and "list_all stable_hosts ss" and "routed d n mid s"
    and "list_all (\<lambda>q. sp_slug s \<noteq> sp_slug q \<and> n \<notin> set (names_of q)) ss"
  shows "Hosts d' n = Some (marketplace_of d' (row_for mid s))"
proof -
  have "tenant_ok d' \<and> routed d' n mid s" using Seed_keeps [OF assms(1-3)] assms(4,5) by blast
  then show ?thesis unfolding routed_def using Hosts_is_join by fastforce
qed

end
