(* ===== verification/Mail.thy ===== *)
theory Mail
  imports Callbacks GoText
begin

text \<open>
  E-mail: src/internal/platform/mail (mail.go, store.go, templates.go, mailer.go) over the
  tables of migration 00007. The templates' language is Go's: a parsed template is a
  function from the data to the text, or \<open>None\<close> when it names a variable nobody passed. The
  provider is a parameter with a state of its own; what other transactions do while a send is
  under way is an argument, any function of the world.
\<close>

subsection \<open>Addresses and events (mail.go)\<close>

definition mail_address :: "string \<Rightarrow> string" where
  "mail_address address = to_lower (trim_space address)"

datatype mail_kind = Bounce | Complaint

record mail_event =
  me_provider :: string
  me_id :: string
  me_message :: string
  me_address :: string
  me_kind :: mail_kind
  me_reported :: string
  me_reason :: string

definition Describe :: "mail_event \<Rightarrow> string" where
  "Describe e =
     (if me_reason e = [] then me_reported e
      else if me_reported e = [] then me_reason e
      else me_reported e @ '': '' @ me_reason e)"

record rendered =
  re_message :: message
  re_subject :: string
  re_text :: string
  re_html :: string

subsection \<open>Templates (templates.go)\<close>

datatype render_error = ErrNoTemplate | TextPart | NoBody | NoSubject | HTMLPart
datatype load_error = BadName string | CannotReadFile string | CannotParse string | NoTemplates | MissingPart

type_synonym parsed = "go_map \<Rightarrow> string option"

record templates =
  tp_text :: "string \<rightharpoonup> parsed"
  tp_html :: "string \<rightharpoonup> parsed"
  tp_names :: "string list"
  tp_languages :: "string list"

definition template_key :: "string \<Rightarrow> string \<Rightarrow> string" where
  "template_key name language = name @ ''.'' @ language"

text \<open>\<^verbatim>\<open>strings.Cut\<close> and \<^verbatim>\<open>cutLast\<close> at a separator of one byte.\<close>

definition cut_first :: "char \<Rightarrow> string \<Rightarrow> (string \<times> string) option" where
  "cut_first c s = map_option (\<lambda>i. (take i s, drop (i + 1) s)) (position c s)"

definition cutLast :: "char \<Rightarrow> string \<Rightarrow> (string \<times> string) option" where
  "cutLast c s = map_option (\<lambda>i. (take (length s - 1 - i) s, drop (length s - i) s)) (position c (rev s))"

definition parts :: "string \<Rightarrow> (string \<times> string \<times> string) option" where
  "parts file =
     (case cutLast (CHR ''.'') file of
        None \<Rightarrow> None
      | Some (rest, kind) \<Rightarrow>
          if kind \<noteq> ''txt'' \<and> kind \<noteq> ''html'' then None
          else case cut_first (CHR ''.'') rest of
            None \<Rightarrow> None
          | Some (name, language) \<Rightarrow> if name = [] \<or> language = [] then None else Some (name, language, kind))"

text \<open>A file of the directory: its name, whether it is one itself, and what reading it gives.\<close>

type_synonym entry_file = "string \<times> bool \<times> string option"

record parsers =
  pr_text :: "string \<Rightarrow> string \<Rightarrow> parsed option"
  pr_html :: "string \<Rightarrow> string \<Rightarrow> parsed option"

definition load_file :: "parsers \<Rightarrow> entry_file \<Rightarrow> templates \<Rightarrow> load_error + templates" where
  "load_file p = (\<lambda>(file, dir, content) t.
     if dir then Inr t
     else case parts file of
       None \<Rightarrow> Inl (BadName file)
     | Some (name, language, kind) \<Rightarrow>
         (case content of
            None \<Rightarrow> Inl (CannotReadFile file)
          | Some raw \<Rightarrow>
              (let k = template_key name language;
                   found = t\<lparr>tp_names := name # tp_names t, tp_languages := language # tp_languages t\<rparr> in
               if kind = ''txt'' then
                 (case pr_text p file raw of None \<Rightarrow> Inl (CannotParse file)
                  | Some f \<Rightarrow> Inr (found\<lparr>tp_text := (tp_text t)(k \<mapsto> f)\<rparr>))
               else
                 (case pr_html p file raw of None \<Rightarrow> Inl (CannotParse file)
                  | Some f \<Rightarrow> Inr (found\<lparr>tp_html := (tp_html t)(k \<mapsto> f)\<rparr>)))))"

fun load_files :: "parsers \<Rightarrow> entry_file list \<Rightarrow> templates \<Rightarrow> load_error + templates" where
  "load_files p [] t = Inr t"
| "load_files p (f # fs) t = (case load_file p f t of Inl e \<Rightarrow> Inl e | Inr t' \<Rightarrow> load_files p fs t')"

definition no_templates :: templates where
  "no_templates = \<lparr>tp_text = Map.empty, tp_html = Map.empty, tp_names = [], tp_languages = []\<rparr>"

text \<open>\<^verbatim>\<open>loadTemplates\<close>: every template in every language, both parts, or no start.\<close>

definition loadTemplates :: "parsers \<Rightarrow> entry_file list \<Rightarrow> load_error + templates" where
  "loadTemplates p files =
     (case load_files p files no_templates of
        Inl e \<Rightarrow> Inl e
      | Inr t \<Rightarrow>
          (let names = sort (remdups (tp_names t)); languages = sort (remdups (tp_languages t)) in
           if names = [] then Inl NoTemplates
           else if list_ex (\<lambda>name. list_ex (\<lambda>language.
                  tp_text t (template_key name language) = None \<or> tp_html t (template_key name language) = None) languages) names
           then Inl MissingPart
           else Inr (t\<lparr>tp_names := names, tp_languages := languages\<rparr>)))"

definition newline :: char where "newline = char_of (10 :: nat)"

definition subjectPrefix :: string where "subjectPrefix = ''Subject: ''"

definition split_subject :: "string \<Rightarrow> render_error + string \<times> string" where
  "split_subject text =
     (case cut_first newline text of
        None \<Rightarrow> Inl NoBody
      | Some (line, rest) \<Rightarrow>
          (case CutPrefix (trim_space line) subjectPrefix of
             None \<Rightarrow> Inl NoSubject
           | Some subject \<Rightarrow>
               if subject = [] then Inl NoSubject else Inr (subject, dropWhile (\<lambda>c. c = newline) rest)))"

definition Render :: "templates \<Rightarrow> message \<Rightarrow> string \<Rightarrow> render_error + rendered" where
  "Render t m fallback =
     (let language = (if tp_text t (template_key (Template m) (msg_language m)) = None then fallback else msg_language m) in
      case (tp_text t (template_key (Template m) language), tp_html t (template_key (Template m) language)) of
        (Some text, Some html) \<Rightarrow>
          (let data = copy_into (go_map [(''From'', From m), (''Language'', language)]) (go_map (Variables m)) in
           case text data of
             None \<Rightarrow> Inl TextPart
           | Some body \<Rightarrow>
               (case split_subject body of
                  Inl e \<Rightarrow> Inl e
                | Inr (subject, plain) \<Rightarrow>
                    (case html data of
                       None \<Rightarrow> Inl HTMLPart
                     | Some markup \<Rightarrow> Inr \<lparr>re_message = m\<lparr>msg_language := language\<rparr>, re_subject = subject,
                         re_text = plain, re_html = markup\<rparr>)))
      | _ \<Rightarrow> Inl ErrNoTemplate)"

subsection \<open>The tables (store.go)\<close>

datatype mail_state = StateSent | StateSkipped | StateFailed

record sending =
  sn_marketplace :: "string option"
  sn_address :: string
  sn_template :: string
  sn_language :: string
  sn_state :: mail_state
  sn_message :: "string option"
  sn_detail :: "string option"

record suppression =
  su_address :: string
  su_reason :: mail_kind
  su_provider :: string
  su_event :: "string option"
  su_detail :: "string option"

text \<open>What mail acts on: the two tables, and the provider.\<close>

record 'v mail_world =
  mw_suppressed :: "suppression list"
  mw_log :: "sending list"
  mw_provider :: 'v

definition Suppressed :: "string \<Rightarrow> 'v mail_world \<Rightarrow> bool" where
  "Suppressed address w = list_ex (\<lambda>s. su_address s = mail_address address) (mw_suppressed w)"

text \<open>The insert that keeps what is there, and whether it added a row.\<close>

definition Suppress :: "mail_event \<Rightarrow> 'v mail_world \<Rightarrow> bool \<times> 'v mail_world" where
  "Suppress e w =
     (if list_ex (\<lambda>s. su_address s = mail_address (me_address e)) (mw_suppressed w) then (False, w)
      else (True, w\<lparr>mw_suppressed := mw_suppressed w @ [\<lparr>su_address = mail_address (me_address e), su_reason = me_kind e,
             su_provider = me_provider e, su_event = nullif (me_id e), su_detail = nullif (Describe e)\<rparr>]\<rparr>))"

definition Record :: "sending \<Rightarrow> 'v mail_world \<Rightarrow> 'v mail_world" where
  "Record s w = w\<lparr>mw_log := mw_log w @ [s\<lparr>sn_address := mail_address (sn_address s)\<rparr>]\<rparr>"

subsection \<open>The mailer (mailer.go)\<close>

datatype provider_error = ErrRefused string | Unanswered string

datatype mail_error = NoAddress | CannotReadList | CannotRecord | CannotRender render_error
  | NotAccepted provider_error | CannotConfirm provider_error | NoDatabase | CannotSuppress | UnreadablePayload

record 'v mailer =
  ml_database :: bool
  ml_templates :: templates
  ml_fallback :: string
  ml_send :: "rendered \<Rightarrow> 'v \<Rightarrow> (provider_error + string) \<times> 'v"
  ml_confirm :: "mail_event \<Rightarrow> 'v \<Rightarrow> (provider_error + bool) \<times> 'v"

text \<open>
  What a send meets: whether its two transactions reach the database, and what others did
  between its look at the list, its call of the provider and its line in the log.
\<close>

record 'v weather =
  we_list :: bool
  we_log :: bool
  we_before :: "'v mail_world \<Rightarrow> 'v mail_world"
  we_after :: "'v mail_world \<Rightarrow> 'v mail_world"

definition line_of :: "message \<Rightarrow> mail_state \<Rightarrow> string \<Rightarrow> string \<Rightarrow> sending" where
  "line_of m state provider detail = \<lparr>sn_marketplace = nullif (msg_marketplace m), sn_address = To m,
     sn_template = Template m, sn_language = msg_language m, sn_state = state,
     sn_message = nullif provider, sn_detail = nullif detail\<rparr>"

text \<open>\<^verbatim>\<open>Mailer.record\<close>: nothing without a database; an error when it cannot be reached.\<close>

definition record_line :: "'v mailer \<Rightarrow> 'v weather \<Rightarrow> sending \<Rightarrow> 'v mail_world \<Rightarrow> mail_error option \<times> 'v mail_world" where
  "record_line ml we s w =
     (if \<not> ml_database ml then (None, w)
      else if \<not> we_log we then (Some CannotRecord, w)
      else (None, Record s w))"

text \<open>\<open>said\<close> is the text of an error, which the log keeps.\<close>

definition SendMail :: "(mail_error \<Rightarrow> string) \<Rightarrow> 'v mailer \<Rightarrow> 'v weather \<Rightarrow> message \<Rightarrow> 'v mail_world \<Rightarrow>
    (mail_state \<times> mail_error option) \<times> 'v mail_world" where
  "SendMail said ml we m w =
     (let m = m\<lparr>To := mail_address (To m)\<rparr> in
      if To m = [] then ((StateFailed, Some NoAddress), w)
      else if ml_database ml \<and> \<not> we_list we then ((StateFailed, Some CannotReadList), w)
      else if ml_database ml \<and> Suppressed (To m) w then
        (case record_line ml we (line_of m StateSkipped [] ''the address is suppressed'') (we_before we w) of
           (e, w') \<Rightarrow> ((StateSkipped, e), w'))
      else case Render (ml_templates ml) m (ml_fallback ml) of
        Inl cause \<Rightarrow>
          (case record_line ml we (line_of m StateFailed [] (said (CannotRender cause))) (we_before we w) of
             (Some e, w') \<Rightarrow> ((StateFailed, Some e), w')
           | (None, w') \<Rightarrow> ((StateFailed, Some (CannotRender cause)), w'))
      | Inr r \<Rightarrow>
          (let w1 = we_before we w in
           case ml_send ml r (mw_provider w1) of
             (Inl cause, v) \<Rightarrow>
               (case record_line ml we (line_of (re_message r) StateFailed [] (said (NotAccepted cause)))
                       (we_after we (w1\<lparr>mw_provider := v\<rparr>)) of
                  (Some e, w') \<Rightarrow> ((StateFailed, Some e), w')
                | (None, w') \<Rightarrow> ((StateFailed, Some (NotAccepted cause)), w'))
           | (Inr ident, v) \<Rightarrow>
               (case record_line ml we (line_of (re_message r) StateSent ident [])
                       (we_after we (w1\<lparr>mw_provider := v\<rparr>)) of
                  (e, w') \<Rightarrow> ((StateSent, e), w'))))"

text \<open>\<^verbatim>\<open>Mailer.Apply\<close>: the event is asked of the provider before it is believed.\<close>

definition Apply :: "'v mailer \<Rightarrow> 'v weather \<Rightarrow> mail_event \<Rightarrow> 'v mail_world \<Rightarrow> mail_error option \<times> 'v mail_world" where
  "Apply ml we e w =
     (if mail_address (me_address e) = [] then (Some NoAddress, w)
      else case ml_confirm ml e (mw_provider w) of
        (Inl (ErrRefused cause), v) \<Rightarrow> (None, w\<lparr>mw_provider := v\<rparr>)
      | (Inl cause, v) \<Rightarrow> (Some (CannotConfirm cause), w\<lparr>mw_provider := v\<rparr>)
      | (Inr False, v) \<Rightarrow> (None, w\<lparr>mw_provider := v\<rparr>)
      | (Inr True, v) \<Rightarrow>
          if \<not> ml_database ml then (Some NoDatabase, w\<lparr>mw_provider := v\<rparr>)
          else if \<not> we_log we then (Some CannotSuppress, w\<lparr>mw_provider := v\<rparr>)
          else (None, snd (Suppress e (we_before we (w\<lparr>mw_provider := v\<rparr>)))))"

subsection \<open>Through the outbox\<close>

text \<open>
  What \<^verbatim>\<open>json.Marshal\<close> makes of a message and of an event, an object with a key for each
  field, and what \<^verbatim>\<open>json.Unmarshal\<close> reads back: a key that is missing is an empty field, one
  of the wrong shape an error. A kind that is neither of the two is an error here; the table's
  constraint would make it one later.
\<close>

definition KindEvent :: string where "KindEvent = ''email.event''"

definition message_payload :: "message \<Rightarrow> payload" where
  "message_payload m = [(''Template'', JString (Template m)), (''Language'', JString (msg_language m)),
     (''To'', JString (To m)), (''From'', JString (From m)), (''Marketplace'', JString (msg_marketplace m)),
     (''Variables'', JObject (Variables m))]"

definition text_field :: "payload \<Rightarrow> string \<Rightarrow> string option" where
  "text_field p k = (case map_of p k of None \<Rightarrow> Some [] | Some (JString s) \<Rightarrow> Some s | Some (JObject x) \<Rightarrow> None)"

definition map_field :: "payload \<Rightarrow> string \<Rightarrow> (string \<times> string) list option" where
  "map_field p k = (case map_of p k of None \<Rightarrow> Some [] | Some (JString s) \<Rightarrow> None | Some (JObject x) \<Rightarrow> Some x)"

definition payload_message :: "payload \<Rightarrow> message option" where
  "payload_message p =
     (case (text_field p ''Template'', text_field p ''Language'', text_field p ''To'', text_field p ''From'',
            text_field p ''Marketplace'', map_field p ''Variables'') of
        (Some t, Some l, Some a, Some f, Some mp, Some vs) \<Rightarrow>
          Some \<lparr>Template = t, msg_language = l, To = a, From = f, msg_marketplace = mp, Variables = vs\<rparr>
      | _ \<Rightarrow> None)"

fun kind_text :: "mail_kind \<Rightarrow> string" where
  "kind_text Bounce = ''bounce''"
| "kind_text Complaint = ''complaint''"

definition kind_named :: "string \<Rightarrow> mail_kind option" where
  "kind_named s = (if s = ''bounce'' then Some Bounce else if s = ''complaint'' then Some Complaint else None)"

definition event_payload :: "mail_event \<Rightarrow> payload" where
  "event_payload e = [(''Provider'', JString (me_provider e)), (''ID'', JString (me_id e)),
     (''Message'', JString (me_message e)), (''Address'', JString (me_address e)), (''Kind'', JString (kind_text (me_kind e))),
     (''Reported'', JString (me_reported e)), (''Reason'', JString (me_reason e))]"

definition payload_event :: "payload \<Rightarrow> mail_event option" where
  "payload_event p =
     (case (text_field p ''Provider'', text_field p ''ID'', text_field p ''Message'', text_field p ''Address'',
            text_field p ''Kind'', text_field p ''Reported'', text_field p ''Reason'') of
        (Some pr, Some i, Some m, Some a, Some k, Some r, Some why) \<Rightarrow>
          map_option (\<lambda>kind. \<lparr>me_provider = pr, me_id = i, me_message = m, me_address = a, me_kind = kind,
            me_reported = r, me_reason = why\<rparr>) (kind_named k)
      | _ \<Rightarrow> None)"

text \<open>\<^verbatim>\<open>Request\<close> and \<^verbatim>\<open>Received\<close>: the event the outbox is given.\<close>

definition send_event :: "message \<Rightarrow> event" where
  "send_event m = \<lparr>ev_id = [], ev_marketplace = msg_marketplace m, ev_kind = KindSend, ev_queue = Notifications,
     ev_payload = message_payload m, ev_attempts = 0\<rparr>"

definition received_event :: "mail_event \<Rightarrow> event" where
  "received_event e = \<lparr>ev_id = [], ev_marketplace = [], ev_kind = KindEvent, ev_queue = Webhooks,
     ev_payload = event_payload e, ev_attempts = 0\<rparr>"

definition send_consumer :: "(mail_error \<Rightarrow> string) \<Rightarrow> 'v mailer \<Rightarrow> (event \<Rightarrow> 'v weather) \<Rightarrow> 'v mail_world consumer" where
  "send_consumer said ml we = \<lparr>co_name = ''mail.send'', co_handle = (\<lambda>event w.
     case payload_message (ev_payload event) of
       None \<Rightarrow> (Some (said UnreadablePayload), w)
     | Some m \<Rightarrow> (case SendMail said ml (we event) m w of ((state, e), w') \<Rightarrow> (map_option said e, w')))\<rparr>"

definition event_consumer :: "(mail_error \<Rightarrow> string) \<Rightarrow> 'v mailer \<Rightarrow> (event \<Rightarrow> 'v weather) \<Rightarrow> 'v mail_world consumer" where
  "event_consumer said ml we = \<lparr>co_name = ''mail.event'', co_handle = (\<lambda>event w.
     case payload_event (ev_payload event) of
       None \<Rightarrow> (Some (said UnreadablePayload), w)
     | Some e \<Rightarrow> (case Apply ml (we event) e w of (err, w') \<Rightarrow> (map_option said err, w')))\<rparr>"

definition RegisterMail :: "(mail_error \<Rightarrow> string) \<Rightarrow> 'v mailer \<Rightarrow> (event \<Rightarrow> 'v weather) \<Rightarrow> 'v mail_world registry \<Rightarrow> 'v mail_world registry" where
  "RegisterMail said ml we r = On KindEvent (event_consumer said ml we) (On KindSend (send_consumer said ml we) r)"

lemma payload_message_roundtrip: "payload_message (message_payload m) = Some m"
  by (simp add: payload_message_def message_payload_def text_field_def map_field_def)

lemma payload_event_roundtrip: "payload_event (event_payload e) = Some e"
  by (cases "me_kind e") (simp_all add: payload_event_def event_payload_def text_field_def kind_named_def)

text \<open>What is left of a message once the outbox stripped its variables: everything else.\<close>

lemma stripped_message:
  "payload_message (redacted KindSend (message_payload m)) = Some (m\<lparr>Variables := []\<rparr>)"
  by (simp add: redacted_def strip_variables_def payload_message_def message_payload_def text_field_def map_field_def)

end
