(* ===== verification/TextFacts.thy ===== *)
theory TextFacts
  imports GoText
begin

text \<open>
  Facts about \<open>runes\<close>, \<open>trim_space\<close> and \<open>to_lower\<close> that several components rest on: a string
  is its runes, a cut between two runes leaves them as they were, trimming twice is trimming
  once, and lowering letters moves no boundary and makes no space.
\<close>

abbreviation codes_of :: "string \<Rightarrow> int list" where
  "codes_of s \<equiv> map (\<lambda>c. int (code c)) s"

lemma rune_at_append: "rune_at xs = Some (r, n) \<Longrightarrow> rune_at (xs @ ys) = Some (r, n) \<and> n \<le> length xs"
  by (cases xs; cases "tl xs"; cases "tl (tl xs)"; cases "tl (tl (tl xs))") (auto split: if_splits)

lemma rune_at_take: "rune_at xs = Some (r, n) \<Longrightarrow> rune_at (take n xs) = Some (r, n)"
  by (cases xs; cases "tl xs"; cases "tl (tl xs)"; cases "tl (tl (tl xs))") (auto split: if_splits)

lemma runes_Cons_iff:
  "runes s = x # xs \<longleftrightarrow> s \<noteq> [] \<and>
     (case rune_at (codes_of s) of
        None \<Rightarrow> x = (None, [hd s]) \<and> xs = runes (tl s)
      | Some (r, n) \<Rightarrow> x = (Some r, take n s) \<and> xs = runes (drop n s))"
  by (subst runes.simps) (auto split: option.splits prod.splits)

lemma runes_eq_Nil [simp]: "runes s = [] \<longleftrightarrow> s = []"
  by (subst runes.simps) (auto split: option.splits)

lemma concat_runes: "concat (map snd (runes s)) = s"
proof (induction s rule: runes.induct)
  case (1 s)
  show ?case
  proof (cases "runes s")
    case (Cons x xs)
    then have s: "s \<noteq> []" by auto
    then have IH: "rune_at (codes_of s) = None \<Longrightarrow> concat (map snd (runes (tl s))) = tl s"
      "rune_at (codes_of s) = Some (r, n) \<Longrightarrow> concat (map snd (runes (drop n s))) = drop n s" for r n
      using 1 by auto
    show ?thesis unfolding Cons
      using Cons [unfolded runes_Cons_iff] IH s by (auto split: option.splits)
  qed simp
qed

text \<open>The runes after a cut are the runes of the rest, and those before it of the beginning.\<close>

lemma runes_suffix: "runes s = xs @ ys \<Longrightarrow> runes (concat (map snd ys)) = ys"
proof (induction xs arbitrary: s)
  case Nil
  then show ?case by (metis append_Nil concat_runes)
next
  case (Cons x xs)
  then obtain t where "runes t = xs @ ys"
    by (auto simp: runes_Cons_iff split: option.splits)
  then show ?case by (rule Cons.IH)
qed

lemma runes_prefix: "runes s = xs @ ys \<Longrightarrow> runes (concat (map snd xs)) = xs"
proof (induction xs arbitrary: s)
  case (Cons x xs)
  let ?t = "concat (map snd xs)"
  have s: "s \<noteq> []" using Cons.prems by auto
  show ?case
  proof (cases "rune_at (codes_of s)")
    case None
    then have x: "x = (None, [hd s])" and rest: "runes (tl s) = xs @ ys"
      using Cons.prems by (auto simp: runes_Cons_iff)
    have "tl s = ?t @ concat (map snd ys)" using concat_runes [of "tl s"] rest by simp
    then have "codes_of s = codes_of (hd s # ?t) @ codes_of (concat (map snd ys))"
      using s by (cases s) simp_all
    then have "rune_at (codes_of (hd s # ?t)) = None"
      using None rune_at_append by (metis not_None_eq option.distinct(1) prod.exhaust_sel)
    then show ?thesis using Cons.IH [OF rest] by (simp add: runes_Cons_iff x)
  next
    case (Some rn)
    obtain r n where rn: "rn = (r, n)" by (cases rn)
    have x: "x = (Some r, take n s)" and rest: "runes (drop n s) = xs @ ys"
      using Cons.prems Some rn by (auto simp: runes_Cons_iff)
    have n: "n \<le> length s" "0 < n" using rune_at_append [of "codes_of s" r n] rune_at_width Some rn by auto
    have "rune_at (codes_of (take n s)) = Some (r, n)"
      using rune_at_take Some rn by (metis take_map)
    then have "rune_at (codes_of (take n s @ ?t)) = Some (r, n)"
      using rune_at_append by (metis map_append)
    moreover have "take n s @ ?t \<noteq> []" using n by (cases s) auto
    moreover have "take n (take n s @ ?t) = take n s" "drop n (take n s @ ?t) = ?t" using n by simp_all
    ultimately show ?thesis using Cons.IH [OF rest] by (simp add: runes_Cons_iff x)
  qed
qed simp

lemma runes_trim_space:
  "runes (trim_space s) = rev (dropWhile space_rune (rev (dropWhile space_rune (runes s))))"
proof -
  let ?a = "dropWhile space_rune (runes s)"
  have "runes s = takeWhile space_rune (runes s) @ ?a" by simp
  then have a: "runes (concat (map snd ?a)) = ?a" by (rule runes_suffix)
  let ?b = "rev (dropWhile space_rune (rev ?a))"
  have "?a = ?b @ rev (takeWhile space_rune (rev ?a))"
    by (metis rev_append rev_rev_ident takeWhile_dropWhile_id)
  then have "runes (concat (map snd ?a)) = ?b @ rev (takeWhile space_rune (rev ?a))" using a by simp
  then have "runes (concat (map snd ?b)) = ?b" by (rule runes_prefix)
  then show ?thesis by (simp add: trim_space_def)
qed

lemma trim_twice: "trim_space (trim_space s) = trim_space s"
proof -
  let ?b = "rev (dropWhile space_rune (rev (dropWhile space_rune (runes s))))"
  have last: "dropWhile space_rune (rev ?b) = rev ?b"
    by (simp add: dropWhile_idem)
  have "dropWhile space_rune ?b = ?b"
  proof (cases ?b)
    case (Cons x xs)
    have "?b @ rev (takeWhile space_rune (rev (dropWhile space_rune (runes s)))) = dropWhile space_rune (runes s)"
      by (metis rev_append rev_rev_ident takeWhile_dropWhile_id)
    then have "hd (dropWhile space_rune (runes s)) = x" "dropWhile space_rune (runes s) \<noteq> []"
      using Cons by (metis append_Cons list.sel(1), metis append_is_Nil_conv list.distinct(1))
    then have "\<not> space_rune x" using hd_dropWhile by metis
    then show ?thesis using Cons by simp
  next
    case Nil
    then show ?thesis by (simp only: dropWhile.simps)
  qed
  then show ?thesis using last unfolding trim_space_def [of "trim_space s"] runes_trim_space
    by (simp add: trim_space_def)
qed

subsection \<open>Lowering letters\<close>

definition low :: "int \<Rightarrow> int" where
  "low x = (if 65 \<le> x \<and> x \<le> 90 then x + 32 else x)"

lemma code_lower: "int (code (lower_char c)) = low (int (code c))"
  by (simp add: code_def lower_char_code low_def)

lemma codes_lower: "codes_of (to_lower s) = map low (codes_of s)"
  by (simp add: to_lower_def code_lower)

lemma low_simps:
  "low x < 128 \<longleftrightarrow> x < 128" "cont (low x) \<longleftrightarrow> cont x" "x \<ge> 128 \<Longrightarrow> low x = x"
  by (auto simp: low_def cont_def)

lemma low_cont: "cont b \<Longrightarrow> low b = b"
  by (simp add: cont_def low_def)

text \<open>A rune of several bytes is no letter.\<close>

lemma big_rune:
  "194 \<le> a \<Longrightarrow> cont b \<Longrightarrow> 128 \<le> (a - 192) * 64 + (b - 128)"
  "224 \<le> a \<Longrightarrow> cont b \<Longrightarrow> cont c \<Longrightarrow> (a = 224 \<longrightarrow> 160 \<le> b) \<Longrightarrow>
    128 \<le> (a - 224) * 4096 + (b - 128) * 64 + (c - 128)"
  "240 \<le> a \<Longrightarrow> cont b \<Longrightarrow> cont c \<Longrightarrow> cont d \<Longrightarrow> (a = 240 \<longrightarrow> 144 \<le> b) \<Longrightarrow>
    128 \<le> (a - 240) * 262144 + (b - 128) * 4096 + (c - 128) * 64 + (d - 128)"
proof -
  assume ab: "194 \<le> a" "cont b"
  then have "128 \<le> b" by (simp add: cont_def)
  then show "128 \<le> (a - 192) * 64 + (b - 128)" using ab(1) by simp
next
  assume ab: "224 \<le> a" "cont b" "cont c" "a = 224 \<longrightarrow> 160 \<le> b"
  then have "128 \<le> b" "128 \<le> c" by (simp_all add: cont_def)
  then show "128 \<le> (a - 224) * 4096 + (b - 128) * 64 + (c - 128)"
    using ab(1,4) by (cases "a = 224") simp_all
next
  assume ab: "240 \<le> a" "cont b" "cont c" "cont d" "a = 240 \<longrightarrow> 144 \<le> b"
  then have "128 \<le> b" "128 \<le> c" "128 \<le> d" by (simp_all add: cont_def)
  then show "128 \<le> (a - 240) * 262144 + (b - 128) * 4096 + (c - 128) * 64 + (d - 128)"
    using ab(1,5) by (cases "a = 240") simp_all
qed

lemma low_big:
  "194 \<le> a \<and> cont b \<Longrightarrow> low ((a - 192) * 64 + (b - 128)) = (a - 192) * 64 + (b - 128)"
  "224 \<le> a \<and> cont b \<and> cont c \<and> (a = 224 \<longrightarrow> 160 \<le> b) \<Longrightarrow>
    low ((a - 224) * 4096 + (b - 128) * 64 + (c - 128)) = (a - 224) * 4096 + (b - 128) * 64 + (c - 128)"
  "240 \<le> a \<and> cont b \<and> cont c \<and> cont d \<and> (a = 240 \<longrightarrow> 144 \<le> b) \<Longrightarrow>
    low ((a - 240) * 262144 + (b - 128) * 4096 + (c - 128) * 64 + (d - 128)) =
    (a - 240) * 262144 + (b - 128) * 4096 + (c - 128) * 64 + (d - 128)"
  by (rule low_simps(3), rule big_rune, blast+)+

lemma rune_at_first:
  assumes "\<not> a < 128"
  shows "rune_at [a] = None" "194 \<le> a \<and> a \<le> 223 \<Longrightarrow> rune_at (a # b # r) = (if cont b then Some ((a - 192) * 64 + (b - 128), 2) else None)"
    "\<not> (194 \<le> a \<and> a \<le> 223) \<Longrightarrow> rune_at [a, b] = None"
    "224 \<le> a \<and> a \<le> 239 \<Longrightarrow> rune_at (a # b # c # r) =
      (if cont b \<and> cont c \<and> (a = 224 \<longrightarrow> 160 \<le> b) \<and> (a = 237 \<longrightarrow> b \<le> 159)
       then Some ((a - 224) * 4096 + (b - 128) * 64 + (c - 128), 3) else None)"
    "\<not> (194 \<le> a \<and> a \<le> 223) \<Longrightarrow> \<not> (224 \<le> a \<and> a \<le> 239) \<Longrightarrow> rune_at [a, b, c] = None"
    "\<not> (194 \<le> a \<and> a \<le> 223) \<Longrightarrow> \<not> (224 \<le> a \<and> a \<le> 239) \<Longrightarrow> rune_at (a # b # c # d # r) =
      (if 240 \<le> a \<and> a \<le> 244 \<and> cont b \<and> cont c \<and> cont d \<and> (a = 240 \<longrightarrow> 144 \<le> b) \<and> (a = 244 \<longrightarrow> b \<le> 143)
       then Some ((a - 240) * 262144 + (b - 128) * 4096 + (c - 128) * 64 + (d - 128), 4) else None)"
  using assms by simp_all

lemma low_bounds: "cont b \<Longrightarrow> low b = b" "cont (low b) \<longleftrightarrow> cont b"
  by (simp_all add: low_cont low_simps)

lemma rune_at_low: "rune_at (map low bs) = map_option (\<lambda>(r, n). (low r, n)) (rune_at bs)"
proof (cases bs)
  case (Cons a r)
  show ?thesis
  proof (cases "a < 128")
    case False
    then have a: "low a = a" by (simp add: low_simps)
    note first = rune_at_first [OF False]
    show ?thesis
    proof (cases r)
      case b: (Cons b r2)
      show ?thesis
      proof (cases "194 \<le> a \<and> a \<le> 223")
        case True
        then show ?thesis
          by (simp only: Cons b list.map a first(2) low_bounds(2)) (auto simp only: low_big(1) low_bounds option.map split: if_splits)
      next
        case two: False
        show ?thesis
        proof (cases r2)
          case c: (Cons c r3)
          show ?thesis
          proof (cases "224 \<le> a \<and> a \<le> 239")
            case True
            show ?thesis
            proof (cases "cont b \<and> cont c \<and> (a = 224 \<longrightarrow> 160 \<le> b) \<and> (a = 237 \<longrightarrow> b \<le> 159)")
              case ok: True
              then have eqs: "low b = b" "low c = c" by (simp_all add: low_bounds)
              have big: "low ((a - 224) * 4096 + (b - 128) * 64 + (c - 128)) = (a - 224) * 4096 + (b - 128) * 64 + (c - 128)"
                by (rule low_big(2)) (use True ok in blast)
              show ?thesis
                unfolding Cons b c list.map a first(4) [OF True] eqs if_P [OF ok] option.map prod.case big by (rule refl)
            next
              case bad: False
              then have bad': "\<not> (cont (low b) \<and> cont (low c) \<and> (a = 224 \<longrightarrow> 160 \<le> low b) \<and> (a = 237 \<longrightarrow> low b \<le> 159))"
                using low_bounds by metis
              show ?thesis
                unfolding Cons b c list.map a first(4) [OF True] if_not_P [OF bad] if_not_P [OF bad'] option.map by (rule refl)
            qed
          next
            case three: False
            show ?thesis
            proof (cases r3)
              case Nil
              then show ?thesis unfolding Cons b c list.map a Nil first(5) [OF two three] by simp
            next
              case d: (Cons d r4)
              show ?thesis
              proof (cases "240 \<le> a \<and> a \<le> 244 \<and> cont b \<and> cont c \<and> cont d \<and> (a = 240 \<longrightarrow> 144 \<le> b) \<and> (a = 244 \<longrightarrow> b \<le> 143)")
                case ok: True
                then have eqs: "low b = b" "low c = c" "low d = d" by (simp_all add: low_bounds)
                have big: "low ((a - 240) * 262144 + (b - 128) * 4096 + (c - 128) * 64 + (d - 128)) =
                    (a - 240) * 262144 + (b - 128) * 4096 + (c - 128) * 64 + (d - 128)"
                  by (rule low_big(3)) (use ok in blast)
                show ?thesis
                  unfolding Cons b c d list.map a first(6) [OF two three] eqs if_P [OF ok] option.map prod.case big by (rule refl)
              next
                case bad: False
                then have bad': "\<not> (240 \<le> a \<and> a \<le> 244 \<and> cont (low b) \<and> cont (low c) \<and> cont (low d) \<and>
                    (a = 240 \<longrightarrow> 144 \<le> low b) \<and> (a = 244 \<longrightarrow> low b \<le> 143))"
                  using low_bounds by metis
                show ?thesis
                  unfolding Cons b c d list.map a first(6) [OF two three] if_not_P [OF bad] if_not_P [OF bad'] option.map by (rule refl)
              qed
            qed
          qed
        next
          case Nil
          then show ?thesis unfolding Cons b list.map a Nil first(3) [OF two] by simp
        qed
      qed
    next
      case Nil
      then show ?thesis unfolding Cons list.map a Nil first(1) by simp
    qed
  qed (simp add: Cons low_simps)
qed simp

lemma to_lower_simps [simp]:
  "to_lower s = [] \<longleftrightarrow> s = []" "take n (to_lower s) = to_lower (take n s)" "drop n (to_lower s) = to_lower (drop n s)"
  "tl (to_lower s) = to_lower (tl s)" "to_lower [] = []"
  by (simp_all add: to_lower_def take_map drop_map map_tl)

lemma runes_lower: "runes (to_lower s) = map (\<lambda>(r, w). (map_option low r, to_lower w)) (runes s)"
proof (induction s rule: runes.induct)
  case (1 s)
  show ?case
  proof (cases "s = []")
    case False
    have hd: "to_lower [hd s] = [hd (to_lower s)]" using False by (cases s) (simp_all add: to_lower_def)
    show ?thesis
    proof (cases "rune_at (codes_of s)")
      case None
      then have "rune_at (codes_of (to_lower s)) = None" by (simp only: codes_lower rune_at_low option.map)
      then show ?thesis using 1(1) [OF False None] False None hd
        by (subst (1 2) runes.simps) simp
    next
      case (Some rn)
      obtain r n where rn: "rn = (r, n)" by (cases rn)
      have "rune_at (codes_of (to_lower s)) = Some (low r, n)" using Some rn by (simp only: codes_lower rune_at_low option.map prod.case)
      then show ?thesis using 1(2) [OF False Some rn [symmetric]] False Some rn
        by (subst (1 2) runes.simps) simp
    qed
  qed simp
qed

lemma space_low: "IsSpace (low r) \<longleftrightarrow> IsSpace r"
  by (auto simp: IsSpace_def low_def)

lemma trim_lower: "trim_space (to_lower s) = to_lower (trim_space s)"
proof -
  let ?f = "\<lambda>(r, w). (map_option low r, to_lower w)"
  have f: "space_rune \<circ> ?f = space_rune"
    by (auto simp: space_rune_def space_low fun_eq_iff split: option.splits)
  have snd: "concat (map snd (map ?f xs)) = to_lower (concat (map snd xs))" for xs
    by (induction xs) (auto simp: to_lower_def split: prod.splits)
  show ?thesis
    unfolding trim_space_def runes_lower by (simp only: dropWhile_map f rev_map snd)
qed

lemma lower_trim_twice: "to_lower (trim_space (to_lower (trim_space s))) = to_lower (trim_space s)"
  by (simp add: trim_lower trim_twice)

subsection \<open>ASCII\<close>

lemma rune_at_bytes:
  "rune_at bs = Some (r, n) \<Longrightarrow> (n = 1 \<and> bs \<noteq> [] \<and> r = hd bs \<and> hd bs < 128) \<or> (\<forall>b \<in> set (take n bs). 128 \<le> b)"
  by (cases bs; cases "tl bs"; cases "tl (tl bs)"; cases "tl (tl (tl bs))") (auto simp: cont_def split: if_splits)

lemma ascii_rune: "c \<in> set s \<Longrightarrow> code c < 128 \<Longrightarrow> (Some (int (code c)), [c]) \<in> set (runes s)"
proof (induction s rule: runes.induct)
  case (1 s)
  have s: "s \<noteq> []" using "1.prems" by auto
  show ?case
  proof (cases "rune_at (map (\<lambda>c. int (code c)) s)")
    case None
    have "hd s \<noteq> c"
    proof
      assume "hd s = c"
      then obtain u where "s = c # u" using s by (cases s) auto
      then have "rune_at (map (\<lambda>c. int (code c)) s) = Some (int (code c), 1)" using "1.prems"(2) by simp
      with None show False by simp
    qed
    then have "c \<in> set (tl s)" using "1.prems"(1) s by (cases s) auto
    from "1.IH"(1) [OF s None this "1.prems"(2)] show ?thesis
      using s None by (subst runes.simps) simp
  next
    case (Some p)
    obtain r n where p: "p = (r, n)" by (cases p)
    have n: "0 < n" using Some rune_at_width p by simp
    have run: "runes s = (Some r, take n s) # runes (drop n s)"
      using s Some p by (subst runes.simps) simp
    show ?thesis
    proof (cases "c \<in> set (drop n s)")
      case True
      from "1.IH"(2) [OF s Some p [symmetric] this "1.prems"(2)] run show ?thesis by simp
    next
      case False
      then have "c \<in> set (take n s)" using "1.prems"(1) by (metis Un_iff append_take_drop_id set_append)
      then have "int (code c) \<in> set (take n (map (\<lambda>c. int (code c)) s))" by (simp add: take_map)
      then have "n = 1" "r = int (code (hd s))"
        using rune_at_bytes [OF Some [unfolded p]] "1.prems"(2) s by (auto simp: hd_map)
      moreover have "hd s = c" using \<open>c \<in> set (take n s)\<close> \<open>n = 1\<close> s by (cases s) auto
      ultimately show ?thesis using run s by (cases s) auto
    qed
  qed
qed

lemma ascii_runes: "list_all (\<lambda>c. code c < 128) s \<Longrightarrow> runes s = map (\<lambda>c. (Some (int (code c)), [c])) s"
proof (induction s)
  case (Cons a s)
  have "runes (a # s) = (Some (int (code a)), [a]) # runes s"
    using Cons.prems by (subst runes.simps) simp
  with Cons show ?case by simp
qed simp

end
