(* ===== verification/Brevo.thy ===== *)
theory Brevo
  imports Mail TextFacts
begin

text \<open>
  The provider's adapter, src/internal/platform/mail/brevo (brevo.go, webhook.go), and the
  endpoint it posts to, src/internal/platform/httpx/mailwebhook.go. The provider's HTTP
  service is a parameter with a state; reading its JSON is Go's library, a parameter too.
\<close>

subsection \<open>Names of events\<close>

text \<open>\<^verbatim>\<open>normalise\<close>: the letters of a name, lower-cased and singular. A rune of more than one byte is no letter.\<close>

definition is_letter :: "char \<Rightarrow> bool" where
  "is_letter c \<longleftrightarrow> 97 \<le> code c \<and> code c \<le> 122"

definition normalise_event :: "string \<Rightarrow> string" where
  "normalise_event event =
     (let name = filter is_letter (to_lower (trim_space event)) in
      if length name > 1 \<and> last name = CHR ''s'' then butlast name else name)"

definition acted :: "string \<Rightarrow> mail_kind option" where
  "acted = map_of [(''hardbounce'', Bounce), (''invalidemail'', Bounce), (''invalid'', Bounce), (''blocked'', Bounce),
     (''spam'', Complaint), (''unsubscribed'', Complaint)]"

definition queries :: "string \<Rightarrow> string option" where
  "queries = map_of [(''hardbounce'', ''hardBounces''), (''invalidemail'', ''invalid''), (''invalid'', ''invalid''),
     (''blocked'', ''blocked''), (''spam'', ''spam''), (''unsubscribed'', ''unsubscribed'')]"

subsection \<open>The client\<close>

datatype http_answer = NoAnswer string | Answer nat string

record send_request =
  sr_name :: string
  sr_email :: string
  sr_to :: string
  sr_subject :: string
  sr_text :: string
  sr_html :: string
  sr_tags :: "string list"

datatype request_body = NoBodySent | SendBody send_request

record http_request =
  hr_method :: string
  hr_url :: string
  hr_key :: string
  hr_body :: request_body

record 'v client =
  cl_api :: string
  cl_key :: string
  cl_name :: string
  cl_email :: string
  cl_http :: "http_request \<Rightarrow> 'v \<Rightarrow> http_answer \<times> 'v"
  cl_message_id :: "string \<Rightarrow> string option"
  cl_reported :: "string \<Rightarrow> string list option"

definition API :: string where "API = ''https://api.brevo.com/v3''"

datatype client_error = NoKey | NoSender

text \<open>\<^verbatim>\<open>New\<close>, given the settings as a client whose address may be empty.\<close>

definition NewClient :: "'v client \<Rightarrow> client_error + 'v client" where
  "NewClient s =
     (if cl_key s = [] then Inl NoKey
      else if cl_email s = [] then Inl NoSender
      else Inr (s\<lparr>cl_api := trim_suffix_char (CHR ''/'') (if cl_api s = [] then API else cl_api s)\<rparr>))"

definition request_of :: "'v client \<Rightarrow> string \<Rightarrow> string \<Rightarrow> request_body \<Rightarrow> http_request" where
  "request_of c verb path body = \<lparr>hr_method = verb, hr_url = cl_api c @ path, hr_key = cl_key c, hr_body = body\<rparr>"

text \<open>\<^verbatim>\<open>summary\<close>, cut at 500 bytes with an ellipsis, and \<^verbatim>\<open>do\<close>: what an answer means.\<close>

definition ellipsis :: string where "ellipsis = map char_of [226, 128, 166 :: nat]"

definition summary :: "string \<Rightarrow> string" where
  "summary body = (let s = trim_space body in if length s > 500 then take 500 s @ ellipsis else s)"

definition read_limit :: nat where "read_limit = 2 ^ 20"

definition read_answer :: "(string \<Rightarrow> 'a option) \<Rightarrow> http_answer \<Rightarrow> provider_error + 'a" where
  "read_answer decoded a =
     (case a of
        NoAnswer cause \<Rightarrow> Inl (Unanswered (''cannot reach brevo: '' @ cause))
      | Answer status whole \<Rightarrow>
          (let body = take read_limit whole;
               cause = ''brevo answered '' @ dec status @ '': '' @ summary body in
           if status < 200 \<or> status > 299
           then Inl (if 400 \<le> status \<and> status < 500 then ErrRefused cause else Unanswered cause)
           else case decoded body of
             None \<Rightarrow> Inl (Unanswered ''brevo's answer is not the JSON expected'')
           | Some x \<Rightarrow> Inr x))"

definition send_body :: "'v client \<Rightarrow> rendered \<Rightarrow> send_request" where
  "send_body c r =
     (let m = re_message r in
      \<lparr>sr_name = (if From m = [] then cl_name c else From m), sr_email = cl_email c, sr_to = mail_address (To m),
       sr_subject = re_subject r, sr_text = re_text r, sr_html = re_html r,
       sr_tags = Template m # (if msg_marketplace m \<noteq> [] then [msg_marketplace m] else [])\<rparr>)"

definition SendBrevo :: "'v client \<Rightarrow> rendered \<Rightarrow> 'v \<Rightarrow> (provider_error + string) \<times> 'v" where
  "SendBrevo c r v =
     (case cl_http c (request_of c ''POST'' ''/smtp/email'' (SendBody (send_body c r))) v of
        (a, v') \<Rightarrow>
          (case read_answer (cl_message_id c) a of
             Inl e \<Rightarrow> Inl e
           | Inr ident \<Rightarrow>
               if ident = [] then Inl (Unanswered ''brevo accepted the message and named no identifier for it'')
               else Inr ident, v'))"

definition statistics_request :: "'v client \<Rightarrow> string \<Rightarrow> string \<Rightarrow> string \<Rightarrow> http_request" where
  "statistics_request c address named ident =
     (let query = go_map ([(''email'', address), (''event'', named)] @ (if ident \<noteq> [] then [(''messageId'', ident)] else [])) in
      request_of c ''GET'' (''/smtp/statistics/events?'' @ encode_query query) NoBodySent)"

definition ConfirmBrevo :: "'v client \<Rightarrow> mail_event \<Rightarrow> 'v \<Rightarrow> (provider_error + bool) \<times> 'v" where
  "ConfirmBrevo c e v =
     (let address = mail_address (me_address e) in
      if address = [] then (Inr False, v)
      else case queries (normalise_event (me_reported e)) of
        None \<Rightarrow> (Inr False, v)
      | Some named \<Rightarrow>
          (case cl_http c (statistics_request c address named (me_message e)) v of
             (a, v') \<Rightarrow>
               (case read_answer (cl_reported c) a of
                  Inl err \<Rightarrow> Inl err
                | Inr reported \<Rightarrow> Inr (list_ex (\<lambda>x. mail_address x = address) reported), v')))"

subsection \<open>What the provider posts\<close>

record notification =
  no_event :: string
  no_email :: string
  no_id :: string
  no_message :: string
  no_reason :: string

definition notification_id :: "notification \<Rightarrow> string" where
  "notification_id item =
     (if trim_space (no_id item) \<noteq> [] \<and> trim_space (no_id item) \<noteq> ''0'' then trim_space (no_id item)
      else if no_message item = [] then []
      else no_message item @ '':'' @ no_event item)"

definition brevo_name :: string where "brevo_name = ''brevo''"

definition events_of :: "notification list \<Rightarrow> mail_event list" where
  "events_of posted = List.map_filter (\<lambda>item.
     case acted (normalise_event (no_event item)) of
       None \<Rightarrow> None
     | Some kind \<Rightarrow>
         if mail_address (no_email item) = [] then None
         else Some \<lparr>me_provider = brevo_name, me_id = notification_id item, me_message = no_message item,
           me_address = mail_address (no_email item), me_kind = kind, me_reported = no_event item,
           me_reason = trim_space (no_reason item)\<rparr>) posted"

text \<open>\<^verbatim>\<open>Events\<close>; reading one notification or an array of them is the library's.\<close>

definition EventsBrevo :: "(string \<Rightarrow> notification list option) \<Rightarrow> (string \<Rightarrow> notification option) \<Rightarrow> string \<Rightarrow> mail_event list option" where
  "EventsBrevo many one body =
     (let trimmed = trim_space body in
      if trimmed = [] then None
      else if hd trimmed = CHR ''['' then map_option events_of (many body)
      else map_option (\<lambda>item. events_of [item]) (one body))"

subsection \<open>The endpoint\<close>

record webhook =
  wh_name :: string
  wh_token :: string
  wh_events :: "string \<Rightarrow> mail_event list option"

record hook_call =
  hc_provider :: string
  hc_header :: string
  hc_query :: string
  hc_body :: "string option"

definition StatusAccepted :: nat where "StatusAccepted = 202"
definition StatusNotFound :: nat where "StatusNotFound = 404"

definition authentic :: "webhook \<Rightarrow> hook_call \<Rightarrow> bool" where
  "authentic h r =
     (if wh_token h = [] then False
      else (if hc_header r = [] then hc_query r else hc_header r) = wh_token h)"

fun receive_all :: "('w platform \<Rightarrow> uuid) \<Rightarrow> time \<Rightarrow> mail_event list \<Rightarrow> ('w platform, out_error, unit) tx" where
  "receive_all gen now [] = ret ()"
| "receive_all gen now (e # es) =
     after (\<lambda>p. Write None (gen p) now (received_event e) p) (\<lambda>_. receive_all gen now es)"

text \<open>\<^verbatim>\<open>Handle\<close>; \<open>commits\<close> is whether the transaction begins and commits.\<close>

definition HandleWebhook :: "webhook \<Rightarrow> ('w platform \<Rightarrow> uuid) \<Rightarrow> time \<Rightarrow> bool \<Rightarrow> hook_call \<Rightarrow> 'w platform \<Rightarrow> nat \<times> 'w platform" where
  "HandleWebhook h gen now commits r p =
     (if hc_provider r \<noteq> wh_name h then (StatusNotFound, p)
      else if \<not> authentic h r then (StatusUnauthorized, p)
      else case hc_body r of
        None \<Rightarrow> (StatusBadRequest, p)
      | Some body \<Rightarrow>
          (case wh_events h body of
             None \<Rightarrow> (StatusBadRequest, p)
           | Some events \<Rightarrow>
               if events = [] then (StatusAccepted, p)
               else if \<not> commits then (StatusInternalServerError, p)
               else (case in_tx (receive_all gen now events) p of
                   (Inl e, p') \<Rightarrow> (StatusInternalServerError, p')
                 | (Inr u, p') \<Rightarrow> (StatusAccepted, p'))))"

end
