(* ===== verification/MailProps.thy ===== *)
theory MailProps
  imports Mail TextFacts
begin

text \<open>
  What the mail port promises: an address on the suppression list is never written to again,
  by any spelling, whatever sends and reports go on around it; and templates that loaded
  render in every language.
\<close>

lemma mail_address_idem [simp]: "mail_address (mail_address a) = mail_address a"
  by (simp add: mail_address_def lower_trim_twice)

subsection \<open>The list only grows, and keeps its first reasons\<close>

definition list_grows :: "'v mail_world \<Rightarrow> 'v mail_world \<Rightarrow> bool" where
  "list_grows w w' \<longleftrightarrow> (\<exists>more. mw_suppressed w' = mw_suppressed w @ more)"

lemma list_grows_refl [simp]: "list_grows w w"
  by (simp add: list_grows_def)

lemma list_grows_trans: "list_grows a b \<Longrightarrow> list_grows b c \<Longrightarrow> list_grows a c"
  by (auto simp: list_grows_def)

lemma list_grows_same: "mw_suppressed w' = mw_suppressed w \<Longrightarrow> list_grows w w'"
  by (simp add: list_grows_def)

lemma Suppress_grows: "list_grows w (snd (Suppress e w))"
  by (simp add: Suppress_def list_grows_def)

lemma Record_same [simp]: "mw_suppressed (Record s w) = mw_suppressed w" "mw_provider (Record s w) = mw_provider w"
  by (simp_all add: Record_def)

lemma record_line_same: "record_line ml we s w = (e, w') \<Longrightarrow>
    mw_suppressed w' = mw_suppressed w \<and> mw_provider w' = mw_provider w"
  by (auto simp: record_line_def split: if_splits)

text \<open>What others do while a send or a report is under way: anything that keeps the list.\<close>

definition fair_weather :: "'v weather \<Rightarrow> bool" where
  "fair_weather we \<longleftrightarrow> (\<forall>w. list_grows w (we_before we w)) \<and> (\<forall>w. list_grows w (we_after we w))"

lemma fair_weatherD: "fair_weather we \<Longrightarrow> list_grows w (we_before we w)" "fair_weather we \<Longrightarrow> list_grows w (we_after we w)"
  by (auto simp: fair_weather_def)

lemma SendMail_grows:
  assumes "fair_weather we"
  shows "list_grows w (snd (SendMail said ml we m w))"
proof -
  have line: "list_grows w (snd (record_line ml we s w1))" if "list_grows w w1" for s w1
    using record_line_same [of ml we s w1] that by (cases "record_line ml we s w1") (simp add: list_grows_def)
  have "list_grows w (we_after we ((we_before we w)\<lparr>mw_provider := v\<rparr>))" for v
    using list_grows_trans [OF list_grows_trans [OF fair_weatherD(1) [OF assms] list_grows_same] fair_weatherD(2) [OF assms]]
    by simp
  moreover have shape: "snd (case p of (x, w') \<Rightarrow> ((state, x), w')) = snd p"
    "snd (case p of (None, w') \<Rightarrow> ((state, y), w') | (Some e, w') \<Rightarrow> ((state, Some e), w')) = snd p"
    for p :: "mail_error option \<times> 'a mail_world" and state :: mail_state and y
    by (auto split: prod.splits option.splits)
  ultimately show ?thesis
    unfolding SendMail_def Let_def
    by (simp add: line shape fair_weatherD(1) [OF assms] split: sum.split prod.split)
qed

lemma Apply_grows:
  assumes "fair_weather we"
  shows "list_grows w (snd (Apply ml we e w))"
proof -
  have "list_grows w (snd (Suppress e (we_before we (w\<lparr>mw_provider := v\<rparr>))))" for v
    by (rule list_grows_trans [OF list_grows_trans [OF list_grows_same fair_weatherD(1) [OF assms]] Suppress_grows]) simp
  then show ?thesis
    by (auto simp: Apply_def list_grows_same split: sum.splits prod.splits provider_error.splits bool.splits)
qed

text \<open>Sends and reports of any mailer, and anything else that keeps the list.\<close>

inductive mstep :: "'v mail_world \<Rightarrow> 'v mail_world \<Rightarrow> bool" where
  sends: "fair_weather we \<Longrightarrow> SendMail said ml we m w = (r, w') \<Longrightarrow> mstep w w'"
| applies: "fair_weather we \<Longrightarrow> Apply ml we e w = (r, w') \<Longrightarrow> mstep w w'"
| others: "list_grows w w' \<Longrightarrow> mstep w w'"

lemma msteps_grow: "mstep\<^sup>*\<^sup>* w w' \<Longrightarrow> list_grows w w'"
proof (induction rule: rtranclp_induct)
  case (step b c)
  from step.hyps(2) have "list_grows b c"
    by cases (use SendMail_grows Apply_grows in \<open>metis snd_conv\<close>)+
  then show ?case using step.IH list_grows_trans by blast
qed simp

lemma Suppressed_grows: "list_grows w w' \<Longrightarrow> Suppressed a w \<Longrightarrow> Suppressed a w'"
  by (auto simp: list_grows_def Suppressed_def)

lemma Suppress_Suppressed: "mail_address a = mail_address (me_address e) \<Longrightarrow> Suppressed a (snd (Suppress e w))"
  by (auto simp: Suppress_def Suppressed_def)

text \<open>The row that answers why: the first of the address.\<close>

definition why_suppressed :: "string \<Rightarrow> 'v mail_world \<Rightarrow> suppression option" where
  "why_suppressed a w = find (\<lambda>s. su_address s = mail_address a) (mw_suppressed w)"

lemma find_app_Some: "find P xs = Some x \<Longrightarrow> find P (xs @ ys) = Some x"
  by (induction xs) (auto split: if_splits)

lemma why_grows: "list_grows w w' \<Longrightarrow> why_suppressed a w = Some s \<Longrightarrow> why_suppressed a w' = Some s"
  by (auto simp: list_grows_def why_suppressed_def find_app_Some)

lemma why_iff: "Suppressed a w \<longleftrightarrow> why_suppressed a w \<noteq> None"
  by (auto simp: Suppressed_def why_suppressed_def list_ex_iff find_None_iff)

text \<open>A send that finds its address on the list.\<close>

lemma SendMail_skips:
  assumes "ml_database ml" and "Suppressed (To m) w" and "mail_address (To m) \<noteq> []"
  shows "SendMail said ml we m w =
    (if we_list we then
       if we_log we
       then ((StateSkipped, None), Record (line_of (m\<lparr>To := mail_address (To m)\<rparr>) StateSkipped [] ''the address is suppressed'')
               (we_before we w))
       else ((StateSkipped, Some CannotRecord), we_before we w)
     else ((StateFailed, Some CannotReadList), w))"
  using assms by (auto simp: SendMail_def Let_def Suppressed_def record_line_def)

text \<open>
  C30. An address that bounced or complained is never written to again. Once a report was
  applied, whatever sends, reports and other transactions follow, a message to the address,
  however it is spelt, is not handed to the provider: the send answers skipped and logs it,
  or says it could not reach the list. The reason kept is the first one.
\<close>

theorem suppressed_address_is_never_written_to:
  assumes "Suppress e w0 = (added, w1)" and "mstep\<^sup>*\<^sup>* w1 w"
    and "mail_address (To m) = mail_address (me_address e)" and "mail_address (To m) \<noteq> []" and "ml_database ml"
    and "SendMail said ml we m w = ((state, err), w')"
  shows "state \<noteq> StateSent \<and> mw_provider w' \<in> {mw_provider w, mw_provider (we_before we w)} \<and>
    (if we_list we then state = StateSkipped \<and>
       (if we_log we then err = None \<and> sn_state (last (mw_log w')) = StateSkipped \<and>
          sn_address (last (mw_log w')) = mail_address (me_address e)
        else err = Some CannotRecord)
     else state = StateFailed \<and> err = Some CannotReadList) \<and>
    (if why_suppressed (To m) w0 = None
     then map_option su_reason (why_suppressed (To m) w) = Some (me_kind e)
     else why_suppressed (To m) w = why_suppressed (To m) w0)"
proof -
  have w1: "w1 = snd (Suppress e w0)" using assms(1) by simp
  have grows: "list_grows w1 w" by (rule msteps_grow [OF assms(2)])
  have "Suppressed (To m) w1" unfolding w1 by (rule Suppress_Suppressed [OF assms(3)])
  then have there: "Suppressed (To m) w" by (rule Suppressed_grows [OF grows])
  have run: "((state, err), w') = (if we_list we then
       if we_log we
       then ((StateSkipped, None), Record (line_of (m\<lparr>To := mail_address (To m)\<rparr>) StateSkipped [] ''the address is suppressed'')
               (we_before we w))
       else ((StateSkipped, Some CannotRecord), we_before we w)
     else ((StateFailed, Some CannotReadList), w))"
    using SendMail_skips [OF assms(5) there assms(4), of said we] assms(6) by simp
  have why: "if why_suppressed (To m) w0 = None
     then map_option su_reason (why_suppressed (To m) w) = Some (me_kind e)
     else why_suppressed (To m) w = why_suppressed (To m) w0"
  proof (cases "why_suppressed (To m) w0")
    case None
    then have "\<not> Suppressed (To m) w0" by (simp add: why_iff)
    then have new: "\<not> list_ex (\<lambda>s. su_address s = mail_address (me_address e)) (mw_suppressed w0)"
      by (simp add: Suppressed_def assms(3))
    have "find P (xs @ [x]) = (case find P xs of Some y \<Rightarrow> Some y | None \<Rightarrow> if P x then Some x else None)"
      for P :: "suppression \<Rightarrow> bool" and xs x by (induction xs) auto
    then have "\<exists>s. why_suppressed (To m) w1 = Some s \<and> su_reason s = me_kind e"
      using None new by (simp add: w1 Suppress_def why_suppressed_def assms(3))
    then show ?thesis using why_grows [OF grows] None by fastforce
  next
    case (Some s)
    then have "why_suppressed (To m) w1 = Some s" unfolding w1 by (rule why_grows [OF Suppress_grows])
    then show ?thesis using why_grows [OF grows] Some by simp
  qed
  show ?thesis
    using run why by (auto simp: Record_def line_of_def assms(3) split: if_splits)
qed

definition bounce_report :: mail_event where
  "bounce_report = \<lparr>me_provider = ''brevo'', me_id = ''7'', me_message = [], me_address = ''Ana@Example.com '',
     me_kind = Bounce, me_reported = ''hard_bounce'', me_reason = []\<rparr>"

definition empty_mail :: "nat mail_world" where
  "empty_mail = \<lparr>mw_suppressed = [], mw_log = [], mw_provider = 0\<rparr>"

definition counting_mailer :: "nat mailer" where
  "counting_mailer = \<lparr>ml_database = True, ml_templates = no_templates, ml_fallback = ''en-US'',
     ml_send = (\<lambda>r n. (Inr ''id'', Suc n)), ml_confirm = (\<lambda>e n. (Inr True, n))\<rparr>"

definition still :: "nat weather" where
  "still = \<lparr>we_list = True, we_log = True, we_before = (\<lambda>w. w), we_after = (\<lambda>w. w)\<rparr>"

definition greeting :: message where
  "greeting = \<lparr>Template = ''verify-email'', msg_language = ''pt-BR'', To = ''ANA@example.com'', From = ''Shop'',
     msg_marketplace = ''m1'', Variables = []\<rparr>"

definition after_report :: "nat mail_world" where
  "after_report = snd (Suppress bounce_report empty_mail)"

definition after_send :: "nat mail_world" where
  "after_send = snd (SendMail (\<lambda>e. []) counting_mailer still greeting after_report)"

theorem suppressed_address_is_never_written_to_witness:
  "StateSkipped \<noteq> StateSent \<and> mw_provider after_send \<in> {mw_provider after_report, mw_provider (we_before still after_report)} \<and>
    (if we_list still then StateSkipped = StateSkipped \<and>
       (if we_log still then (None :: mail_error option) = None \<and> sn_state (last (mw_log after_send)) = StateSkipped \<and>
          sn_address (last (mw_log after_send)) = mail_address (me_address bounce_report)
        else (None :: mail_error option) = Some CannotRecord)
     else StateSkipped = StateFailed \<and> (None :: mail_error option) = Some CannotReadList) \<and>
    (if why_suppressed (To greeting) empty_mail = None
     then map_option su_reason (why_suppressed (To greeting) after_report) = Some (me_kind bounce_report)
     else why_suppressed (To greeting) after_report = why_suppressed (To greeting) empty_mail)"
proof (rule suppressed_address_is_never_written_to)
  show "Suppress bounce_report empty_mail = (fst (Suppress bounce_report empty_mail), after_report)"
    by (simp add: after_report_def)
  have same: "mail_address (To greeting) = ''ana@example.com''" "mail_address (me_address bounce_report) = ''ana@example.com''"
    by code_simp+
  then show "mail_address (To greeting) = mail_address (me_address bounce_report)" "mail_address (To greeting) \<noteq> []"
    by simp_all
  have "Suppressed (To greeting) after_report"
    by (simp add: Suppressed_def after_report_def Suppress_def empty_mail_def same)
  then have "fst (SendMail (\<lambda>e. []) counting_mailer still greeting after_report) = (StateSkipped, None)"
    using same by (subst SendMail_skips) (simp_all add: counting_mailer_def still_def)
  then show "SendMail (\<lambda>e. []) counting_mailer still greeting after_report = ((StateSkipped, None), after_send)"
    by (metis after_send_def prod.collapse)
qed (simp_all add: counting_mailer_def)

subsection \<open>Templates\<close>

lemma position_before: "position c s = Some i \<Longrightarrow> c \<notin> set (take i s)"
  by (induction s arbitrary: i) (auto split: if_splits option.splits)

lemma parts_name: "parts file = Some (name, language, kind) \<Longrightarrow> CHR ''.'' \<notin> set name \<and> kind \<in> {''txt'', ''html''}"
  using position_before by (auto simp: parts_def cut_first_def split: option.splits prod.splits if_splits)

lemma template_key_inject:
  "CHR ''.'' \<notin> set a \<Longrightarrow> CHR ''.'' \<notin> set b \<Longrightarrow> template_key a l = template_key b k \<longleftrightarrow> a = b \<and> l = k"
proof (induction a arbitrary: b)
  case Nil
  then show ?case by (cases b) (auto simp: template_key_def)
next
  case (Cons x a)
  then show ?case by (cases b) (auto simp: template_key_def)
qed

text \<open>What is loaded is filed under a name without a dot and a language, both listed.\<close>

definition filed :: "templates \<Rightarrow> bool" where
  "filed t \<longleftrightarrow> (\<forall>name \<in> set (tp_names t). CHR ''.'' \<notin> set name) \<and>
     (\<forall>k \<in> dom (tp_text t) \<union> dom (tp_html t). \<exists>name \<in> set (tp_names t). \<exists>l \<in> set (tp_languages t). k = template_key name l)"

lemma load_file_filed: "load_file p f t = Inr t' \<Longrightarrow> filed t \<Longrightarrow> filed t'"
  using parts_name
  by (auto simp: load_file_def filed_def Let_def split: prod.splits option.splits if_splits; fastforce)

lemma load_files_filed: "load_files p fs t = Inr t' \<Longrightarrow> filed t \<Longrightarrow> filed t'"
  by (induction fs arbitrary: t) (auto split: sum.splits dest: load_file_filed)

text \<open>
  C31. Templates that loaded are complete. Names and languages are listed once and in order,
  every template has both parts in every language, and a message that names one of them is
  never refused for want of a template: it is rendered in its reader's language when the
  templates have it, and in the official one otherwise.
\<close>

theorem loaded_templates_are_complete:
  assumes "loadTemplates p files = Inr t"
  shows "tp_names t \<noteq> [] \<and> sorted (tp_names t) \<and> distinct (tp_names t) \<and> sorted (tp_languages t) \<and> distinct (tp_languages t) \<and>
    (\<forall>name \<in> set (tp_names t). \<forall>language \<in> set (tp_languages t).
       tp_text t (template_key name language) \<noteq> None \<and> tp_html t (template_key name language) \<noteq> None) \<and>
    (Template m \<in> set (tp_names t) \<and> fallback \<in> set (tp_languages t) \<longrightarrow>
       Render t m fallback \<noteq> Inl ErrNoTemplate \<and>
       (\<forall>r. Render t m fallback = Inr r \<longrightarrow>
          msg_language (re_message r) = (if msg_language m \<in> set (tp_languages t) then msg_language m else fallback) \<and>
          re_subject r \<noteq> []))"
proof -
  obtain t0 where loaded: "load_files p files no_templates = Inr t0"
    and t: "t = t0\<lparr>tp_names := sort (remdups (tp_names t0)), tp_languages := sort (remdups (tp_languages t0))\<rparr>"
    and names: "tp_names t \<noteq> []"
    and both: "\<forall>name \<in> set (tp_names t). \<forall>language \<in> set (tp_languages t).
       tp_text t (template_key name language) \<noteq> None \<and> tp_html t (template_key name language) \<noteq> None"
    using assms by (auto simp: loadTemplates_def Let_def list_ex_iff split: sum.splits if_splits)
  have "filed t0" by (rule load_files_filed [OF loaded]) (simp add: filed_def no_templates_def)
  then have filed: "filed t" by (simp add: filed_def t)
  have render: "Render t m fallback \<noteq> Inl ErrNoTemplate \<and>
      (\<forall>r. Render t m fallback = Inr r \<longrightarrow>
         msg_language (re_message r) = (if msg_language m \<in> set (tp_languages t) then msg_language m else fallback) \<and>
         re_subject r \<noteq> [])"
    if m: "Template m \<in> set (tp_names t)" and f: "fallback \<in> set (tp_languages t)"
  proof -
    have dotless: "CHR ''.'' \<notin> set (Template m)" using filed m by (simp add: filed_def)
    have known: "tp_text t (template_key (Template m) l) = None \<longleftrightarrow> l \<notin> set (tp_languages t)" for l
    proof
      assume "l \<notin> set (tp_languages t)"
      then show "tp_text t (template_key (Template m) l) = None"
        using filed dotless unfolding filed_def by (metis UnCI domIff template_key_inject)
    qed (use both m in blast)
    obtain l where l: "l = (if msg_language m \<in> set (tp_languages t) then msg_language m else fallback)" by blast
    then have "l \<in> set (tp_languages t)" using f by simp
    then obtain plain_part html where pieces: "tp_text t (template_key (Template m) l) = Some plain_part"
        "tp_html t (template_key (Template m) l) = Some html"
      using both m by blast
    have "(if tp_text t (template_key (Template m) (msg_language m)) = None then fallback else msg_language m) = l"
      by (simp add: known l)
    then have render: "Render t m fallback =
        (let data = copy_into (go_map [(''From'', From m), (''Language'', l)]) (go_map (Variables m)) in
         case plain_part data of
           None \<Rightarrow> Inl TextPart
         | Some body \<Rightarrow>
             (case split_subject body of
                Inl e \<Rightarrow> Inl e
              | Inr (subject, plain) \<Rightarrow>
                  (case html data of
                     None \<Rightarrow> Inl HTMLPart
                   | Some markup \<Rightarrow> Inr \<lparr>re_message = m\<lparr>msg_language := l\<rparr>, re_subject = subject,
                       re_text = plain, re_html = markup\<rparr>)))"
      unfolding Render_def by (simp only: Let_def pieces prod.case option.case)
    have split: "split_subject body = Inl e \<Longrightarrow> e \<noteq> ErrNoTemplate" "split_subject body = Inr (subject, plain) \<Longrightarrow> subject \<noteq> []"
      for body e subject plain
      by (auto simp: split_subject_def split: option.splits if_splits)
    then show ?thesis
      unfolding render Let_def l [symmetric] by (auto split: option.splits sum.splits prod.splits)
  qed
  show ?thesis using names both render by (simp add: t)
qed

definition sample_parsers :: parsers where
  "sample_parsers = \<lparr>pr_text = (\<lambda>file raw. Some (\<lambda>data. Some raw)), pr_html = (\<lambda>file raw. Some (\<lambda>data. Some raw))\<rparr>"

definition sample_files :: "entry_file list" where
  "sample_files = [(''mail'', True, None), (''hello.en-US.html'', False, Some ''hi''),
     (''hello.en-US.txt'', False, Some (''Subject: Hi'' @ [newline] @ ''hi''))]"

definition sample_templates :: templates where
  "sample_templates = projr (loadTemplates sample_parsers sample_files)"

lemma sample_loads: "loadTemplates sample_parsers sample_files = Inr sample_templates"
  "tp_names sample_templates = [''hello'']" "tp_languages sample_templates = [''en-US'']"
proof -
  have "\<not> isl (loadTemplates sample_parsers sample_files)" by code_simp
  then show "loadTemplates sample_parsers sample_files = Inr sample_templates"
    by (cases "loadTemplates sample_parsers sample_files") (auto simp: sample_templates_def)
  show "tp_names sample_templates = [''hello'']" "tp_languages sample_templates = [''en-US'']" by code_simp+
qed

theorem loaded_templates_are_complete_witness:
  "sorted (tp_names sample_templates) \<and> list_all (\<lambda>name. list_all (\<lambda>language.
       tp_text sample_templates (template_key name language) \<noteq> None) (tp_languages sample_templates)) (tp_names sample_templates) \<and>
   Render sample_templates (greeting\<lparr>Template := ''hello''\<rparr>) ''en-US'' \<noteq> Inl ErrNoTemplate"
  using loaded_templates_are_complete [OF sample_loads(1), of "greeting\<lparr>Template := ''hello''\<rparr>" "''en-US''"]
  by (simp add: sample_loads(2,3))

end
