(* ===== verification/UrlFacts.thy ===== *)
theory UrlFacts
  imports Urls
begin

text \<open>
  Facts about Urls: a path cut into its segments and put together again, cleaning a path that
  is escaped, and what a browser that follows a redirect asks for.
\<close>

subsection \<open>Segments\<close>

lemma split_at_not_Nil [simp]: "split_at c s \<noteq> []"
  by (induction s) (auto split: list.splits)

lemma split_at_pieces: "x \<in> set (split_at c s) \<Longrightarrow> c \<notin> set x"
  by (induction s arbitrary: x) (auto split: list.splits if_splits)

lemma join_with_Cons: "join_with c (s # ss) = s @ (if ss = [] then [] else c # join_with c ss)"
  by (cases ss) auto

lemma join_with_split: "join_with c (split_at c s) = s"
  by (induction s) (auto simp: join_with_Cons split: list.splits)

lemma split_at_join:
  "ss \<noteq> [] \<Longrightarrow> list_all (\<lambda>s. c \<notin> set s) ss \<Longrightarrow> split_at c (join_with c ss) = ss"
  by (induction ss) (auto simp: join_with_Cons split_at_no_sep split_at_append)

lemma join_with_append:
  "xs \<noteq> [] \<Longrightarrow> ys \<noteq> [] \<Longrightarrow> join_with c (xs @ ys) = join_with c xs @ c # join_with c ys"
  by (induction xs) (auto simp: join_with_Cons)

definition segment :: "string \<Rightarrow> bool" where
  "segment s \<longleftrightarrow> s \<noteq> [] \<and> s \<noteq> ''.'' \<and> s \<noteq> ''..'' \<and> CHR ''/'' \<notin> set s"

lemma clean_onto_segments:
  "list_all segment ss \<Longrightarrow> clean_onto st ss = rev st @ ss"
  by (induction ss arbitrary: st) (auto simp: segment_def)

lemma clean_onto_plain:
  "list_all segment st \<Longrightarrow> list_all (\<lambda>s. CHR ''/'' \<notin> set s) ss \<Longrightarrow> list_all segment (clean_onto st ss)"
proof (induction st ss rule: clean_onto.induct)
  case (2 st s ss)
  have "list_all segment (tl st)" using "2.prems"(1) by (cases st) auto
  with 2 show ?case
    by (cases "s = [] \<or> s = ''.''"; cases "s = ''..''") (simp_all add: segment_def [of s])
qed auto

lemma clean_onto_blank: "clean_onto st (ss @ [[]]) = clean_onto st ss"
  by (induction st ss rule: clean_onto.induct) auto

subsection \<open>A clean path\<close>

definition rooted :: "string list \<Rightarrow> bool \<Rightarrow> string" where
  "rooted ss slash = CHR ''/'' # join_with (CHR ''/'') ss @ (if slash then ''/'' else [])"

definition clean_form :: "string list \<Rightarrow> bool \<Rightarrow> bool" where
  "clean_form ss slash \<longleftrightarrow> list_all segment ss \<and> (ss = [] \<longrightarrow> \<not> slash)"

lemma join_ends:
  "list_all segment ss \<Longrightarrow> ss \<noteq> [] \<Longrightarrow> \<not> has_suffix_char (CHR ''/'') (CHR ''/'' # join_with (CHR ''/'') ss)"
proof (induction ss)
  case (Cons s ss)
  show ?case
  proof (cases "ss = []")
    case True
    with Cons.prems show ?thesis by (auto simp: segment_def has_suffix_char_def dest: last_in_set)
  next
    case False
    with Cons show ?thesis by (auto simp: segment_def has_suffix_char_def join_with_Cons)
  qed
qed simp

lemma split_rooted:
  assumes "clean_form ss slash"
  shows "split_at (CHR ''/'') (tl (rooted ss slash)) =
    (if ss = [] then [[]] else ss @ (if slash then [[]] else []))"
proof (cases "ss = []")
  case True
  with assms show ?thesis by (simp add: rooted_def clean_form_def)
next
  case False
  have free: "list_all (\<lambda>s. CHR ''/'' \<notin> set s) ss"
    using assms by (simp add: clean_form_def list_all_iff segment_def)
  have "tl (rooted ss slash) = join_with (CHR ''/'') (ss @ (if slash then [[]] else []))"
    using False by (simp add: rooted_def join_with_append)
  then show ?thesis using False free by (simp add: split_at_join)
qed

lemma has_suffix_rooted:
  assumes "clean_form ss slash"
  shows "has_suffix_char (CHR ''/'') (rooted ss slash) \<longleftrightarrow> slash \<or> ss = []"
proof (cases slash)
  case True
  then show ?thesis by (simp add: rooted_def has_suffix_char_def)
next
  case False
  show ?thesis
  proof (cases "ss = []")
    case True
    then show ?thesis by (simp add: rooted_def has_suffix_char_def)
  next
    case ne: False
    have "list_all segment ss" using assms by (simp add: clean_form_def)
    from join_ends [OF this ne] ne False show ?thesis by (simp add: rooted_def)
  qed
qed

lemma Clean_rooted:
  assumes "clean_form ss slash"
  shows "Clean (rooted ss slash) = rooted ss False"
proof -
  have "clean_onto [] (split_at (CHR ''/'') (tl (rooted ss slash))) = ss"
    using assms unfolding split_rooted [OF assms]
    by (auto simp: clean_onto_blank clean_onto_segments clean_form_def)
  then show ?thesis by (simp add: Clean_def rooted_def)
qed

lemma clean_rooted:
  assumes "clean_form ss slash"
  shows "clean_keeping_slash (rooted ss slash) = rooted ss slash"
proof -
  have "clean_form ss False" using assms by (simp add: clean_form_def)
  note ends = has_suffix_rooted [OF assms] has_suffix_rooted [OF this]
  have "slash \<Longrightarrow> ss \<noteq> []" using assms by (auto simp: clean_form_def)
  then show ?thesis
    unfolding clean_keeping_slash_def Clean_rooted [OF assms] ends by (auto simp: rooted_def)
qed

lemma clean_is_rooted:
  obtains ss slash where "clean_form ss slash" "clean_keeping_slash path = rooted ss slash"
proof -
  let ?ss = "clean_onto [] (split_at (CHR ''/'') (tl path))"
  have plain: "list_all segment ?ss"
    by (rule clean_onto_plain) (auto simp: list_all_iff dest: split_at_pieces)
  then have form: "clean_form ?ss False" by (simp add: clean_form_def)
  have cleaned: "Clean path = rooted ?ss False" by (simp add: Clean_def rooted_def)
  show thesis
  proof (cases "clean_keeping_slash path = Clean path")
    case True
    then show thesis using that [OF form] cleaned by simp
  next
    case False
    then have "clean_keeping_slash path = rooted ?ss True" "?ss \<noteq> []"
      using has_suffix_rooted [OF form] unfolding clean_keeping_slash_def cleaned
      by (auto simp: rooted_def split: if_splits)
    then show thesis using that [of ?ss True] plain by (simp add: clean_form_def)
  qed
qed

lemma clean_under:
  assumes "segment tag" and form: "clean_form ss slash"
  shows "clean_keeping_slash (CHR ''/'' # tag @ rooted ss slash) = rooted (tag # ss) (slash \<or> ss = [])"
proof -
  have "CHR ''/'' # tag @ rooted ss slash = rooted (tag # ss) (slash \<or> ss = [])"
    using form by (auto simp: rooted_def join_with_Cons clean_form_def)
  moreover have "clean_form (tag # ss) (slash \<or> ss = [])"
    using assms by (simp add: clean_form_def)
  ultimately show ?thesis by (simp add: clean_rooted)
qed

subsection \<open>A clean path, escaped\<close>

lemma path_escape_Nil [simp]: "path_escape [] = []"
  by (simp add: path_escape_def)

lemma path_escape_append: "path_escape (s @ t) = path_escape s @ path_escape t"
  by (simp add: path_escape_def)

lemma path_escape_Cons: "path_escape (c # s) = (if path_safe c then [c] else percent c) @ path_escape s"
  by (simp add: path_escape_def)

lemma path_escape_inject: "path_escape s = path_escape t \<longleftrightarrow> s = t"
  by (metis option.inject path_unescape_escape)

lemma path_escape_names:
  "path_escape s = [] \<longleftrightarrow> s = []" "path_escape s = ''.'' \<longleftrightarrow> s = ''.''" "path_escape s = ''..'' \<longleftrightarrow> s = ''..''"
proof -
  have "path_escape ''.'' = ''.''" "path_escape ''..'' = ''..''" by code_simp+
  then show "path_escape s = [] \<longleftrightarrow> s = []" "path_escape s = ''.'' \<longleftrightarrow> s = ''.''"
    "path_escape s = ''..'' \<longleftrightarrow> s = ''..''"
    by (metis path_escape_inject path_escape_Nil)+
qed

text \<open>What an escaped path is made of: the characters kept, and escapes in capitals.\<close>

definition escaped_char :: "char \<Rightarrow> bool" where
  "escaped_char c \<longleftrightarrow> path_safe c \<or> c = CHR ''%''"

lemma upper_hex_safe: "n < 16 \<Longrightarrow> unreserved (upper_hex n) \<and> upper_hex n \<noteq> CHR ''/''"
proof -
  have all: "list_all (\<lambda>n. unreserved (upper_hex n) \<and> code (upper_hex n) \<noteq> 47) [0..<16]"
    by (simp add: upt_rec unreserved_def upper_hex_def digit_def code_def)
  have slash: "code (CHR ''/'') = 47" by (simp add: code_def)
  assume "n < 16"
  then have "unreserved (upper_hex n)" "code (upper_hex n) \<noteq> 47"
    using all by (auto simp: list_all_iff)
  then show ?thesis using slash by metis
qed

lemma percent_safe: "list_all (\<lambda>x. escaped_char x \<and> x \<noteq> CHR ''/'') (percent c)"
proof -
  have "code c div 16 < 16" "code c mod 16 < 16" using code_less [of c] by auto
  then show ?thesis by (simp add: percent_def escaped_char_def path_safe_def upper_hex_safe)
qed

lemma path_escape_safe: "list_all escaped_char (path_escape s)"
proof (induction s)
  case (Cons c s)
  have "list_all escaped_char (percent c)" using percent_safe [of c] by (simp add: list_all_iff)
  with Cons show ?case by (simp add: path_escape_Cons escaped_char_def [of c])
qed simp

lemma slash_safe: "path_safe (CHR ''/'')"
  by code_simp

lemma split_at_escape: "split_at (CHR ''/'') (path_escape s) = map path_escape (split_at (CHR ''/'') s)"
proof (induction s)
  case (Cons c s)
  obtain w ws where s: "split_at (CHR ''/'') s = w # ws" by (cases "split_at (CHR ''/'') s") auto
  show ?case
  proof (cases "c = CHR ''/''")
    case True
    then show ?thesis using Cons.IH by (simp add: path_escape_Cons slash_safe)
  next
    case False
    have pre: "CHR ''/'' \<notin> set u \<Longrightarrow> split_at (CHR ''/'') t = w' # ws' \<Longrightarrow>
        split_at (CHR ''/'') (u @ t) = (u @ w') # ws'" for u t w' ws'
      by (induction u) auto
    have "CHR ''/'' \<notin> set (if path_safe c then [c] else percent c)"
      using False percent_safe [of c] by (auto simp: list_all_iff)
    from pre [OF this] Cons.IH show ?thesis
      using False by (simp add: path_escape_Cons [of c] s del: path_escape_Cons)
  qed
qed (simp add: path_escape_def)

lemma join_with_escape: "join_with (CHR ''/'') (map path_escape ss) = path_escape (join_with (CHR ''/'') ss)"
  by (induction ss) (auto simp: join_with_Cons path_escape_append path_escape_Cons slash_safe)

lemma clean_onto_escape:
  "clean_onto (map path_escape st) (map path_escape ss) = map path_escape (clean_onto st ss)"
  by (induction st ss rule: clean_onto.induct) (auto simp: path_escape_names rev_map map_tl [symmetric])

lemma escape_tl: "hd path = CHR ''/'' \<Longrightarrow> path \<noteq> [] \<Longrightarrow> tl (path_escape path) = path_escape (tl path)"
  by (cases path) (auto simp: path_escape_Cons slash_safe)

lemma Clean_escape:
  assumes "path = CHR ''/'' # p"
  shows "Clean (path_escape path) = path_escape (Clean path)"
  using clean_onto_escape [of "[]"]
  by (simp add: Clean_def assms path_escape_Cons slash_safe split_at_escape join_with_escape)

lemma last_escape: "has_suffix_char (CHR ''/'') (path_escape s) \<longleftrightarrow> has_suffix_char (CHR ''/'') s"
proof (cases s rule: rev_cases)
  case (snoc t c)
  have "last (percent c) \<noteq> CHR ''/''" "percent c \<noteq> []"
    using percent_safe [of c] by (auto simp: percent_def)
  then show ?thesis
    using snoc by (auto simp: has_suffix_char_def path_escape_append path_escape_Cons slash_safe)
qed (simp add: has_suffix_char_def)

lemma clean_escape:
  assumes "path = CHR ''/'' # p"
  shows "clean_keeping_slash (path_escape path) = path_escape (clean_keeping_slash path)"
  by (simp add: clean_keeping_slash_def Clean_escape [OF assms] last_escape path_escape_append
      path_escape_Cons slash_safe)

subsection \<open>Following a redirect\<close>

lemma cut_at_absent: "c \<notin> set s \<Longrightarrow> cut_at c s = (s, [], False)"
proof -
  assume "c \<notin> set s"
  then have "position c s = None" by (induction s) auto
  then show ?thesis by (simp add: cut_at_def)
qed

lemma cut_at_append: "c \<notin> set s \<Longrightarrow> cut_at c (s @ c # t) = (s, t, True)"
proof -
  assume "c \<notin> set s"
  then have "position c (s @ c # t) = Some (length s)" by (induction s) auto
  then show ?thesis by (simp add: cut_at_def)
qed

lemma escaped_char_code: "escaped_char c \<Longrightarrow> code c < 127 \<and> 32 \<le> code c"
  by (auto simp: escaped_char_def path_safe_def unreserved_def code_def)

lemma escaped_char_marks: "\<not> escaped_char (CHR ''?'')" "\<not> escaped_char (CHR ''#'')"
  by code_simp+

lemma escape_free:
  "CHR ''?'' \<notin> set (path_escape s)" "CHR ''#'' \<notin> set (path_escape s)"
  "list_all (\<lambda>c. \<not> control c) (path_escape s)" "hexEscapeNonASCII (path_escape s) = path_escape s"
proof -
  have safe: "\<forall>c \<in> set (path_escape s). escaped_char c"
    using path_escape_safe [of s] by (simp add: list_all_iff)
  show "CHR ''?'' \<notin> set (path_escape s)" "CHR ''#'' \<notin> set (path_escape s)"
    using safe escaped_char_marks by metis+
  show "list_all (\<lambda>c. \<not> control c) (path_escape s)"
    using safe escaped_char_code unfolding list_all_iff control_def by fastforce
  have "hexEscapeNonASCII t = t" if "\<forall>c \<in> set t. escaped_char c" for t
    using that
  proof (induction t)
    case (Cons c t)
    then have "code c < 127" using escaped_char_code by simp
    with Cons show ?case by (simp add: hexEscapeNonASCII_def)
  qed (simp add: hexEscapeNonASCII_def)
  then show "hexEscapeNonASCII (path_escape s) = path_escape s"
    using safe by blast
qed

text \<open>A query a browser sends: no fragment and no control character.\<close>

definition plain_query :: "string \<Rightarrow> bool" where
  "plain_query q \<longleftrightarrow> list_all (\<lambda>c. \<not> control c \<and> c \<noteq> CHR ''#'') q"

lemma hexEscape_append: "hexEscapeNonASCII (s @ t) = hexEscapeNonASCII s @ hexEscapeNonASCII t"
  by (simp add: hexEscapeNonASCII_def)

lemma hex_digit_code: "n < 16 \<Longrightarrow> 48 \<le> code (hex_digit n) \<and> code (hex_digit n) < 127"
proof -
  assume "n < 16"
  moreover have "list_all (\<lambda>n. 48 \<le> code (hex_digit n) \<and> code (hex_digit n) < 127) [0..<16]"
    by (simp add: upt_rec hex_digit_def digit_def code_def)
  ultimately show ?thesis by (simp add: list_all_iff)
qed

lemma plain_query_escaped: "plain_query q \<Longrightarrow> plain_query (hexEscapeNonASCII q)"
proof (induction q)
  case (Cons c q)
  have hash: "code (CHR ''#'') = 35" by (simp add: code_def)
  have pct: "\<not> control (CHR ''%'')" "CHR ''%'' \<noteq> CHR ''#''" by (simp_all add: control_def code_def)
  have "code c div 16 < 16" "code c mod 16 < 16" using code_less [of c] by auto
  then have "code (hex_digit (code c div 16)) \<ge> 48" "code (hex_digit (code c div 16)) < 127"
    "code (hex_digit (code c mod 16)) \<ge> 48" "code (hex_digit (code c mod 16)) < 127"
    using hex_digit_code by blast+
  then have "hex_digit (code c div 16) \<noteq> CHR ''#''" "hex_digit (code c mod 16) \<noteq> CHR ''#''"
    "\<not> control (hex_digit (code c div 16))" "\<not> control (hex_digit (code c mod 16))"
    using hash by (auto simp: control_def)
  with Cons pct show ?case by (simp add: plain_query_def hexEscapeNonASCII_def)
qed (simp add: plain_query_def hexEscapeNonASCII_def)

lemma Location_plain:
  assumes path: "path = CHR ''/'' # p" and q: "plain_query q"
  shows "Location (url_string path q) =
    path_escape (clean_keeping_slash path) @ (if q = [] then [] else CHR ''?'' # hexEscapeNonASCII q)"
proof -
  let ?u = "url_string path q"
  have free: "CHR ''#'' \<notin> set ?u" using q escape_free(2) [of path]
    by (auto simp: url_string_def plain_query_def list_all_iff)
  have cut: "cut_at (CHR ''?'') ?u = (path_escape path, q, q \<noteq> [])"
    using escape_free(1) [of path] by (simp add: url_string_def cut_at_absent cut_at_append)
  have "list_all (\<lambda>c. \<not> control c) ?u" using q escape_free(3) [of path]
    by (auto simp: url_string_def plain_query_def list_all_iff control_def code_def)
  then have parses: "url_parses ?u"
    using free cut by (simp add: url_parses_def cut_at_absent path_unescape_escape) (simp add: path_unescape_def)
  have mark: "hexEscapeNonASCII ''?'' = ''?''" by (simp add: hexEscapeNonASCII_def code_def)
  have "hexEscapeNonASCII (CHR ''?'' # q) = CHR ''?'' # hexEscapeNonASCII q"
    using hexEscape_append [of "''?''" q] by (simp add: mark)
  then show ?thesis
    by (simp add: Location_def parses cut clean_escape [OF path] hexEscape_append escape_free(4))
       (simp add: hexEscapeNonASCII_def)
qed

text \<open>The browser that follows a redirect asks for the target's path, cleaned.\<close>

lemma followed_redirect:
  assumes path: "path = CHR ''/'' # p" and q: "plain_query q"
  shows "followed (Location (url_string path q)) = Some (clean_keeping_slash path, hexEscapeNonASCII q)"
proof -
  let ?c = "path_escape (clean_keeping_slash path)" and ?h = "hexEscapeNonASCII q"
  have h: "plain_query ?h" using q by (rule plain_query_escaped)
  have none: "hexEscapeNonASCII [] = []" by (simp add: hexEscapeNonASCII_def)
  have empty: "?h = [] \<longleftrightarrow> q = []" by (cases q) (auto simp: hexEscapeNonASCII_def)
  have "CHR ''#'' \<notin> set (?c @ (if q = [] then [] else CHR ''?'' # ?h))"
    using h escape_free(2) by (auto simp: plain_query_def list_all_iff)
  then show ?thesis
    using escape_free(1) [of "clean_keeping_slash path"] empty
    by (simp add: followed_def Location_plain [OF assms] cut_at_absent cut_at_append path_unescape_escape none)
qed

end
