(* ===== verification/BrevoProps.thy ===== *)
theory BrevoProps
  imports Brevo MailProps UrlFacts
begin

text \<open>
  What stands between a forged report and the suppression list: the endpoint's token, and the
  question asked of the provider before a report is believed.
\<close>

subsection \<open>A query reads back\<close>

lemma query_escape_Cons:
  "query_escape (c # s) = (if unreserved c then [c] else if c = CHR '' '' then ''+'' else percent c) @ query_escape s"
  by (simp add: query_escape_def percent_def)

lemma QueryUnescape_escape: "QueryUnescape (query_escape s) = Some s"
proof (induction s)
  case (Cons c s)
  have marks: "\<not> unreserved (CHR ''%'')" "\<not> unreserved (CHR ''+'')" by code_simp+
  have blank: "query_escape (CHR '' '' # t) = CHR ''+'' # query_escape t" for t
    by (simp add: query_escape_Cons unreserved_def code_def)
  consider (plain) "unreserved c" | (blank) "c = CHR '' ''" | (other) "\<not> unreserved c" "c \<noteq> CHR '' ''" by blast
  then show ?case
  proof cases
    case plain
    then have "c \<noteq> CHR ''%''" "c \<noteq> CHR ''+''" using marks by metis+
    then show ?thesis using plain Cons.IH by (simp add: query_escape_Cons QueryUnescape_def)
  next
    case blank
    then show ?thesis using Cons.IH by (simp add: \<open>\<And>t. query_escape (CHR '' '' # t) = CHR ''+'' # query_escape t\<close> QueryUnescape_def)
  next
    case other
    then show ?thesis using Cons.IH by (simp add: query_escape_Cons QueryUnescape_def unescape_percent)
  qed
qed (simp add: query_escape_def QueryUnescape_def)

lemma query_escape_free: "x \<in> {CHR ''&'', CHR '';'', CHR ''=''} \<Longrightarrow> x \<notin> set (query_escape s)"
proof (induction s)
  case (Cons c s)
  have reserved: "\<not> unreserved (CHR ''&'')" "\<not> unreserved (CHR '';'')" "\<not> unreserved (CHR ''='')" by code_simp+
  have "unreserved (upper_hex (code c div 16))" "unreserved (upper_hex (code c mod 16))"
    using upper_hex_safe code_less [of c] by simp_all
  then have "x \<notin> set (percent c)" using Cons.prems reserved by (auto simp: percent_def)
  moreover have "unreserved c \<Longrightarrow> x \<noteq> c" using Cons.prems reserved by auto
  ultimately show ?case using Cons by (auto simp: query_escape_Cons)
qed (simp add: query_escape_def)

lemma read_pair_escaped: "read_pair (query_escape k @ CHR ''='' # query_escape v) = Some (k, v)"
  using cut_at_append [of "CHR ''=''" "query_escape k" "query_escape v"]
  by (simp add: read_pair_def query_escape_free QueryUnescape_escape)

lemma split_ampersand:
  "\<forall>p \<in> set ps. CHR ''&'' \<notin> set p \<Longrightarrow> split_at (CHR ''&'') (ampersand ps) = (if ps = [] then [[]] else ps)"
  by (induction ps rule: ampersand.induct) (simp_all add: split_at_no_sep split_at_append)

lemma ParseQuery_encode: "ParseQuery (encode_query q) = (q, True)"
proof -
  let ?p = "\<lambda>(k, v). query_escape k @ CHR ''='' # query_escape v"
  have split: "split_at (CHR ''&'') (encode_query q) = (if q = [] then [[]] else map ?p q)"
    unfolding encode_query_def using split_ampersand [of "map ?p q"]
    by (auto simp: query_escape_free split: prod.splits)
  have "map read_pair (map ?p q) = map Some q" by (auto simp: read_pair_escaped)
  moreover have "filter (\<lambda>p. p \<noteq> []) (split_at (CHR ''&'') (encode_query q)) = map ?p q"
    unfolding split by (auto simp: filter_id_conv)
  ultimately have pieces: "map read_pair (filter (\<lambda>p. p \<noteq> []) (split_at (CHR ''&'') (encode_query q))) = map Some q"
    by (simp only:)
  have "List.map_filter (\<lambda>p. p) (map Some q) = q"
    by (induction q) (simp_all add: List.map_filter_simps)
  then show ?thesis unfolding ParseQuery_def Let_def pieces by (simp add: list_all_iff)
qed

lemma query_get_encode: "query_get (encode_query q) key = (case map_of q key of None \<Rightarrow> [] | Some v \<Rightarrow> v)"
  by (simp add: query_get_def ParseQuery_encode)

subsection \<open>An honest provider\<close>

text \<open>
  \<open>truth a n v\<close>: the provider, in state \<open>v\<close>, has an event named \<open>n\<close> about the address \<open>a\<close>. What
  its API documents, of any request whatever: a question for the events of an address and a
  name, read from the query of the request's own address, is answered with events of that
  address and that name only; and what has happened stays so.
\<close>

definition asks_about :: "'v client \<Rightarrow> string \<Rightarrow> string \<Rightarrow> http_request \<Rightarrow> bool" where
  "asks_about c a n r \<longleftrightarrow> hr_method r = ''GET'' \<and> a \<noteq> [] \<and> n \<noteq> [] \<and>
     (\<exists>query. hr_url r = cl_api c @ ''/smtp/statistics/events?'' @ query \<and>
        query_get query ''email'' = a \<and> query_get query ''event'' = n)"

definition honest :: "'v client \<Rightarrow> (string \<Rightarrow> string \<Rightarrow> 'v \<Rightarrow> bool) \<Rightarrow> bool" where
  "honest c truth \<longleftrightarrow>
     (\<forall>a n r v status body v' reported. asks_about c a n r \<longrightarrow> cl_http c r v = (Answer status body, v') \<longrightarrow>
        200 \<le> status \<longrightarrow> status \<le> 299 \<longrightarrow> cl_reported c (take read_limit body) = Some reported \<longrightarrow>
        list_ex (\<lambda>x. mail_address x = a) reported \<longrightarrow> truth a n v') \<and>
     (\<forall>a n r v. truth a n v \<longrightarrow> truth a n (snd (cl_http c r v)))"

text \<open>The question the adapter asks is about the address and the event it wants confirmed.\<close>

lemma statistics_asks_about: "a \<noteq> [] \<Longrightarrow> n \<noteq> [] \<Longrightarrow> asks_about c a n (statistics_request c a n i)"
  by (simp add: asks_about_def statistics_request_def request_of_def Let_def query_get_encode go_map_def map_of_copy_into)

lemma ran_map_of_values: "ran (map_of xs) \<subseteq> snd ` set xs"
  by (auto simp: ran_def intro: rev_image_eqI dest: map_of_SomeD)

text \<open>Every address of the list is one the provider has an event about that this platform acts on.\<close>

definition grounded :: "(string \<Rightarrow> string \<Rightarrow> 'v \<Rightarrow> bool) \<Rightarrow> 'v mail_world \<Rightarrow> bool" where
  "grounded truth w \<longleftrightarrow> (\<forall>s \<in> set (mw_suppressed w). \<exists>n \<in> ran queries. truth (su_address s) n (mw_provider w))"

text \<open>What others may do: nothing that undoes what happened, or that puts a groundless row there.\<close>

definition keeps_truth :: "(string \<Rightarrow> string \<Rightarrow> 'v \<Rightarrow> bool) \<Rightarrow> 'v mail_world \<Rightarrow> 'v mail_world \<Rightarrow> bool" where
  "keeps_truth truth w w' \<longleftrightarrow> (\<forall>a n. truth a n (mw_provider w) \<longrightarrow> truth a n (mw_provider w')) \<and>
     (grounded truth w \<longrightarrow> grounded truth w')"

lemma keeps_truth_refl: "keeps_truth truth w w"
  by (simp add: keeps_truth_def)

lemma keeps_truth_trans: "keeps_truth truth a b \<Longrightarrow> keeps_truth truth b c \<Longrightarrow> keeps_truth truth a c"
  by (auto simp: keeps_truth_def)

lemma keeps_truth_asked:
  "honest c truth \<Longrightarrow> mw_suppressed w' = mw_suppressed w \<Longrightarrow> mw_provider w' = snd (cl_http c r (mw_provider w)) \<Longrightarrow>
    keeps_truth truth w w'"
  by (fastforce simp: honest_def keeps_truth_def grounded_def)

lemma keeps_truth_same: "mw_suppressed w' = mw_suppressed w \<Longrightarrow> mw_provider w' = mw_provider w \<Longrightarrow> keeps_truth truth w w'"
  by (simp add: keeps_truth_def grounded_def)

lemma keeps_truth_line: "record_line ml we s w = (e, w') \<Longrightarrow> keeps_truth truth w w'"
  using record_line_same by (metis keeps_truth_same)

definition true_weather :: "(string \<Rightarrow> string \<Rightarrow> 'v \<Rightarrow> bool) \<Rightarrow> 'v weather \<Rightarrow> bool" where
  "true_weather truth we \<longleftrightarrow> (\<forall>w. keeps_truth truth w (we_before we w)) \<and> (\<forall>w. keeps_truth truth w (we_after we w))"

text \<open>A mailer over the adapter.\<close>

definition over_brevo :: "'v client \<Rightarrow> 'v mailer \<Rightarrow> 'v mailer" where
  "over_brevo c ml = ml\<lparr>ml_send := SendBrevo c, ml_confirm := ConfirmBrevo c\<rparr>"

lemma ConfirmBrevo_cases:
  assumes "honest c truth" and "ConfirmBrevo c e v = (a, v')"
  shows "v' = v \<or> (\<exists>r. v' = snd (cl_http c r v))"
    "a = Inr True \<Longrightarrow> \<exists>n \<in> ran queries. truth (mail_address (me_address e)) n v'"
proof -
  show "v' = v \<or> (\<exists>r. v' = snd (cl_http c r v))"
    using assms(2) by (auto simp: ConfirmBrevo_def Let_def split: if_splits option.splits prod.splits) (metis snd_conv)
  assume yes: "a = Inr True"
  let ?a = "mail_address (me_address e)"
  obtain n where n: "queries (normalise_event (me_reported e)) = Some n"
    using assms(2) yes by (auto simp: ConfirmBrevo_def Let_def split: if_splits option.splits)
  obtain answer where asked: "cl_http c (statistics_request c ?a n (me_message e)) v = (answer, v')"
    and heard: "(case read_answer (cl_reported c) answer of Inl err \<Rightarrow> Inl err
      | Inr reported \<Rightarrow> Inr (list_ex (\<lambda>x. mail_address x = ?a) reported)) = (Inr True :: provider_error + bool)"
    using assms(2) n yes by (auto simp: ConfirmBrevo_def Let_def split: if_splits prod.splits)
  obtain reported where r: "read_answer (cl_reported c) answer = Inr reported" "list_ex (\<lambda>x. mail_address x = ?a) reported"
    using heard by (auto split: sum.splits)
  obtain status body where "answer = Answer status body" "200 \<le> status" "status \<le> 299"
    "cl_reported c (take read_limit body) = Some reported"
    using r(1) by (auto simp: read_answer_def Let_def split: http_answer.splits if_splits option.splits)
  moreover have "?a \<noteq> []" using assms(2) yes by (auto simp: ConfirmBrevo_def)
  moreover have "n \<noteq> []" using n by (auto simp: queries_def split: if_splits)
  ultimately have "truth ?a n v'"
    using assms(1) asked r(2) statistics_asks_about [of ?a n c "me_message e"] unfolding honest_def by blast
  then show "\<exists>n \<in> ran queries. truth ?a n v'" using n by (auto simp: ran_def)
qed

lemma Suppress_grounded:
  "\<exists>n \<in> ran queries. truth (mail_address (me_address e)) n (mw_provider w) \<Longrightarrow> keeps_truth truth w (snd (Suppress e w))"
  by (auto simp: Suppress_def keeps_truth_def grounded_def)

lemma Apply_keeps:
  assumes "honest c truth" and "true_weather truth we" and "Apply (over_brevo c ml) we e w = (err, w')"
  shows "keeps_truth truth w w'"
proof (cases "mail_address (me_address e) = []")
  case True
  then show ?thesis using assms(3) by (simp add: Apply_def keeps_truth_refl)
next
  case False
  obtain a v where asked: "ConfirmBrevo c e (mw_provider w) = (a, v)" by fastforce
  let ?w1 = "w\<lparr>mw_provider := v\<rparr>"
  have w1: "keeps_truth truth w ?w1"
    using ConfirmBrevo_cases(1) [OF assms(1) asked] keeps_truth_asked [OF assms(1), of ?w1 w]
    by (auto intro: keeps_truth_same)
  have "keeps_truth truth ?w1 (snd (Suppress e (we_before we ?w1)))" if "a = Inr True"
  proof -
    have before: "keeps_truth truth ?w1 (we_before we ?w1)" using assms(2) by (simp add: true_weather_def)
    have "\<exists>n \<in> ran queries. truth (mail_address (me_address e)) n (mw_provider ?w1)"
      using ConfirmBrevo_cases(2) [OF assms(1) asked that] by simp
    then have "\<exists>n \<in> ran queries. truth (mail_address (me_address e)) n (mw_provider (we_before we ?w1))"
      using before by (auto simp: keeps_truth_def)
    then show ?thesis by (rule keeps_truth_trans [OF before Suppress_grounded])
  qed
  moreover have "w' = ?w1 \<or> a = Inr True \<and> w' = snd (Suppress e (we_before we ?w1))"
    using assms(3) False asked
    by (auto simp: Apply_def over_brevo_def split: sum.splits provider_error.splits bool.splits if_splits)
  ultimately show ?thesis using w1 keeps_truth_trans by metis
qed

lemma SendMail_keeps:
  assumes "honest c truth" and "true_weather truth we" and "SendMail said (over_brevo c ml) we m w = (r, w')"
  shows "keeps_truth truth w w'"
proof -
  let ?ml = "over_brevo c ml"
  have before: "keeps_truth truth w (we_before we w)" and after': "keeps_truth truth w1 (we_after we w1)" for w1
    using assms(2) by (simp_all add: true_weather_def)
  have line: "keeps_truth truth w (snd (record_line ?ml we s w1))" if "keeps_truth truth w w1" for s w1
    using keeps_truth_line [of ?ml we s w1] that keeps_truth_trans by (metis prod.collapse)
  have sent: "keeps_truth truth w (we_after we ((we_before we w)\<lparr>mw_provider := snd (SendBrevo c x (mw_provider (we_before we w)))\<rparr>))" for x
  proof -
    have "snd (SendBrevo c x v) = snd (cl_http c (request_of c ''POST'' ''/smtp/email'' (SendBody (send_body c x))) v)" for v
      by (simp add: SendBrevo_def split: prod.splits)
    then have "keeps_truth truth (we_before we w) ((we_before we w)\<lparr>mw_provider := snd (SendBrevo c x (mw_provider (we_before we w)))\<rparr>)"
      by (intro keeps_truth_asked [OF assms(1)]) simp_all
    then show ?thesis using before after' keeps_truth_trans by metis
  qed
  have shape: "snd (case p of (x, w') \<Rightarrow> ((state, x), w')) = snd p"
    "snd (case p of (None, w') \<Rightarrow> ((state, y), w') | (Some e, w') \<Rightarrow> ((state, Some e), w')) = snd p"
    for p :: "mail_error option \<times> 'a mail_world" and state :: mail_state and y
    by (auto split: prod.splits option.splits)
  have "ml_send ?ml = SendBrevo c" by (simp add: over_brevo_def)
  then have "keeps_truth truth w (snd (SendMail said ?ml we m w))"
    unfolding SendMail_def Let_def
    using sent by (simp add: line shape keeps_truth_refl before split: sum.split prod.split) (metis snd_conv line)
  then show ?thesis using assms(3) by simp
qed

text \<open>
  Whatever reports reach the consumers, forged ones included: any report, any message.
\<close>

inductive bstep :: "'v client \<Rightarrow> (string \<Rightarrow> string \<Rightarrow> 'v \<Rightarrow> bool) \<Rightarrow> 'v mail_world \<Rightarrow> 'v mail_world \<Rightarrow> bool" for c truth where
  reports: "true_weather truth we \<Longrightarrow> Apply (over_brevo c ml) we e w = (err, w') \<Longrightarrow> bstep c truth w w'"
| sends: "true_weather truth we \<Longrightarrow> SendMail said (over_brevo c ml) we m w = (r, w') \<Longrightarrow> bstep c truth w w'"
| others: "keeps_truth truth w w' \<Longrightarrow> bstep c truth w w'"

lemma bsteps_keep: "(bstep c truth)\<^sup>*\<^sup>* w w' \<Longrightarrow> honest c truth \<Longrightarrow> keeps_truth truth w w'"
proof (induction rule: rtranclp_induct)
  case (step x y)
  from step.hyps(2) have "keeps_truth truth x y"
    by cases (use Apply_keeps SendMail_keeps step.prems in \<open>blast+\<close>)
  then show ?case using step keeps_truth_trans by blast
qed (rule keeps_truth_refl)

text \<open>
  C32. A forged report stops nobody's mail. With a provider that answers a question about an
  address and an event's name with events of that address and name only, whatever reports are
  applied, whoever wrote them, every address on the suppression list is one the
  provider itself has an event about, and an event that means the platform must stop.
\<close>

theorem forged_report_suppresses_nobody:
  assumes "honest c truth" and "(bstep c truth)\<^sup>*\<^sup>* w w'" and "mw_suppressed w = []" and "s \<in> set (mw_suppressed w')"
  shows "\<exists>name \<in> {''hardBounces'', ''invalid'', ''blocked'', ''spam'', ''unsubscribed''}.
    truth (su_address s) name (mw_provider w')"
proof -
  have "grounded truth w'"
    using bsteps_keep [OF assms(2,1)] assms(3) by (simp add: keeps_truth_def grounded_def)
  then obtain name where name: "name \<in> ran queries" "truth (su_address s) name (mw_provider w')"
    using assms(4) unfolding grounded_def by blast
  have "ran queries \<subseteq> {''hardBounces'', ''invalid'', ''blocked'', ''spam'', ''unsubscribed''}"
    unfolding queries_def by (rule order_trans [OF ran_map_of_values]) (simp only: list.set image_insert image_empty snd_conv insert_absorb2 order_refl)
  then have "name \<in> {''hardBounces'', ''invalid'', ''blocked'', ''spam'', ''unsubscribed''}"
    by (rule subsetD) (rule name(1))
  then show ?thesis by (rule rev_bexI) (rule name(2))
qed

definition sample_client :: "nat client" where
  "sample_client = \<lparr>cl_api = API, cl_key = ''k'', cl_name = ''Shop'', cl_email = ''no-reply@example.com'',
     cl_http = (\<lambda>r v. (Answer 200 [], Suc v)), cl_message_id = (\<lambda>body. Some ''1''),
     cl_reported = (\<lambda>body. Some [''ana@example.com''])\<rparr>"

definition bounced_only :: "string \<Rightarrow> string \<Rightarrow> nat \<Rightarrow> bool" where
  "bounced_only a n v \<longleftrightarrow> a = ''ana@example.com''"

definition reported_row :: suppression where
  "reported_row = \<lparr>su_address = ''ana@example.com'', su_reason = Bounce, su_provider = ''brevo'', su_event = Some ''7'',
     su_detail = Some ''hard_bounce''\<rparr>"

theorem forged_report_suppresses_nobody_witness:
  "\<exists>name \<in> {''hardBounces'', ''invalid'', ''blocked'', ''spam'', ''unsubscribed''}.
    bounced_only (su_address reported_row) name
      (mw_provider (snd (Apply (over_brevo sample_client counting_mailer) still bounce_report empty_mail)))"
proof (rule forged_report_suppresses_nobody)
  have same: "mail_address ''ana@example.com'' = ''ana@example.com''" by code_simp
  show "honest sample_client bounced_only"
    by (simp add: honest_def sample_client_def bounced_only_def same)
  have "true_weather bounced_only still" by (simp add: true_weather_def still_def keeps_truth_refl)
  then have "bstep sample_client bounced_only empty_mail
      (snd (Apply (over_brevo sample_client counting_mailer) still bounce_report empty_mail))"
    by (rule bstep.reports [OF _ prod.collapse [symmetric]])
  then show "(bstep sample_client bounced_only)\<^sup>*\<^sup>* empty_mail
      (snd (Apply (over_brevo sample_client counting_mailer) still bounce_report empty_mail))"
    by (rule r_into_rtranclp)
  show "mw_suppressed empty_mail = []" by (simp add: empty_mail_def)
  have "mail_address (me_address bounce_report) = ''ana@example.com''" by code_simp
  moreover have "queries (normalise_event (me_reported bounce_report)) = Some ''hardBounces''" by code_simp
  ultimately show "reported_row \<in> set (mw_suppressed (snd (Apply (over_brevo sample_client counting_mailer) still bounce_report empty_mail)))"
    by (simp add: Apply_def over_brevo_def ConfirmBrevo_def sample_client_def read_answer_def counting_mailer_def still_def
        empty_mail_def Suppress_def reported_row_def same bounce_report_def nullif_def Describe_def)
qed

text \<open>
  A status of the 400s is a refusal, 429 included: a report that met the provider's own rate
  limit is taken for handled, and the address it is about goes on being written to.
\<close>

lemma rate_limited_report_is_dropped:
  assumes "mail_address (me_address e) \<noteq> []" and "queries (normalise_event (me_reported e)) = Some n"
    and "cl_http c (statistics_request c (mail_address (me_address e)) n (me_message e)) (mw_provider w) = (Answer 429 body, v)"
  shows "Apply (over_brevo c ml) we e w = (None, w\<lparr>mw_provider := v\<rparr>)"
  using assms by (simp add: Apply_def over_brevo_def ConfirmBrevo_def read_answer_def)

subsection \<open>The endpoint\<close>

text \<open>Without the token nothing is written; what is written waits for a consumer to ask.\<close>

lemma webhook_guards:
  "HandleWebhook h gen now commits r p = (status, p') \<Longrightarrow> \<not> authentic h r \<Longrightarrow> p' = p \<and> status \<in> {StatusNotFound, StatusUnauthorized}"
  "wh_token h = [] \<Longrightarrow> \<not> authentic h r"
  by (auto simp: HandleWebhook_def authentic_def split: if_splits)

lemma receive_all_rows:
  "receive_all gen now es p = Inr (u, p') \<Longrightarrow>
    map oe_payload (p_events p') = map oe_payload (p_events p) @ map event_payload es \<and>
    p_world p' = p_world p \<and> p_deliveries p' = p_deliveries p"
proof (induction es arbitrary: p)
  case (Cons e es)
  then obtain p1 where "Write None (gen p) now (received_event e) p = Inr ((), p1)" and rest: "receive_all gen now es p1 = Inr (u, p')"
    by (auto simp: tx_simps)
  then have "map oe_payload (p_events p1) = map oe_payload (p_events p) @ [event_payload e]" "p_world p1 = p_world p"
    "p_deliveries p1 = p_deliveries p"
    by (auto simp: Write_def tx_simps received_event_def)
  then show ?case using Cons.IH [OF rest] by simp
qed (simp add: tx_simps)

text \<open>All the events of a call are written, or none, and then the provider is told to come back.\<close>

lemma webhook_writes_all_or_none:
  assumes "HandleWebhook h gen now commits r p = (status, p')" and "p_events p' \<noteq> p_events p"
  shows "status = StatusAccepted \<and> (\<exists>body events. hc_body r = Some body \<and> wh_events h body = Some events \<and>
    map oe_payload (p_events p') = map oe_payload (p_events p) @ map event_payload events)"
  using assms receive_all_rows [of gen now _ p]
  by (fastforce simp: HandleWebhook_def in_tx_def split: if_splits option.splits sum.splits prod.splits)

end
