(* ===== verification/Http.thy ===== *)
theory Http
  imports Urls Accounts
begin

text \<open>
  Requests and responses as the handlers of src/internal/platform/httpx see them. A request
  carries what the middlewares put in its context: the origin, the language, what the host
  resolved to, the session, the CSRF token, the nonce and the console's name. A handler reads
  the request and writes to a response and to the state \<^verbatim>\<open>'s\<close> behind the service (limiters and
  database); middleware is a function from handlers to handlers, as in Go.
\<close>

subsection \<open>Requests\<close>

record origin =
  og_ip :: string
  og_agent :: string

text \<open>
  The headers are canonical names and values, in the order received; the cookies are as
  net/http read them. \<open>rq_form\<close> is what could be read of the form in the body, and \<open>rq_form_ok\<close>
  whether the media type of the body, with its parameters, and a form of it were well formed.
  \<open>rq_body\<close> is the body's text, \<open>None\<close> where the connection failed before its end.
\<close>

record request =
  rq_method :: string
  rq_host :: string
  rq_path :: string
  rq_query :: string
  rq_headers :: "(string \<times> string) list"
  rq_cookies :: "(string \<times> string) list"
  rq_tls :: bool
  rq_remote :: string
  rq_form :: "(string \<times> string) list"
  rq_form_ok :: bool
  rq_body :: "string option"
  cx_origin :: "origin option"
  cx_client_ip :: string
  cx_language :: string
  cx_resolution :: "resolution option"
  cx_session :: "session option"
  cx_csrf :: string
  cx_nonce :: string
  cx_console :: string

definition header_values :: "string \<Rightarrow> request \<Rightarrow> string list" where
  "header_values name r = map snd (filter (\<lambda>h. fst h = name) (rq_headers r))"

definition header_of :: "string \<Rightarrow> request \<Rightarrow> string" where
  "header_of name r = (case header_values name r of [] \<Rightarrow> [] | v # _ \<Rightarrow> v)"

definition cookie_of :: "string \<Rightarrow> request \<Rightarrow> string option" where
  "cookie_of name r = map_of (rq_cookies r) name"

text \<open>
  \<^verbatim>\<open>r.ParseForm()\<close>: what is then in \<^verbatim>\<open>r.PostForm\<close>, and whether it returned no error. A body is
  read for POST, PUT and PATCH, and only one whose media type is that of an encoded form: a
  form in parts is read by \<^verbatim>\<open>ParseMultipartForm\<close>, and \<^verbatim>\<open>PostFormValue\<close> calls that one only where
  nothing was parsed before. A body's type that does not parse and a query of the address that
  does not are errors too, whatever the form.
\<close>

definition media_type :: "request \<Rightarrow> string" where
  "media_type r = to_lower (trim_space (fst (cut_at (CHR '';'') (header_of ''Content-Type'' r))))"

definition has_body :: "request \<Rightarrow> bool" where
  "has_body r \<longleftrightarrow> rq_method r \<in> {''POST'', ''PUT'', ''PATCH''}"

definition ParseForm :: "request \<Rightarrow> (string \<times> string) list \<times> bool" where
  "ParseForm r =
     (if has_body r \<and> media_type r = ''application/x-www-form-urlencoded'' then rq_form r else [],
      (has_body r \<longrightarrow> rq_form_ok r) \<and> snd (ParseQuery (rq_query r)))"

definition first_value :: "(string \<times> string) list \<Rightarrow> string \<Rightarrow> string" where
  "first_value form key = (case map_of form key of None \<Rightarrow> [] | Some v \<Rightarrow> v)"

definition PostFormValue :: "request \<Rightarrow> string \<Rightarrow> string" where
  "PostFormValue r key =
     (if has_body r \<and> media_type r \<in> {''application/x-www-form-urlencoded'', ''multipart/form-data''}
      then first_value (rq_form r) key else [])"

subsection \<open>Responses\<close>

record cookie =
  ck_name :: string
  ck_value :: string
  ck_max_age :: int
  ck_secure :: bool

text \<open>
  A response writer. Every cookie of the program has the path \<^verbatim>\<open>/\<close>, is unreadable by script
  and is SameSite=Lax. A header set after the status is written is dropped, and only the first
  status counts, as net/http does.
\<close>

record writer =
  wr_status :: "nat option"
  wr_headers :: "(string \<times> string) list"
  wr_cookies :: "cookie list"
  wr_body :: string

definition fresh_writer :: writer where
  "fresh_writer = \<lparr>wr_status = None, wr_headers = [], wr_cookies = [], wr_body = []\<rparr>"

definition set_header :: "string \<Rightarrow> string \<Rightarrow> writer \<Rightarrow> writer" where
  "set_header name v w =
     (if wr_status w = None then w\<lparr>wr_headers := put name v (wr_headers w)\<rparr> else w)"

definition response_header :: "string \<Rightarrow> writer \<Rightarrow> string option" where
  "response_header name w = map_of (wr_headers w) name"

definition SetCookie :: "cookie \<Rightarrow> writer \<Rightarrow> writer" where
  "SetCookie c w = (if wr_status w = None then w\<lparr>wr_cookies := wr_cookies w @ [c]\<rparr> else w)"

definition WriteHeader :: "nat \<Rightarrow> writer \<Rightarrow> writer" where
  "WriteHeader status w = (if wr_status w = None then w\<lparr>wr_status := Some status\<rparr> else w)"

definition write_body :: "string \<Rightarrow> writer \<Rightarrow> writer" where
  "write_body s w = (let w = WriteHeader 200 w in w\<lparr>wr_body := wr_body w @ s\<rparr>)"

definition http_error :: "string \<Rightarrow> nat \<Rightarrow> writer \<Rightarrow> writer" where
  "http_error message status w = write_body (message @ [CHR 0x0A]) (WriteHeader status
     (set_header ''X-Content-Type-Options'' ''nosniff''
     (set_header ''Content-Type'' ''text/plain; charset=utf-8'' w)))"

definition NotFound :: "writer \<Rightarrow> writer" where
  "NotFound w = http_error ''404 page not found'' 404 w"

text \<open>\<^verbatim>\<open>http.Redirect\<close>; the short page it writes for a browser that does not follow is left out.\<close>

definition http_redirect :: "request \<Rightarrow> string \<Rightarrow> nat \<Rightarrow> writer \<Rightarrow> writer" where
  "http_redirect r target status w =
     (let had = response_header ''Content-Type'' w \<noteq> None;
          w = set_header ''Location'' (Location target) w;
          w = (if \<not> had \<and> rq_method r \<in> {''GET'', ''HEAD''}
               then set_header ''Content-Type'' ''text/html; charset=utf-8'' w else w) in
      WriteHeader status w)"

definition StatusMovedPermanently :: nat where "StatusMovedPermanently = 301"
definition StatusFound :: nat where "StatusFound = 302"
definition StatusSeeOther :: nat where "StatusSeeOther = 303"
definition StatusOK :: nat where "StatusOK = 200"
definition StatusForbidden :: nat where "StatusForbidden = 403"
definition StatusUnprocessableEntity :: nat where "StatusUnprocessableEntity = 422"

lemmas page_statuses = StatusMovedPermanently_def StatusFound_def StatusSeeOther_def StatusOK_def
  StatusForbidden_def StatusUnprocessableEntity_def

subsection \<open>Handlers\<close>

type_synonym 's handler = "request \<Rightarrow> writer \<times> 's \<Rightarrow> writer \<times> 's"

definition on_writer :: "(writer \<Rightarrow> writer) \<Rightarrow> writer \<times> 's \<Rightarrow> writer \<times> 's" where
  "on_writer f = (\<lambda>(w, s). (f w, s))"

text \<open>How the request reached the site: over TLS here, or to the proxy in front of it.\<close>

definition isHTTPS :: "request \<Rightarrow> bool" where
  "isHTTPS r \<longleftrightarrow> rq_tls r \<or> EqualFold (header_of ''X-Forwarded-Proto'' r) ''https''"

definition scheme :: "request \<Rightarrow> string" where
  "scheme r = (if isHTTPS r then ''https'' else ''http'')"

definition onConsole :: "request \<Rightarrow> bool" where
  "onConsole r \<longleftrightarrow> cx_resolution r = Some ConsoleHost"

definition marketplaceOf :: "request \<Rightarrow> string" where
  "marketplaceOf r = (case cx_resolution r of Some (MarketplaceHost m) \<Rightarrow> mp_id m | _ \<Rightarrow> [])"

text \<open>The language of the request, the official one when nothing resolved it.\<close>

definition DefaultTag :: string where "DefaultTag = ''en-US''"

definition language_in :: "request \<Rightarrow> string" where
  "language_in r = (if cx_language r = [] then DefaultTag else cx_language r)"

text \<open>What the context carries changes nothing of what was received.\<close>

lemma received_headers [simp]:
  "header_values n (r\<lparr>cx_origin := x0\<rparr>) = header_values n r"
  "header_values n (r\<lparr>cx_nonce := x1\<rparr>) = header_values n r"
  "header_values n (r\<lparr>cx_csrf := x2\<rparr>) = header_values n r"
  "header_values n (r\<lparr>cx_language := x3\<rparr>) = header_values n r"
  "header_values n (r\<lparr>cx_session := x4\<rparr>) = header_values n r"
  "header_values n (r\<lparr>cx_resolution := x5\<rparr>) = header_values n r"
  "header_values n (r\<lparr>cx_console := x6\<rparr>) = header_values n r"
  "header_values n (r\<lparr>rq_path := x7\<rparr>) = header_values n r"
  by (simp_all add: header_values_def)

lemma received_header [simp]:
  "header_of n (r\<lparr>cx_origin := x0\<rparr>) = header_of n r"
  "header_of n (r\<lparr>cx_nonce := x1\<rparr>) = header_of n r"
  "header_of n (r\<lparr>cx_csrf := x2\<rparr>) = header_of n r"
  "header_of n (r\<lparr>cx_language := x3\<rparr>) = header_of n r"
  "header_of n (r\<lparr>cx_session := x4\<rparr>) = header_of n r"
  "header_of n (r\<lparr>cx_resolution := x5\<rparr>) = header_of n r"
  "header_of n (r\<lparr>cx_console := x6\<rparr>) = header_of n r"
  "header_of n (r\<lparr>rq_path := x7\<rparr>) = header_of n r"
  by (simp_all add: header_of_def)

lemma received_cookie [simp]:
  "cookie_of n (r\<lparr>cx_origin := x0\<rparr>) = cookie_of n r"
  "cookie_of n (r\<lparr>cx_nonce := x1\<rparr>) = cookie_of n r"
  "cookie_of n (r\<lparr>cx_csrf := x2\<rparr>) = cookie_of n r"
  "cookie_of n (r\<lparr>cx_language := x3\<rparr>) = cookie_of n r"
  "cookie_of n (r\<lparr>cx_session := x4\<rparr>) = cookie_of n r"
  "cookie_of n (r\<lparr>cx_resolution := x5\<rparr>) = cookie_of n r"
  "cookie_of n (r\<lparr>cx_console := x6\<rparr>) = cookie_of n r"
  "cookie_of n (r\<lparr>rq_path := x7\<rparr>) = cookie_of n r"
  by (simp_all add: cookie_of_def)

lemma received_form [simp]:
  "ParseForm (r\<lparr>cx_origin := x0\<rparr>) = ParseForm r" "PostFormValue (r\<lparr>cx_origin := x0\<rparr>) key = PostFormValue r key"
  "ParseForm (r\<lparr>cx_nonce := x1\<rparr>) = ParseForm r" "PostFormValue (r\<lparr>cx_nonce := x1\<rparr>) key = PostFormValue r key"
  "ParseForm (r\<lparr>cx_csrf := x2\<rparr>) = ParseForm r" "PostFormValue (r\<lparr>cx_csrf := x2\<rparr>) key = PostFormValue r key"
  "ParseForm (r\<lparr>cx_language := x3\<rparr>) = ParseForm r" "PostFormValue (r\<lparr>cx_language := x3\<rparr>) key = PostFormValue r key"
  "ParseForm (r\<lparr>cx_session := x4\<rparr>) = ParseForm r" "PostFormValue (r\<lparr>cx_session := x4\<rparr>) key = PostFormValue r key"
  "ParseForm (r\<lparr>cx_resolution := x5\<rparr>) = ParseForm r" "PostFormValue (r\<lparr>cx_resolution := x5\<rparr>) key = PostFormValue r key"
  "ParseForm (r\<lparr>cx_console := x6\<rparr>) = ParseForm r" "PostFormValue (r\<lparr>cx_console := x6\<rparr>) key = PostFormValue r key"
  "ParseForm (r\<lparr>rq_path := x7\<rparr>) = ParseForm r" "PostFormValue (r\<lparr>rq_path := x7\<rparr>) key = PostFormValue r key"
  by (simp_all add: ParseForm_def PostFormValue_def has_body_def media_type_def)

lemma received_https [simp]:
  "isHTTPS (r\<lparr>cx_origin := x0\<rparr>) = isHTTPS r"
  "isHTTPS (r\<lparr>cx_nonce := x1\<rparr>) = isHTTPS r"
  "isHTTPS (r\<lparr>cx_csrf := x2\<rparr>) = isHTTPS r"
  "isHTTPS (r\<lparr>cx_language := x3\<rparr>) = isHTTPS r"
  "isHTTPS (r\<lparr>cx_session := x4\<rparr>) = isHTTPS r"
  "isHTTPS (r\<lparr>cx_resolution := x5\<rparr>) = isHTTPS r"
  "isHTTPS (r\<lparr>cx_console := x6\<rparr>) = isHTTPS r"
  "isHTTPS (r\<lparr>rq_path := x7\<rparr>) = isHTTPS r"
  by (simp_all add: isHTTPS_def)

lemma response_header_set:
  "response_header n (set_header m v w) =
     (if wr_status w = None \<and> n = m then Some v else response_header n w)"
  by (simp add: response_header_def set_header_def map_of_put)

lemma response_header_WriteHeader [simp]:
  "response_header n (WriteHeader k w) = response_header n w"
  by (simp add: response_header_def WriteHeader_def)

lemma status_simps [simp]:
  "wr_status (set_header n v w) = wr_status w" "wr_status (SetCookie c w) = wr_status w"
  "wr_headers (SetCookie c w) = wr_headers w" "wr_headers (WriteHeader k w) = wr_headers w"
  by (auto simp: set_header_def SetCookie_def WriteHeader_def)

end
