(* ===== verification/Language.thy ===== *)
theory Language
  imports Http
begin

text \<open>
  What the platform says and in which language: src/internal/platform/i18n, and the parts of
  src/internal/platform/httpx/site.go that choose among languages. Tags, messages and printers
  are golang.org/x/text: which tags it parses and which messages its builder takes are
  parameters, and a printer is the tag it prints for. Reading JSON is a parameter too.
\<close>

subsection \<open>Catalogues\<close>

datatype message_json = JText string | JForms "(string \<times> string option) list" | JOther

text \<open>A message registered: a line, or the cases of \<^verbatim>\<open>plural.Selectf(1, "%d", \<dots>)\<close> in order.\<close>

datatype wording = Line string | Select "(string \<times> string) list"

record text_library =
  tl_parses :: "string \<Rightarrow> bool"
  tl_sets :: "string \<Rightarrow> string \<Rightarrow> wording \<Rightarrow> bool"
  tl_unmarshal :: "string \<Rightarrow> (string \<times> message_json) list option"

datatype catalogue_error = CannotReadCatalogue string | NotATag string | NotReadableJSON string
  | CannotRegister string string | FormNotText string string | NoOtherForm string
  | NeitherCategoryNorNumber string string | NeitherTextNorForms string | NoCatalogueFound

text \<open>\<^verbatim>\<open>printers\<close> are the tags that have one; \<^verbatim>\<open>keys\<close> are the keys of each tag.\<close>

record catalogue =
  ca_printers :: "string list"
  ca_tags :: "string list"
  ca_keys :: "(string \<times> string list) list"

definition plural_categories :: "string list" where
  "plural_categories = [''zero'', ''one'', ''two'', ''few'', ''many'', ''other'']"

definition unknown_form :: "(string \<times> string) list \<Rightarrow> string option" where
  "unknown_form wordings =
     find (\<lambda>f. \<not> has_prefix ''='' f \<and> f \<notin> set plural_categories) (map fst wordings)"

text \<open>Exact numbers first, then the categories, each sorted.\<close>

definition plural_cases :: "(string \<times> string) list \<Rightarrow> (string \<times> string) list" where
  "plural_cases wordings =
     sort_key fst (filter (\<lambda>w. has_prefix ''='' (fst w)) wordings) @
     sort_key fst (filter (\<lambda>w. \<not> has_prefix ''='' (fst w)) wordings)"

definition setPlural :: "text_library \<Rightarrow> string \<Rightarrow> string \<Rightarrow> (string \<times> string) list \<Rightarrow> catalogue_error + wording" where
  "setPlural t tag key wordings =
     (if ''other'' \<notin> fst ` set wordings then Inl (NoOtherForm key)
      else case unknown_form wordings of
             Some name \<Rightarrow> Inl (NeitherCategoryNorNumber key name)
           | None \<Rightarrow>
               (let w = Select (plural_cases wordings) in
                if tl_sets t tag key w then Inr w else Inl (CannotRegister tag key)))"

definition read_forms :: "string \<Rightarrow> (string \<times> string option) list \<Rightarrow> catalogue_error + (string \<times> string) list" where
  "read_forms key forms =
     (case find (\<lambda>f. snd f = None) forms of
        Some (name, _) \<Rightarrow> Inl (FormNotText key name)
      | None \<Rightarrow> Inr (map (\<lambda>(name, line). (name, the line)) forms))"

definition add_message :: "text_library \<Rightarrow> string \<Rightarrow> string \<times> message_json \<Rightarrow> catalogue_error + wording" where
  "add_message t tag m = (case m of (key, message) \<Rightarrow>
     (case message of
        JText line \<Rightarrow>
          (if tl_sets t tag key (Line line) then Inr (Line line) else Inl (CannotRegister tag key))
      | JForms forms \<Rightarrow>
          (case read_forms key forms of
             Inl e \<Rightarrow> Inl e
           | Inr wordings \<Rightarrow> setPlural t tag key wordings)
      | JOther \<Rightarrow> Inl (NeitherTextNorForms key)))"

fun add_messages :: "text_library \<Rightarrow> string \<Rightarrow> (string \<times> message_json) list \<Rightarrow>
    catalogue_error + (string \<times> wording) list" where
  "add_messages t tag [] = Inr []"
| "add_messages t tag (m # ms) =
     (case add_message t tag m of
        Inl e \<Rightarrow> Inl e
      | Inr w \<Rightarrow>
          (case add_messages t tag ms of
             Inl e \<Rightarrow> Inl e
           | Inr added \<Rightarrow> Inr ((fst m, w) # added)))"

text \<open>
  The builder is the messages registered, by tag; \<open>Catalogue.add\<close> appends one language's.
\<close>

type_synonym builder = "(string \<times> (string \<times> wording) list) list"

definition add_language :: "text_library \<Rightarrow> string \<Rightarrow> string \<Rightarrow> builder \<times> catalogue \<Rightarrow>
    catalogue_error + builder \<times> catalogue" where
  "add_language t tag raw = (\<lambda>(b, c).
     (if \<not> tl_parses t tag then Inl (NotATag tag)
      else case tl_unmarshal t raw of
             None \<Rightarrow> Inl (NotReadableJSON tag)
           | Some messages \<Rightarrow>
               (case add_messages t tag messages of
                  Inl e \<Rightarrow> Inl e
                | Inr added \<Rightarrow>
                    Inr (b @ [(tag, added)],
                      c\<lparr>ca_tags := ca_tags c @ [tag], ca_keys := ca_keys c @ [(tag, map fst messages)]\<rparr>))))"

record dir_entry =
  de_name :: string
  de_dir :: bool
  de_content :: "string option"

definition json_suffix :: string where "json_suffix = ''.json''"

definition catalogue_tag :: "string \<Rightarrow> string option" where
  "catalogue_tag name =
     (if drop (length name - length json_suffix) name = json_suffix
      then Some (take (length name - length json_suffix) name) else None)"

fun add_files :: "text_library \<Rightarrow> dir_entry list \<Rightarrow> builder \<times> catalogue \<Rightarrow>
    catalogue_error + builder \<times> catalogue" where
  "add_files t [] bc = Inr bc"
| "add_files t (e # es) bc =
     (case (if de_dir e then None else catalogue_tag (de_name e)) of
        None \<Rightarrow> add_files t es bc
      | Some tag \<Rightarrow>
          (case de_content e of
             None \<Rightarrow> Inl (CannotReadCatalogue (de_name e))
           | Some raw \<Rightarrow>
               (case add_language t tag raw bc of
                  Inl er \<Rightarrow> Inl er
                | Inr bc' \<Rightarrow> add_files t es bc')))"

definition LoadCatalogue :: "text_library \<Rightarrow> dir_entry list option \<Rightarrow> catalogue_error + builder \<times> catalogue" where
  "LoadCatalogue t dir =
     (case dir of
        None \<Rightarrow> Inl (CannotReadCatalogue ''locales'')
      | Some entries \<Rightarrow>
          (case add_files t entries ([], \<lparr>ca_printers = [], ca_tags = [], ca_keys = []\<rparr>) of
             Inl e \<Rightarrow> Inl e
           | Inr (b, c) \<Rightarrow>
               if ca_tags c = [] then Inl NoCatalogueFound
               else
                 (let tags = sort (ca_tags c) in
                  case find (\<lambda>tag. \<not> tl_parses t tag) tags of
                    Some tag \<Rightarrow> Inl (NotATag tag)
                  | None \<Rightarrow> Inr (b, c\<lparr>ca_tags := tags, ca_printers := tags\<rparr>))))"

definition Languages :: "catalogue \<Rightarrow> string list" where "Languages c = ca_tags c"

definition Speaks_tag :: "catalogue \<Rightarrow> string \<Rightarrow> bool" where
  "Speaks_tag c tag \<longleftrightarrow> tag \<in> set (ca_printers c)"

definition Keys :: "catalogue \<Rightarrow> string \<Rightarrow> string list option" where
  "Keys c tag = map_of (ca_keys c) tag"

text \<open>Whose printer \<^verbatim>\<open>Printer\<close> returns: the tag's, or the default one's, or no printer at all.\<close>

definition Printer :: "catalogue \<Rightarrow> string \<Rightarrow> string option" where
  "Printer c tag =
     (if tag \<in> set (ca_printers c) then Some tag
      else if DefaultTag \<in> set (ca_printers c) then Some DefaultTag else None)"

subsection \<open>Dates\<close>

text \<open>
  \<^verbatim>\<open>strings.ReplaceAll\<close> of a text that is not empty, and the names Go writes in English
  replaced by the catalogue's: \<open>say tag key\<close> is what the tag's printer prints for the key.
\<close>

fun replace_first :: "nat \<Rightarrow> string \<Rightarrow> string \<Rightarrow> string \<Rightarrow> string" where
  "replace_first skip old new [] = []"
| "replace_first (Suc skip) old new (c # s) = replace_first skip old new s"
| "replace_first 0 old new (c # s) =
     (if has_prefix old (c # s) then new @ replace_first (length old - 1) old new s
      else c # replace_first 0 old new s)"

definition ReplaceAll :: "string \<Rightarrow> string \<Rightarrow> string \<Rightarrow> string" where
  "ReplaceAll s old new = replace_first 0 old new s"

definition translateNames :: "(string \<Rightarrow> string) \<Rightarrow> string \<Rightarrow> string \<Rightarrow> string \<Rightarrow> string" where
  "translateNames say s month weekday =
     (let s = ReplaceAll s month (say (''month.'' @ to_lower month)) in
      ReplaceAll s weekday (say (''weekday.'' @ to_lower weekday)))"

text \<open>\<^verbatim>\<open>time.Format\<close> is a parameter: the layout the catalogue holds, written for an instant.\<close>

definition Date :: "(string \<Rightarrow> string) \<Rightarrow> (string \<Rightarrow> string) \<Rightarrow> string \<Rightarrow> string \<Rightarrow> string \<Rightarrow> string" where
  "Date say written_as key month weekday = translateNames say (written_as (say key)) month weekday"

lemma example_date:
  "translateNames (\<lambda>k. if k = ''month.march'' then ''m'' else ''x'') ''4 March, March'' ''March'' ''Monday'' = ''4 m, m''"
  by code_simp

end
