(* ===== verification/LanguageChoice.thy ===== *)
theory LanguageChoice
  imports Language
begin

text \<open>
  Which language a request is served in: src/internal/platform/i18n/resolve.go, with the
  languages of a marketplace and the manual switch of src/internal/platform/httpx/site.go.
\<close>

subsection \<open>The order of the choices\<close>

definition LanguageCookie :: string where "LanguageCookie = ''language''"
definition cookieAge :: int where "cookieAge = 365 * 24 * hour"

lemmas [durations] = cookieAge_def

record language_resolver =
  lr_catalogue :: catalogue
  lr_locate :: "string \<Rightarrow> string option"
  lr_countries :: "(string \<times> string) list"

definition NewLanguageResolver :: "catalogue \<Rightarrow> (string \<Rightarrow> string option) \<Rightarrow> language_resolver" where
  "NewLanguageResolver c locate =
     \<lparr>lr_catalogue = c, lr_locate = locate, lr_countries = [(''BR'', ''pt-BR'')]\<rparr>"

text \<open>\<^verbatim>\<open>geoip.Nowhere\<close>, the locator of the process, and \<^verbatim>\<open>geoip.Fixed\<close>.\<close>

definition Nowhere :: "string \<Rightarrow> string option" where "Nowhere ip = None"

definition Fixed :: "string \<Rightarrow> string \<Rightarrow> string option" where
  "Fixed country ip = (if country = [] then None else Some country)"

definition match_tag :: "string \<Rightarrow> string list \<Rightarrow> string option" where
  "match_tag tag languages = find (\<lambda>language. EqualFold tag language) languages"

definition contains_tag :: "string list \<Rightarrow> string \<Rightarrow> bool" where
  "contains_tag languages tag \<longleftrightarrow> match_tag tag languages \<noteq> None"

definition splitLanguage :: "string \<Rightarrow> string \<times> string \<times> bool" where
  "splitLanguage path =
     (case cut_at (CHR ''/'') (trim_prefix_char (CHR ''/'') path) of (first, rest, found) \<Rightarrow>
        if first = [] then ([], ''/'', False)
        else if \<not> found then (first, ''/'', True)
        else (first, CHR ''/'' # rest, True))"

text \<open>\<^verbatim>\<open>Resolver.speaks\<close>, of the languages and the fallback a marketplace names.\<close>

definition languages_served :: "language_resolver \<Rightarrow> string list \<times> string \<Rightarrow> string list \<times> string" where
  "languages_served rs enabled =
     (let languages = (if fst enabled = [] then Languages (lr_catalogue rs) else fst enabled);
          tongues = filter (Speaks_tag (lr_catalogue rs)) languages;
          tongues = (if tongues = [] then [DefaultTag] else tongues);
          fallback = snd enabled;
          fallback = (if contains_tag tongues fallback then fallback
            else if contains_tag tongues DefaultTag then DefaultTag else hd tongues) in
      (tongues, fallback))"

definition choose_language :: "language_resolver \<Rightarrow> request \<Rightarrow> string list \<Rightarrow> string \<Rightarrow> string" where
  "choose_language rs r languages fallback =
     (case Option.bind (cookie_of LanguageCookie r) (\<lambda>c. match_tag c languages) of
        Some chosen \<Rightarrow> chosen
      | None \<Rightarrow>
          if cx_client_ip r = [] then fallback
          else
            (case Option.bind (lr_locate rs (cx_client_ip r)) (map_of (lr_countries rs)) of
               None \<Rightarrow> fallback
             | Some tongue \<Rightarrow> (case match_tag tongue languages of None \<Rightarrow> fallback | Some chosen \<Rightarrow> chosen)))"

definition language_redirect :: "request \<Rightarrow> nat \<Rightarrow> string \<Rightarrow> string \<Rightarrow> writer \<Rightarrow> writer" where
  "language_redirect r status tag path w =
     http_redirect r (url_string (CHR ''/'' # tag @ path) (rq_query r)) status w"

definition ResolveLanguage :: "language_resolver \<Rightarrow> (request \<Rightarrow> string list \<times> string) \<Rightarrow> string list \<Rightarrow>
    's handler \<Rightarrow> 's handler" where
  "ResolveLanguage rs enabled exempt nxt = (\<lambda>r ws.
     (if rq_path r \<in> set exempt then nxt r ws
      else case languages_served rs (enabled r) of (languages, fallback) \<Rightarrow>
        (let elsewhere = on_writer (language_redirect r StatusFound (choose_language rs r languages fallback) (rq_path r)) in
         case splitLanguage (rq_path r) of (first, rest, found) \<Rightarrow>
           if \<not> found then elsewhere ws
           else case match_tag first languages of
                  None \<Rightarrow> elsewhere ws
                | Some canonical \<Rightarrow>
                    if canonical \<noteq> first
                    then on_writer (language_redirect r StatusMovedPermanently canonical rest) ws
                    else nxt (r\<lparr>rq_path := rest, cx_language := canonical\<rparr>) ws)))"

text \<open>\<^verbatim>\<open>httpx.Speaks\<close>: the marketplace's languages, or every language of the platform.\<close>

definition Speaks :: "catalogue \<Rightarrow> request \<Rightarrow> string list \<times> string" where
  "Speaks c r = (case cx_resolution r of
     Some (MarketplaceHost m) \<Rightarrow> (mp_languages m, mp_language m)
   | _ \<Rightarrow> (Languages c, DefaultTag))"

subsection \<open>The manual switch\<close>

definition Remember :: "request \<Rightarrow> string \<Rightarrow> writer \<Rightarrow> writer" where
  "Remember r tag w = SetCookie \<lparr>ck_name = LanguageCookie, ck_value = tag,
     ck_max_age = cookieAge div second, ck_secure = isHTTPS r\<rparr> w"

definition safePath :: "string \<Rightarrow> string" where
  "safePath path =
     (if path = [] \<or> \<not> has_prefix ''/'' path \<or> has_prefix ''//'' path then ''/''
      else if list_ex (\<lambda>c. c = CHR 0x5C \<or> c = CHR 0x0D \<or> c = CHR 0x0A) path then ''/''
      else path)"

definition safeQuery :: "string \<Rightarrow> string" where
  "safeQuery query = (case ParseQuery query of (pairs, ok) \<Rightarrow> if ok then Encode pairs else [])"

definition switchLanguage :: "catalogue \<Rightarrow> request \<Rightarrow> writer \<Rightarrow> writer" where
  "switchLanguage c r w =
     (case ParseForm r of (form, ok) \<Rightarrow>
        if \<not> ok then http_error [] 400 w
        else case Speaks c r of (languages, fallback) \<Rightarrow>
          (let asked = first_value form ''language'';
               chosen = (if asked \<in> set languages then asked else fallback);
               w = Remember r chosen w in
           http_redirect r (url_string (CHR ''/'' # chosen @ safePath (first_value form ''path''))
             (safeQuery (first_value form ''query''))) StatusSeeOther w))"

end
