(* ===== verification/LanguageFacts.thy ===== *)
theory LanguageFacts
  imports LanguageChoice UrlFacts TextFacts
begin

text \<open>
  Facts about LanguageChoice: tags compared without case are names of one path segment, what
  the languages served are, and where one answer of the resolver leads a browser.
\<close>

subsection \<open>Tags\<close>

definition tag_char :: "char \<Rightarrow> bool" where
  "tag_char c \<longleftrightarrow> (48 \<le> code c \<and> code c \<le> 57) \<or> (65 \<le> code c \<and> code c \<le> 90) \<or>
     (97 \<le> code c \<and> code c \<le> 122) \<or> code c = 45 \<or> code c = 95"

definition tag_like :: "string \<Rightarrow> bool" where
  "tag_like t \<longleftrightarrow> t \<noteq> [] \<and> list_all tag_char t"

lemma tag_like_fold:
  assumes "tag_like t"
  shows "fold_text t \<noteq> []" "46 \<notin> set (fold_text t)" "47 \<notin> set (fold_text t)"
proof -
  have "list_all (\<lambda>c. code c < 128) t"
    using assms unfolding tag_like_def tag_char_def list_all_iff by auto
  then have fold: "fold_text t = map (\<lambda>c. fold_rune (int (code c))) t"
    by (simp add: fold_text_def ascii_runes)
  have "fold_rune (int (code c)) \<noteq> 46" "fold_rune (int (code c)) \<noteq> 47" if "c \<in> set t" for c
    using assms that unfolding tag_like_def tag_char_def list_all_iff fold_rune_def by auto
  then show "fold_text t \<noteq> []" "46 \<notin> set (fold_text t)" "47 \<notin> set (fold_text t)"
    using assms unfolding fold by (auto simp: tag_like_def)
qed

lemma fold_text_ascii: "c \<in> set s \<Longrightarrow> code c < 128 \<Longrightarrow> fold_rune (int (code c)) \<in> set (fold_text s)"
  using ascii_rune [of c s] unfolding fold_text_def by force

text \<open>Whatever equals a tag but for case is the name of one segment of a path.\<close>

lemma segment_fold:
  assumes "tag_like t" and "EqualFold s t"
  shows "segment s"
proof -
  note t = tag_like_fold [OF assms(1)]
  have fold: "fold_text s = fold_text t" using assms(2) by (simp add: EqualFold_def)
  have marks: "code (CHR ''/'') = 47" "code (CHR ''.'') = 46" by (simp_all add: code_def)
  have "s \<noteq> []" using t(1) fold by (auto simp: fold_text_def)
  moreover have "CHR ''/'' \<notin> set s"
    using fold_text_ascii [of "CHR ''/''" s] t(3) fold by (auto simp: marks fold_rune_def)
  moreover have "CHR ''.'' \<notin> set s"
    using fold_text_ascii [of "CHR ''.''" s] t(2) fold by (auto simp: marks fold_rune_def)
  ultimately show ?thesis by (auto simp: segment_def)
qed

lemma match_tag_Some: "match_tag t ls = Some c \<Longrightarrow> c \<in> set ls \<and> EqualFold t c"
  by (auto simp: match_tag_def find_Some_iff)

lemma match_tag_again: "match_tag t ls = Some c \<Longrightarrow> match_tag c ls = Some c"
  using match_tag_Some [of t ls c] by (simp add: match_tag_def EqualFold_def)

lemma contains_member: "x \<in> set ls \<Longrightarrow> contains_tag ls x"
  by (auto simp: contains_tag_def match_tag_def find_None_iff)

subsection \<open>The languages served\<close>

text \<open>A loaded catalogue speaks tags the library parses, and no others.\<close>

lemma add_files_tags:
  "add_files t es (b, c) = Inr (b', c') \<Longrightarrow> list_all (tl_parses t) (ca_tags c) \<Longrightarrow> list_all (tl_parses t) (ca_tags c')"
proof (induction t es "(b, c)" arbitrary: b c rule: add_files.induct)
  case (2 t e es)
  show ?case
  proof (cases "if de_dir e then None else catalogue_tag (de_name e)")
    case None
    then show ?thesis using 2 by simp
  next
    case (Some tag)
    obtain raw bc where "de_content e = Some raw" and bc: "add_language t tag raw (b, c) = Inr bc"
      and left: "add_files t es bc = Inr (b', c')"
      using "2.prems"(1) Some by (auto split: option.splits sum.splits)
    obtain b1 c1 where bc1: "bc = (b1, c1)" by (cases bc)
    have "list_all (tl_parses t) (ca_tags c1)"
      using bc "2.prems"(2) unfolding bc1 add_language_def
      by (auto split: if_splits option.splits sum.splits)
    then show ?thesis
      using "2.hyps"(2) [OF Some \<open>de_content e = Some raw\<close> bc [unfolded bc1]] left bc1 by simp
  qed
qed simp

lemma loaded_speaks:
  assumes "LoadCatalogue t dir = Inr (b, c)"
  shows "list_all (tl_parses t) (ca_printers c)" "ca_printers c = ca_tags c" "ca_tags c \<noteq> []"
proof -
  obtain entries b1 c1 where files: "add_files t entries ([], \<lparr>ca_printers = [], ca_tags = [], ca_keys = []\<rparr>) = Inr (b1, c1)"
    and c: "c = c1\<lparr>ca_tags := sort (ca_tags c1), ca_printers := sort (ca_tags c1)\<rparr>" and ne: "ca_tags c1 \<noteq> []"
    using assms unfolding LoadCatalogue_def Let_def
    by (auto split: option.splits sum.splits if_splits)
  have "list_all (tl_parses t) (ca_tags c1)" using add_files_tags [OF files] by simp
  moreover have "sort (ca_tags c1) \<noteq> []" using ne by (metis set_empty set_sort)
  ultimately show "list_all (tl_parses t) (ca_printers c)" "ca_printers c = ca_tags c" "ca_tags c \<noteq> []"
    using c by (auto simp: list_all_iff)
qed

definition well_tagged :: "language_resolver \<Rightarrow> bool" where
  "well_tagged rs \<longleftrightarrow> list_all tag_like (ca_printers (lr_catalogue rs))"

lemma default_tag_like: "tag_like DefaultTag"
  by (simp add: DefaultTag_def tag_like_def tag_char_def code_def)

lemma served_tags:
  assumes "well_tagged rs" and "languages_served rs enabled = (ls, fallback)"
  shows "list_all tag_like ls" "contains_tag ls fallback"
proof -
  let ?named = "filter (Speaks_tag (lr_catalogue rs)) (if fst enabled = [] then Languages (lr_catalogue rs) else fst enabled)"
  have both: "languages_served rs enabled = ((if ?named = [] then [DefaultTag] else ?named),
      (let ls = if ?named = [] then [DefaultTag] else ?named in
       if contains_tag ls (snd enabled) then snd enabled
       else if contains_tag ls DefaultTag then DefaultTag else hd ls))"
    unfolding languages_served_def Let_def by (rule refl)
  note pair = assms(2) [unfolded both, unfolded prod.inject]
  note ls = pair [THEN conjunct1, symmetric]
  have fallback: "fallback = (if contains_tag ls (snd enabled) then snd enabled
      else if contains_tag ls DefaultTag then DefaultTag else hd ls)"
    using pair [THEN conjunct2] unfolding Let_def pair [THEN conjunct1] by (rule sym)
  have "list_all tag_like ?named"
    using assms(1) by (auto simp: well_tagged_def Speaks_tag_def list_all_iff)
  then show "list_all tag_like ls" using default_tag_like unfolding ls by simp
  have "ls \<noteq> []" unfolding ls by simp
  then show "contains_tag ls fallback" unfolding fallback by (simp add: contains_member)
qed

lemma chosen_is_served: "contains_tag ls fallback \<Longrightarrow> contains_tag ls (choose_language rs r ls fallback)"
  unfolding choose_language_def
  by (auto split: option.splits simp: bind_eq_Some_conv contains_member dest: match_tag_Some)

lemma contains_segment: "list_all tag_like ls \<Longrightarrow> contains_tag ls t \<Longrightarrow> segment t"
  unfolding contains_tag_def list_all_iff using match_tag_Some segment_fold by blast

end
