(* ===== verification/LanguageProps.thy ===== *)
theory LanguageProps
  imports LanguageFacts
begin

text \<open>
  A visitor who follows the redirects of the language resolver arrives, in a language the
  host is served in, and never leaves the site.
\<close>

subsection \<open>A browser that follows\<close>

text \<open>
  The resolver in front of a site that only says which request reached it, and a browser that
  asks, and follows what it is told while the visitor has patience: each element of the list
  is the visitor at one request, with the cookie and the address of that moment.
\<close>

definition reached :: "language_resolver \<Rightarrow> catalogue \<Rightarrow> string list \<Rightarrow> request \<Rightarrow> writer \<times> request option" where
  "reached rs c exempt r =
     ResolveLanguage rs (Speaks c) exempt (\<lambda>r (w, s). (w, Some r)) r (fresh_writer, None)"

fun browse :: "language_resolver \<Rightarrow> catalogue \<Rightarrow> string list \<Rightarrow> request list \<Rightarrow> string \<times> string \<Rightarrow> request option" where
  "browse rs c exempt [] at = None"
| "browse rs c exempt (v # vs) at =
     (case reached rs c exempt (v\<lparr>rq_path := fst at, rq_query := snd at\<rparr>) of
        (w, Some r) \<Rightarrow> Some r
      | (w, None) \<Rightarrow>
          (case Option.bind (response_header ''Location'' w) followed of
             None \<Rightarrow> None
           | Some at' \<Rightarrow> browse rs c exempt vs at'))"

definition arrived :: "language_resolver \<Rightarrow> catalogue \<Rightarrow> string list \<Rightarrow> request \<Rightarrow> bool" where
  "arrived rs c exempt r \<longleftrightarrow>
     rq_path r \<in> set exempt \<or> cx_language r \<in> set (fst (languages_served rs (Speaks c r)))"

lemma Speaks_only_host: "cx_resolution r = cx_resolution r' \<Longrightarrow> Speaks c r = Speaks c r'"
  by (simp add: Speaks_def)

lemma Location_set:
  "wr_status w = None \<Longrightarrow> response_header ''Location'' (http_redirect r target status w) = Some (Location target)"
  by (simp add: http_redirect_def Let_def response_header_set)

lemma browse_exempt:
  "path \<in> set exempt \<Longrightarrow> browse rs c exempt (v # vs) (path, q) = Some (v\<lparr>rq_path := path, rq_query := q\<rparr>)"
  by (simp add: reached_def ResolveLanguage_def)

lemma browse_serve:
  assumes "path \<notin> set exempt" and "languages_served rs (Speaks c v) = (ls, fallback)"
    and "splitLanguage path = (first, rest, True)" and "match_tag first ls = Some first"
  shows "browse rs c exempt (v # vs) (path, q) = Some (v\<lparr>rq_path := rest, rq_query := q, cx_language := first\<rparr>)"
proof -
  have "Speaks c (v\<lparr>rq_path := path, rq_query := q\<rparr>) = Speaks c v" by (rule Speaks_only_host) simp
  with assms show ?thesis by (simp add: reached_def ResolveLanguage_def)
qed

lemma browse_move:
  assumes "path \<notin> set exempt" and ls: "languages_served rs (Speaks c v) = (ls, fallback)" and q: "plain_query q"
    and go: "splitLanguage path = (first, rest, found)"
    and goes: "if found then (match_tag first ls = Some tag \<and> tag \<noteq> first \<and> p = rest \<or>
        match_tag first ls = None \<and> tag = choose_language rs (v\<lparr>rq_path := path, rq_query := q\<rparr>) ls fallback \<and> p = path)
      else tag = choose_language rs (v\<lparr>rq_path := path, rq_query := q\<rparr>) ls fallback \<and> p = path"
  shows "browse rs c exempt (v # vs) (path, q) =
    browse rs c exempt vs (clean_keeping_slash (CHR ''/'' # tag @ p), hexEscapeNonASCII q)"
proof -
  let ?r = "v\<lparr>rq_path := path, rq_query := q\<rparr>" and ?t = "url_string (CHR ''/'' # tag @ p) q"
  have "Speaks c ?r = Speaks c v" by (rule Speaks_only_host) simp
  then obtain status where "reached rs c exempt ?r = (http_redirect ?r ?t status fresh_writer, None)"
    using assms(1) ls go goes
    by (auto simp: reached_def ResolveLanguage_def on_writer_def language_redirect_def split: if_splits)
  moreover have "followed (Location ?t) = Some (clean_keeping_slash (CHR ''/'' # tag @ p), hexEscapeNonASCII q)"
    by (rule followed_redirect [OF refl q])
  ultimately show ?thesis by (simp add: Location_set fresh_writer_def)
qed

lemma split_language_rooted:
  assumes "clean_form (h # ss) slash"
  shows "splitLanguage (rooted (h # ss) slash) = (h, rooted ss (slash \<and> ss \<noteq> []), True)"
proof -
  have h: "h \<noteq> []" "CHR ''/'' \<notin> set h" using assms by (simp_all add: clean_form_def segment_def)
  have trim: "trim_prefix_char (CHR ''/'') (rooted (h # ss) slash) = tl (rooted (h # ss) slash)"
    by (simp add: trim_prefix_char_def rooted_def)
  have "tl (rooted (h # ss) slash) = (if ss = [] \<and> \<not> slash then h else h @ CHR ''/'' # tl (rooted ss (slash \<and> ss \<noteq> [])))"
    by (auto simp: rooted_def join_with_Cons)
  then show ?thesis
    using h unfolding splitLanguage_def trim by (auto simp: cut_at_absent cut_at_append rooted_def)
qed

lemma split_language_root: "splitLanguage (rooted [] False) = ([], ''/'', False)"
  by code_simp

subsection \<open>The way to the page\<close>

text \<open>Everybody in the list is on one host, so the languages and the fallback are the same.\<close>

definition one_host :: "language_resolver \<Rightarrow> catalogue \<Rightarrow> request list \<Rightarrow> string list \<Rightarrow> string \<Rightarrow> bool" where
  "one_host rs c vs ls fallback \<longleftrightarrow> list_all (\<lambda>v. languages_served rs (Speaks c v) = (ls, fallback)) vs"

definition gets_there :: "language_resolver \<Rightarrow> catalogue \<Rightarrow> string list \<Rightarrow> request list \<Rightarrow> string \<times> string \<Rightarrow> bool" where
  "gets_there rs c exempt vs at \<longleftrightarrow>
     (case browse rs c exempt vs at of None \<Rightarrow> False | Some r \<Rightarrow> arrived rs c exempt r)"

lemma gets_there_exempt: "path \<in> set exempt \<Longrightarrow> gets_there rs c exempt (v # vs) (path, q)"
  by (simp only: gets_there_def browse_exempt option.case arrived_def) simp

lemma gets_there_served:
  assumes "one_host rs c (v # vs) ls fallback" and "splitLanguage path = (first, rest, True)"
    and "match_tag first ls = Some first"
  shows "gets_there rs c exempt (v # vs) (path, q)"
proof (cases "path \<in> set exempt")
  case False
  have ls: "languages_served rs (Speaks c v) = (ls, fallback)" using assms(1) by (simp add: one_host_def)
  let ?r = "v\<lparr>rq_path := rest, rq_query := q, cx_language := first\<rparr>"
  have "Speaks c ?r = Speaks c v" by (rule Speaks_only_host) simp
  then have "arrived rs c exempt ?r" using ls match_tag_Some [OF assms(3)] by (simp add: arrived_def)
  then show ?thesis by (simp only: gets_there_def browse_serve [OF False ls assms(2,3)] option.case)
qed (rule gets_there_exempt)

text \<open>An address that names a language, in any spelling, leads to the page in two requests.\<close>

lemma gets_there_named:
  assumes host: "one_host rs c (v # v' # vs) ls fallback" and q: "plain_query q"
    and form: "clean_form (h # ss) slash" and tags: "list_all tag_like ls" and named: "match_tag h ls = Some t"
  shows "gets_there rs c exempt (v # v' # vs) (rooted (h # ss) slash, q)"
proof (cases "t = h \<or> rooted (h # ss) slash \<in> set exempt")
  case True
  then show ?thesis
    using gets_there_served [OF host split_language_rooted [OF form]] named gets_there_exempt by auto
next
  case False
  let ?rest = "rooted ss (slash \<and> ss \<noteq> [])"
  have ls: "languages_served rs (Speaks c v) = (ls, fallback)" "one_host rs c (v' # vs) ls fallback"
    using host by (simp_all add: one_host_def)
  have "t \<in> set ls" using match_tag_Some [OF named] by blast
  then have t: "segment t" using tags segment_fold [of t t] by (simp add: list_all_iff)
  have rest: "clean_form ss (slash \<and> ss \<noteq> [])" using form by (simp add: clean_form_def)
  define sl where "sl = (slash \<and> ss \<noteq> [] \<or> ss = [])"
  have "clean_form (t # ss) sl" using t form by (simp add: clean_form_def)
  note arrive = gets_there_served [OF ls(2) split_language_rooted [OF this] match_tag_again [OF named]]
  have "browse rs c exempt (v # v' # vs) (rooted (h # ss) slash, q) =
      browse rs c exempt (v' # vs) (clean_keeping_slash (CHR ''/'' # t @ ?rest), hexEscapeNonASCII q)"
    using False named by (intro browse_move [OF _ ls(1) q split_language_rooted [OF form]]) auto
  also have "clean_keeping_slash (CHR ''/'' # t @ ?rest) = rooted (t # ss) sl"
    unfolding sl_def by (rule clean_under [OF t rest])
  finally show ?thesis using arrive by (simp add: gets_there_def)
qed

lemma gets_there_clean:
  assumes host: "one_host rs c (v # v' # v'' # vs) ls fallback" and q: "plain_query q"
    and form: "clean_form ss slash" and tags: "list_all tag_like ls" "contains_tag ls fallback"
  shows "gets_there rs c exempt (v # v' # v'' # vs) (rooted ss slash, q)"
proof -
  let ?path = "rooted ss slash"
  let ?t = "choose_language rs (v\<lparr>rq_path := ?path, rq_query := q\<rparr>) ls fallback"
  obtain first rest found where split: "splitLanguage ?path = (first, rest, found)" by (metis prod_cases3)
  have named: "ss \<noteq> [] \<and> first = hd ss" if "found"
    using that split split_language_root form split_language_rooted [of "hd ss" "tl ss" slash]
    by (cases "ss = []") (auto simp: clean_form_def)
  consider (exempt) "?path \<in> set exempt" | (language) t where "found" "match_tag first ls = Some t"
    | (none) "?path \<notin> set exempt" "found \<longrightarrow> match_tag first ls = None"
    by (cases "match_tag first ls") blast+
  then show ?thesis
  proof cases
    case exempt
    then show ?thesis by (rule gets_there_exempt)
  next
    case language
    have "one_host rs c (v # v' # (v'' # vs)) ls fallback" using host by simp
    from gets_there_named [OF this q _ tags(1), of "hd ss" "tl ss" slash t] form named language
    show ?thesis by simp
  next
    case none
    have ls: "languages_served rs (Speaks c v) = (ls, fallback)" "one_host rs c (v' # v'' # vs) ls fallback"
      using host by (simp_all add: one_host_def)
    have choice: "contains_tag ls ?t" by (rule chosen_is_served [OF tags(2)])
    then have seg: "segment ?t" by (rule contains_segment [OF tags(1)])
    obtain t where t: "match_tag ?t ls = Some t" using choice by (auto simp: contains_tag_def)
    have "clean_form (?t # ss) (slash \<or> ss = [])" using seg form by (simp add: clean_form_def)
    note arrive = gets_there_named [OF ls(2) plain_query_escaped [OF q] this tags(1) t]
    have "browse rs c exempt (v # v' # v'' # vs) (?path, q) =
        browse rs c exempt (v' # v'' # vs) (clean_keeping_slash (CHR ''/'' # ?t @ ?path), hexEscapeNonASCII q)"
      using none by (intro browse_move [OF _ ls(1) q split]) auto
    also have "clean_keeping_slash (CHR ''/'' # ?t @ ?path) = rooted (?t # ss) (slash \<or> ss = [])"
      by (rule clean_under [OF seg form])
    finally show ?thesis using arrive by (simp add: gets_there_def)
  qed
qed

lemma gets_there_moved:
  assumes "browse rs c exempt (v # v1 # v2 # v3 # vs) (path, q) =
      browse rs c exempt (v1 # v2 # v3 # vs) (clean_keeping_slash p, hexEscapeNonASCII q)"
    and host: "one_host rs c (v1 # v2 # v3 # vs) ls fallback" and q: "plain_query q"
    and tags: "list_all tag_like ls" "contains_tag ls fallback"
  shows "gets_there rs c exempt (v # v1 # v2 # v3 # vs) (path, q)"
proof -
  obtain ss slash where "clean_form ss slash" "clean_keeping_slash p = rooted ss slash"
    by (rule clean_is_rooted)
  then show ?thesis
    using assms(1) gets_there_clean [OF host plain_query_escaped [OF q] _ tags, of ss slash]
    by (simp add: gets_there_def)
qed

lemma gets_there_anyhow:
  assumes host: "one_host rs c (v # v1 # v2 # v3 # vs) ls fallback" and q: "plain_query q"
    and tags: "list_all tag_like ls" "contains_tag ls fallback"
  shows "gets_there rs c exempt (v # v1 # v2 # v3 # vs) (path, q)"
proof (cases "path \<in> set exempt")
  case False
  have ls: "languages_served rs (Speaks c v) = (ls, fallback)" "one_host rs c (v1 # v2 # v3 # vs) ls fallback"
    using host by (simp_all add: one_host_def)
  obtain first rest found where split: "splitLanguage path = (first, rest, found)" by (metis prod_cases3)
  note moved = gets_there_moved [OF _ ls(2) q tags]
  show ?thesis
  proof (cases "found \<and> match_tag first ls \<noteq> None")
    case True
    then obtain t where t: "match_tag first ls = Some t" "found" by auto
    show ?thesis
    proof (cases "t = first")
      case True
      then show ?thesis using gets_there_served [OF host] split t by auto
    next
      case ne: False
      show ?thesis by (rule moved, rule browse_move [OF False ls(1) q split]) (use t ne in auto)
    qed
  next
    case none: False
    show ?thesis by (rule moved, rule browse_move [OF False ls(1) q split]) (use none in auto)
  qed
qed (rule gets_there_exempt)

text \<open>
  C33. Termination: whatever address a browser asks a host for, in whichever language the
  visitor's cookie and country point at each request, at most three redirects of the language
  resolver follow, and the fourth request at the latest reaches the site: at an exempt address,
  or in one of the languages the host is served in. The catalogue is one the process loaded,
  and the library parses only tags made of letters, digits, hyphens and underscores; a browser
  sends neither a fragment nor control characters.
\<close>

theorem language_redirects_end:
  assumes "LoadCatalogue t dir = Inr (b, lr_catalogue rs)"
    and parses: "\<And>tag. tl_parses t tag \<Longrightarrow> tag_like tag"
    and "list_all (\<lambda>v. cx_resolution v = res) vs" and "4 \<le> length vs" and "plain_query q"
  shows "\<exists>r. browse rs (lr_catalogue rs) exempt vs (path, q) = Some r \<and> arrived rs (lr_catalogue rs) exempt r"
proof -
  let ?c = "lr_catalogue rs"
  have well: "well_tagged rs"
    using loaded_speaks(1) [OF assms(1)] parses by (auto simp: well_tagged_def list_all_iff)
  obtain v v1 v2 v3 ws where vs: "vs = v # v1 # v2 # v3 # ws"
    using assms(4) by (auto simp: numeral_eq_Suc Suc_le_length_iff)
  obtain ls fallback where ls: "languages_served rs (Speaks ?c v) = (ls, fallback)" by fastforce
  have "Speaks ?c w = Speaks ?c v" if "w \<in> set vs" for w
    using assms(3) that vs by (intro Speaks_only_host) (auto simp: list_all_iff)
  then have "one_host rs ?c vs ls fallback" using ls by (simp add: one_host_def list_all_iff)
  then have "gets_there rs ?c exempt vs (path, q)"
    unfolding vs by (rule gets_there_anyhow [OF _ assms(5) served_tags [OF well ls]])
  then show ?thesis by (auto simp: gets_there_def split: option.splits)
qed

text \<open>Three redirects happen: the dots take the first language away, and the fallback is spelled otherwise.\<close>

definition sample_library :: text_library where
  "sample_library = \<lparr>tl_parses = tag_like, tl_sets = (\<lambda>tag key w. True), tl_unmarshal = (\<lambda>raw. Some [(raw, JText raw)])\<rparr>"

definition sample_locales :: "dir_entry list" where
  "sample_locales = [\<lparr>de_name = ''pt-BR.json'', de_dir = False, de_content = Some ''x''\<rparr>,
     \<lparr>de_name = ''en-US.json'', de_dir = False, de_content = Some ''x''\<rparr>]"

definition sample_languages :: language_resolver where
  "sample_languages = NewLanguageResolver
     \<lparr>ca_printers = [''en-US'', ''pt-BR''], ca_tags = [''en-US'', ''pt-BR''], ca_keys = [(''pt-BR'', [''x'']), (''en-US'', [''x''])]\<rparr> Nowhere"

definition sample_shop :: marketplace where
  "sample_shop = \<lparr>mp_id = ''m1'', mp_slug = ''shop'', mp_name = ''Shop'', mp_market = ''us'', mp_revenue = ''r'',
     mp_state = Active, mp_language = ''EN-us'', mp_languages = [''en-US'', ''pt-BR''], mp_detect = False, mp_reveal = False\<rparr>"

definition sample_request :: request where
  "sample_request = \<lparr>rq_method = ''GET'', rq_host = ''shop.test'', rq_path = ''/'', rq_query = [], rq_headers = [],
     rq_cookies = [], rq_tls = True, rq_remote = ''10.0.0.1:80'', rq_form = [], rq_form_ok = True, rq_body = Some [], cx_origin = None,
     cx_client_ip = [], cx_language = [], cx_resolution = Some (MarketplaceHost sample_shop), cx_session = None,
     cx_csrf = [], cx_nonce = [], cx_console = []\<rparr>"

lemma sample_catalogue:
  "LoadCatalogue sample_library (Some sample_locales) =
     Inr ([(''pt-BR'', [(''x'', Line ''x'')]), (''en-US'', [(''x'', Line ''x'')])], lr_catalogue sample_languages)"
  by code_simp

lemma three_redirects_happen:
  "browse sample_languages (lr_catalogue sample_languages) [''/health''] (replicate 3 sample_request) (''/../x'', ''a=b'') = None"
  by code_simp

lemma language_redirects_end_witness:
  "\<exists>r. browse sample_languages (lr_catalogue sample_languages) [''/health''] (replicate 4 sample_request) (''/../x'', ''a=b'') = Some r \<and>
     arrived sample_languages (lr_catalogue sample_languages) [''/health''] r"
  by (rule language_redirects_end [OF sample_catalogue, where res = "cx_resolution sample_request"])
     (simp_all add: sample_library_def list_all_iff plain_query_def control_def code_def)

subsection \<open>Never another site\<close>

text \<open>
  An address a browser resolves on the site it is on: it starts with one slash, and what
  follows is neither a second slash nor a backslash, which browsers read as one.
\<close>

definition on_site :: "string \<Rightarrow> bool" where
  "on_site l \<longleftrightarrow> l \<noteq> [] \<and> hd l = CHR ''/'' \<and> (tl l = [] \<or> hd (tl l) \<noteq> CHR ''/'' \<and> hd (tl l) \<noteq> CHR 0x5C)"

lemma on_site_hex: "on_site s \<Longrightarrow> on_site (hexEscapeNonASCII s)"
proof (cases s)
  case (Cons a t)
  assume s: "on_site s"
  have pct: "CHR ''%'' \<noteq> CHR ''/''" "CHR ''%'' \<noteq> CHR 0x5C" "code (CHR ''/'') < 128" by (simp_all add: code_def)
  show ?thesis
    using s pct unfolding Cons by (cases t) (auto simp: on_site_def hexEscapeNonASCII_def)
qed (simp add: on_site_def)

lemma on_site_escape:
  assumes "s = [] \<or> hd s \<noteq> CHR ''/''" and "q = [] \<or> hd q = CHR ''?''"
  shows "on_site (path_escape (CHR ''/'' # s) @ q)"
proof -
  have slashes: "\<not> path_safe (CHR 0x5C)" by code_simp
  have root: "path_escape (CHR ''/'' # s) = CHR ''/'' # path_escape s"
    by (simp add: path_escape_Cons slash_safe)
  show ?thesis
  proof (cases s)
    case Nil
    then show ?thesis using assms(2) unfolding root on_site_def by (cases q) auto
  next
    case (Cons a t)
    have "hd (path_escape s) = (if path_safe a then a else CHR ''%'')"
      using Cons by (simp add: path_escape_Cons percent_def)
    moreover have "path_escape s \<noteq> []" using Cons by (simp add: path_escape_names)
    ultimately show ?thesis
      using assms(1) slashes Cons unfolding root on_site_def by auto
  qed
qed

lemma Location_on_site:
  assumes "segment tag"
  shows "on_site (Location (url_string (CHR ''/'' # tag @ p) q))"
proof -
  let ?path = "CHR ''/'' # tag @ p"
  have tag: "tag \<noteq> []" "hd tag \<noteq> CHR ''/''" using assms by (auto simp: segment_def dest: hd_in_set)
  have whole: "on_site (url_string ?path q)"
    unfolding url_string_def by (rule on_site_escape) (use tag in auto)
  have cut: "cut_at (CHR ''?'') (url_string ?path q) = (path_escape ?path, q, q \<noteq> [])"
    using escape_free(1) [of ?path] by (simp add: url_string_def cut_at_absent cut_at_append)
  obtain ss slash where clean: "clean_form ss slash" "clean_keeping_slash ?path = rooted ss slash"
    by (rule clean_is_rooted)
  define rest where "rest = (if q = [] then [] else CHR ''?'' # q)"
  have "on_site (path_escape (rooted ss slash) @ rest)"
    unfolding rooted_def rest_def
  proof (rule on_site_escape)
    show "join_with (CHR ''/'') ss @ (if slash then ''/'' else []) = [] \<or>
        hd (join_with (CHR ''/'') ss @ (if slash then ''/'' else [])) \<noteq> CHR ''/''"
      using clean(1) by (cases ss) (auto simp: clean_form_def segment_def join_with_Cons dest: hd_in_set)
  qed simp
  then have "on_site (clean_keeping_slash (path_escape ?path) @ rest)"
    by (simp add: clean_escape [OF refl] clean(2))
  then show ?thesis
    using whole unfolding Location_def cut rest_def by (auto intro: on_site_hex)
qed

definition sent_where :: "writer \<Rightarrow> bool" where
  "sent_where w \<longleftrightarrow> (case response_header ''Location'' w of None \<Rightarrow> False | Some l \<Rightarrow> on_site l)"

lemma redirect_sent_where: "wr_status w = None \<Longrightarrow> segment tag \<Longrightarrow>
    sent_where (http_redirect r (url_string (CHR ''/'' # tag @ p) q) status w)"
  by (simp add: sent_where_def Location_set Location_on_site)

text \<open>
  Safety: the manual language switch is no open redirect. Whatever language, path and query
  the form names, the visitor is sent to an address on this site, and the choice remembered is
  one of the marketplace's languages or its default; or the form is malformed, and the answer
  is 400 with nothing remembered.
\<close>

theorem language_switch_stays_on_the_site:
  assumes "list_all tag_like (snd (Speaks c r) # fst (Speaks c r))" and "wr_status w = None"
  shows "if snd (ParseForm r)
    then sent_where (switchLanguage c r w) \<and> wr_status (switchLanguage c r w) = Some StatusSeeOther \<and>
      (\<exists>tag \<in> insert (snd (Speaks c r)) (set (fst (Speaks c r))).
         map ck_value (wr_cookies (switchLanguage c r w)) = map ck_value (wr_cookies w) @ [tag])
    else wr_status (switchLanguage c r w) = Some 400 \<and> wr_cookies (switchLanguage c r w) = wr_cookies w"
proof (cases "snd (ParseForm r)")
  case True
  obtain form where form: "ParseForm r = (form, True)" using True by (metis prod.collapse)
  let ?tag = "if first_value form ''language'' \<in> set (fst (Speaks c r)) then first_value form ''language'' else snd (Speaks c r)"
  have tag: "?tag \<in> insert (snd (Speaks c r)) (set (fst (Speaks c r)))" by simp
  then have "tag_like ?tag" using assms(1) by (auto simp: list_all_iff)
  then have seg: "segment ?tag" by (rule segment_fold) simp
  let ?w = "Remember r ?tag w" and ?p = "safePath (first_value form ''path'')" and ?q = "safeQuery (first_value form ''query'')"
  have run: "switchLanguage c r w = http_redirect r (url_string (CHR ''/'' # ?tag @ ?p) ?q) StatusSeeOther ?w"
    unfolding switchLanguage_def form by (simp add: Let_def case_prod_beta)
  have w: "wr_status ?w = None" "map ck_value (wr_cookies ?w) = map ck_value (wr_cookies w) @ [?tag]"
    using assms(2) by (simp_all add: Remember_def SetCookie_def)
  have "wr_status (switchLanguage c r w) = Some StatusSeeOther" "wr_cookies (switchLanguage c r w) = wr_cookies ?w"
    unfolding run using w(1) by (simp_all add: http_redirect_def WriteHeader_def set_header_def Let_def)
  moreover have "sent_where (switchLanguage c r w)" unfolding run by (rule redirect_sent_where [OF w(1) seg])
  ultimately show ?thesis using True tag w(2) by auto
next
  case False
  then have "switchLanguage c r w = http_error [] 400 w"
    by (simp add: switchLanguage_def case_prod_beta)
  then show ?thesis
    using False assms(2) by (simp add: http_error_def write_body_def WriteHeader_def set_header_def Let_def)
qed

definition phishing_form :: request where
  "phishing_form = sample_request\<lparr>rq_method := ''POST'', rq_headers := [(''Content-Type'', ''application/x-www-form-urlencoded'')],
     rq_form := [(''language'', ''//evil.example''), (''path'', ''/..//evil.example''), (''query'', ''a=b&c=%0D'')]\<rparr>"

lemma language_switch_stays_on_the_site_witness:
  "sent_where (switchLanguage (lr_catalogue sample_languages) phishing_form fresh_writer)"
proof -
  have tags: "list_all tag_like (snd (Speaks (lr_catalogue sample_languages) phishing_form) # fst (Speaks (lr_catalogue sample_languages) phishing_form))"
    by (simp add: phishing_form_def sample_request_def Speaks_def sample_shop_def tag_like_def tag_char_def code_def)
  have "snd (ParseForm phishing_form)" by code_simp
  then show ?thesis
    using language_switch_stays_on_the_site [OF tags, of fresh_writer] by (simp add: fresh_writer_def)
qed

end
