(* ===== verification/Guards.thy ===== *)
theory Guards
  imports LanguageChoice RateLimit
begin

text \<open>
  What every request passes through (src/internal/platform/httpx: origin.go, security.go,
  csrf.go, pages.go, indexing.go, httpx.go) and what the middlewares of
  src/internal/platform/ratelimit and src/internal/tenancy write. Random bytes, HMAC-SHA256
  and \<^verbatim>\<open>net.ParseIP\<close> are parameters; a printer prints a key's text for a tag.
\<close>

record 's machine =
  mc_rand :: "nat \<Rightarrow> 's \<Rightarrow> bytes \<times> 's"
  mc_hmac :: "bytes \<Rightarrow> bytes \<Rightarrow> bytes"
  mc_parse_ip :: "string \<Rightarrow> string option"
  mc_catalogue :: catalogue
  mc_say :: "string \<Rightarrow> string \<Rightarrow> string"

subsection \<open>Where a request came from\<close>

text \<open>\<^verbatim>\<open>parseIP\<close>: an address with or without a port, and empty for anything else.\<close>

definition parseIP :: "(string \<Rightarrow> string option) \<Rightarrow> string \<Rightarrow> string" where
  "parseIP parse entry =
     (case parse entry of
        Some ip \<Rightarrow> ip
      | None \<Rightarrow>
          (case SplitHostPort entry of
             None \<Rightarrow> []
           | Some (host, port) \<Rightarrow> (case parse host of None \<Rightarrow> [] | Some ip \<Rightarrow> ip)))"

definition forwarded_chain :: "string list \<Rightarrow> string list" where
  "forwarded_chain forwarded =
     filter (\<lambda>e. e \<noteq> []) (map trim_space (concat (map (split_at (CHR '','')) forwarded)))"

definition peer :: "string \<Rightarrow> string" where
  "peer remote = (case SplitHostPort remote of None \<Rightarrow> remote | Some (host, _) \<Rightarrow> host)"

definition ClientIP :: "(string \<Rightarrow> string option) \<Rightarrow> request \<Rightarrow> int \<Rightarrow> string" where
  "ClientIP parse r hops =
     (let chain = forwarded_chain (header_values ''X-Forwarded-For'' r);
          index = int (length chain) - hops in
      if hops > 0 \<and> index \<ge> 0 \<and> index < int (length chain)
      then (let ip = parseIP parse (chain ! nat index) in if ip \<noteq> [] then ip else peer (rq_remote r))
      else peer (rq_remote r))"

definition user_agent_header :: "request \<Rightarrow> string" where
  "user_agent_header r = header_of ''User-Agent'' r"

definition Origins :: "'s machine \<Rightarrow> int \<Rightarrow> 's handler \<Rightarrow> 's handler" where
  "Origins m hops nxt = (\<lambda>r ws.
     nxt (r\<lparr>cx_origin := Some \<lparr>og_ip = ClientIP (mc_parse_ip m) r hops, og_agent = user_agent_header r\<rparr>\<rparr>) ws)"

definition origin_ip :: "request \<Rightarrow> string" where
  "origin_ip r = (case cx_origin r of None \<Rightarrow> [] | Some a \<Rightarrow> og_ip a)"

subsection \<open>The headers of every response\<close>

definition nonceBytes :: nat where "nonceBytes = 16"

definition hsts :: string where "hsts = ''max-age=31536000; includeSubDomains''"

text \<open>\<^verbatim>\<open>base64.RawStdEncoding\<close>: the encoder of GoText writes no padding.\<close>

definition newNonce :: "'s machine \<Rightarrow> 's \<Rightarrow> string \<times> 's" where
  "newNonce m s = (case mc_rand m nonceBytes s of (b, s) \<Rightarrow> (EncodeToString b64_std b, s))"

fun join_text :: "string \<Rightarrow> string list \<Rightarrow> string" where
  "join_text sep [] = []"
| "join_text sep [t] = t"
| "join_text sep (t # u # ts) = t @ sep @ join_text sep (u # ts)"

definition quoted :: "string \<Rightarrow> string" where
  "quoted s = CHR 0x27 # s @ [CHR 0x27]"

definition content_policy :: "string \<Rightarrow> string" where
  "content_policy nonce =
     (let self = quoted ''self''; none = quoted ''none'' in
      join_text ''; ''
        [''default-src '' @ self, ''script-src '' @ self @ '' '' @ quoted (''nonce-'' @ nonce),
         ''style-src '' @ self @ '' '' @ quoted (''nonce-'' @ nonce), ''img-src '' @ self @ '' data: https:'',
         ''font-src '' @ self, ''connect-src '' @ self, ''form-action '' @ self, ''base-uri '' @ none,
         ''object-src '' @ none, ''frame-ancestors '' @ none])"

definition permissions_policy :: string where
  "permissions_policy = join_text '', ''
     [''accelerometer=()'', ''camera=()'', ''geolocation=()'', ''gyroscope=()'', ''magnetometer=()'',
      ''microphone=()'', ''payment=()'', ''usb=()'']"

definition noindex :: string where "noindex = ''noindex, nofollow''"

definition secure_headers :: "bool \<Rightarrow> request \<Rightarrow> string \<Rightarrow> writer \<Rightarrow> writer" where
  "secure_headers indexable r nonce w =
     (let w = set_header ''Content-Security-Policy'' (content_policy nonce) w;
          w = set_header ''X-Content-Type-Options'' ''nosniff'' w;
          w = set_header ''Referrer-Policy'' ''strict-origin-when-cross-origin'' w;
          w = set_header ''Permissions-Policy'' permissions_policy w;
          w = (if isHTTPS r then set_header ''Strict-Transport-Security'' hsts w else w) in
      if indexable then w else set_header ''X-Robots-Tag'' noindex w)"

definition Secure :: "'s machine \<Rightarrow> bool \<Rightarrow> 's handler \<Rightarrow> 's handler" where
  "Secure m indexable nxt = (\<lambda>r (w, s).
     (case newNonce m s of (nonce, s) \<Rightarrow>
        nxt (r\<lparr>cx_nonce := nonce\<rparr>) (secure_headers indexable r nonce w, s)))"

subsection \<open>Pages with no language yet\<close>

definition everyLanguage :: "'s machine \<Rightarrow> nat \<Rightarrow> string \<Rightarrow> writer \<Rightarrow> writer" where
  "everyLanguage m status key w =
     (let w = WriteHeader status (set_header ''Content-Type'' ''text/plain; charset=utf-8'' w) in
      foldl (\<lambda>w language. write_body (mc_say m language key @ [CHR 0x0A]) w) w (Languages (mc_catalogue m)))"

definition UnknownHost :: "'s machine \<Rightarrow> writer \<Rightarrow> writer" where
  "UnknownHost m w = everyLanguage m 404 ''error.unknown_host'' (set_header ''X-Robots-Tag'' noindex w)"

definition forbidden :: "'s machine \<Rightarrow> writer \<Rightarrow> writer" where
  "forbidden m w = everyLanguage m StatusForbidden ''error.forbidden'' w"

definition Refused :: "'s machine \<Rightarrow> int \<Rightarrow> writer \<Rightarrow> writer" where
  "Refused m retryAfter w =
     (let w = (case RetryAfterHeader retryAfter of None \<Rightarrow> w
        | Some n \<Rightarrow> set_header ''Retry-After'' (dec (nat n)) w) in
      everyLanguage m 429 ''error.too_many_requests'' w)"

definition LimitWith :: "'s machine \<Rightarrow> (string \<Rightarrow> 's \<Rightarrow> (limit_error + decision) \<times> 's) \<Rightarrow>
    (request \<Rightarrow> string) \<Rightarrow> 's handler \<Rightarrow> 's handler" where
  "LimitWith m Allow subject nxt = (\<lambda>r (w, s).
     (case Limit Allow (subject r) s of
        (Served, s) \<Rightarrow> nxt r (w, s)
      | (RefusedWith wait, s) \<Rightarrow> (Refused m wait w, s)))"

subsection \<open>CSRF\<close>

definition csrfCookie :: string where "csrfCookie = ''__Host-csrf''"
definition csrfCookieInsecure :: string where "csrfCookieInsecure = ''csrf''"
definition CSRFHeader :: string where "CSRFHeader = ''X-Csrf-Token''"
definition CSRFField :: string where "CSRFField = ''csrf_token''"
definition secretBytes :: nat where "secretBytes = 32"
definition tokenBytes :: nat where "tokenBytes = 16"

definition safeMethod :: "string \<Rightarrow> bool" where
  "safeMethod method \<longleftrightarrow> method \<in> {''GET'', ''HEAD'', ''OPTIONS'', ''TRACE''}"

definition csrfCookieName :: "request \<Rightarrow> string" where
  "csrfCookieName r = (if isHTTPS r then csrfCookie else csrfCookieInsecure)"

definition newCSRFSecret :: "'s machine \<Rightarrow> request \<Rightarrow> writer \<times> 's \<Rightarrow> bytes \<times> writer \<times> 's" where
  "newCSRFSecret m r = (\<lambda>(w, s).
     (case mc_rand m secretBytes s of (secret, s) \<Rightarrow>
        (secret, SetCookie \<lparr>ck_name = csrfCookieName r, ck_value = EncodeToString b64_url secret,
           ck_max_age = 0, ck_secure = isHTTPS r\<rparr> w, s)))"

definition held_secret :: "request \<Rightarrow> bytes option" where
  "held_secret r =
     (case cookie_of (csrfCookieName r) r of
        None \<Rightarrow> None
      | Some v \<Rightarrow>
          (case DecodeString b64_url v of
             None \<Rightarrow> None
           | Some secret \<Rightarrow> if length secret = secretBytes then Some secret else None))"

definition csrfSecret :: "'s machine \<Rightarrow> request \<Rightarrow> writer \<times> 's \<Rightarrow> bytes \<times> writer \<times> 's" where
  "csrfSecret m r ws = (case held_secret r of Some secret \<Rightarrow> (secret, ws) | None \<Rightarrow> newCSRFSecret m r ws)"

definition RenewCSRF :: "'s machine \<Rightarrow> request \<Rightarrow> writer \<times> 's \<Rightarrow> writer \<times> 's" where
  "RenewCSRF m r ws = snd (newCSRFSecret m r ws)"

definition token_of :: "(bytes \<Rightarrow> bytes \<Rightarrow> bytes) \<Rightarrow> bytes \<Rightarrow> bytes \<Rightarrow> string" where
  "token_of hmac secret seed =
     EncodeToString b64_url seed @ ''.'' @ EncodeToString b64_url (hmac secret seed)"

definition mintCSRF :: "'s machine \<Rightarrow> bytes \<Rightarrow> 's \<Rightarrow> string \<times> 's" where
  "mintCSRF m secret s = (case mc_rand m tokenBytes s of (seed, s) \<Rightarrow> (token_of (mc_hmac m) secret seed, s))"

definition csrf_token_sent :: "request \<Rightarrow> string" where
  "csrf_token_sent r =
     (let token = header_of CSRFHeader r; contentType = header_of ''Content-Type'' r in
      if token \<noteq> [] then token
      else if has_prefix ''application/x-www-form-urlencoded'' contentType \<or> has_prefix ''multipart/form-data'' contentType
      then (case ParseForm r of (form, ok) \<Rightarrow> if ok then first_value form CSRFField else [])
      else [])"

definition token_holds :: "(bytes \<Rightarrow> bytes \<Rightarrow> bytes) \<Rightarrow> bytes \<Rightarrow> string \<Rightarrow> bool" where
  "token_holds hmac secret token =
     (case cut_at (CHR ''.'') token of (first, mac, found) \<Rightarrow>
        if \<not> found then False
        else case (DecodeString b64_url first, DecodeString b64_url mac) of
               (Some decodedSeed, Some decodedSum) \<Rightarrow>
                 length decodedSeed = tokenBytes \<and> decodedSum = hmac secret decodedSeed
             | _ \<Rightarrow> False)"

definition validCSRF :: "'s machine \<Rightarrow> request \<Rightarrow> bytes \<Rightarrow> bool" where
  "validCSRF m r secret = token_holds (mc_hmac m) secret (csrf_token_sent r)"

definition CSRF :: "'s machine \<Rightarrow> 's handler \<Rightarrow> 's handler" where
  "CSRF m nxt = (\<lambda>r ws.
     (case csrfSecret m r ws of (secret, w, s) \<Rightarrow>
        if \<not> safeMethod (rq_method r) \<and> \<not> validCSRF m r secret then (forbidden m w, s)
        else (case mintCSRF m secret s of (token, s) \<Rightarrow> nxt (r\<lparr>cx_csrf := token\<rparr>) (w, s))))"

subsection \<open>The pipeline\<close>

definition HealthPath :: string where "HealthPath = ''/health''"
definition TasksPath :: string where "TasksPath = ''/internal/tasks''"
definition RobotsPath :: string where "RobotsPath = ''/robots.txt''"
definition PreviewPath :: string where "PreviewPath = ''/preview.png''"
definition ScriptPath :: string where "ScriptPath = ''/assets/webauthn.js''"
definition LanguagePath :: string where "LanguagePath = ''/language''"
definition LabOrigin :: string where "LabOrigin = ''https://lab.aleogr.dev''"

definition exempt_paths :: "('s handler \<Rightarrow> 's handler) \<Rightarrow> string list \<Rightarrow> 's handler \<Rightarrow> 's handler" where
  "exempt_paths middleware paths nxt = (\<lambda>r ws. if rq_path r \<in> set paths then nxt r ws else middleware nxt r ws)"

record 's pipeline =
  pl_indexable :: bool
  pl_hops :: int
  pl_general :: "(string \<Rightarrow> 's \<Rightarrow> (limit_error + decision) \<times> 's) option"
  pl_callbacks :: "string list"

definition general_subject :: "request \<Rightarrow> string" where
  "general_subject r = ''general:'' @ origin_ip r"

definition Wrap :: "'s machine \<Rightarrow> 's pipeline \<Rightarrow> 's handler \<Rightarrow> 's handler" where
  "Wrap m p handler =
     (let wrapped = exempt_paths (CSRF m) (TasksPath # pl_callbacks p) handler;
          wrapped = (case pl_general p of
            None \<Rightarrow> wrapped
          | Some Allow \<Rightarrow> exempt_paths (LimitWith m Allow general_subject) [HealthPath, TasksPath] wrapped) in
      Origins m (pl_hops p) (Secure m (pl_indexable p) wrapped))"

subsection \<open>What a machine reads\<close>

text \<open>The identifier of the build (src/internal/platform/version), and the health check.\<close>

definition version_format :: "string \<Rightarrow> string" where
  "version_format injected = (if trim_space injected = [] then ''unknown'' else trim_space injected)"

text \<open>\<open>None\<close> is a process with no database; otherwise whether the ping was answered.\<close>

definition health :: "string \<Rightarrow> bool option \<Rightarrow> writer \<Rightarrow> writer" where
  "health version database w =
     (let body = (case database of
        None \<Rightarrow> [(''database'', ''not configured''), (''status'', ''ok''), (''version'', version)]
      | Some False \<Rightarrow> [(''database'', ''unreachable''), (''status'', ''unavailable''), (''version'', version)]
      | Some True \<Rightarrow> [(''database'', ''ok''), (''status'', ''ok''), (''version'', version)]);
        w = set_header ''Content-Type'' ''application/json'' w;
        w = set_header ''Cache-Control'' ''no-store'' w;
        w = set_header ''Access-Control-Allow-Origin'' LabOrigin w;
        w = WriteHeader (if database = Some False then 503 else 200) w in
      write_body (json_map body @ [CHR 0x0A]) w)"

definition robots :: "bool \<Rightarrow> string \<Rightarrow> writer \<Rightarrow> writer" where
  "robots indexable sitemap w =
     (let newline = [CHR 0x0A];
          body = ''User-agent: *'' @ newline @ ''Allow: /'' @ newline @
            (if indexable \<and> sitemap \<noteq> [] then newline @ ''Sitemap: '' @ sitemap @ newline
             else if indexable then newline @ ''# No sitemap yet: the first indexable pages arrive in phase 2.'' @ newline
             else newline @ ''# No sitemap: this deployment is not indexable.'' @ newline @
               ''# Crawling stays allowed so that crawlers can read the'' @ newline @
               ''# X-Robots-Tag header, which is what refuses the listing.'' @ newline);
          w = set_header ''Content-Type'' ''text/plain; charset=utf-8'' w;
          w = set_header ''Cache-Control'' ''public, max-age=3600'' w in
      write_body body w)"

text \<open>The e-mail Google vouches for in a token whose claims are given.\<close>

definition GoogleCaller :: "(string \<Rightarrow> string \<Rightarrow> (string option \<times> bool option) option) \<Rightarrow> string \<Rightarrow> string \<Rightarrow>
    string + string" where
  "GoogleCaller validate token audience =
     (case validate token audience of
        None \<Rightarrow> Inl ''the token is not valid for this service''
      | Some (email, verified) \<Rightarrow>
          (case email of
             None \<Rightarrow> Inl ''the token names no account''
           | Some address \<Rightarrow>
               if address = [] then Inl ''the token names no account''
               else if verified \<noteq> Some True then Inl ''the token's account is not verified''
               else Inr address))"

end
