(* ===== verification/GuardProps.thy ===== *)
theory GuardProps
  imports Guards LanguageFacts
begin

text \<open>
  What the guards promise: a client does not choose the address it is limited by, a token is
  good in the browser it was minted for and in no other, and a forged request reaches no
  handler.
\<close>

subsection \<open>The client's address\<close>

text \<open>An address as the infrastructure writes it: digits, dots and colons.\<close>

definition address_char :: "char \<Rightarrow> bool" where
  "address_char c \<longleftrightarrow> (48 \<le> code c \<and> code c \<le> 58) \<or> (65 \<le> code c \<and> code c \<le> 70) \<or>
     (97 \<le> code c \<and> code c \<le> 102) \<or> code c = 46"

definition address_like :: "string \<Rightarrow> bool" where
  "address_like a \<longleftrightarrow> a \<noteq> [] \<and> list_all address_char a"

definition front_end_adds :: "string list \<Rightarrow> string" where
  "front_end_adds added = concat (map (\<lambda>a. '', '' @ a) added)"

lemma split_at_glue: "split_at c (s @ c # t) = split_at c s @ split_at c t"
  by (induction s) (auto split: list.splits)

lemma trim_address: "address_like a \<Longrightarrow> trim_space (CHR '' '' # a) = a"
proof -
  assume a: "address_like a"
  have chars: "list_all (\<lambda>c. code c < 128) (CHR '' '' # a)"
    using a by (auto simp: address_like_def address_char_def list_all_iff code_def)
  then have runes: "runes (CHR '' '' # a) = map (\<lambda>c. (Some (int (code c)), [c])) (CHR '' '' # a)"
    by (rule ascii_runes)
  have space: "space_rune (Some (int (code c)), [c]) \<longleftrightarrow> c = CHR '' ''" if "c \<in> insert (CHR '' '') (set a)" for c
    using a that by (auto simp: space_rune_def IsSpace_def address_like_def address_char_def list_all_iff code_def)
  have plain: "\<not> space_rune (Some (int (code c)), [c])" if "c \<in> set a" for c
  proof -
    have "address_char c" using a that by (simp add: address_like_def list_all_iff)
    then have "c \<noteq> CHR '' ''" by (auto simp: address_char_def code_def)
    then show ?thesis using space that by blast
  qed
  let ?a = "map (\<lambda>c. (Some (int (code c)), [c])) a"
  have none: "\<forall>x \<in> set ?a. \<not> space_rune x" using plain by auto
  have drop: "dropWhile space_rune xs = xs" if "\<forall>x \<in> set xs. \<not> space_rune x" for xs
    using that by (cases xs) auto
  have kept: "dropWhile space_rune ?a = ?a" using none by (rule drop)
  have "dropWhile space_rune (runes (CHR '' '' # a)) = ?a"
    using space [of "CHR '' ''"] unfolding runes by (simp add: kept)
  moreover have "dropWhile space_rune (rev ?a) = rev ?a" using none by (intro drop) (simp only: set_rev)
  ultimately have "trim_space (CHR '' '' # a) = concat (map snd ?a)"
    unfolding trim_space_def by simp
  then show ?thesis by (simp add: comp_def)
qed

lemma split_front_end:
  assumes "list_all address_like added"
  shows "split_at (CHR '','') (client @ front_end_adds added) =
    split_at (CHR '','') client @ map (\<lambda>a. CHR '' '' # a) added"
  using assms
proof (induction added arbitrary: client)
  case (Cons a added)
  have free: "CHR '','' \<notin> set (CHR '' '' # a)"
    using Cons.prems by (auto simp: address_like_def address_char_def list_all_iff code_def)
  have "client @ front_end_adds (a # added) = client @ CHR '','' # ((CHR '' '' # a) @ front_end_adds added)"
    by (simp add: front_end_adds_def)
  then have "split_at (CHR '','') (client @ front_end_adds (a # added)) =
      split_at (CHR '','') client @ split_at (CHR '','') ((CHR '' '' # a) @ front_end_adds added)"
    by (simp only: split_at_glue)
  also have "split_at (CHR '','') ((CHR '' '' # a) @ front_end_adds added) =
      [CHR '' '' # a] @ map (\<lambda>a. CHR '' '' # a) added"
    using Cons.IH [of "CHR '' '' # a"] Cons.prems split_at_no_sep [OF free] by (simp only: list.pred_inject)
  finally show ?case by simp
qed (simp add: front_end_adds_def)

lemma ClientIP_chain:
  assumes chain: "forwarded_chain (header_values ''X-Forwarded-For'' r) = mine @ added"
    and "hops = int (length added)" and "parse (hd added) = Some ip" and "ip \<noteq> []" and "added \<noteq> []"
  shows "ClientIP parse r hops = ip"
proof -
  have "nat (int (length (mine @ added)) - hops) = length mine" using assms(2) by simp
  moreover have "(mine @ added) ! length mine = hd added" using assms(5) by (simp add: nth_append hd_conv_nth)
  ultimately show ?thesis
    using assms(2-5) by (simp add: ClientIP_def Let_def parseIP_def chain)
qed

text \<open>
  C34. Safety: whatever a client writes into X-Forwarded-For, on lines of its own and before
  what the front end appends, the address the request is limited and audited by is the first
  of the entries the infrastructure added.
\<close>

theorem client_does_not_choose_its_address:
  assumes "header_values ''X-Forwarded-For'' r = forged @ [client @ front_end_adds added]"
    and "list_all address_like added" and "hops = int (length added)" and "parse (hd added) = Some ip"
    and "ip \<noteq> []" and "added \<noteq> []"
  shows "ClientIP parse r hops = ip"
proof -
  let ?mine = "filter (\<lambda>e. e \<noteq> []) (map trim_space (concat (map (split_at (CHR '','')) forged) @ split_at (CHR '','') client))"
  have "map trim_space (map (\<lambda>a. CHR '' '' # a) added) = added"
    using assms(2) by (simp add: list_all_iff trim_address map_idI)
  moreover have "filter (\<lambda>e. e \<noteq> []) added = added"
    using assms(2) by (simp add: list_all_iff address_like_def filter_id_conv)
  ultimately have "forwarded_chain (header_values ''X-Forwarded-For'' r) = ?mine @ added"
    unfolding forwarded_chain_def assms(1)
    by (simp add: split_front_end [OF assms(2)] del: map_map)
  then show ?thesis by (rule ClientIP_chain) (use assms in auto)
qed

definition forged_request :: request where
  "forged_request = \<lparr>rq_method = ''POST'', rq_host = ''shop.test'', rq_path = ''/signin'', rq_query = [],
     rq_headers = [(''X-Forwarded-For'', ''1.2.3.4''), (''X-Forwarded-For'', ''5.6.7.8, 203.0.113.7, 10.0.0.9'')],
     rq_cookies = [], rq_tls = True, rq_remote = ''10.0.0.1:80'', rq_form = [], rq_form_ok = True, rq_body = Some [], cx_origin = None,
     cx_client_ip = [], cx_language = [], cx_resolution = None, cx_session = None, cx_csrf = [], cx_nonce = [],
     cx_console = []\<rparr>"

lemma client_does_not_choose_its_address_witness: "ClientIP Some forged_request 2 = ''203.0.113.7''"
proof -
  have "header_values ''X-Forwarded-For'' forged_request =
      [''1.2.3.4''] @ [''5.6.7.8'' @ front_end_adds [''203.0.113.7'', ''10.0.0.9'']]" by code_simp
  then show ?thesis
    by (rule client_does_not_choose_its_address) (simp_all add: address_like_def address_char_def code_def)
qed

subsection \<open>CSRF\<close>

lemma dot_free: "CHR ''.'' \<notin> set (EncodeToString b64_url bs)"
proof -
  have "CHR ''.'' \<notin> set b64_url" by (simp add: b64_url_def)
  then show ?thesis using EncodeToString_set [OF alphabet_ok_url] by blast
qed

text \<open>
  Round trip: a token minted for one browser's secret is accepted with a secret exactly
  when both secrets give the same HMAC of its seed; so it is accepted in the browser it was
  minted for, and in no other unless HMAC-SHA256 collides.
\<close>

theorem csrf_token_is_bound_to_its_browser:
  assumes "length seed = tokenBytes"
  shows "token_holds hmac other (token_of hmac secret seed) \<longleftrightarrow> hmac other seed = hmac secret seed"
proof -
  have "cut_at (CHR ''.'') (token_of hmac secret seed) =
      (EncodeToString b64_url seed, EncodeToString b64_url (hmac secret seed), True)"
    using cut_at_append [OF dot_free] by (simp add: token_of_def)
  then show ?thesis using assms by (auto simp: token_holds_def)
qed

lemma csrf_token_is_bound_to_its_browser_witness:
  "token_holds (\<lambda>k m. k @ m) [1] (token_of (\<lambda>k m. k @ m) [1] (replicate 16 7)) \<and>
   \<not> token_holds (\<lambda>k m. k @ m) [2] (token_of (\<lambda>k m. k @ m) [1] (replicate 16 7))"
  using csrf_token_is_bound_to_its_browser [of "replicate 16 7" "\<lambda>k m. k @ m" "[1]" "[1]"]
    csrf_token_is_bound_to_its_browser [of "replicate 16 7" "\<lambda>k m. k @ m" "[2]" "[1]"]
  by (simp add: tokenBytes_def)

text \<open>What a middleware turned away is a status, whoever is behind it.\<close>

lemma write_body_status: "wr_status (write_body t w) = Some (case wr_status w of None \<Rightarrow> 200 | Some k \<Rightarrow> k)"
  by (simp add: write_body_def WriteHeader_def Let_def split: option.splits)

lemma everyLanguage_status: "wr_status w = None \<Longrightarrow> wr_status (everyLanguage m status key w) = Some status"
proof -
  have "wr_status v = Some status \<Longrightarrow> wr_status (foldl (\<lambda>w l. write_body (mc_say m l key @ [CHR 0x0A]) w) v ls) = Some status" for v ls
    by (induction ls arbitrary: v) (simp_all add: write_body_status)
  moreover assume "wr_status w = None"
  ultimately show ?thesis by (simp add: everyLanguage_def WriteHeader_def set_header_def Let_def)
qed

definition forges :: "'s machine \<Rightarrow> request \<Rightarrow> bool" where
  "forges m r \<longleftrightarrow> \<not> safeMethod (rq_method r) \<and>
     (case held_secret r of
        Some secret \<Rightarrow> \<not> token_holds (mc_hmac m) secret (csrf_token_sent r)
      | None \<Rightarrow> \<forall>s. \<not> token_holds (mc_hmac m) (fst (mc_rand m secretBytes s)) (csrf_token_sent r))"

lemma forged_CSRF:
  assumes "forges m r"
  shows "\<exists>w' s'. (\<forall>nxt. CSRF m nxt r (w, s) = (forbidden m w', s')) \<and> wr_status w' = wr_status w"
proof -
  obtain secret w' s' where secret: "csrfSecret m r (w, s) = (secret, w', s')" by (metis prod_cases3)
  have "\<not> validCSRF m r secret \<and> wr_status w' = wr_status w"
    using assms secret unfolding forges_def csrfSecret_def validCSRF_def newCSRFSecret_def
    by (auto split: option.splits prod.splits) (metis fst_conv)
  then show ?thesis using assms secret by (auto simp: CSRF_def forges_def)
qed

text \<open>
  What reaches the inside of the pipeline: the request with its origin and nonce, and the
  response with its headers; or the general limit refuses it.
\<close>

definition placed :: "'s machine \<Rightarrow> 's pipeline \<Rightarrow> string \<Rightarrow> request \<Rightarrow> request" where
  "placed m p nonce r = r\<lparr>cx_origin := Some \<lparr>og_ip = ClientIP (mc_parse_ip m) r (pl_hops p),
     og_agent = user_agent_header r\<rparr>, cx_nonce := nonce\<rparr>"

lemma placed_received:
  "held_secret (placed m p nonce r) = held_secret r" "csrf_token_sent (placed m p nonce r) = csrf_token_sent r"
  "rq_path (placed m p nonce r) = rq_path r" "rq_method (placed m p nonce r) = rq_method r"
  "isHTTPS (placed m p nonce r) = isHTTPS r"
  by (simp_all add: placed_def held_secret_def csrf_token_sent_def csrfCookieName_def Let_def)

lemma secure_headers_status [simp]: "wr_status (secure_headers indexable r nonce w) = wr_status w"
  by (simp add: secure_headers_def Let_def)

lemma Wrap_run:
  assumes "newNonce m s = (nonce, s1)"
  shows "Wrap m p nxt r (w, s) = (let wrapped = exempt_paths (CSRF m) (TasksPath # pl_callbacks p) nxt in
      (case pl_general p of None \<Rightarrow> wrapped
       | Some Allow \<Rightarrow> exempt_paths (LimitWith m Allow general_subject) [HealthPath, TasksPath] wrapped)
        (placed m p nonce r) (secure_headers (pl_indexable p) r nonce w, s1))"
proof -
  have "secure_headers (pl_indexable p) (r\<lparr>cx_origin := a\<rparr>) nonce w = secure_headers (pl_indexable p) r nonce w" for a
    by (simp add: secure_headers_def)
  then show ?thesis unfolding Wrap_def Origins_def Secure_def Let_def placed_def by (simp add: assms)
qed

lemma Wrap_cases:
  assumes "newNonce m s = (nonce, s1)"
  obtains (passed) t where "\<And>nxt. Wrap m p nxt r (w, s) = exempt_paths (CSRF m) (TasksPath # pl_callbacks p) nxt
      (placed m p nonce r) (secure_headers (pl_indexable p) r nonce w, t)"
  | (limited) wait t where "\<And>nxt. Wrap m p nxt r (w, s) = (Refused m wait (secure_headers (pl_indexable p) r nonce w), t)"
proof (cases "pl_general p")
  case None
  then show thesis using passed Wrap_run [OF assms] by (simp add: Let_def)
next
  case (Some Allow)
  obtain l s2 where l: "Limit Allow (general_subject (placed m p nonce r)) s1 = (l, s2)" by (metis prod.collapse)
  show thesis
  proof (cases "rq_path r \<in> set [HealthPath, TasksPath]")
    case True
    then show thesis using passed Wrap_run [OF assms] Some
      by (simp add: Let_def exempt_paths_def placed_received)
  next
    case False
    then have past: "Wrap m p nxt r (w, s) = (case l of
          Served \<Rightarrow> exempt_paths (CSRF m) (TasksPath # pl_callbacks p) nxt (placed m p nonce r)
            (secure_headers (pl_indexable p) r nonce w, s2)
        | RefusedWith wait \<Rightarrow> (Refused m wait (secure_headers (pl_indexable p) r nonce w), s2))" for nxt
      unfolding Wrap_run [OF assms] Some Let_def option.case
      by (simp add: exempt_paths_def [of "LimitWith m Allow general_subject"] placed_received LimitWith_def l split: limited.split)
    show thesis
    proof (cases l)
      case Served
      show thesis by (rule passed) (simp only: past Served limited.case)
    next
      case (RefusedWith wait)
      show thesis by (rule limited) (simp only: past RefusedWith limited.case)
    qed
  qed
qed

text \<open>
  C35. Safety: a state-changing request that proves nothing reaches no handler. Whatever is
  mounted behind the pipeline, the answer and the state it leaves are the same, and the
  answer is 403, or 429 where the general limit turned it away first; only the addresses a
  machine calls are outside this.
\<close>

theorem forged_request_reaches_no_handler:
  assumes "forges m r" and "rq_path r \<notin> set (TasksPath # pl_callbacks p)" and "wr_status w = None"
  shows "Wrap m p site r (w, s) = Wrap m p other r (w, s) \<and>
    (wr_status (fst (Wrap m p site r (w, s))) = Some StatusForbidden \<or>
     wr_status (fst (Wrap m p site r (w, s))) = Some 429)"
proof -
  obtain nonce s1 where nonce: "newNonce m s = (nonce, s1)" by (metis prod.collapse)
  let ?q = "placed m p nonce r" and ?w = "secure_headers (pl_indexable p) r nonce w"
  have forged: "forges m ?q" using assms(1) unfolding forges_def placed_received by simp
  have stopped: "exempt_paths (CSRF m) (TasksPath # pl_callbacks p) nxt ?q (?w, t) = CSRF m nxt ?q (?w, t)" for nxt t
    using assms(2) by (simp add: exempt_paths_def placed_received)
  from nonce show ?thesis
  proof (cases rule: Wrap_cases [where p = p and r = r and w = w, consumes 1, case_names passed limited])
    case (passed t)
    obtain w' s' where run: "\<And>nxt. CSRF m nxt ?q (?w, t) = (forbidden m w', s')" and w': "wr_status w' = None"
      using forged_CSRF [OF forged, of ?w t] assms(3) by auto
    then have "Wrap m p nxt r (w, s) = (forbidden m w', s')" for nxt by (simp only: passed stopped)
    then show ?thesis using w' by (simp add: forbidden_def everyLanguage_status)
  next
    case (limited wait t)
    have "wr_status (Refused m wait ?w) = Some 429"
      unfolding Refused_def Let_def
      by (rule everyLanguage_status) (simp add: assms(3) split: option.splits)
    then show ?thesis by (simp add: limited)
  qed
qed

definition sample_machine :: "nat machine" where
  "sample_machine = \<lparr>mc_rand = (\<lambda>n s. (replicate n (word_of_nat s), Suc s)), mc_hmac = (\<lambda>k m. k @ m),
     mc_parse_ip = Some, mc_catalogue = \<lparr>ca_printers = [''en-US''], ca_tags = [''en-US''], ca_keys = []\<rparr>,
     mc_say = (\<lambda>tag key. key)\<rparr>"

definition sample_pipeline :: "nat pipeline" where
  "sample_pipeline = \<lparr>pl_indexable = False, pl_hops = 2, pl_general = Some AllowNever, pl_callbacks = [''/mail/brevo'']\<rparr>"

lemma forged_request_reaches_no_handler_witness:
  "wr_status (fst (Wrap sample_machine sample_pipeline (\<lambda>r (w, s). (WriteHeader 200 w, 0)) forged_request (fresh_writer, 5)))
     \<in> {Some StatusForbidden, Some 429}"
proof -
  have "csrf_token_sent forged_request = []" "held_secret forged_request = None" "\<not> safeMethod (rq_method forged_request)"
    by code_simp+
  moreover have "\<not> token_holds h k []" for h k by (simp add: token_holds_def cut_at_def)
  ultimately have "forges sample_machine forged_request" by (simp add: forges_def)
  then have "wr_status (fst (Wrap sample_machine sample_pipeline (\<lambda>r (w, s). (WriteHeader 200 w, 0)) forged_request (fresh_writer, 5))) = Some StatusForbidden \<or>
    wr_status (fst (Wrap sample_machine sample_pipeline (\<lambda>r (w, s). (WriteHeader 200 w, 0)) forged_request (fresh_writer, 5))) = Some 429"
    by (intro forged_request_reaches_no_handler [THEN conjunct2])
      (simp_all add: forged_request_def sample_pipeline_def TasksPath_def fresh_writer_def)
  then show ?thesis by simp
qed

text \<open>A form sent in parts is not read for its token, so it is refused whatever it carries.\<close>

lemma multipart_token_is_not_read:
  assumes "media_type r = ''multipart/form-data''" and "header_of CSRFHeader r = []"
  shows "\<not> validCSRF m r secret"
proof -
  have "csrf_token_sent r = []"
    using assms by (simp add: csrf_token_sent_def ParseForm_def first_value_def Let_def)
  then show ?thesis by (simp add: validCSRF_def token_holds_def cut_at_def)
qed

end
