(* ===== verification/Configuration.thy ===== *)
theory Configuration
  imports Tenancy Codes
begin

text \<open>
  What a deployment declares: src/internal/platform/config/config.go. The process reads its
  environment once; every variable that cannot be read and every contradiction between what
  was read is a problem, and with a problem there is no configuration.
\<close>

subsection \<open>Numbers, booleans and levels\<close>

text \<open>\<^verbatim>\<open>strconv.Atoi\<close> on 64 bits.\<close>

definition signed_digits :: "string \<Rightarrow> bool \<times> string" where
  "signed_digits s =
     (case s of [] \<Rightarrow> (False, [])
      | c # cs \<Rightarrow> if c = CHR ''-'' then (True, cs) else if c = CHR ''+'' then (False, cs) else (False, s))"

definition Atoi :: "string \<Rightarrow> int option" where
  "Atoi s =
     (case signed_digits s of (neg, ds) \<Rightarrow>
        let n = (if neg then - int (number_of_digits ds) else int (number_of_digits ds)) in
        if ds = [] \<or> \<not> only_of digits10 ds \<or> n < - (2 ^ 63) \<or> 2 ^ 63 \<le> n then None else Some n)"

definition ParseBool :: "string \<Rightarrow> bool option" where
  "ParseBool s =
     (if s \<in> {''1'', ''t'', ''T'', ''true'', ''TRUE'', ''True''} then Some True
      else if s \<in> {''0'', ''f'', ''F'', ''false'', ''FALSE'', ''False''} then Some False
      else None)"

text \<open>
  \<^verbatim>\<open>strings.ToUpper\<close>, as far as a name of ASCII letters can tell: besides the ASCII letters
  only the dotless i and the long s have an upper case in ASCII.
\<close>

fun upper_ascii :: "string \<Rightarrow> string" where
  "upper_ascii (a # b # cs) =
     (if code a = 0xC4 \<and> code b = 0xB1 then CHR ''I'' # upper_ascii cs
      else if code a = 0xC5 \<and> code b = 0xBF then CHR ''S'' # upper_ascii cs
      else (if 97 \<le> code a \<and> code a \<le> 122 then char_of (code a - 32) else a) # upper_ascii (b # cs))"
| "upper_ascii [a] = [if 97 \<le> code a \<and> code a \<le> 122 then char_of (code a - 32) else a]"
| "upper_ascii [] = []"

definition level_names :: "(string \<times> int) list" where
  "level_names = [(''DEBUG'', -4), (''INFO'', 0), (''WARN'', 4), (''ERROR'', 8)]"

text \<open>\<^verbatim>\<open>slog.Level.UnmarshalText\<close>: a name and an offset, added as 64-bit integers are.\<close>

definition read_level :: "string \<Rightarrow> int option" where
  "read_level s =
     (let name = takeWhile (\<lambda>c. c \<notin> set ''+-'') s; rest = drop (length name) s in
      case (if rest = [] then Some 0 else Atoi rest) of
        None \<Rightarrow> None
      | Some offset \<Rightarrow>
          (case map_of level_names (upper_ascii name) of
             None \<Rightarrow> None
           | Some l \<Rightarrow> Some (sint (word_of_int (l + offset) :: 64 word))))"

subsection \<open>The configuration\<close>

record database_config =
  cd_url :: string
  cd_instance :: string
  cd_name :: string
  cd_user :: string
  cd_password :: string
  cd_app_user :: string

record tasks_config =
  ct_project :: string
  ct_location :: string
  ct_url :: string
  ct_invoker :: string
  ct_audience :: string

record mail_config =
  cm_from :: string
  cm_key :: string
  cm_directory :: string
  cm_webhook :: string

record audit_config =
  ca_key :: string
  ca_local :: string

record config =
  cf_port :: int
  cf_indexable :: bool
  cf_level :: int
  cf_mode :: string
  cf_database :: database_config
  cf_platform :: string
  cf_console :: string
  cf_token :: string
  cf_hops :: int
  cf_tasks :: tasks_config
  cf_mail :: mail_config
  cf_audit :: audit_config
  cf_seed :: string

definition ProvidersFake :: string where "ProvidersFake = ''fake''"
definition ProvidersReal :: string where "ProvidersReal = ''real''"

definition DatabaseConfigured :: "database_config \<Rightarrow> bool" where
  "DatabaseConfigured d \<longleftrightarrow> cd_url d \<noteq> [] \<or> cd_instance d \<noteq> []"

definition TasksConfigured :: "tasks_config \<Rightarrow> bool" where
  "TasksConfigured t \<longleftrightarrow> ct_project t \<noteq> [] \<and> ct_location t \<noteq> [] \<and> ct_url t \<noteq> [] \<and> ct_invoker t \<noteq> []"

definition MinBootstrapToken :: nat where "MinBootstrapToken = 32"

text \<open>What \<open>Load\<close> starts from.\<close>

definition defaults :: config where
  "defaults = \<lparr>cf_port = 8080, cf_indexable = False, cf_level = 0, cf_mode = ProvidersFake,
     cf_database = \<lparr>cd_url = [], cd_instance = [], cd_name = [], cd_user = [], cd_password = [], cd_app_user = []\<rparr>,
     cf_platform = [], cf_console = [], cf_token = [], cf_hops = 2,
     cf_tasks = \<lparr>ct_project = [], ct_location = [], ct_url = [], ct_invoker = [], ct_audience = []\<rparr>,
     cf_mail = \<lparr>cm_from = [], cm_key = [], cm_directory = [], cm_webhook = []\<rparr>,
     cf_audit = \<lparr>ca_key = [], ca_local = []\<rparr>, cf_seed = []\<rparr>"

subsection \<open>Problems\<close>

datatype reason =
    NotANumber string | OutsideRange string | NotABoolean string | NotALevel string
  | NotAMode string | NotACount string | TooShort nat

datatype problem =
    SetButEmpty string
  | Invalid string reason
  | BothDatabases
  | NoDatabaseName
  | NoDatabaseUser
  | NoDatabaseFor string
  | TokenWithoutConsole
  | ConsoleIsPlatform string
  | RealWithoutAuditKey
  | BothAuditKeys
  | RealWithoutMailKey
  | RealWithoutMailFrom

definition parse_port :: "string \<Rightarrow> reason + int" where
  "parse_port v =
     (case Atoi v of
        None \<Rightarrow> Inl (NotANumber v)
      | Some port \<Rightarrow> if port < 1 \<or> port > 65535 then Inl (OutsideRange v) else Inr port)"

definition parse_indexable :: "string \<Rightarrow> reason + bool" where
  "parse_indexable v = (case ParseBool v of None \<Rightarrow> Inl (NotABoolean v) | Some b \<Rightarrow> Inr b)"

definition parse_level :: "string \<Rightarrow> reason + int" where
  "parse_level v = (case read_level v of None \<Rightarrow> Inl (NotALevel v) | Some l \<Rightarrow> Inr l)"

definition parse_mode :: "string \<Rightarrow> reason + string" where
  "parse_mode v = (if v = ProvidersFake \<or> v = ProvidersReal then Inr v else Inl (NotAMode v))"

definition parse_hops :: "string \<Rightarrow> reason + int" where
  "parse_hops v = (case Atoi v of None \<Rightarrow> Inl (NotACount v) | Some n \<Rightarrow> if n < 0 then Inl (NotACount v) else Inr n)"

definition parse_token :: "string \<Rightarrow> reason + string" where
  "parse_token v = (if length v < MinBootstrapToken then Inl (TooShort (length v)) else Inr v)"

definition parse_text :: "string \<Rightarrow> reason + string" where "parse_text v = Inr v"

subsection \<open>Loading\<close>

text \<open>A variable is read into the configuration by a function that may refuse it.\<close>

definition taking :: "(string \<Rightarrow> reason + 'v) \<Rightarrow> ('v \<Rightarrow> config \<Rightarrow> config) \<Rightarrow> string \<Rightarrow> config \<Rightarrow> reason + config" where
  "taking parse assign v c = (case parse v of Inl e \<Rightarrow> Inl e | Inr x \<Rightarrow> Inr (assign x c))"

definition settings :: "(string \<times> (string \<Rightarrow> config \<Rightarrow> reason + config)) list" where
  "settings =
     [(''PORT'', taking parse_port (\<lambda>p c. c\<lparr>cf_port := p\<rparr>)),
      (''INDEXABLE'', taking parse_indexable (\<lambda>b c. c\<lparr>cf_indexable := b\<rparr>)),
      (''LOG_LEVEL'', taking parse_level (\<lambda>l c. c\<lparr>cf_level := l\<rparr>)),
      (''PROVIDERS_MODE'', taking parse_mode (\<lambda>m c. c\<lparr>cf_mode := m\<rparr>)),
      (''DATABASE_URL'', taking parse_text (\<lambda>v c. c\<lparr>cf_database := (cf_database c)\<lparr>cd_url := v\<rparr>\<rparr>)),
      (''DATABASE_INSTANCE'', taking parse_text (\<lambda>v c. c\<lparr>cf_database := (cf_database c)\<lparr>cd_instance := v\<rparr>\<rparr>)),
      (''DATABASE_NAME'', taking parse_text (\<lambda>v c. c\<lparr>cf_database := (cf_database c)\<lparr>cd_name := v\<rparr>\<rparr>)),
      (''DATABASE_USER'', taking parse_text (\<lambda>v c. c\<lparr>cf_database := (cf_database c)\<lparr>cd_user := v\<rparr>\<rparr>)),
      (''DATABASE_PASSWORD'', taking parse_text (\<lambda>v c. c\<lparr>cf_database := (cf_database c)\<lparr>cd_password := v\<rparr>\<rparr>)),
      (''DATABASE_APP_USER'', taking parse_text (\<lambda>v c. c\<lparr>cf_database := (cf_database c)\<lparr>cd_app_user := v\<rparr>\<rparr>)),
      (''TRUSTED_PROXY_HOPS'', taking parse_hops (\<lambda>n c. c\<lparr>cf_hops := n\<rparr>)),
      (''TASKS_PROJECT'', taking parse_text (\<lambda>v c. c\<lparr>cf_tasks := (cf_tasks c)\<lparr>ct_project := v\<rparr>\<rparr>)),
      (''TASKS_LOCATION'', taking parse_text (\<lambda>v c. c\<lparr>cf_tasks := (cf_tasks c)\<lparr>ct_location := v\<rparr>\<rparr>)),
      (''TASKS_INVOKER'', taking parse_text (\<lambda>v c. c\<lparr>cf_tasks := (cf_tasks c)\<lparr>ct_invoker := v\<rparr>\<rparr>)),
      (''TASKS_AUDIENCE'', taking parse_text (\<lambda>v c. c\<lparr>cf_tasks := (cf_tasks c)\<lparr>ct_audience := v\<rparr>\<rparr>)),
      (''SERVICE_URL'', taking parse_text (\<lambda>v c. c\<lparr>cf_tasks := (cf_tasks c)\<lparr>ct_url := v\<rparr>\<rparr>)),
      (''PLATFORM_HOST'', taking parse_text (\<lambda>v c. c\<lparr>cf_platform := v\<rparr>)),
      (''CONSOLE_HOST'', taking parse_text (\<lambda>v c. c\<lparr>cf_console := v\<rparr>)),
      (''BOOTSTRAP_TOKEN'', taking parse_token (\<lambda>v c. c\<lparr>cf_token := v\<rparr>)),
      (''MAIL_FROM'', taking parse_text (\<lambda>v c. c\<lparr>cf_mail := (cf_mail c)\<lparr>cm_from := v\<rparr>\<rparr>)),
      (''MAIL_API_KEY'', taking parse_text (\<lambda>v c. c\<lparr>cf_mail := (cf_mail c)\<lparr>cm_key := v\<rparr>\<rparr>)),
      (''MAIL_DIRECTORY'', taking parse_text (\<lambda>v c. c\<lparr>cf_mail := (cf_mail c)\<lparr>cm_directory := v\<rparr>\<rparr>)),
      (''MAIL_WEBHOOK_TOKEN'', taking parse_text (\<lambda>v c. c\<lparr>cf_mail := (cf_mail c)\<lparr>cm_webhook := v\<rparr>\<rparr>)),
      (''AUDIT_KEY'', taking parse_text (\<lambda>v c. c\<lparr>cf_audit := (cf_audit c)\<lparr>ca_key := v\<rparr>\<rparr>)),
      (''AUDIT_LOCAL_KEY'', taking parse_text (\<lambda>v c. c\<lparr>cf_audit := (cf_audit c)\<lparr>ca_local := v\<rparr>\<rparr>)),
      (''SEED_MARKETPLACES'', taking parse_text (\<lambda>v c. c\<lparr>cf_seed := v\<rparr>))]"

text \<open>\<^verbatim>\<open>read\<close>: unset keeps the default, set and empty is a problem of its own.\<close>

definition read_setting :: "(string \<Rightarrow> string option) \<Rightarrow> string \<times> (string \<Rightarrow> config \<Rightarrow> reason + config) \<Rightarrow>
    problem list \<times> config \<Rightarrow> problem list \<times> config" where
  "read_setting lookup = (\<lambda>(key, parse) (problems, cfg).
     (case lookup key of
        None \<Rightarrow> (problems, cfg)
      | Some v \<Rightarrow>
          if v = [] then (problems @ [SetButEmpty key], cfg)
          else case parse v cfg of Inl e \<Rightarrow> (problems @ [Invalid key e], cfg) | Inr cfg \<Rightarrow> (problems, cfg)))"

text \<open>The order of the last four is the order of a Go map: any.\<close>

definition database_problems :: "database_config \<Rightarrow> problem list" where
  "database_problems d =
     (if cd_url d \<noteq> [] \<and> cd_instance d \<noteq> [] then [BothDatabases] else []) @
     (if cd_instance d \<noteq> []
      then (if cd_name d = [] then [NoDatabaseName] else []) @ (if cd_user d = [] then [NoDatabaseUser] else [])
      else []) @
     (if \<not> DatabaseConfigured d
      then map (\<lambda>(key, _). NoDatabaseFor key) (filter (\<lambda>(_, v). v \<noteq> [])
        [(''DATABASE_NAME'', cd_name d), (''DATABASE_USER'', cd_user d), (''DATABASE_PASSWORD'', cd_password d),
         (''DATABASE_APP_USER'', cd_app_user d)])
      else [])"

text \<open>Hosts are compared with the case, the spaces and a final dot aside.\<close>

definition host_name :: "string \<Rightarrow> string" where
  "host_name host = trim_suffix_char (CHR ''.'') (to_lower (trim_space host))"

definition consoleProblems :: "config \<Rightarrow> problem list" where
  "consoleProblems c =
     (if cf_console c = [] then (if cf_token c \<noteq> [] then [TokenWithoutConsole] else [])
      else if host_name (cf_console c) = host_name (cf_platform c) then [ConsoleIsPlatform (cf_console c)]
      else [])"

definition mail_problems :: "mail_config \<Rightarrow> string \<Rightarrow> problem list" where
  "mail_problems m mode =
     (if mode \<noteq> ProvidersReal then []
      else (if cm_key m = [] then [RealWithoutMailKey] else []) @ (if cm_from m = [] then [RealWithoutMailFrom] else []))"

definition audit_problems :: "audit_config \<Rightarrow> string \<Rightarrow> problem list" where
  "audit_problems a mode =
     (if mode \<noteq> ProvidersReal then []
      else if ca_key a = [] then [RealWithoutAuditKey]
      else if ca_local a \<noteq> [] then [BothAuditKeys]
      else [])"

definition contradictions :: "config \<Rightarrow> problem list" where
  "contradictions c = database_problems (cf_database c) @ consoleProblems c @ mail_problems (cf_mail c) (cf_mode c) @
     audit_problems (cf_audit c) (cf_mode c)"

definition Load :: "(string \<Rightarrow> string option) \<Rightarrow> problem list + config" where
  "Load lookup =
     (case fold (read_setting lookup) settings ([], defaults) of
        (problems, cfg) \<Rightarrow>
          let problems = problems @ contradictions cfg in
          if problems \<noteq> [] then Inl problems else Inr cfg)"

subsection \<open>What is read is what is declared\<close>

text \<open>Of one variable: its problem, and its value with a default.\<close>

definition problem_with :: "(string \<Rightarrow> string option) \<Rightarrow> string \<times> (string \<Rightarrow> config \<Rightarrow> reason + config) \<Rightarrow> problem list" where
  "problem_with lookup = (\<lambda>(key, parse).
     (case lookup key of
        None \<Rightarrow> []
      | Some v \<Rightarrow> if v = [] then [SetButEmpty key]
          else case parse v defaults of Inl e \<Rightarrow> [Invalid key e] | Inr _ \<Rightarrow> []))"

definition setting_of :: "(string \<Rightarrow> string option) \<Rightarrow> string \<Rightarrow> (string \<Rightarrow> reason + 'v) \<Rightarrow> 'v \<Rightarrow> 'v" where
  "setting_of lookup key parse otherwise =
     (case lookup key of
        None \<Rightarrow> otherwise
      | Some v \<Rightarrow> if v = [] then otherwise else case parse v of Inl _ \<Rightarrow> otherwise | Inr x \<Rightarrow> x)"

abbreviation declared_text :: "(string \<Rightarrow> string option) \<Rightarrow> string \<Rightarrow> string" where
  "declared_text lookup key \<equiv> setting_of lookup key parse_text []"

definition declared :: "(string \<Rightarrow> string option) \<Rightarrow> config" where
  "declared env = \<lparr>
     cf_port = setting_of env ''PORT'' parse_port 8080,
     cf_indexable = setting_of env ''INDEXABLE'' parse_indexable False,
     cf_level = setting_of env ''LOG_LEVEL'' parse_level 0,
     cf_mode = setting_of env ''PROVIDERS_MODE'' parse_mode ProvidersFake,
     cf_database = \<lparr>cd_url = declared_text env ''DATABASE_URL'', cd_instance = declared_text env ''DATABASE_INSTANCE'',
       cd_name = declared_text env ''DATABASE_NAME'', cd_user = declared_text env ''DATABASE_USER'',
       cd_password = declared_text env ''DATABASE_PASSWORD'', cd_app_user = declared_text env ''DATABASE_APP_USER''\<rparr>,
     cf_platform = declared_text env ''PLATFORM_HOST'', cf_console = declared_text env ''CONSOLE_HOST'',
     cf_token = setting_of env ''BOOTSTRAP_TOKEN'' parse_token [],
     cf_hops = setting_of env ''TRUSTED_PROXY_HOPS'' parse_hops 2,
     cf_tasks = \<lparr>ct_project = declared_text env ''TASKS_PROJECT'', ct_location = declared_text env ''TASKS_LOCATION'',
       ct_url = declared_text env ''SERVICE_URL'', ct_invoker = declared_text env ''TASKS_INVOKER'',
       ct_audience = declared_text env ''TASKS_AUDIENCE''\<rparr>,
     cf_mail = \<lparr>cm_from = declared_text env ''MAIL_FROM'', cm_key = declared_text env ''MAIL_API_KEY'',
       cm_directory = declared_text env ''MAIL_DIRECTORY'', cm_webhook = declared_text env ''MAIL_WEBHOOK_TOKEN''\<rparr>,
     cf_audit = \<lparr>ca_key = declared_text env ''AUDIT_KEY'', ca_local = declared_text env ''AUDIT_LOCAL_KEY''\<rparr>,
     cf_seed = declared_text env ''SEED_MARKETPLACES''\<rparr>"

definition apply_reading :: "(string \<Rightarrow> string option) \<Rightarrow> string \<Rightarrow> (string \<Rightarrow> reason + 'v) \<Rightarrow> ('v \<Rightarrow> config \<Rightarrow> config) \<Rightarrow> config \<Rightarrow> config" where
  "apply_reading lookup key parse assign c =
     (case lookup key of
        None \<Rightarrow> c
      | Some v \<Rightarrow> if v = [] then c else case parse v of Inl _ \<Rightarrow> c | Inr x \<Rightarrow> assign x c)"

lemma read_setting_taking:
  "read_setting lookup (key, taking parse assign) (problems, c) =
     (problems @ problem_with lookup (key, taking parse assign), apply_reading lookup key parse assign c)"
  by (simp add: read_setting_def problem_with_def apply_reading_def taking_def split: option.splits sum.splits)

lemma apply_elsewhere: "(\<And>x c. f (assign x c) = f c) \<Longrightarrow> f (apply_reading env key parse assign c) = f c"
  by (simp add: apply_reading_def split: option.splits sum.splits)

lemma apply_here: "(\<And>x c. f (assign x c) = x) \<Longrightarrow> f (apply_reading env key parse assign c) = setting_of env key parse (f c)"
  by (simp add: apply_reading_def setting_of_def split: option.splits sum.splits)

end
