(* ===== verification/Seo.thy ===== *)
theory Seo
  imports TextFacts
begin

text \<open>
  What a page tells a search engine about itself: src/internal/platform/seo/description.go. A
  text is a list of runes, each with the bytes Go writes it back as.
\<close>

definition Limit_runes :: nat where "Limit_runes = 160"

definition replacement :: string where "replacement = [CHR 0xEF, CHR 0xBF, CHR 0xBD]"
definition ellipsis_rune :: string where "ellipsis_rune = [CHR 0xE2, CHR 0x80, CHR 0xA6]"

text \<open>\<^verbatim>\<open>[]rune(text)\<close>: a byte that is not UTF-8 is the replacement character.\<close>

definition runes_written :: "string \<Rightarrow> (int \<times> string) list" where
  "runes_written s = map (\<lambda>(r, b). case r of None \<Rightarrow> (0xFFFD, replacement) | Some r \<Rightarrow> (r, b)) (runes s)"

definition string_of :: "(int \<times> string) list \<Rightarrow> string" where
  "string_of rs = concat (map snd rs)"

text \<open>\<^verbatim>\<open>strings.Fields\<close>.\<close>

fun fields_from :: "string \<Rightarrow> (int option \<times> string) list \<Rightarrow> string list" where
  "fields_from word [] = (if word = [] then [] else [word])"
| "fields_from word (x # xs) =
     (if space_rune x then (if word = [] then [] else [word]) @ fields_from [] xs
      else fields_from (word @ snd x) xs)"

definition Fields :: "string \<Rightarrow> string list" where "Fields s = fields_from [] (runes s)"

fun join_spaces :: "string list \<Rightarrow> string" where
  "join_spaces [] = []"
| "join_spaces [w] = w"
| "join_spaces (w # v # ws) = w @ '' '' @ join_spaces (v # ws)"

definition isSentenceEnd :: "int \<Rightarrow> bool" where
  "isSentenceEnd r \<longleftrightarrow> r = 46 \<or> r = 33 \<or> r = 63"

text \<open>The loops of \<^verbatim>\<open>lastSentence\<close> and \<^verbatim>\<open>lastSpace\<close>, down from index \<open>i\<close>; index 0 is not looked at.\<close>

fun sentence_from :: "int list \<Rightarrow> nat \<Rightarrow> nat" where
  "sentence_from w 0 = 0"
| "sentence_from w (Suc i) =
     (if isSentenceEnd (w ! Suc i) \<and> (Suc i = length w - 1 \<or> IsSpace (w ! Suc (Suc i)))
      then Suc (Suc i) else sentence_from w i)"

definition lastSentence :: "int list \<Rightarrow> nat" where "lastSentence w = sentence_from w (length w - 1)"

fun space_from :: "int list \<Rightarrow> nat \<Rightarrow> nat" where
  "space_from w 0 = 0"
| "space_from w (Suc i) = (if IsSpace (w ! Suc i) then Suc i else space_from w i)"

definition lastSpace :: "int list \<Rightarrow> nat" where "lastSpace w = space_from w (length w - 1)"

text \<open>\<^verbatim>\<open>strings.TrimRight(s, ",;:")\<close>.\<close>

definition trim_punctuation :: "string \<Rightarrow> string" where
  "trim_punctuation s = rev (dropWhile (\<lambda>c. c \<in> set '',;:'') (rev s))"

definition Description :: "string \<Rightarrow> string" where
  "Description text0 =
     (let t = join_spaces (Fields text0); rs = runes_written t in
      if length rs \<le> Limit_runes then t
      else
        (let window = take Limit_runes rs;
             fin = lastSentence (map fst window);
             space = lastSpace (map fst window) in
         if fin > 0 then trim_space (string_of (take fin rs))
         else if space > 0 then trim_punctuation (trim_space (string_of (take space rs))) @ ellipsis_rune
         else string_of window @ ellipsis_rune))"

subsection \<open>What is written fits\<close>

text \<open>A rune and its bytes, whatever follows them.\<close>

definition whole_rune :: "int \<times> string \<Rightarrow> bool" where
  "whole_rune x \<longleftrightarrow> rune_at (codes_of (snd x)) = Some (fst x, length (snd x))"

lemma runes_whole: "whole_rune (r, b) \<Longrightarrow> runes (b @ t) = (Some r, b) # runes t"
proof -
  assume "whole_rune (r, b)"
  then have at: "rune_at (codes_of b) = Some (r, length b)" by (simp add: whole_rune_def)
  then have "0 < length b" by (rule rune_at_width)
  then have "b @ t \<noteq> []" by auto
  moreover have "rune_at (codes_of (b @ t)) = Some (r, length b)"
    using rune_at_append [OF at] by simp
  ultimately show ?thesis by (simp add: runes_Cons_iff)
qed

lemma runes_string_of: "list_all whole_rune rs \<Longrightarrow> runes (string_of rs @ t) = map (\<lambda>(r, b). (Some r, b)) rs @ runes t"
  by (induction rs) (auto simp: string_of_def runes_whole)

lemma whole_replacement: "whole_rune (0xFFFD, replacement)" "whole_rune (0x2026, ellipsis_rune)"
  by code_simp+

lemma runes_are_whole: "list_all whole_rune (runes_written s)"
proof (induction s rule: runes.induct)
  case (1 s)
  show ?case
  proof (cases "s = []")
    case True
    then show ?thesis by (simp add: runes_written_def)
  next
    case False
    show ?thesis
    proof (cases "rune_at (map (\<lambda>c. int (code c)) s)")
      case None
      then have "runes_written s = (0xFFFD, replacement) # runes_written (tl s)"
        unfolding runes_written_def using False by (subst runes.simps) simp
      then show ?thesis using "1.IH"(1) [OF False None] whole_replacement(1) by simp
    next
      case (Some p)
      obtain r n where p: "p = (r, n)" by (cases p)
      have "runes_written s = (r, take n s) # runes_written (drop n s)"
        unfolding runes_written_def using False Some p by (subst runes.simps) simp
      moreover have "whole_rune (r, take n s)"
      proof -
        have at: "rune_at (codes_of s) = Some (r, n)" using Some p by simp
        have "n \<le> length s" using rune_at_append [OF at] by simp
        then show ?thesis using rune_at_take [OF at] by (simp add: whole_rune_def take_map)
      qed
      ultimately show ?thesis using "1.IH"(2) [OF False Some p [symmetric]] by simp
    qed
  qed
qed

lemma runes_of_written: "list_all whole_rune rs \<Longrightarrow> runes (string_of rs) = map (\<lambda>(r, b). (Some r, b)) rs"
  using runes_string_of [of rs "[]"] by simp

text \<open>What trimming leaves of whole runes is whole runes, and no more of them.\<close>

definition left_of :: "(int \<times> string) list \<Rightarrow> string \<Rightarrow> bool" where
  "left_of rs s \<longleftrightarrow> (\<exists>xs. s = string_of xs \<and> list_all whole_rune xs \<and> length xs \<le> length rs)"

lemma trim_space_left:
  assumes "list_all whole_rune rs"
  shows "left_of rs (trim_space (string_of rs))"
proof -
  let ?f = "\<lambda>(r, b). (Some r, b) :: int option \<times> string"
  obtain xs where xs: "rev (dropWhile space_rune (rev (dropWhile space_rune (map ?f rs)))) = map ?f xs"
    and sub: "set xs \<subseteq> set rs" "length xs \<le> length rs"
  proof
    let ?xs = "rev (dropWhile (space_rune \<circ> ?f) (rev (dropWhile (space_rune \<circ> ?f) rs)))"
    show "rev (dropWhile space_rune (rev (dropWhile space_rune (map ?f rs)))) = map ?f ?xs"
      by (simp add: dropWhile_map rev_map)
    show "set ?xs \<subseteq> set rs" by (auto dest!: set_dropWhileD)
    show "length ?xs \<le> length rs" using length_dropWhile_le le_trans by (metis length_rev)
  qed
  have "trim_space (string_of rs) = concat (map snd (map ?f xs))"
    unfolding trim_space_def runes_of_written [OF assms] xs by (rule refl)
  also have "\<dots> = string_of xs" by (simp add: string_of_def comp_def case_prod_beta)
  finally show ?thesis using assms sub by (auto simp: left_of_def list_all_iff)
qed

lemma trim_punctuation_left: "list_all whole_rune rs \<Longrightarrow> left_of rs (trim_punctuation (string_of rs))"
proof (induction rs rule: rev_induct)
  case (snoc x rs)
  obtain r b where x: "x = (r, b)" by (cases x)
  have whole: "whole_rune (r, b)" using snoc.prems x by simp
  then have at: "rune_at (codes_of b) = Some (r, length b)" by (simp add: whole_rune_def)
  then have b: "b \<noteq> []" using rune_at_width by fastforce
  have written: "string_of (rs @ [x]) = string_of rs @ b" by (simp add: string_of_def x)
  show ?case
  proof (cases "last b \<in> set '',;:''")
    case True
    then have "code (last b) < 128" by (auto simp: code_def)
    moreover have "int (code (last b)) \<in> set (take (length b) (codes_of b))" using b by simp
    ultimately have "length b = 1" using rune_at_bytes [OF at] by fastforce
    then obtain c where "b = [c]" by (metis length_0_conv length_Suc_conv One_nat_def)
    with True have "trim_punctuation (string_of (rs @ [x])) = trim_punctuation (string_of rs)"
      by (simp add: written trim_punctuation_def)
    moreover have "left_of rs (trim_punctuation (string_of rs))" using snoc by simp
    ultimately show ?thesis using le_SucI by (auto simp: left_of_def)
  next
    case False
    obtain c cs where "b = cs @ [c]" using b by (metis append_butlast_last_id)
    with False have "trim_punctuation (string_of (rs @ [x])) = string_of (rs @ [x])"
      by (simp add: written trim_punctuation_def)
    then show ?thesis using snoc.prems by (auto simp: left_of_def)
  qed
qed (auto simp: left_of_def string_of_def trim_punctuation_def)

lemma left_of_count:
  assumes "left_of rs s" and "length rs \<le> n"
  shows "RuneCount (s @ ellipsis_rune) \<le> n + 1" "RuneCount s \<le> n" "ValidString (s @ ellipsis_rune)" "ValidString s"
proof -
  obtain xs where xs: "s = string_of xs" "list_all whole_rune xs" "length xs \<le> n"
    using assms by (auto simp: left_of_def)
  have "runes ellipsis_rune = [(Some 0x2026, ellipsis_rune)]"
    using runes_whole [OF whole_replacement(2), of "[]"] by simp
  then have both: "runes (s @ ellipsis_rune) = map (\<lambda>(r, b). (Some r, b)) xs @ [(Some 0x2026, ellipsis_rune)]"
    "runes s = map (\<lambda>(r, b). (Some r, b)) xs"
    using runes_string_of [OF xs(2)] runes_of_written [OF xs(2)] by (simp_all add: xs(1))
  then show "RuneCount (s @ ellipsis_rune) \<le> n + 1" "RuneCount s \<le> n" "ValidString (s @ ellipsis_rune)" "ValidString s"
    using xs(3) by (auto simp: RuneCount_def ValidString_def list_all_iff)
qed

text \<open>A description that was cut has at most 161 characters, and is valid text.\<close>

lemma description_fits:
  assumes "Limit_runes < length (runes_written (join_spaces (Fields t)))"
  shows "RuneCount (Description t) \<le> 161 \<and> ValidString (Description t)"
proof -
  let ?rs = "runes_written (join_spaces (Fields t))"
  have whole: "list_all whole_rune (take n ?rs)" for n
    using runes_are_whole [of "join_spaces (Fields t)"] by (auto simp: list_all_iff dest: in_set_takeD)
  have up: "sentence_from w i \<le> Suc i" "space_from w i \<le> i" for w i by (induction i) auto
  define window where "window = take Limit_runes ?rs"
  have len: "length window = 160" using assms by (simp add: window_def Limit_runes_def)
  define fin where "fin = lastSentence (map fst window)"
  define space where "space = lastSpace (map fst window)"
  have small: "fin \<le> 160" "space \<le> 160"
    using up(1) [of "map fst window" 159] up(2) [of "map fst window" 159]
    by (simp_all add: fin_def space_def lastSentence_def lastSpace_def len)
  have d: "Description t = (if fin > 0 then trim_space (string_of (take fin ?rs))
      else if space > 0 then trim_punctuation (trim_space (string_of (take space ?rs))) @ ellipsis_rune
      else string_of window @ ellipsis_rune)"
    using assms unfolding Description_def Let_def fin_def space_def window_def by simp
  have a: "left_of (take fin ?rs) (trim_space (string_of (take fin ?rs)))" by (rule trim_space_left [OF whole])
  obtain xs where xs: "trim_space (string_of (take space ?rs)) = string_of xs" "list_all whole_rune xs"
      "length xs \<le> length (take space ?rs)"
    using trim_space_left [OF whole, of space] by (auto simp: left_of_def)
  have b: "left_of xs (trim_punctuation (string_of xs))" by (rule trim_punctuation_left [OF xs(2)])
  have c: "left_of window (string_of window)" using whole by (auto simp: left_of_def window_def)
  have "length (take fin ?rs) \<le> 160" "length xs \<le> 160" using small xs(3) by simp_all
  then show ?thesis
    using left_of_count [OF a] left_of_count [OF b] left_of_count [OF c, of 160] xs(1) len unfolding d by fastforce
qed

text \<open>
  A full stop at the end of the window ends a sentence, whatever follows it: the character
  after the window is not looked at, so a number may be cut at its point.
\<close>

lemma last_stop_ends_a_sentence:
  assumes "2 \<le> length w" and "isSentenceEnd (last w)"
  shows "lastSentence w = length w"
proof -
  define i where "i = length w - 2"
  have i: "length w = Suc (Suc i)" using assms(1) by (simp add: i_def)
  then have "w \<noteq> []" by auto
  then have "w ! Suc i = last w" using i by (simp add: last_conv_nth)
  then show ?thesis using assms(2) i by (simp add: lastSentence_def)
qed

end
