(* ===== verification/WebPages.thy ===== *)
theory WebPages
  imports Seo Guards "HOL-Library.Multiset" "HOL-Library.Char_ord" "HOL-Library.List_Lexorder"
begin

text \<open>
  The data of the pages: src/web (page.go, challenge.go, security.go, console.go). The
  templates that turn it into markup are generated code, a parameter of the site.
\<close>

subsection \<open>Forms\<close>

record web_form =
  fo_name :: string
  fo_email :: string
  fo_error :: string
  fo_args :: "nat list"
  fo_min :: nat
  fo_max :: nat
  fo_name_max :: nat
  fo_field :: string

definition no_form :: web_form where
  "no_form = \<lparr>fo_name = [], fo_email = [], fo_error = [], fo_args = [], fo_min = 0, fo_max = 0,
     fo_name_max = 0, fo_field = []\<rparr>"

definition ErrorID :: string where "ErrorID = ''form-error''"
definition PasswordHintID :: string where "PasswordHintID = ''password-hint''"

datatype attribute = AText string | AFlag bool

definition Input :: "web_form \<Rightarrow> string \<Rightarrow> string list \<Rightarrow> (string \<times> attribute) list" where
  "Input f name describedBy =
     (let wrong = fo_error f \<noteq> [] \<and> fo_field f = name;
          describedBy = (if wrong then ErrorID # describedBy else describedBy) in
      (if wrong then [(''aria-invalid'', AText ''true''), (''autofocus'', AFlag True)] else []) @
      (if describedBy \<noteq> [] then [(''aria-describedby'', AText (join_spaces describedBy))] else []))"

subsection \<open>Pages\<close>

record menu_item =
  mi_label :: string
  mi_path :: string
  mi_current :: bool

record web_page =
  wp_language :: string
  wp_alternates :: "(string \<times> string) list"
  wp_default :: string
  wp_path :: string
  wp_query :: string
  wp_marketplace :: string
  wp_description :: string
  wp_url :: string
  wp_image :: string
  wp_nonce :: string
  wp_csrf :: string
  wp_accounts :: bool
  wp_account :: string
  wp_console :: bool
  wp_version :: string
  wp_menu :: "menu_item list"
  wp_names :: "(string \<times> string) list"

definition NewPage :: "string \<Rightarrow> (string \<times> string) list \<Rightarrow> web_page" where
  "NewPage tag names = \<lparr>wp_language = tag, wp_alternates = [], wp_default = [], wp_path = [], wp_query = [],
     wp_marketplace = [], wp_description = [], wp_url = [], wp_image = [], wp_nonce = [], wp_csrf = [],
     wp_accounts = False, wp_account = [], wp_console = False, wp_version = [], wp_menu = [], wp_names = names\<rparr>"

definition language_name :: "web_page \<Rightarrow> string \<Rightarrow> string" where
  "language_name p tag = (case map_of (wp_names p) tag of Some name \<Rightarrow> name | None \<Rightarrow> tag)"

text \<open>\<open>say\<close> prints a key in the page's language.\<close>

definition Title :: "(string \<Rightarrow> string) \<Rightarrow> web_page \<Rightarrow> string" where
  "Title say p =
     (if wp_marketplace p \<noteq> [] then wp_marketplace p
      else if wp_console p then say ''console.title''
      else say ''page.platform.title'')"

text \<open>\<^verbatim>\<open>sortStrings\<close>: the inner loop carries one value down while it is smaller.\<close>

fun carry_down :: "string list \<Rightarrow> nat \<Rightarrow> string list" where
  "carry_down xs 0 = xs"
| "carry_down xs (Suc j) =
     (if xs ! Suc j < xs ! j then carry_down (xs[Suc j := xs ! j, j := xs ! Suc j]) j else xs)"

definition sortStrings :: "string list \<Rightarrow> string list" where
  "sortStrings values = fold (\<lambda>i xs. carry_down xs i) [1..<length values] values"

definition page_languages :: "web_page \<Rightarrow> string list" where
  "page_languages p = sortStrings (wp_language p # map fst (wp_alternates p))"

subsection \<open>Challenges, factors and what they show\<close>

record web_challenge =
  wc_action :: string
  wc_methods :: "string list"
  wc_method :: string
  wc_recovery :: bool
  wc_locked :: bool
  wc_refused :: bool
  wc_base :: string
  wc_next :: string
  wc_sent :: bool
  wc_options :: string
  wc_form :: web_form

definition Others :: "web_challenge \<Rightarrow> string list" where
  "Others c = filter (\<lambda>m. m \<noteq> wc_method c) (wc_methods c)"

record web_factor =
  wf_id :: string
  wf_method :: string
  wf_label :: string
  wf_added :: string
  wf_used :: string

record web_security =
  ws_factors :: "web_factor list"
  ws_issued :: nat
  ws_left :: nat
  ws_done :: string
  ws_args :: "nat list"
  ws_form :: web_form

definition HasEmail :: "web_security \<Rightarrow> bool" where
  "HasEmail s \<longleftrightarrow> list_ex (\<lambda>f. wf_method f = ''email'') (ws_factors s)"

record web_app =
  wa_qr :: string
  wa_key :: string
  wa_label :: string
  wa_max :: nat
  wa_form :: web_form

record web_key =
  wk_options :: string
  wk_label :: string
  wk_max :: nat
  wk_form :: web_form

text \<open>The templates of the pages, each with what the handler gives it besides the page.\<close>

datatype view =
    VPlatform | VHome | VPreparing | VConsoleHome | VConsoleEnrol | VSetup web_form
  | VSignUp web_form | VCheckEmail | VVerify string bool | VResend bool
  | VSignIn web_form bool | VPassword web_form bool | VChallenge web_challenge
  | VSecurity web_security | VApp web_app | VRecovery "string list" bool
  | VEmail string bool web_form | VKey web_key

subsection \<open>The order of the languages\<close>

lemma carry_down_inserts: "sorted ys \<Longrightarrow> carry_down (ys @ x # zs) (length ys) = sort (ys @ [x]) @ zs"
proof (induction ys arbitrary: zs rule: rev_induct)
  case (snoc y ys)
  have ys: "sorted ys" "\<forall>a \<in> set ys. a \<le> y" using snoc.prems by (auto simp: sorted_append)
  have at: "(ys @ [y] @ x # zs) ! Suc (length ys) = x" "(ys @ [y] @ x # zs) ! length ys = y"
    by (simp_all add: nth_append)
  show ?case
  proof (cases "x < y")
    case True
    have "(ys @ [y] @ x # zs)[Suc (length ys) := y, length ys := x] = ys @ x # y # zs"
      by (simp add: list_update_append)
    then have "carry_down ((ys @ [y]) @ x # zs) (length (ys @ [y])) = sort (ys @ [x]) @ y # zs"
      using True at snoc.IH [OF ys(1), of "y # zs"] by simp
    also have "sort (ys @ [x]) @ [y] = sort ((ys @ [y]) @ [x])"
      by (rule properties_for_sort [symmetric]) (use ys True in \<open>auto simp: sorted_append\<close>)
    then have "sort (ys @ [x]) @ y # zs = sort ((ys @ [y]) @ [x]) @ zs" by (simp add: append_eq_append_conv2)
    finally show ?thesis .
  next
    case False
    then have "sorted ((ys @ [y]) @ [x])" using snoc.prems ys by (fastforce simp: sorted_append)
    then show ?thesis using False at by (simp add: sorted_sort_id del: append_assoc) simp
  qed
qed simp

text \<open>
  Equivalence: the languages of a page's switch are the sorted list of the page's own and
  its alternates: the sort the pages are given, which swaps neighbours in place, is the sort
  of the library.
\<close>

theorem page_languages_are_sorted:
  "page_languages p = sort (wp_language p # map fst (wp_alternates p))"
proof -
  have run: "fold (\<lambda>i xs. carry_down xs i) [1..<Suc n] xs = sort (take (Suc n) xs) @ drop (Suc n) xs" if "n < length xs" for n xs
    using that
  proof (induction n)
    case 0
    then show ?case by (cases xs) simp_all
  next
    case (Suc n)
    let ?ys = "sort (take (Suc n) xs)"
    have "drop (Suc n) xs = xs ! Suc n # drop (Suc (Suc n)) xs" using Suc.prems by (simp add: Cons_nth_drop_Suc)
    then have "fold (\<lambda>i xs. carry_down xs i) [1..<Suc (Suc n)] xs = carry_down (?ys @ xs ! Suc n # drop (Suc (Suc n)) xs) (length ?ys)"
      using Suc by simp
    also have "\<dots> = sort (?ys @ [xs ! Suc n]) @ drop (Suc (Suc n)) xs" by (rule carry_down_inserts) simp
    also have "sort (?ys @ [xs ! Suc n]) = sort (take (Suc (Suc n)) xs)"
      using Suc.prems by (intro properties_for_sort) (simp_all add: take_Suc_conv_app_nth)
    finally show ?case .
  qed
  let ?v = "wp_language p # map fst (wp_alternates p)"
  show ?thesis using run [of "length ?v - 1" ?v] by (simp add: page_languages_def sortStrings_def)
qed

end
