(* ===== verification/SiteWorld.thy ===== *)
theory SiteWorld
  imports Brevo WebPages Bootstrap
begin

text \<open>
  The site's state and the parts its pages share: src/internal/platform/httpx/identity.go (the
  visit, its user agent and its links), site.go (a page's data), console.go (who may see what)
  and src/web (the data of a page). Templates turn a page's data into markup: a parameter.
\<close>

subsection \<open>The world behind a handler\<close>

text \<open>
  What one call outside draws: the clock, random bytes, codes, the slots and salt of a hash,
  what other requests do meanwhile, and what becomes of a consumer's transactions. The world
  hands out one such moment per call.
\<close>

record 'a moment =
  mo_now :: time
  mo_later :: time
  mo_bytes :: "nat \<Rightarrow> bytes"
  mo_code :: nat
  mo_rolls :: "bytes list"
  mo_draws :: draws
  mo_other :: "'a db \<Rightarrow> 'a db"
  mo_counts :: bool
  mo_sweeps :: bool
  mo_pings :: bool
  mo_hosts :: "host_map option"
  mo_fates :: "string \<Rightarrow> fate"
  mo_event_id :: "'a db platform \<Rightarrow> uuid"
  mo_commits :: bool

text \<open>The outbox's rows and deliveries are those of the same database, where its consumers act.\<close>

record 'a world =
  wo_db :: "'a db"
  wo_events :: "event_row list"
  wo_deliveries :: "(uuid \<times> string) list"
  wo_swept :: time
  wo_rates :: "rate_row list"
  wo_resolver :: resolver
  wo_calls :: nat
  wo_moments :: "nat \<Rightarrow> 'a moment"

definition moment_of :: "'a world \<Rightarrow> 'a moment" where
  "moment_of s = wo_moments s (wo_calls s)"

definition ticked :: "'a world \<Rightarrow> 'a world" where
  "ticked s = s\<lparr>wo_calls := Suc (wo_calls s)\<rparr>"

definition rand_bytes :: "nat \<Rightarrow> 'a world \<Rightarrow> bytes \<times> 'a world" where
  "rand_bytes n s = (mo_bytes (moment_of s) n, ticked s)"

text \<open>The limiters of the identity routes, each with its counters in the database.\<close>

definition allow_flow :: "guarded_flow \<Rightarrow> string \<Rightarrow> 'a world \<Rightarrow> (limit_error + decision) \<times> 'a world" where
  "allow_flow flow key s =
     (let m = moment_of s in
      case AllowDatabase (limit_of flow) (mo_counts m) (mo_sweeps m) (mo_now m) key (wo_rates s) of
        (answer, rows) \<Rightarrow> (answer, (ticked s)\<lparr>wo_rates := rows\<rparr>))"

text \<open>A handler that asks the service and goes on with the answer.\<close>

type_synonym 'a responder = "writer \<times> 'a world \<Rightarrow> writer \<times> 'a world"

definition ask :: "('a moment \<Rightarrow> 'a db \<Rightarrow> 'x \<times> 'a db) \<Rightarrow> ('x \<Rightarrow> 'a responder) \<Rightarrow> 'a responder" where
  "ask f k = (\<lambda>(w, s).
     (case f (moment_of s) (wo_db s) of (x, d) \<Rightarrow> k x (w, (ticked s)\<lparr>wo_db := d\<rparr>)))"

text \<open>The flows that may sweep dead sessions also move the time of the last sweep.\<close>

definition ask_sweep :: "('a moment \<Rightarrow> time \<Rightarrow> 'a db \<Rightarrow> 'x \<times> time \<times> 'a db) \<Rightarrow> ('x \<Rightarrow> 'a responder) \<Rightarrow> 'a responder" where
  "ask_sweep f k = (\<lambda>(w, s).
     (case f (moment_of s) (wo_swept s) (wo_db s) of
        (x, swept, d) \<Rightarrow> k x (w, (ticked s)\<lparr>wo_db := d, wo_swept := swept\<rparr>)))"

text \<open>The endpoints of machines work on the outbox and, through its consumers, on the database.\<close>

definition platform_of :: "'a world \<Rightarrow> 'a db platform" where
  "platform_of s = \<lparr>p_events = wo_events s, p_deliveries = wo_deliveries s, p_world = wo_db s\<rparr>"

definition with_platform :: "'a db platform \<Rightarrow> 'a world \<Rightarrow> 'a world" where
  "with_platform p s = s\<lparr>wo_events := p_events p, wo_deliveries := p_deliveries p, wo_db := p_world p\<rparr>"

definition ask_platform :: "('a moment \<Rightarrow> 'a db platform \<Rightarrow> 'x \<times> 'a db platform) \<Rightarrow> ('x \<Rightarrow> 'a responder) \<Rightarrow> 'a responder" where
  "ask_platform f k = (\<lambda>(w, s).
     (case f (moment_of s) (platform_of s) of (x, p) \<Rightarrow> k x (w, with_platform p (ticked s))))"

text \<open>A step that does nothing; steps are composed as functions, the last one first.\<close>

definition pass :: "'a responder" where "pass = (\<lambda>ws. ws)"

definition looks :: "('a moment \<Rightarrow> 'a db \<Rightarrow> 'x) \<Rightarrow> ('x \<Rightarrow> 'a responder) \<Rightarrow> 'a responder" where
  "looks f k = ask (\<lambda>m d. (f m d, d)) k"

subsection \<open>A visit\<close>

definition maxUserAgent :: nat where "maxUserAgent = 512"

text \<open>\<^verbatim>\<open>strings.ToValidUTF8\<close>: each run of bytes that are not UTF-8 becomes one replacement.\<close>

fun valid_from :: "bool \<Rightarrow> (int option \<times> string) list \<Rightarrow> (int \<times> string) list" where
  "valid_from bad [] = []"
| "valid_from bad ((None, b) # xs) = (if bad then [] else [(0xFFFD, replacement)]) @ valid_from True xs"
| "valid_from bad ((Some r, b) # xs) = (r, b) # valid_from False xs"

definition ToValidUTF8 :: "string \<Rightarrow> string" where
  "ToValidUTF8 s = string_of (valid_from False (runes s))"

definition RuneStart :: "char \<Rightarrow> bool" where
  "RuneStart c \<longleftrightarrow> \<not> (128 \<le> code c \<and> code c \<le> 191)"

fun cut_down :: "string \<Rightarrow> nat \<Rightarrow> nat" where
  "cut_down s 0 = 0"
| "cut_down s (Suc n) = (if RuneStart (s ! Suc n) then Suc n else cut_down s n)"

definition stored_agent :: "string \<Rightarrow> string" where
  "stored_agent header =
     (let agent = ToValidUTF8 header in
      if length agent \<le> maxUserAgent then agent else take (cut_down agent maxUserAgent) agent)"

definition userAgent :: "request \<Rightarrow> string" where "userAgent r = stored_agent (user_agent_header r)"

definition validPort :: "string \<Rightarrow> bool" where
  "validPort port \<longleftrightarrow> port \<noteq> [] \<and> length port \<le> 5 \<and> only_of digits10 port \<and>
     1 \<le> number_of_digits port \<and> number_of_digits port \<le> 65535"

definition JoinHostPort :: "string \<Rightarrow> string \<Rightarrow> string" where
  "JoinHostPort host port =
     (if CHR '':'' \<in> set host then ''['' @ host @ '']:'' @ port else host @ '':'' @ port)"

definition linkBase :: "request \<Rightarrow> string" where
  "linkBase r =
     (let host = Normalise (rq_host r); plain = scheme r @ ''://'' @ (if CHR '':'' \<in> set host then ''['' @ host @ '']'' else host) in
      case SplitHostPort (rq_host r) of
        None \<Rightarrow> plain
      | Some (_, port) \<Rightarrow> if validPort port then scheme r @ ''://'' @ JoinHostPort host port else plain)"

definition visit_of :: "request \<Rightarrow> visit" where
  "visit_of r = \<lparr>v_marketplace = marketplaceOf r, v_platform = onConsole r,
     v_name = (case cx_resolution r of Some (MarketplaceHost m) \<Rightarrow> mp_name m
       | Some ConsoleHost \<Rightarrow> cx_console r | _ \<Rightarrow> []),
     v_language = language_in r, v_ip = origin_ip r, v_agent = userAgent r, v_base = linkBase r\<rparr>"

text \<open>The first segment of every address the handlers redirect to.\<close>

definition here :: "request \<Rightarrow> string" where "here r = CHR ''/'' # language_in r"

text \<open>\<^verbatim>\<open>http.Redirect\<close> with 303 to an address the code writes itself.\<close>

definition see_other :: "request \<Rightarrow> string \<Rightarrow> 'a responder" where
  "see_other r target = on_writer (http_redirect r target StatusSeeOther)"

subsection \<open>Whom a limit counts against\<close>

definition byIP :: "request \<Rightarrow> string" where "byIP r = origin_ip r"

definition limits_of :: "request \<Rightarrow> string" where
  "limits_of r = (if onConsole r then ''console'' else marketplaceOf r)"

definition byAddress :: "'a service \<Rightarrow> request \<Rightarrow> string" where
  "byAddress S r = limits_of r @ '':'' @
     (case NormaliseEmail (sv_parse_address S) (PostFormValue r ''email'') of Inl _ \<Rightarrow> [] | Inr a \<Rightarrow> a)"

text \<open>\<^verbatim>\<open>SessionFrom\<close>, whose session is the zero one where nobody is signed in.\<close>

definition nobody :: session where
  "nobody = \<lparr>se_id = [], se_account = \<lparr>ID = [], MarketplaceID = [], Kind = OtherKind [], Email = [], Name = [],
     VerifiedAt = None\<rparr>, se_second = False, se_stepped = None, se_confirmed = None\<rparr>"

definition session_in :: "request \<Rightarrow> session" where
  "session_in r = (case cx_session r of None \<Rightarrow> nobody | Some s \<Rightarrow> s)"

definition byAccount :: "request \<Rightarrow> string" where
  "byAccount r = ID (se_account (session_in r))"

subsection \<open>Forms and refusals\<close>

definition newForm :: web_form where
  "newForm = no_form\<lparr>fo_min := MinPasswordLength, fo_max := MaxPasswordLength, fo_name_max := MaxNameLength\<rparr>"

fun formError :: "id_error \<Rightarrow> (string \<times> nat list) option" where
  "formError ErrNameMissing = Some (''identity.error.name_missing'', [])"
| "formError ErrNameInvalid = Some (''identity.error.name_invalid'', [MaxNameLength])"
| "formError ErrEmailInvalid = Some (''identity.error.email_invalid'', [])"
| "formError ErrPasswordShort = Some (''identity.error.password_short'', [MinPasswordLength])"
| "formError ErrPasswordLong = Some (''identity.error.password_long'', [MaxPasswordLength])"
| "formError ErrPasswordBreached = Some (''identity.error.password_breached'', [])"
| "formError _ = None"

definition signUpFields :: "(string \<times> string) list" where
  "signUpFields =
     [(''identity.error.name_missing'', ''name''), (''identity.error.name_invalid'', ''name''),
      (''identity.error.email_invalid'', ''email''), (''identity.error.password_short'', ''password''),
      (''identity.error.password_long'', ''password''), (''identity.error.password_breached'', ''password'')]"

definition signInFields :: "(string \<times> string) list" where
  "signInFields = [(''identity.signin.failed'', ''password'')]"

definition passwordFields :: "(string \<times> string) list" where
  "passwordFields =
     [(''identity.password.wrong_current'', ''current_password''), (''identity.error.password_short'', ''new_password''),
      (''identity.error.password_long'', ''new_password''), (''identity.error.password_breached'', ''new_password'')]"

definition setupFields :: "(string \<times> string) list" where
  "setupFields = (''console.setup.wrong_token'', ''token'') # signUpFields"

definition appFields :: "(string \<times> string) list" where
  "appFields = [(''identity.app.wrong_code'', ''code''), (''identity.error.label_invalid'', ''label'')]"

text \<open>A missing key of a Go map of strings is the empty string.\<close>

definition look_up :: "(string \<times> string) list \<Rightarrow> string \<Rightarrow> string" where
  "look_up m key = (case map_of m key of None \<Rightarrow> [] | Some v \<Rightarrow> v)"

text \<open>The form with a refusal, on the field the refusal is about.\<close>

definition refused_form :: "(string \<times> string) list \<Rightarrow> string \<Rightarrow> nat list \<Rightarrow> web_form \<Rightarrow> web_form" where
  "refused_form about key args f = f\<lparr>fo_error := key, fo_args := args, fo_field := look_up about key\<rparr>"

subsection \<open>The site\<close>

text \<open>
  What the routes are built from, with what the machine gives them. \<open>st_say\<close> prints a key with its arguments for a tag,
  \<open>st_clock\<close> is \<^verbatim>\<open>time.Format\<close> with the English names of the moment's month and weekday,
  \<open>st_html\<close> the templates, \<open>st_qr\<close> the QR encoder, \<open>st_preview\<close> the drawing of a preview,
  \<open>st_script\<close> the embedded file. \<open>st_tasks\<close> is the endpoint of the task queue, with the reading of
  its JSON, and \<open>st_mail\<close> that of the mail provider.
\<close>

record 'a site =
  st_service :: "'a service"
  st_hmac :: "bytes \<Rightarrow> bytes \<Rightarrow> bytes"
  st_parse_ip :: "string \<Rightarrow> string option"
  st_catalogue :: catalogue
  st_say :: "string \<Rightarrow> string \<Rightarrow> string list \<Rightarrow> string"
  st_clock :: "time \<Rightarrow> (string \<Rightarrow> string) \<times> string \<times> string"
  st_html :: "web_page \<Rightarrow> view \<Rightarrow> string"
  st_qr :: "string \<Rightarrow> bytes option"
  st_preview :: "string \<Rightarrow> string option"
  st_script :: string
  st_version :: string
  st_indexable :: bool
  st_database :: bool
  st_accounts :: bool
  st_console :: bool
  st_first_run :: "first_run option"
  st_tasks :: "('a db endpoint \<times> (string \<Rightarrow> call option)) option"
  st_mail :: "webhook option"

definition st_machine :: "'a site \<Rightarrow> 'a world machine" where
  "st_machine S = \<lparr>mc_rand = rand_bytes, mc_hmac = st_hmac S, mc_parse_ip = st_parse_ip S,
     mc_catalogue = st_catalogue S, mc_say = (\<lambda>tag key. st_say S tag key [])\<rparr>"

subsection \<open>Who may see what of the console\<close>

definition ConsoleView :: string where "ConsoleView = ''console.view''"
definition ConsoleVersion :: string where "ConsoleVersion = ''console.version''"

text \<open>\<^verbatim>\<open>allows\<close>: a question that cannot be answered is a no.\<close>

definition allows :: "'a site \<Rightarrow> request \<Rightarrow> string \<Rightarrow> (bool \<Rightarrow> 'a responder) \<Rightarrow> 'a responder" where
  "allows S r permission k =
     (case cx_session r of
        None \<Rightarrow> k False
      | Some se \<Rightarrow>
          if \<not> se_second se then k False
          else ask (\<lambda>m. Allows (ID (se_account se)) permission []) (\<lambda>answer. k (answer = Inr True)))"

definition securityPath :: string where "securityPath = ''/account/security''"

definition console_entries :: "(string \<times> string \<times> string) list" where
  "console_entries =
     [(''console.menu.home'', ''/'', ConsoleView), (''console.menu.security'', securityPath, []),
      (''console.menu.password'', ''/account/password'', [])]"

fun menu_from :: "'a site \<Rightarrow> request \<Rightarrow> string \<Rightarrow> (string \<times> string \<times> string) list \<Rightarrow>
    (menu_item list \<Rightarrow> 'a responder) \<Rightarrow> 'a responder" where
  "menu_from S r path [] k = k []"
| "menu_from S r path ((label, p, needs) # es) k =
     (let item = \<lparr>mi_label = label, mi_path = p, mi_current = (p = path)\<rparr> in
      if needs = [] then menu_from S r path es (\<lambda>items. k (item # items))
      else allows S r needs (\<lambda>allowed. menu_from S r path es (\<lambda>items. k (if allowed then item # items else items))))"

definition consoleMenu :: "'a site \<Rightarrow> request \<Rightarrow> string \<Rightarrow> (menu_item list \<Rightarrow> 'a responder) \<Rightarrow> 'a responder" where
  "consoleMenu S r path k =
     (if cx_session r = None \<or> \<not> se_second (session_in r) \<or> \<not> st_console S then k []
      else menu_from S r path console_entries k)"

subsection \<open>A page for a request\<close>

definition base_address :: "request \<Rightarrow> string" where
  "base_address r = scheme r @ ''://'' @ rq_host r"

definition names :: "'a site \<Rightarrow> string list \<Rightarrow> (string \<times> string) list" where
  "names S languages = map (\<lambda>l. (l, st_say S l ''language.name'' [])) languages"

definition plain_page :: "'a site \<Rightarrow> request \<Rightarrow> string \<Rightarrow> web_page" where
  "plain_page S r path =
     (let tag = language_in r; languages = fst (Speaks (st_catalogue S) r);
          shop = (case cx_resolution r of Some (MarketplaceHost m) \<Rightarrow> mp_name m | _ \<Rightarrow> []) in
      (NewPage tag (names S languages))\<lparr>
        wp_nonce := cx_nonce r, wp_csrf := cx_csrf r, wp_path := path, wp_query := rq_query r,
        wp_default := CHR ''/'' # DefaultTag @ path,
        wp_url := base_address r @ ''/'' @ tag @ path, wp_image := base_address r @ PreviewPath,
        wp_alternates := map (\<lambda>l. (l, CHR ''/'' # l @ path)) (filter (\<lambda>l. l \<noteq> tag) languages),
        wp_marketplace := shop, wp_accounts := (st_accounts S \<and> shop \<noteq> []),
        wp_account := (case cx_session r of None \<Rightarrow> [] | Some se \<Rightarrow> Name (se_account se)),
        wp_description := Description (if shop = [] then st_say S tag ''page.platform.description'' []
          else st_say S tag ''page.home.description'' [shop])\<rparr>)"

definition page_for :: "'a site \<Rightarrow> request \<Rightarrow> string \<Rightarrow> (web_page \<Rightarrow> 'a responder) \<Rightarrow> 'a responder" where
  "page_for S r path k =
     (if onConsole r
      then consoleMenu S r path (\<lambda>menu. k ((plain_page S r path)\<lparr>wp_console := True, wp_version := st_version S, wp_menu := menu\<rparr>))
      else k (plain_page S r path))"

definition renderStatus :: "'a site \<Rightarrow> nat \<Rightarrow> web_page \<Rightarrow> view \<Rightarrow> 'a responder" where
  "renderStatus S status p v = on_writer (\<lambda>w.
     write_body (st_html S p v) (WriteHeader status (set_header ''Content-Type'' ''text/html; charset=utf-8'' w)))"

definition show_page :: "'a site \<Rightarrow> request \<Rightarrow> nat \<Rightarrow> string \<Rightarrow> view \<Rightarrow> 'a responder" where
  "show_page S r status path v = page_for S r path (\<lambda>p. renderStatus S status p v)"

text \<open>\<^verbatim>\<open>failed\<close>: what the visitor cannot act on is a 500; the log is left out.\<close>

definition PageServerError :: nat where "PageServerError = 500"

definition internal_error :: "'a responder" where
  "internal_error = on_writer (http_error [] PageServerError)"

text \<open>A text Go keeps as bytes.\<close>

definition text_of :: "bytes \<Rightarrow> string" where "text_of bs = map (\<lambda>b. char_of (unat b)) bs"

definition not_found :: "'a responder" where "not_found = on_writer NotFound"

end
