(* ===== verification/Endpoints.thy ===== *)
theory Endpoints
  imports Configuration SiteWorld
begin

text \<open>
  What the site mounts besides its pages: the one script it serves
  (src/internal/platform/httpx/script.go) and the endpoints that machines call, of the task
  queue (internaltasks.go) and of the mail provider (mailwebhook.go), whose work is in
  Callbacks and Brevo: here it is read from a request and written to a response.
\<close>

subsection \<open>Conditions a request may carry\<close>

text \<open>
  \<^verbatim>\<open>http.ServeContent\<close> for a file without a time: the conditions on its tag, as net/http's
  \<^verbatim>\<open>scanETag\<close>, \<^verbatim>\<open>checkIfMatch\<close>, \<^verbatim>\<open>checkIfNoneMatch\<close> and \<^verbatim>\<open>checkIfRange\<close> read them.
\<close>

definition quote_mark :: char where "quote_mark = CHR 0x22"

definition ascii_space :: "char \<Rightarrow> bool" where
  "ascii_space c \<longleftrightarrow> c \<in> set [CHR '' '', CHR 0x09, CHR 0x0A, CHR 0x0D]"

definition TrimString :: "string \<Rightarrow> string" where
  "TrimString s = rev (dropWhile ascii_space (rev (dropWhile ascii_space s)))"

definition tag_byte :: "char \<Rightarrow> bool" where
  "tag_byte c \<longleftrightarrow> code c = 0x21 \<or> (0x23 \<le> code c \<and> code c \<le> 0x7E) \<or> 0x80 \<le> code c"

definition scanETag :: "string \<Rightarrow> (string \<times> string) option" where
  "scanETag s =
     (let s = TrimString s; weak = (if has_prefix ''W/'' s then ''W/'' else []); rest = drop (length weak) s in
      if length rest < 2 \<or> hd rest \<noteq> quote_mark then None
      else let text = takeWhile tag_byte (tl rest) in
           (case drop (Suc (length text)) rest of
              [] \<Rightarrow> None
            | c # remain \<Rightarrow>
                if c = quote_mark then Some (weak @ [quote_mark] @ text @ [quote_mark], remain) else None))"

definition strong_match :: "string \<Rightarrow> string \<Rightarrow> bool" where
  "strong_match a b \<longleftrightarrow> a = b \<and> a \<noteq> [] \<and> hd a = quote_mark"

definition without_weak :: "string \<Rightarrow> string" where
  "without_weak a = (if has_prefix ''W/'' a then drop 2 a else a)"

definition weak_match :: "string \<Rightarrow> string \<Rightarrow> bool" where
  "weak_match a b \<longleftrightarrow> without_weak a = without_weak b"

lemma TrimString_length: "length (TrimString s) \<le> length s"
  using length_dropWhile_le [of ascii_space s] length_dropWhile_le [of ascii_space "rev (dropWhile ascii_space s)"]
  by (simp add: TrimString_def)

lemma scanETag_shorter: "scanETag s = Some (tag, remain) \<Longrightarrow> length remain < length s"
  using TrimString_length [of s]
  by (auto simp: scanETag_def Let_def split: if_splits list.splits dest!: arg_cong [where f = length])

text \<open>Whether a list of tags names one that matches, or any.\<close>

function tag_listed :: "(string \<Rightarrow> bool) \<Rightarrow> string \<Rightarrow> bool" where
  "tag_listed matches header =
     (case TrimString header of
        [] \<Rightarrow> False
      | c # rest \<Rightarrow>
          if c = CHR '','' then tag_listed matches rest
          else if c = CHR ''*'' then True
          else (case scanETag (c # rest) of
                  None \<Rightarrow> False
                | Some (tag, remain) \<Rightarrow> if matches tag then True else tag_listed matches remain))"
  by pat_completeness auto

termination
proof (relation "measure (\<lambda>(matches, header). length header)")
  fix header c rest and matches :: "string \<Rightarrow> bool"
  assume t: "TrimString header = c # rest"
  then have len: "Suc (length rest) \<le> length header" using TrimString_length [of header] by simp
  then show "((matches, rest), matches, header) \<in> measure (\<lambda>(matches, header). length header)" by simp
  fix p tag remain assume "scanETag (c # rest) = Some p" "(tag, remain) = p"
  then have "length remain < Suc (length rest)" using scanETag_shorter [of "c # rest" tag remain] by simp
  then show "((matches, remain), matches, header) \<in> measure (\<lambda>(matches, header). length header)"
    using len by simp
qed simp_all

datatype precondition = Proceeds | PreconditionFails | Unchanged

definition reads_only :: "request \<Rightarrow> bool" where
  "reads_only r \<longleftrightarrow> rq_method r = ''GET'' \<or> rq_method r = ''HEAD''"

definition checkPreconditions :: "string \<Rightarrow> request \<Rightarrow> precondition" where
  "checkPreconditions tag r =
     (let match = header_of ''If-Match'' r; none_match = header_of ''If-None-Match'' r in
      if match \<noteq> [] \<and> \<not> tag_listed (\<lambda>t. strong_match t tag) match then PreconditionFails
      else if none_match \<noteq> [] \<and> tag_listed (\<lambda>t. weak_match t tag) none_match
      then (if reads_only r then Unchanged else PreconditionFails)
      else Proceeds)"

definition range_asked :: "string \<Rightarrow> request \<Rightarrow> string" where
  "range_asked tag r =
     (let since = header_of ''If-Range'' r in
      if reads_only r \<and> since \<noteq> [] \<and>
         \<not> (case scanETag since of None \<Rightarrow> False | Some (t, remain) \<Rightarrow> strong_match t tag)
      then [] else header_of ''Range'' r)"

subsection \<open>Ranges\<close>

text \<open>\<^verbatim>\<open>parseRange\<close>: each range as where it starts and how long it is.\<close>

datatype range_error = InvalidRange | NoOverlap

definition byte_range :: "nat \<Rightarrow> string \<Rightarrow> range_error + nat \<times> nat" where
  "byte_range whole text =
     (case cut_at (CHR ''-'') text of (a, b, found) \<Rightarrow>
        let start = TrimString a; end_at = TrimString b in
        if \<not> found then Inl InvalidRange
        else if start = [] then
          (if end_at = [] \<or> hd end_at = CHR ''-'' then Inl InvalidRange
           else case Atoi end_at of
                  None \<Rightarrow> Inl InvalidRange
                | Some i \<Rightarrow> if i < 0 then Inl InvalidRange else Inr (whole - min (nat i) whole, min (nat i) whole))
        else
          (case Atoi start of
             None \<Rightarrow> Inl InvalidRange
           | Some i \<Rightarrow>
               if i < 0 then Inl InvalidRange
               else if int whole \<le> i then Inl NoOverlap
               else if end_at = [] then Inr (nat i, whole - nat i)
               else (case Atoi end_at of
                       None \<Rightarrow> Inl InvalidRange
                     | Some j \<Rightarrow>
                         if j < i then Inl InvalidRange
                         else Inr (nat i, nat (min j (int whole - 1) - i + 1)))))"

fun byte_ranges :: "nat \<Rightarrow> string list \<Rightarrow> range_error + (nat \<times> nat) list \<times> bool" where
  "byte_ranges whole [] = Inr ([], False)"
| "byte_ranges whole (t # ts) =
     (if TrimString t = [] then byte_ranges whole ts
      else case byte_range whole (TrimString t) of
             Inl InvalidRange \<Rightarrow> Inl InvalidRange
           | Inl NoOverlap \<Rightarrow> map_sum (\<lambda>e. e) (\<lambda>(rs, lost). (rs, True)) (byte_ranges whole ts)
           | Inr one \<Rightarrow> map_sum (\<lambda>e. e) (\<lambda>(rs, lost). (one # rs, lost)) (byte_ranges whole ts))"

definition parseRange :: "string \<Rightarrow> nat \<Rightarrow> range_error + (nat \<times> nat) list" where
  "parseRange s whole =
     (if s = [] then Inr []
      else if \<not> has_prefix ''bytes='' s then Inl InvalidRange
      else case byte_ranges whole (split_at (CHR '','') (drop 6 s)) of
             Inl e \<Rightarrow> Inl e
           | Inr (rs, lost) \<Rightarrow> if lost \<and> rs = [] then Inl NoOverlap else Inr rs)"

fun range_message :: "range_error \<Rightarrow> string" where
  "range_message InvalidRange = ''invalid range''"
| "range_message NoOverlap = ''invalid range: failed to overlap''"

definition contentRange :: "nat \<Rightarrow> nat \<times> nat \<Rightarrow> string" where
  "contentRange whole = (\<lambda>(start, n).
     ''bytes '' @ dec start @ ''-'' @ dec_int (int start + int n - 1) @ ''/'' @ dec whole)"

text \<open>\<^verbatim>\<open>multipart.Writer\<close>: several ranges, each under its own header.\<close>

definition crlf :: string where "crlf = [CHR 0x0D, CHR 0x0A]"

definition range_part :: "string \<Rightarrow> string \<Rightarrow> string \<Rightarrow> nat \<times> nat \<Rightarrow> string" where
  "range_part boundary kind file = (\<lambda>(start, n).
     ''--'' @ boundary @ crlf @ ''Content-Range: '' @ contentRange (length file) (start, n) @ crlf @
     ''Content-Type: '' @ kind @ crlf @ crlf @ take n (drop start file) @ crlf)"

definition range_parts :: "string \<Rightarrow> string \<Rightarrow> string \<Rightarrow> (nat \<times> nat) list \<Rightarrow> string" where
  "range_parts boundary kind file rs =
     concat (map (range_part boundary kind file) rs) @ ''--'' @ boundary @ ''--'' @ crlf"

subsection \<open>Serving a file\<close>

definition del_header :: "string \<Rightarrow> writer \<Rightarrow> writer" where
  "del_header name w =
     (if wr_status w = None then w\<lparr>wr_headers := filter (\<lambda>h. fst h \<noteq> name) (wr_headers w)\<rparr> else w)"

definition header_set :: "string \<Rightarrow> writer \<Rightarrow> string" where
  "header_set name w = (case response_header name w of None \<Rightarrow> [] | Some v \<Rightarrow> v)"

definition serve_text :: "request \<Rightarrow> nat \<Rightarrow> string \<Rightarrow> writer \<Rightarrow> writer" where
  "serve_text r status text w =
     (let w = WriteHeader status (set_header ''Content-Length'' (dec (length text))
                (set_header ''Accept-Ranges'' ''bytes'' w)) in
      if rq_method r = ''HEAD'' then w else write_body text w)"

definition serve_ranges :: "string \<Rightarrow> request \<Rightarrow> string \<Rightarrow> (nat \<times> nat) list \<Rightarrow> writer \<Rightarrow> writer" where
  "serve_ranges boundary r file rs w =
     (case rs of
        [] \<Rightarrow> serve_text r 200 file w
      | [(start, n)] \<Rightarrow>
          serve_text r 206 (take n (drop start file))
            (set_header ''Content-Range'' (contentRange (length file) (start, n)) w)
      | _ \<Rightarrow>
          serve_text r 206 (range_parts boundary (header_set ''Content-Type'' w) file rs)
            (set_header ''Content-Type'' (''multipart/byteranges; boundary='' @ boundary) w))"

text \<open>\<^verbatim>\<open>serveError\<close> takes back what was said of the file before it answers with an error.\<close>

definition serve_error :: "string \<Rightarrow> nat \<Rightarrow> writer \<Rightarrow> writer" where
  "serve_error message status w =
     http_error message status (del_header ''Etag'' (del_header ''Cache-Control'' w))"

definition ServeContent :: "string \<Rightarrow> request \<Rightarrow> string \<Rightarrow> writer \<Rightarrow> writer" where
  "ServeContent boundary r file w =
     (let tag = header_set ''Etag'' w; whole = length file in
      case checkPreconditions tag r of
        PreconditionFails \<Rightarrow> WriteHeader 412 w
      | Unchanged \<Rightarrow> WriteHeader 304 (del_header ''Content-Length'' (del_header ''Content-Type'' w))
      | Proceeds \<Rightarrow>
          (case parseRange (range_asked tag r) whole of
             Inl e \<Rightarrow>
               if e = NoOverlap \<and> whole = 0 then serve_ranges boundary r file [] w
               else serve_error (range_message e) 416
                 (if e = NoOverlap then set_header ''Content-Range'' (''bytes */'' @ dec whole) w else w)
           | Inr rs \<Rightarrow> serve_ranges boundary r file (if whole < sum_list (map snd rs) then [] else rs) w))"

text \<open>\<^verbatim>\<open>script\<close>: the tag is of this build's copy, half its SHA-256.\<close>

definition script_tag :: "(bytes \<Rightarrow> bytes) \<Rightarrow> string \<Rightarrow> string" where
  "script_tag sha256 file = [quote_mark] @ hex_of (take 16 (sha256 (bytes_of file))) @ [quote_mark]"

definition get_script :: "'a site \<Rightarrow> 'a world handler" where
  "get_script S r = (\<lambda>(w, s).
     (ServeContent (hex_of (mo_bytes (moment_of s) 30)) r (st_script S)
        (set_header ''Etag'' (script_tag (sv_sha256 (st_service S)) (st_script S))
        (set_header ''Cache-Control'' ''no-cache''
        (set_header ''Content-Type'' ''text/javascript; charset=utf-8'' w))), ticked s))"

subsection \<open>The endpoints of machines\<close>

definition body_limit :: nat where "body_limit = 2 ^ 20"

text \<open>
  \<^verbatim>\<open>Tasks.Handle\<close>. The JSON reader stops at the end of the first value: what is over the limit
  is not read. The header with which net/http closes a connection whose body was too long is
  the server's, as the length and the date of a response are.
\<close>

definition read_call :: "(string \<Rightarrow> call option) \<Rightarrow> request \<Rightarrow> call option" where
  "read_call decoded r = (case rq_body r of None \<Rightarrow> None | Some body \<Rightarrow> decoded (take body_limit body))"

definition answer_status :: "nat \<Rightarrow> writer \<Rightarrow> writer" where
  "answer_status status w = (if status < 300 then WriteHeader status w else http_error [] status w)"

definition post_tasks :: "'a db endpoint \<Rightarrow> (string \<Rightarrow> call option) \<Rightarrow> 'a world handler" where
  "post_tasks t decoded r =
     ask_platform (\<lambda>m. HandleTask t (header_of ''Authorization'' r) (read_call decoded r) (mo_fates m))
       (\<lambda>status. on_writer (answer_status status))"

text \<open>\<^verbatim>\<open>MailWebhook.Handle\<close>: the provider is the last segment; a body over the limit is refused.\<close>

definition MailWebhookPrefix :: string where "MailWebhookPrefix = ''/webhooks/email/''"

definition hook_call_of :: "request \<Rightarrow> hook_call" where
  "hook_call_of r = \<lparr>hc_provider = drop (length MailWebhookPrefix) (rq_path r),
     hc_header = header_of ''X-Webhook-Token'' r, hc_query = query_get (rq_query r) ''token'',
     hc_body = (case rq_body r of None \<Rightarrow> None | Some body \<Rightarrow> if body_limit < length body then None else Some body)\<rparr>"

definition post_webhook :: "webhook \<Rightarrow> 'a world handler" where
  "post_webhook h r =
     ask_platform (\<lambda>m. HandleWebhook h (mo_event_id m) (mo_now m) (mo_commits m) (hook_call_of r))
       (\<lambda>status. on_writer (if status = StatusNotFound then NotFound else answer_status status))"

end
