(* ===== verification/SiteIdentity.thy ===== *)
theory SiteIdentity
  imports SiteWorld
begin

text \<open>
  The identity pages: src/internal/platform/httpx/session.go, identity.go and challenge.go.
  Each handler asks the identity service and answers by what it said; a branch of Go's
  \<^verbatim>\<open>switch\<close> is a branch here. What only goes to the log is left out.
\<close>

subsection \<open>The session and challenge cookies\<close>

definition sessionCookie :: string where "sessionCookie = ''__Host-session''"
definition sessionCookieInsecure :: string where "sessionCookieInsecure = ''session''"

definition sessionCookieName :: "request \<Rightarrow> string" where
  "sessionCookieName r = (if isHTTPS r then sessionCookie else sessionCookieInsecure)"

text \<open>A cookie with a value; an empty one is taken as none.\<close>

definition sent_cookie :: "string \<Rightarrow> request \<Rightarrow> string option" where
  "sent_cookie name r = (case cookie_of name r of None \<Rightarrow> None | Some v \<Rightarrow> if v = [] then None else Some v)"

definition setSession :: "request \<Rightarrow> string \<Rightarrow> writer \<Rightarrow> writer" where
  "setSession r token w = SetCookie \<lparr>ck_name = sessionCookieName r, ck_value = token,
     ck_max_age = SessionLifetime div second, ck_secure = isHTTPS r\<rparr> w"

definition clearSession :: "request \<Rightarrow> writer \<Rightarrow> writer" where
  "clearSession r w = SetCookie \<lparr>ck_name = sessionCookieName r, ck_value = [], ck_max_age = -1, ck_secure = isHTTPS r\<rparr> w"

definition Sessions :: "'a site \<Rightarrow> 'a world handler \<Rightarrow> 'a world handler" where
  "Sessions S nxt = (\<lambda>r.
     (case sent_cookie (sessionCookieName r) r of
        None \<Rightarrow> nxt r
      | Some token \<Rightarrow>
          if marketplaceOf r = [] \<and> \<not> onConsole r then nxt r
          else ask (\<lambda>m. if onConsole r then AuthenticateStaff (st_service S) token (mo_now m)
                        else Authenticate (st_service S) (marketplaceOf r) token (mo_now m))
            (\<lambda>answer. case answer of
                 Inl e \<Rightarrow> nxt r \<circ> (if e = ErrSessionInvalid then on_writer (clearSession r) else pass)
               | Inr session \<Rightarrow> nxt (r\<lparr>cx_session := Some session\<rparr>) \<circ> on_writer (set_header ''Cache-Control'' ''no-store''))))"

definition challengeCookie :: string where "challengeCookie = ''__Host-challenge''"
definition challengeCookieInsecure :: string where "challengeCookieInsecure = ''challenge''"

definition challengeCookieName :: "request \<Rightarrow> string" where
  "challengeCookieName r = (if isHTTPS r then challengeCookie else challengeCookieInsecure)"

definition challengeToken :: "request \<Rightarrow> string" where
  "challengeToken r = (case cookie_of (challengeCookieName r) r of None \<Rightarrow> [] | Some v \<Rightarrow> v)"

definition setChallenge :: "request \<Rightarrow> string \<Rightarrow> writer \<Rightarrow> writer" where
  "setChallenge r token w = SetCookie \<lparr>ck_name = challengeCookieName r, ck_value = token,
     ck_max_age = ChallengeLifetime div second, ck_secure = isHTTPS r\<rparr> w"

definition clearChallenge :: "request \<Rightarrow> writer \<Rightarrow> writer" where
  "clearChallenge r w = SetCookie \<lparr>ck_name = challengeCookieName r, ck_value = [], ck_max_age = -1, ck_secure = isHTTPS r\<rparr> w"

text \<open>\<^verbatim>\<open>openSession\<close>: the session the browser held ends, and its secret is renewed.\<close>

definition openSession :: "'a site \<Rightarrow> request \<Rightarrow> string \<Rightarrow> 'a responder" where
  "openSession S r token =
     RenewCSRF (st_machine S) r \<circ> on_writer (setSession r token) \<circ>
       (case sent_cookie (sessionCookieName r) r of
          None \<Rightarrow> pass
        | Some old \<Rightarrow> ask (\<lambda>m. Supersede (st_service S) (visit_of r) old (mo_now m)) (\<lambda>_. pass))"

subsection \<open>Guards of the routes\<close>

definition signedIn :: "'a world handler \<Rightarrow> 'a world handler" where
  "signedIn nxt = (\<lambda>r. if cx_session r = None then see_other r (here r @ ''/signin'') else nxt r)"

definition inMarketplace :: "'a world handler \<Rightarrow> 'a world handler" where
  "inMarketplace nxt = (\<lambda>r. if marketplaceOf r = [] then not_found else nxt r)"

text \<open>A limit by what a request says, and by what the database says of its challenge.\<close>

definition limited_by :: "'a site \<Rightarrow> guarded_flow \<Rightarrow> (request \<Rightarrow> string) \<Rightarrow> 'a world handler \<Rightarrow> 'a world handler" where
  "limited_by S flow subject = LimitWith (st_machine S) (allow_flow flow) subject"

definition by_challenge :: "'a site \<Rightarrow> guarded_flow \<Rightarrow> 'a world handler \<Rightarrow> 'a world handler" where
  "by_challenge S flow nxt = (\<lambda>r.
     (let token = challengeToken r in
      if token = [] then limited_by S flow (\<lambda>_. limits_of r @ '':'') nxt r
      else ask (\<lambda>m. ChallengeAddress (st_service S) (visit_of r) token)
             (\<lambda>address. limited_by S flow (\<lambda>_. limits_of r @ '':'' @ address) nxt r)))"

subsection \<open>Signing up and confirming\<close>

definition signUpForm :: "'a site \<Rightarrow> 'a world handler" where
  "signUpForm S r = show_page S r StatusOK ''/signup'' (VSignUp newForm)"

definition post_signUp :: "'a site \<Rightarrow> 'a world handler" where
  "post_signUp S r =
     (let form = newForm\<lparr>fo_name := PostFormValue r ''name'', fo_email := PostFormValue r ''email''\<rparr> in
      ask (\<lambda>m. SignUp (st_service S) (visit_of r) (fo_name form) (fo_email form) (PostFormValue r ''password'')
             (mo_draws m) (mo_now m))
        (\<lambda>answer. case answer of
           Inr _ \<Rightarrow> show_page S r StatusOK ''/signup'' VCheckEmail
         | Inl e \<Rightarrow>
             (case formError e of
                None \<Rightarrow> internal_error
              | Some (key, args) \<Rightarrow> show_page S r StatusUnprocessableEntity ''/signup''
                  (VSignUp (refused_form signUpFields key args form)))))"

definition verifyForm :: "'a site \<Rightarrow> 'a world handler" where
  "verifyForm S r = show_page S r StatusOK ''/verify'' (VVerify (query_get (rq_query r) ''token'') False)"

definition StatusGone :: nat where "StatusGone = 410"

definition post_verify :: "'a site \<Rightarrow> 'a world handler" where
  "post_verify S r =
     ask (\<lambda>m. VerifyEmail (st_service S) (visit_of r) (PostFormValue r ''token'') (mo_now m))
       (\<lambda>answer. case answer of
          Inr _ \<Rightarrow> see_other r (here r @ ''/signin?verified=1'')
        | Inl e \<Rightarrow> if e = ErrTokenInvalid then show_page S r StatusGone ''/verify'' (VVerify [] True) else internal_error)"

definition resendForm :: "'a site \<Rightarrow> 'a world handler" where
  "resendForm S r = show_page S r StatusOK ''/verify/resend'' (VResend False)"

definition post_resend :: "'a site \<Rightarrow> 'a world handler" where
  "post_resend S r =
     ask (\<lambda>m. Resend (st_service S) (visit_of r) (PostFormValue r ''email'') (mo_draws m) (mo_now m))
       (\<lambda>answer. case answer of
          Inl _ \<Rightarrow> internal_error
        | Inr _ \<Rightarrow> show_page S r StatusOK ''/verify/resend'' (VResend True))"

subsection \<open>Signing in and out\<close>

definition secondStepPath :: string where "secondStepPath = ''/signin/verify''"

definition again :: "(string \<times> string) list" where
  "again = [(''expired'', ''identity.challenge.expired''), (''exhausted'', ''identity.challenge.exhausted'')]"

definition signInForm :: "'a site \<Rightarrow> 'a world handler" where
  "signInForm S r = show_page S r StatusOK ''/signin''
     (VSignIn (newForm\<lparr>fo_error := look_up again (query_get (rq_query r) ''again'')\<rparr>)
       (query_get (rq_query r) ''verified'' = ''1''))"

definition PageUnauthorized :: nat where "PageUnauthorized = 401"

definition post_signIn :: "'a site \<Rightarrow> 'a world handler" where
  "post_signIn S r =
     (let form = newForm\<lparr>fo_email := PostFormValue r ''email''\<rparr>;
          refuse = (\<lambda>key. show_page S r PageUnauthorized ''/signin'' (VSignIn (refused_form signInFields key [] form) False)) in
      ask_sweep (\<lambda>m lst. SignIn (st_service S) (visit_of r) (fo_email form) (PostFormValue r ''password'')
             (mo_draws m) (mo_other m) (mo_now m) lst (mo_later m))
        (\<lambda>answer. case answer of
           Inl e \<Rightarrow>
             if e = ErrCredentials then refuse ''identity.signin.failed''
             else if e = ErrUnverified then refuse ''identity.signin.unverified''
             else internal_error
         | Inr (ChallengeOpened token) \<Rightarrow>
             see_other r (here r @ secondStepPath) \<circ> on_writer (setChallenge r token)
         | Inr (SessionOpened token) \<Rightarrow> see_other r (here r @ ''/'') \<circ> openSession S r token))"

definition post_signOut :: "'a site \<Rightarrow> 'a world handler" where
  "post_signOut S r = see_other r (here r @ ''/'') \<circ> on_writer (clearSession r) \<circ>
     (case sent_cookie (sessionCookieName r) r of
        None \<Rightarrow> pass
      | Some token \<Rightarrow> ask (\<lambda>m. SignOut (st_service S) (visit_of r) token (mo_now m)) (\<lambda>_. pass))"

subsection \<open>Asking for a step-up\<close>

definition stepUpPath :: string where "stepUpPath = ''/account/verify''"

definition toStepUp :: "request \<Rightarrow> action \<Rightarrow> string \<Rightarrow> 'a responder" where
  "toStepUp r act return =
     see_other r (here r @ stepUpPath @ ''?'' @ Encode [(''for'', action_name act), (''next'', return)])"

definition steppedUp :: "action \<Rightarrow> string \<Rightarrow> 'a world handler \<Rightarrow> 'a world handler" where
  "steppedUp act return nxt = (\<lambda>r.
     looks (\<lambda>m d. NeedsStepUp (mo_now m) (session_in r) act) (\<lambda>needed. if needed then toStepUp r act return else nxt r))"

subsection \<open>Changing the password\<close>

definition passwordForm :: "'a site \<Rightarrow> 'a world handler" where
  "passwordForm S r = show_page S r StatusOK ''/account/password'' (VPassword newForm (query_get (rq_query r) ''changed'' = ''1''))"

definition post_changePassword :: "'a site \<Rightarrow> 'a world handler" where
  "post_changePassword S r =
     (let refuse = (\<lambda>key args. show_page S r StatusUnprocessableEntity ''/account/password''
            (VPassword (refused_form passwordFields key args newForm) False)) in
      ask (\<lambda>m. ChangePassword (st_service S) (visit_of r) (session_in r) (PostFormValue r ''current_password'')
             (PostFormValue r ''new_password'') (mo_draws m) (mo_other m) (mo_now m) (mo_later m))
        (\<lambda>answer. case answer of
           Inr token \<Rightarrow> see_other r (here r @ ''/account/password?changed=1'') \<circ>
             RenewCSRF (st_machine S) r \<circ> on_writer (setSession r token)
         | Inl e \<Rightarrow>
             if e = ErrStepUpNeeded then toStepUp r ActionPassword ''/account/password''
             else if e = ErrCredentials then refuse ''identity.password.wrong_current'' []
             else (case formError e of Some (key, args) \<Rightarrow> refuse key args | None \<Rightarrow> internal_error)))"

subsection \<open>The second step of a sign-in\<close>

definition backToSignIn :: "request \<Rightarrow> string \<Rightarrow> 'a responder" where
  "backToSignIn r why = see_other r (here r @ ''/signin?again='' @ why) \<circ> on_writer (clearChallenge r)"

definition method_of :: "string \<Rightarrow> fmethod" where
  "method_of s = (case find (\<lambda>m. method_name m = s) [MethodKey, MethodApp, MethodEmail, MethodRecovery] of
     Some m \<Rightarrow> m | None \<Rightarrow> OtherMethod s)"

definition shownMethod :: "pending \<Rightarrow> string \<Rightarrow> string" where
  "shownMethod p chosen =
     (if method_of chosen \<in> set (pe_methods p) \<or> (method_of chosen = MethodRecovery \<and> pe_recovery p) then chosen
      else case pe_methods p of
             m # _ \<Rightarrow> method_name m
           | [] \<Rightarrow> if pe_recovery p then method_name MethodRecovery else [])"

definition challengeView :: "pending \<Rightarrow> string \<Rightarrow> string \<Rightarrow> web_challenge" where
  "challengeView p chosen base = \<lparr>wc_action = action_name (pe_action p), wc_methods = map method_name (pe_methods p),
     wc_method = shownMethod p chosen, wc_recovery = pe_recovery p, wc_locked = pe_locked p, wc_refused = False,
     wc_base = base, wc_next = [], wc_sent = False, wc_options = [], wc_form = no_form\<rparr>"

definition lockRefused :: nat where "lockRefused = StatusForbidden"

definition keyOptions :: "'a site \<Rightarrow> request \<Rightarrow> web_challenge \<Rightarrow> string \<Rightarrow> string \<Rightarrow>
    (id_error + web_challenge \<Rightarrow> 'a responder) \<Rightarrow> 'a responder" where
  "keyOptions S r v token sid k =
     (if wc_method v \<noteq> method_name MethodKey then k (Inr v)
      else ask (\<lambda>m. KeyOptions (st_service S) (visit_of r) token sid (mo_now m))
        (\<lambda>answer. case answer of Inl e \<Rightarrow> k (Inl e) | Inr options \<Rightarrow> k (Inr (v\<lparr>wc_options := text_of options\<rparr>))))"

text \<open>A page answering a post gets a query that shows it again.\<close>

definition challenge_page :: "'a site \<Rightarrow> request \<Rightarrow> nat \<Rightarrow> string \<Rightarrow> (string \<times> string) list \<Rightarrow> web_challenge \<Rightarrow> 'a responder" where
  "challenge_page S r status path query v = page_for S r path (\<lambda>p. renderStatus S status
     (if rq_method r = ''POST'' then p\<lparr>wp_query := Encode (query @ [(''method'', wc_method v)])\<rparr> else p) (VChallenge v))"

definition renderSecondStep :: "'a site \<Rightarrow> request \<Rightarrow> nat \<Rightarrow> string \<Rightarrow> web_form \<Rightarrow> 'a responder" where
  "renderSecondStep S r status chosen form =
     (let token = challengeToken r in
      if token = [] then backToSignIn r ''expired''
      else ask (\<lambda>m. Pending (st_service S) (visit_of r) token [] (mo_now m))
        (\<lambda>answer. case answer of
           Inl e \<Rightarrow> if e = ErrChallengeInvalid then backToSignIn r ''expired'' else internal_error
         | Inr p \<Rightarrow>
             keyOptions S r ((challengeView p chosen (here r @ secondStepPath @ ''?''))
                 \<lparr>wc_form := form, wc_sent := (query_get (rq_query r) ''sent'' = ''1''), wc_refused := (status = lockRefused)\<rparr>) token []
               (\<lambda>prepared. case prepared of
                  Inl _ \<Rightarrow> internal_error
                | Inr v \<Rightarrow> challenge_page S r status secondStepPath [] v)))"

definition secondStep :: "'a site \<Rightarrow> 'a world handler" where
  "secondStep S r = renderSecondStep S r StatusOK (query_get (rq_query r) ''method'') no_form"

definition form_answer :: "request \<Rightarrow> answer" where
  "form_answer r = \<lparr>an_method = method_of (PostFormValue r ''method''), an_code = PostFormValue r ''code'',
     an_key = bytes_of (PostFormValue r ''key'')\<rparr>"

definition wrongAnswer :: "fmethod \<Rightarrow> web_form" where
  "wrongAnswer m =
     (if m = MethodKey then no_form\<lparr>fo_error := ''identity.key.refused''\<rparr>
      else no_form\<lparr>fo_error := ''identity.challenge.wrong'', fo_field := ''code''\<rparr>)"

fun codeRefusal :: "id_error \<Rightarrow> string option" where
  "codeRefusal ErrCodeTooSoon = Some ''identity.email.too_soon''"
| "codeRefusal ErrCodeTooMany = Some ''identity.email.too_many''"
| "codeRefusal _ = None"

definition StatusTooManyRequests :: nat where "StatusTooManyRequests = 429"

definition sendSecondStepCode :: "'a site \<Rightarrow> 'a world handler" where
  "sendSecondStepCode S r =
     (let token = challengeToken r in
      if token = [] then backToSignIn r ''expired''
      else ask (\<lambda>m. SendChallengeCode (st_service S) (visit_of r) token [] (mo_code m) (mo_now m))
        (\<lambda>answer. case answer of
           Inr _ \<Rightarrow> see_other r (here r @ secondStepPath @ ''?method=email&sent=1'')
         | Inl e \<Rightarrow>
             (case codeRefusal e of
                Some key \<Rightarrow> renderSecondStep S r StatusTooManyRequests (method_name MethodEmail) (no_form\<lparr>fo_error := key\<rparr>)
              | None \<Rightarrow>
                  if e = ErrChallengeInvalid then backToSignIn r ''expired''
                  else if e = ErrCodesLocked then renderSecondStep S r lockRefused (method_name MethodEmail) no_form
                  else if e = ErrNotPermitted then not_found
                  else internal_error)))"

definition answerSecondStep :: "'a site \<Rightarrow> 'a world handler" where
  "answerSecondStep S r =
     (let token = challengeToken r; answer = form_answer r; m = an_method answer in
      if token = [] then backToSignIn r ''expired''
      else ask_sweep (\<lambda>mo lst. CompleteSignIn (st_service S) (visit_of r) token answer (mo_draws mo) (mo_now mo) lst (mo_later mo))
        (\<lambda>signed. case signed of
           Inr done_as \<Rightarrow>
             (if si_recovery done_as then see_other r (here r @ securityPath @ ''?'' @ Encode [(''done'', ''recovery_used'')])
              else see_other r (here r @ ''/'')) \<circ>
             on_writer (clearChallenge r) \<circ> openSession S r (si_session done_as)
         | Inl e \<Rightarrow>
             if e = ErrCodesLocked then renderSecondStep S r lockRefused (method_name m) no_form
             else if e = ErrCodeWrong then renderSecondStep S r PageUnauthorized (method_name m) (wrongAnswer m)
             else if e = ErrChallengeExhausted then backToSignIn r ''exhausted''
             else if e = ErrChallengeInvalid then backToSignIn r ''expired''
             else internal_error))"

end
