(* ===== verification/SiteFactors.thy ===== *)
theory SiteFactors
  imports SiteIdentity
begin

text \<open>
  The step-up and the pages that add and remove second factors:
  src/internal/platform/httpx/stepup.go and factors.go.
\<close>

subsection \<open>The step-up page\<close>

definition stepUpAgain :: "(string \<times> string) list" where
  "stepUpAgain = [(''expired'', ''identity.stepup.expired''), (''exhausted'', ''identity.stepup.exhausted'')]"

definition stepUpTarget :: "string \<Rightarrow> string \<Rightarrow> (action \<times> string) option" where
  "stepUpTarget act return =
     (case ParseAction act of (parsed, ok) \<Rightarrow> if ok then Some (parsed, safePath return) else None)"

definition stepUpQuery :: "action \<Rightarrow> string \<Rightarrow> (string \<times> string) list" where
  "stepUpQuery act return = [(''for'', action_name act), (''next'', return)]"

definition stepUpBase :: "request \<Rightarrow> action \<Rightarrow> string \<Rightarrow> string" where
  "stepUpBase r act return = here r @ stepUpPath @ ''?'' @ Encode (stepUpQuery act return) @ ''&''"

definition stepUpAt :: "request \<Rightarrow> (string \<times> string) list \<Rightarrow> 'a responder" where
  "stepUpAt r query = see_other r (here r @ stepUpPath @ ''?'' @ Encode query)"

text \<open>\<^verbatim>\<open>liveStepUp\<close>: the challenge still answers, and is for this action.\<close>

definition liveStepUp :: "'a site \<Rightarrow> request \<Rightarrow> string \<Rightarrow> action \<Rightarrow> (bool \<Rightarrow> 'a responder) \<Rightarrow> 'a responder" where
  "liveStepUp S r token act k =
     (if token = [] then k False
      else ask (\<lambda>m. Pending (st_service S) (visit_of r) token (se_id (session_in r)) (mo_now m))
        (\<lambda>answer. k (case answer of Inl _ \<Rightarrow> False | Inr p \<Rightarrow> pe_action p = act)))"

definition renderStepUp :: "'a site \<Rightarrow> request \<Rightarrow> nat \<Rightarrow> string \<Rightarrow> action \<Rightarrow> string \<Rightarrow> string \<Rightarrow> web_form \<Rightarrow> 'a responder" where
  "renderStepUp S r status token act return chosen form =
     ask (\<lambda>m. Pending (st_service S) (visit_of r) token (se_id (session_in r)) (mo_now m))
       (\<lambda>answer. case answer of
          Inl _ \<Rightarrow> internal_error
        | Inr p \<Rightarrow>
            keyOptions S r ((challengeView p chosen (stepUpBase r act return))
                \<lparr>wc_next := return, wc_form := form, wc_sent := (query_get (rq_query r) ''sent'' = ''1''),
                 wc_refused := (status = lockRefused)\<rparr>) token (se_id (session_in r))
              (\<lambda>prepared. case prepared of
                 Inl _ \<Rightarrow> internal_error
               | Inr v \<Rightarrow> challenge_page S r status stepUpPath (stepUpQuery act return) v))"

definition stepUpPage :: "'a site \<Rightarrow> 'a world handler" where
  "stepUpPage S r =
     (case stepUpTarget (query_get (rq_query r) ''for'') (query_get (rq_query r) ''next'') of
        None \<Rightarrow> not_found
      | Some (act, return) \<Rightarrow>
          (let show = (\<lambda>token. renderStepUp S r StatusOK token act return (query_get (rq_query r) ''method'')
                 (no_form\<lparr>fo_error := look_up stepUpAgain (query_get (rq_query r) ''again'')\<rparr>)) in
           liveStepUp S r (challengeToken r) act (\<lambda>live.
             if live then show (challengeToken r)
             else ask (\<lambda>m. BeginStepUp (st_service S) (visit_of r) (session_in r) act (mo_draws m) (mo_now m))
               (\<lambda>answer. case answer of
                  Inl e \<Rightarrow> if e = ErrNoSecondFactor then not_found else internal_error
                | Inr token \<Rightarrow> show token \<circ> on_writer (setChallenge r token)))))"

definition answerStepUp :: "'a site \<Rightarrow> 'a world handler" where
  "answerStepUp S r =
     (case stepUpTarget (PostFormValue r ''for'') (PostFormValue r ''next'') of
        None \<Rightarrow> not_found
      | Some (act, return) \<Rightarrow>
          (let token = challengeToken r; answer = form_answer r; m = an_method answer;
               restart = (\<lambda>why. stepUpAt r (stepUpQuery act return @ [(''again'', why)])) in
           ask (\<lambda>mo. StepUp (st_service S) (visit_of r) (session_in r) token answer (mo_now mo))
             (\<lambda>result. case result of
                Inr _ \<Rightarrow> see_other r (here r @ return) \<circ> on_writer (clearChallenge r)
              | Inl e \<Rightarrow>
                  if e = ErrCodesLocked then renderStepUp S r lockRefused token act return (method_name m) no_form
                  else if e = ErrCodeWrong then renderStepUp S r PageUnauthorized token act return (method_name m) (wrongAnswer m)
                  else if e = ErrChallengeExhausted then restart ''exhausted''
                  else if e = ErrChallengeInvalid then restart ''expired''
                  else internal_error)))"

definition sendStepUpCode :: "'a site \<Rightarrow> 'a world handler" where
  "sendStepUpCode S r =
     (case stepUpTarget (PostFormValue r ''for'') (PostFormValue r ''next'') of
        None \<Rightarrow> not_found
      | Some (act, return) \<Rightarrow>
          (let token = challengeToken r in
           ask (\<lambda>m. SendChallengeCode (st_service S) (visit_of r) token (se_id (session_in r)) (mo_code m) (mo_now m))
             (\<lambda>answer. case answer of
                Inr _ \<Rightarrow> stepUpAt r (stepUpQuery act return @ [(''method'', method_name MethodEmail), (''sent'', ''1'')])
              | Inl e \<Rightarrow>
                  (case codeRefusal e of
                     Some key \<Rightarrow> renderStepUp S r StatusTooManyRequests token act return (method_name MethodEmail) (no_form\<lparr>fo_error := key\<rparr>)
                   | None \<Rightarrow>
                       if e = ErrCodesLocked then renderStepUp S r lockRefused token act return (method_name MethodEmail) no_form
                       else if e = ErrChallengeInvalid then stepUpAt r (stepUpQuery act return @ [(''again'', ''expired'')])
                       else if e = ErrNotPermitted then not_found
                       else internal_error))))"

subsection \<open>The security page\<close>

definition securityDone :: "(string \<times> string) list" where
  "securityDone = [(''added'', ''identity.security.done.added''), (''removed'', ''identity.security.done.removed'')]"

definition toSecurity :: "request \<Rightarrow> string \<Rightarrow> 'a responder" where
  "toSecurity r what = see_other r (here r @ securityPath @ ''?done='' @ what)"

definition shown_date :: "'a site \<Rightarrow> string \<Rightarrow> time \<Rightarrow> string" where
  "shown_date S tag t =
     (case st_clock S t of (written_as, month, weekday) \<Rightarrow>
        Date (\<lambda>key. st_say S tag key []) written_as ''format.date.short'' month weekday)"

definition factor_row_shown :: "'a site \<Rightarrow> string \<Rightarrow> factor_shown \<Rightarrow> web_factor" where
  "factor_row_shown S tag f = \<lparr>wf_id = fs_id f, wf_method = method_name (fs_method f), wf_label = fs_label f,
     wf_added = shown_date S tag (fs_created f),
     wf_used = (case fs_used f of None \<Rightarrow> [] | Some t \<Rightarrow> shown_date S tag t)\<rparr>"

definition security_view :: "'a site \<Rightarrow> request \<Rightarrow> (web_security option \<Rightarrow> 'a responder) \<Rightarrow> 'a responder" where
  "security_view S r k =
     ask (\<lambda>m. Security (visit_of r) (session_in r))
       (\<lambda>answer. case answer of
          Inl _ \<Rightarrow> k None
        | Inr found \<Rightarrow> k (Some \<lparr>ws_factors = map (factor_row_shown S (language_in r)) (sec_factors found),
            ws_issued = sec_issued found, ws_left = sec_left found, ws_done = [], ws_args = [], ws_form = no_form\<rparr>))"

definition securityPage :: "'a site \<Rightarrow> 'a world handler" where
  "securityPage S r =
     security_view S r (\<lambda>view. case view of
        None \<Rightarrow> internal_error
      | Some v \<Rightarrow>
          (let asked = query_get (rq_query r) ''done'';
               v = v\<lparr>ws_done := look_up securityDone asked\<rparr>;
               v = (if asked = ''recovery_used''
                    then v\<lparr>ws_done := ''identity.security.done.recovery_used'', ws_args := [ws_left v]\<rparr> else v) in
           show_page S r StatusOK securityPath (VSecurity v)))"

subsection \<open>Adding an app\<close>

text \<open>\<^verbatim>\<open>base64.StdEncoding\<close> pads to groups of four; the key is ASCII, written in groups of four.\<close>

definition padded_base64 :: "string \<Rightarrow> string" where
  "padded_base64 s = s @ replicate ((4 - length s mod 4) mod 4) (CHR ''='')"

definition qrDataURI :: "'a site \<Rightarrow> string \<Rightarrow> string option" where
  "qrDataURI S uri =
     (case st_qr S uri of None \<Rightarrow> None
      | Some png \<Rightarrow> Some (''data:image/png;base64,'' @ padded_base64 (EncodeToString b64_std png)))"

fun grouped_from :: "nat \<Rightarrow> string \<Rightarrow> string" where
  "grouped_from i [] = []"
| "grouped_from i (c # cs) = (if 0 < i \<and> i mod 4 = 0 then [CHR '' '', c] else [c]) @ grouped_from (Suc i) cs"

definition grouped :: "string \<Rightarrow> string" where "grouped key = grouped_from 0 key"

definition totpSecretBytes :: nat where "totpSecretBytes = 20"

definition renderApp :: "'a site \<Rightarrow> request \<Rightarrow> nat \<Rightarrow> app_enrolment \<Rightarrow> string \<Rightarrow> web_form \<Rightarrow> 'a responder" where
  "renderApp S r status enrolment label form =
     (case qrDataURI S (ae_uri enrolment) of
        None \<Rightarrow> internal_error
      | Some uri \<Rightarrow> show_page S r status (securityPath @ ''/app'')
          (VApp \<lparr>wa_qr = uri, wa_key = grouped (ae_key enrolment), wa_label = label, wa_max = MaxLabelLength, wa_form = form\<rparr>))"

text \<open>What an enrolment answers when it is refused for good.\<close>

definition enrolment_refused :: "request \<Rightarrow> string \<Rightarrow> id_error \<Rightarrow> 'a responder" where
  "enrolment_refused r return e =
     (if e = ErrNotPermitted then not_found
      else if e = ErrStepUpNeeded then toStepUp r ActionFactors return
      else internal_error)"

definition appForm :: "'a site \<Rightarrow> 'a world handler" where
  "appForm S r =
     (let answered = (\<lambda>answer. case answer of
            Inl e \<Rightarrow> enrolment_refused r (securityPath @ ''/app'') e
          | Inr enrolment \<Rightarrow> renderApp S r StatusOK enrolment [] no_form) in
      ask (\<lambda>m. PendingApp (st_service S) (visit_of r) (session_in r) (mo_now m) (mo_later m))
        (\<lambda>answer. if answer = Inl ErrNoEnrolment
          then ask (\<lambda>m. BeginApp (st_service S) (visit_of r) (session_in r) (mo_bytes m totpSecretBytes) (mo_now m) (mo_later m)) answered
          else answered answer))"

definition recovery_page :: "'a site \<Rightarrow> request \<Rightarrow> string list \<Rightarrow> bool \<Rightarrow> 'a responder" where
  "recovery_page S r given added = show_page S r StatusOK securityPath (VRecovery given added)"

definition addApp :: "'a site \<Rightarrow> 'a world handler" where
  "addApp S r =
     (let label = PostFormValue r ''label'';
          restart = see_other r (here r @ securityPath @ ''/app'');
          refuse = (\<lambda>key args. ask (\<lambda>m. PendingApp (st_service S) (visit_of r) (session_in r) (mo_now m) (mo_later m))
            (\<lambda>answer. case answer of
               Inl e \<Rightarrow> if e = ErrNoEnrolment then restart else enrolment_refused r (securityPath @ ''/app'') e
             | Inr enrolment \<Rightarrow> renderApp S r StatusUnprocessableEntity enrolment label (refused_form appFields key args no_form))) in
      ask (\<lambda>m. ConfirmApp (st_service S) (visit_of r) (session_in r) label (PostFormValue r ''code'') (mo_rolls m) (mo_now m) (mo_later m))
        (\<lambda>answer. case answer of
           Inr given \<Rightarrow> if given = [] then toSecurity r ''added'' else recovery_page S r given True
         | Inl e \<Rightarrow>
             if e = ErrNoEnrolment then restart
             else if e = ErrCodeWrong then refuse ''identity.app.wrong_code'' []
             else if e = ErrLabelInvalid then refuse ''identity.error.label_invalid'' [MaxLabelLength]
             else enrolment_refused r (securityPath @ ''/app'') e))"

subsection \<open>Removing a factor, new recovery codes\<close>

definition removeFactor :: "'a site \<Rightarrow> 'a world handler" where
  "removeFactor S r =
     ask (\<lambda>m. RemoveFactor (st_service S) (visit_of r) (session_in r) (PostFormValue r ''factor'') (mo_now m))
       (\<lambda>answer. case answer of
          Inr _ \<Rightarrow> toSecurity r ''removed''
        | Inl e \<Rightarrow>
            if e = ErrStepUpNeeded then toStepUp r ActionFactors securityPath
            else if e = ErrFactorUnknown then not_found
            else if e = ErrFactorRequired then
              security_view S r (\<lambda>view. case view of
                 None \<Rightarrow> internal_error
               | Some v \<Rightarrow> show_page S r StatusUnprocessableEntity securityPath
                   (VSecurity (v\<lparr>ws_form := (ws_form v)\<lparr>fo_error := ''identity.security.error.required''\<rparr>\<rparr>)))
            else internal_error)"

definition regenerateCodes :: "'a site \<Rightarrow> 'a world handler" where
  "regenerateCodes S r =
     ask (\<lambda>m. RegenerateRecoveryCodes (st_service S) (visit_of r) (session_in r) (mo_rolls m) (mo_now m))
       (\<lambda>answer. case answer of
          Inr given \<Rightarrow> recovery_page S r given False
        | Inl e \<Rightarrow>
            if e = ErrStepUpNeeded then toStepUp r ActionFactors securityPath
            else if e = ErrNoSecondFactor then see_other r (here r @ securityPath)
            else internal_error)"

subsection \<open>Adding e-mail\<close>

definition renderEmail :: "'a site \<Rightarrow> request \<Rightarrow> nat \<Rightarrow> bool \<Rightarrow> web_form \<Rightarrow> 'a responder" where
  "renderEmail S r status sent form =
     show_page S r status (securityPath @ ''/email'') (VEmail (Email (se_account (session_in r))) sent form)"

definition emailForm :: "'a site \<Rightarrow> 'a world handler" where
  "emailForm S r = renderEmail S r StatusOK (query_get (rq_query r) ''sent'' = ''1'') no_form"

definition emailError :: "request \<Rightarrow> id_error \<Rightarrow> 'a responder" where
  "emailError r e =
     (if e = ErrAlreadyEnrolled then see_other r (here r @ securityPath)
      else enrolment_refused r (securityPath @ ''/email'') e)"

definition sendEmailCode :: "'a site \<Rightarrow> 'a world handler" where
  "sendEmailCode S r =
     ask (\<lambda>m. BeginEmail (st_service S) (visit_of r) (session_in r) (mo_code m) (mo_now m) (mo_later m))
       (\<lambda>answer. case answer of
          Inr _ \<Rightarrow> see_other r (here r @ securityPath @ ''/email?sent=1'')
        | Inl e \<Rightarrow>
            (case codeRefusal e of
               Some key \<Rightarrow> renderEmail S r StatusTooManyRequests False (no_form\<lparr>fo_error := key\<rparr>)
             | None \<Rightarrow> emailError r e))"

definition addEmail :: "'a site \<Rightarrow> 'a world handler" where
  "addEmail S r =
     ask (\<lambda>m. ConfirmEmail (st_service S) (visit_of r) (session_in r) (PostFormValue r ''code'') (mo_now m) (mo_later m))
       (\<lambda>answer. case answer of
          Inr _ \<Rightarrow> toSecurity r ''added''
        | Inl e \<Rightarrow>
            if e = ErrCodeWrong then renderEmail S r StatusUnprocessableEntity False
              (no_form\<lparr>fo_error := ''identity.email.wrong'', fo_field := ''code''\<rparr>)
            else emailError r e)"

subsection \<open>Adding a key\<close>

definition renderKey :: "'a site \<Rightarrow> request \<Rightarrow> nat \<Rightarrow> string \<Rightarrow> web_form \<Rightarrow> 'a responder" where
  "renderKey S r status label form =
     ask (\<lambda>m. BeginKey (st_service S) (visit_of r) (session_in r) (mo_now m) (mo_later m))
       (\<lambda>answer. case answer of
          Inl e \<Rightarrow> enrolment_refused r (securityPath @ ''/key'') e
        | Inr options \<Rightarrow> show_page S r status (securityPath @ ''/key'')
            (VKey \<lparr>wk_options = text_of options, wk_label = label, wk_max = MaxLabelLength, wk_form = form\<rparr>))"

definition keyForm :: "'a site \<Rightarrow> 'a world handler" where
  "keyForm S r = renderKey S r StatusOK [] no_form"

definition addKey :: "'a site \<Rightarrow> 'a world handler" where
  "addKey S r =
     (let label = PostFormValue r ''label''; credential = PostFormValue r ''credential'';
          refuse = (\<lambda>form. renderKey S r StatusUnprocessableEntity label form) in
      if trim_space credential = [] then refuse (no_form\<lparr>fo_error := ''identity.key.enrol_needs_script''\<rparr>)
      else ask (\<lambda>m. ConfirmKey (st_service S) (visit_of r) (session_in r) label (bytes_of credential) (mo_rolls m) (mo_now m) (mo_later m))
        (\<lambda>answer. case answer of
           Inr given \<Rightarrow> if given = [] then toSecurity r ''added'' else recovery_page S r given True
         | Inl e \<Rightarrow>
             if e = ErrNoEnrolment then see_other r (here r @ securityPath @ ''/key'')
             else if e = ErrKeyRefused then refuse (no_form\<lparr>fo_error := ''identity.key.refused''\<rparr>)
             else if e = ErrLabelInvalid then refuse (no_form\<lparr>fo_error := ''identity.error.label_invalid'',
                 fo_args := [MaxLabelLength], fo_field := ''label''\<rparr>)
             else enrolment_refused r (securityPath @ ''/key'') e))"

end
