(* ===== verification/SiteRoutes.thy ===== *)
theory SiteRoutes
  imports Endpoints SiteFactors
begin

text \<open>
  The console's pages and who may open them (console.go), the routes of both kinds of host
  (site.go, identity.go, factors.go), the multiplexer that finds them, and the process they
  are composed into (src/cmd/marketplace/main.go).
\<close>

subsection \<open>The console\<close>

definition ConsoleVersionPath :: string where "ConsoleVersionPath = ''/console/version''"
definition enrolPath :: string where "enrolPath = ''/enrol''"
definition setupPath :: string where "setupPath = ''/setup''"

definition staffOnly :: "'a world handler \<Rightarrow> 'a world handler" where "staffOnly nxt = signedIn nxt"

definition withFactor :: "'a world handler \<Rightarrow> 'a world handler" where
  "withFactor nxt = (\<lambda>r. if \<not> se_second (session_in r) then see_other r (here r @ enrolPath) else nxt r)"

definition permitted :: "'a site \<Rightarrow> string \<Rightarrow> 'a world handler \<Rightarrow> 'a world handler" where
  "permitted S permission nxt = (\<lambda>r. allows S r permission (\<lambda>ok. if ok then nxt r else not_found))"

definition enrolPage :: "'a site \<Rightarrow> 'a world handler" where
  "enrolPage S r =
     (if se_second (session_in r) then see_other r (here r @ ''/'')
      else show_page S r StatusOK enrolPath VConsoleEnrol)"

definition consoleHome :: "'a site \<Rightarrow> 'a world handler" where
  "consoleHome S r = show_page S r StatusOK ''/'' VConsoleHome"

definition version_json :: "'a site \<Rightarrow> writer \<Rightarrow> writer" where
  "version_json S w = write_body (json_map [(''version'', st_version S)] @ [CHR 0x0A])
     (set_header ''Cache-Control'' ''no-store'' (set_header ''Content-Type'' ''application/json'' w))"

definition consoleVersion :: "'a site \<Rightarrow> 'a world handler" where
  "consoleVersion S r = allows S r ConsoleVersion (\<lambda>ok. if ok then on_writer (version_json S) else not_found)"

definition withConsoleName :: "'a site \<Rightarrow> request \<Rightarrow> request" where
  "withConsoleName S r = r\<lparr>cx_console := st_say S (language_in r) ''console.title'' []\<rparr>"

text \<open>\<^verbatim>\<open>setupOpen\<close>: what follows is served only while the first run is open.\<close>

definition setupOpen :: "'a site \<Rightarrow> (first_run \<Rightarrow> 'a responder) \<Rightarrow> 'a responder" where
  "setupOpen S k =
     (case st_first_run S of
        None \<Rightarrow> not_found
      | Some B \<Rightarrow> ask (\<lambda>m. setup_open B)
          (\<lambda>answer. case answer of Inl _ \<Rightarrow> internal_error | Inr opened \<Rightarrow> if opened then k B else not_found))"

definition setupForm :: "'a site \<Rightarrow> 'a world handler" where
  "setupForm S r = setupOpen S (\<lambda>_. show_page S r StatusOK setupPath (VSetup newForm))"

definition post_setup :: "'a site \<Rightarrow> 'a world handler" where
  "post_setup S r =
     (let form = newForm\<lparr>fo_name := PostFormValue r ''name'', fo_email := PostFormValue r ''email''\<rparr>;
          refuse = (\<lambda>status key args. show_page S r status setupPath (VSetup (refused_form setupFields key args form))) in
      setupOpen S (\<lambda>B.
        ask (\<lambda>m. Setup (st_service S) B (visit_of r) (PostFormValue r ''token'') (fo_name form) (fo_email form)
               (PostFormValue r ''password'') (mo_draws m) (mo_other m) (mo_now m))
          (\<lambda>answer. case answer of
             Inr token \<Rightarrow> see_other r (here r @ enrolPath) \<circ> openSession S r token
           | Inl e \<Rightarrow>
               if e = ErrSetupClosed then not_found
               else if e = ErrTokenWrong then refuse PageUnauthorized ''console.setup.wrong_token'' []
               else (case formError e of
                       Some (key, args) \<Rightarrow> refuse StatusUnprocessableEntity key args
                     | None \<Rightarrow> internal_error))))"

subsection \<open>The pages outside the language and the home\<close>

definition get_health :: "'a site \<Rightarrow> 'a world handler" where
  "get_health S r = (\<lambda>(w, s).
     (health (st_version S) (if st_database S then Some (mo_pings (moment_of s)) else None) w, ticked s))"

definition get_preview :: "'a site \<Rightarrow> 'a world handler" where
  "get_preview S r =
     (let shop = (case cx_resolution r of Some (MarketplaceHost m) \<Rightarrow> mp_name m
        | _ \<Rightarrow> st_say S DefaultTag ''page.platform.title'' []) in
      case st_preview S shop of
        None \<Rightarrow> internal_error
      | Some png \<Rightarrow> on_writer (\<lambda>w. write_body png
          (set_header ''Cache-Control'' ''public, max-age=86400'' (set_header ''Content-Type'' ''image/png'' w))))"

definition get_home :: "'a site \<Rightarrow> 'a world handler" where
  "get_home S r = page_for S r ''/'' (\<lambda>p. renderStatus S StatusOK p (if wp_marketplace p = [] then VPlatform else VHome))"

subsection \<open>The multiplexer\<close>

text \<open>
  \<^verbatim>\<open>http.ServeMux\<close>: a pattern of GET answers HEAD too. An address that is not clean is sent to
  its clean form; the program's patterns are whole addresses, but for the one of the mail
  provider, whose last segment is any. A path whose slashes arrived escaped is left out.
\<close>

record 'a route =
  rt_method :: string
  rt_path :: "string \<Rightarrow> bool"
  rt_handler :: "'a world handler"

definition mount :: "string \<Rightarrow> string \<Rightarrow> 'a world handler \<Rightarrow> 'a route" where
  "mount method path h = \<lparr>rt_method = method, rt_path = (\<lambda>p. p = path), rt_handler = h\<rparr>"

definition answers_method :: "string \<Rightarrow> string \<Rightarrow> bool" where
  "answers_method pattern method \<longleftrightarrow> method = pattern \<or> (pattern = ''GET'' \<and> method = ''HEAD'')"

definition cleanPath :: "string \<Rightarrow> string" where
  "cleanPath path = clean_keeping_slash (if has_prefix ''/'' path then path else CHR ''/'' # path)"

definition allowed_methods :: "'a route list \<Rightarrow> string \<Rightarrow> string list" where
  "allowed_methods routes path =
     (let ms = map rt_method (filter (\<lambda>t. rt_path t path) routes) in
      sort (remdups (ms @ (if ''GET'' \<in> set ms then [''HEAD''] else []))))"

definition serve_mux :: "'a route list \<Rightarrow> 'a world handler" where
  "serve_mux routes r =
     (let escaped = path_escape (rq_path r); path = cleanPath escaped in
      if rq_method r \<noteq> ''CONNECT'' \<and> path \<noteq> escaped
      then on_writer (http_redirect r (url_string path (rq_query r)) StatusMovedPermanently)
      else case find (\<lambda>t. rt_path t (rq_path r) \<and> answers_method (rt_method t) (rq_method r)) routes of
             Some t \<Rightarrow> rt_handler t r
           | None \<Rightarrow>
               if allowed_methods routes (rq_path r) = [] then not_found
               else on_writer (\<lambda>w. http_error ''Method Not Allowed'' 405
                      (set_header ''Allow'' (join_text '', '' (allowed_methods routes (rq_path r))) w)))"

subsection \<open>The routes of a marketplace and of the platform\<close>

definition factorRoutes :: "'a site \<Rightarrow> 'a route list" where
  "factorRoutes S =
     (let changes = (\<lambda>return h. inMarketplace (signedIn (steppedUp ActionFactors return h))) in
      [mount ''GET'' ''/account/security'' (inMarketplace (signedIn (securityPage S))),
       mount ''GET'' ''/account/security/app'' (changes (securityPath @ ''/app'') (appForm S)),
       mount ''POST'' ''/account/security/app'' (changes (securityPath @ ''/app'') (addApp S)),
       mount ''POST'' ''/account/security/remove'' (changes securityPath (removeFactor S)),
       mount ''POST'' ''/account/security/recovery'' (changes securityPath (regenerateCodes S)),
       mount ''GET'' ''/account/security/key'' (changes (securityPath @ ''/key'') (keyForm S)),
       mount ''POST'' ''/account/security/key'' (changes (securityPath @ ''/key'') (addKey S)),
       mount ''GET'' ''/account/security/email'' (changes (securityPath @ ''/email'') (emailForm S)),
       mount ''POST'' ''/account/security/email/send'' (changes (securityPath @ ''/email'') (sendEmailCode S)),
       mount ''POST'' ''/account/security/email'' (changes (securityPath @ ''/email'') (addEmail S))])"

definition identityRoutes :: "'a site \<Rightarrow> 'a route list" where
  "identityRoutes S =
     (let limit = limited_by S; address = byAddress (st_service S) in
      if \<not> st_accounts S then []
      else
      [mount ''GET'' ''/signup'' (inMarketplace (signUpForm S)),
       mount ''POST'' ''/signup'' (inMarketplace (limit LimitSignUp byIP (post_signUp S))),
       mount ''GET'' ''/verify'' (inMarketplace (verifyForm S)),
       mount ''POST'' ''/verify'' (inMarketplace (post_verify S)),
       mount ''GET'' ''/verify/resend'' (inMarketplace (resendForm S)),
       mount ''POST'' ''/verify/resend'' (inMarketplace (limit LimitResend byIP (limit LimitResendAddress address (post_resend S)))),
       mount ''GET'' ''/signin'' (inMarketplace (signInForm S)),
       mount ''POST'' ''/signin'' (inMarketplace (limit LimitSignIn byIP (limit LimitSignInAddress address (post_signIn S)))),
       mount ''GET'' secondStepPath (inMarketplace (secondStep S)),
       mount ''POST'' secondStepPath (inMarketplace (limit LimitSignIn byIP (by_challenge S LimitSignInAddress (answerSecondStep S)))),
       mount ''POST'' (secondStepPath @ ''/email'') (inMarketplace (limit LimitSignIn byIP (by_challenge S LimitSignInAddress (sendSecondStepCode S)))),
       mount ''POST'' ''/signout'' (inMarketplace (post_signOut S)),
       mount ''GET'' ''/account/password'' (inMarketplace (signedIn (steppedUp ActionPassword ''/account/password'' (passwordForm S)))),
       mount ''POST'' ''/account/password'' (inMarketplace (signedIn (steppedUp ActionPassword ''/account/password''
         (limit LimitPassword byAccount (post_changePassword S))))),
       mount ''GET'' stepUpPath (inMarketplace (signedIn (stepUpPage S))),
       mount ''POST'' stepUpPath (inMarketplace (signedIn (limit LimitStepUp byAccount (answerStepUp S)))),
       mount ''POST'' (stepUpPath @ ''/email'') (inMarketplace (signedIn (limit LimitStepUp byAccount (sendStepUpCode S))))]
      @ factorRoutes S)"

definition webhook_path :: "string \<Rightarrow> bool" where
  "webhook_path p \<longleftrightarrow> has_prefix MailWebhookPrefix p \<and>
     (let provider = drop (length MailWebhookPrefix) p in provider \<noteq> [] \<and> CHR ''/'' \<notin> set provider)"

definition callback_routes :: "'a site \<Rightarrow> 'a route list" where
  "callback_routes S =
     (case st_tasks S of None \<Rightarrow> [] | Some (t, decoded) \<Rightarrow> [mount ''POST'' TasksPath (post_tasks t decoded)]) @
     (case st_mail S of None \<Rightarrow> [] | Some h \<Rightarrow> [\<lparr>rt_method = ''POST'', rt_path = webhook_path, rt_handler = post_webhook h\<rparr>])"

definition shared_routes :: "'a site \<Rightarrow> bool \<Rightarrow> 'a route list" where
  "shared_routes S indexable =
     [mount ''GET'' HealthPath (get_health S), mount ''GET'' RobotsPath (\<lambda>r. on_writer (robots indexable [])),
      mount ''GET'' ScriptPath (get_script S),
      mount ''POST'' LanguagePath (\<lambda>r. on_writer (switchLanguage (st_catalogue S) r))]"

definition siteRoutes :: "'a site \<Rightarrow> 'a route list" where
  "siteRoutes S = shared_routes S (st_indexable S) @ [mount ''GET'' PreviewPath (get_preview S)] @
     callback_routes S @ identityRoutes S @ [mount ''GET'' ''/'' (get_home S)]"

subsection \<open>The routes of the console\<close>

definition secured :: "'a world handler \<Rightarrow> 'a world handler" where
  "secured h = staffOnly (withFactor h)"

definition consolePages :: "'a site \<Rightarrow> 'a route list" where
  "consolePages S =
     (let limit = limited_by S; address = byAddress (st_service S);
          enrolling = (\<lambda>return h. staffOnly (steppedUp ActionFactors return h));
          changes = (\<lambda>return h. secured (steppedUp ActionFactors return h)) in
      [mount ''GET'' setupPath (setupForm S),
       mount ''POST'' setupPath (limit LimitSetup byIP (post_setup S)),
       mount ''GET'' ''/signin'' (signInForm S),
       mount ''POST'' ''/signin'' (limit LimitSignIn byIP (limit LimitSignInAddress address (post_signIn S))),
       mount ''GET'' secondStepPath (secondStep S),
       mount ''POST'' secondStepPath (limit LimitSignIn byIP (by_challenge S LimitSignInAddress (answerSecondStep S))),
       mount ''POST'' ''/signout'' (post_signOut S),
       mount ''GET'' enrolPath (staffOnly (enrolPage S)),
       mount ''GET'' (securityPath @ ''/app'') (enrolling (securityPath @ ''/app'') (appForm S)),
       mount ''POST'' (securityPath @ ''/app'') (enrolling (securityPath @ ''/app'') (addApp S)),
       mount ''GET'' (securityPath @ ''/key'') (enrolling (securityPath @ ''/key'') (keyForm S)),
       mount ''POST'' (securityPath @ ''/key'') (enrolling (securityPath @ ''/key'') (addKey S)),
       mount ''GET'' securityPath (secured (securityPage S)),
       mount ''POST'' (securityPath @ ''/remove'') (changes securityPath (removeFactor S)),
       mount ''POST'' (securityPath @ ''/recovery'') (changes securityPath (regenerateCodes S)),
       mount ''GET'' stepUpPath (secured (stepUpPage S)),
       mount ''POST'' stepUpPath (secured (limit LimitStepUp byAccount (answerStepUp S))),
       mount ''GET'' ''/account/password'' (secured (steppedUp ActionPassword ''/account/password'' (passwordForm S))),
       mount ''POST'' ''/account/password'' (secured (steppedUp ActionPassword ''/account/password''
         (limit LimitPassword byAccount (post_changePassword S)))),
       mount ''GET'' ''/'' (secured (permitted S ConsoleView (consoleHome S))),
       mount ''GET'' ConsoleVersionPath (consoleVersion S)])"

definition consoleRoutes :: "'a site \<Rightarrow> 'a route list" where
  "consoleRoutes S = shared_routes S False @ (if st_accounts S \<and> st_console S then consolePages S else [])"

definition SiteHandler :: "'a site \<Rightarrow> 'a world handler" where
  "SiteHandler S r =
     (if onConsole r
      then serve_mux (consoleRoutes S) (withConsoleName S r) \<circ> on_writer (set_header ''X-Robots-Tag'' noindex)
      else serve_mux (siteRoutes S) r)"

subsection \<open>The process\<close>

definition StatusServiceUnavailable :: nat where "StatusServiceUnavailable = 503"

text \<open>\<^verbatim>\<open>InPreparation\<close>: the language is the marketplace's own.\<close>

definition preparing_page :: "request \<Rightarrow> marketplace \<Rightarrow> web_page" where
  "preparing_page r m = (NewPage (mp_language m) [])\<lparr>wp_marketplace := mp_name m, wp_nonce := cx_nonce r,
     wp_default := CHR ''/'' # DefaultTag @ ''/''\<rparr>"

definition ResolveHost :: "'a site \<Rightarrow> string list \<Rightarrow> 'a world handler \<Rightarrow> 'a world handler" where
  "ResolveHost S bypass nxt = (\<lambda>r (w, s).
     (let m = moment_of s;
          (resolved, s) = (if rq_path r \<in> set bypass then (None, s)
            else case Resolve (mo_hosts m) (mo_now m) (mo_later m) (rq_host r) (wo_resolver s) of
                   (resolved, rs) \<Rightarrow> (resolved, (ticked s)\<lparr>wo_resolver := rs\<rparr>)) in
      case resolve_middleware bypass (rq_path r) resolved of
        Next answer \<Rightarrow> nxt (r\<lparr>cx_resolution := answer\<rparr>) (w, s)
      | CouldNotTell \<Rightarrow> on_writer (http_error ''the marketplace could not be determined'' StatusServiceUnavailable) (w, s)
      | UnknownHostPage \<Rightarrow> on_writer (UnknownHost (st_machine S)) (w, s)
      | InPreparationPage shop \<Rightarrow> renderStatus S StatusOK (preparing_page r shop) VPreparing
          (on_writer (set_header ''X-Robots-Tag'' noindex) (w, s))))"

definition language_exempt :: "string list \<Rightarrow> string list" where
  "language_exempt callbacks =
     [HealthPath, LanguagePath, RobotsPath, PreviewPath, TasksPath, ScriptPath, ConsoleVersionPath] @ callbacks"

text \<open>
  What a process with a database serves, behind the pipeline. The general limiter counts in
  memory (memory.go, floating point): it is the pipeline's parameter.
\<close>

definition Inside :: "'a site \<Rightarrow> 'a world pipeline \<Rightarrow> 'a world handler" where
  "Inside S p = ResolveHost S [HealthPath] (ResolveLanguage (NewLanguageResolver (st_catalogue S) Nowhere)
     (Speaks (st_catalogue S)) (language_exempt (pl_callbacks p)) (Sessions S (SiteHandler S)))"

definition Process :: "'a site \<Rightarrow> 'a world pipeline \<Rightarrow> 'a world handler" where
  "Process S p = Wrap (st_machine S) p (Inside S p)"

end
