(* ===== verification/SiteFrame.thy ===== *)
theory SiteFrame
  imports SiteRoutes LanguageProps GuardProps
begin

text \<open>
  What a response may carry, whatever the site answers. \<open>response_frame\<close> is the interface: a
  property of responses that survives every header the program sets, its four cookies, the
  status and the body. Inside it every handler is shown to keep the property; the
  interpretations are in SiteProps.
\<close>

subsection \<open>What the program writes\<close>

definition plain_headers :: "string list" where
  "plain_headers = [''Content-Type'', ''Cache-Control'', ''Retry-After'', ''Allow'', ''Access-Control-Allow-Origin'',
     ''Etag'', ''Accept-Ranges'', ''Content-Range'', ''Content-Length'']"

definition site_header :: "string \<Rightarrow> string \<Rightarrow> bool" where
  "site_header n v \<longleftrightarrow> n \<in> set plain_headers \<or> (n = ''Location'' \<and> on_site v) \<or>
     (n, v) \<in> set [(''X-Robots-Tag'', noindex), (''X-Content-Type-Options'', ''nosniff'')]"

definition site_cookie :: "bool \<Rightarrow> cookie \<Rightarrow> bool" where
  "site_cookie https c \<longleftrightarrow> ck_secure c = https \<and>
     ck_name c \<in> set (LanguageCookie # (if https then [sessionCookie, challengeCookie, csrfCookie]
        else [sessionCookieInsecure, challengeCookieInsecure, csrfCookieInsecure]))"

lemma site_header_plain [simp]:
  "site_header ''Content-Type'' v" "site_header ''Cache-Control'' v" "site_header ''Retry-After'' v"
  "site_header ''Allow'' v" "site_header ''Access-Control-Allow-Origin'' v" "site_header ''Etag'' v"
  "site_header ''Accept-Ranges'' v" "site_header ''Content-Range'' v" "site_header ''Content-Length'' v"
  "site_header ''X-Robots-Tag'' noindex" "site_header ''X-Content-Type-Options'' ''nosniff''"
  by (simp_all add: site_header_def plain_headers_def)

lemma site_header_Location: "on_site v \<Longrightarrow> site_header ''Location'' v"
  by (simp add: site_header_def)

lemma site_cookies:
  "isHTTPS r = https \<Longrightarrow> site_cookie https \<lparr>ck_name = sessionCookieName r, ck_value = v, ck_max_age = a, ck_secure = isHTTPS r\<rparr>"
  "isHTTPS r = https \<Longrightarrow> site_cookie https \<lparr>ck_name = challengeCookieName r, ck_value = v, ck_max_age = a, ck_secure = isHTTPS r\<rparr>"
  "isHTTPS r = https \<Longrightarrow> site_cookie https \<lparr>ck_name = csrfCookieName r, ck_value = v, ck_max_age = a, ck_secure = isHTTPS r\<rparr>"
  "isHTTPS r = https \<Longrightarrow> site_cookie https \<lparr>ck_name = LanguageCookie, ck_value = v, ck_max_age = a, ck_secure = isHTTPS r\<rparr>"
  by (auto simp: site_cookie_def sessionCookieName_def challengeCookieName_def csrfCookieName_def)

definition keeps_response :: "(writer \<Rightarrow> bool) \<Rightarrow> (writer \<times> 's \<Rightarrow> writer \<times> 's) \<Rightarrow> bool" where
  "keeps_response fine h \<longleftrightarrow> (\<forall>ws. fine (fst ws) \<longrightarrow> fine (fst (h ws)))"

lemma keeps_responseD: "keeps_response fine h \<Longrightarrow> fine (fst ws) \<Longrightarrow> fine (fst (h ws))"
  unfolding keeps_response_def by blast

subsection \<open>Addresses the handlers write\<close>

definition back_slash :: char where "back_slash = CHR 0x5C"

lemma clean_onto_subset: "set (clean_onto st ss) \<subseteq> set st \<union> set ss"
proof (induction st ss rule: clean_onto.induct)
  case (2 st s ss)
  have "set (tl st) \<subseteq> set st" by (cases st) auto
  then show ?case using 2 by auto
qed simp

lemma set_join_with: "set (join_with c ss) \<subseteq> insert c (\<Union>s \<in> set ss. set s)"
  by (induction ss) (auto simp: join_with_Cons)

lemma in_join_with: "s \<in> set ss \<Longrightarrow> set s \<subseteq> set (join_with c ss)"
  by (induction ss) (auto simp: join_with_Cons)

lemma set_clean: "set (clean_keeping_slash path) \<subseteq> insert (CHR ''/'') (set path)"
proof -
  have "set s \<subseteq> set (tl path)" if "s \<in> set (split_at (CHR ''/'') (tl path))" for s
    using in_join_with [OF that, of "CHR ''/''"] by (simp add: join_with_split)
  moreover have "set (tl path) \<subseteq> set path" by (cases path) auto
  ultimately have "set (Clean path) \<subseteq> insert (CHR ''/'') (set path)"
    using set_join_with [of "CHR ''/''" "clean_onto [] (split_at (CHR ''/'') (tl path))"]
      clean_onto_subset [of "[]" "split_at (CHR ''/'') (tl path)"]
    unfolding Clean_def by fastforce
  then show ?thesis by (auto simp: clean_keeping_slash_def)
qed

lemma cut_at_prefix:
  assumes "q = [] \<or> hd q = c"
  shows "set (fst (cut_at c (a @ q))) \<subseteq> set a"
proof (cases "c \<in> set a")
  case True
  then obtain xs ys where a: "a = xs @ c # ys" "c \<notin> set xs" by (meson split_list_first)
  then show ?thesis using cut_at_append [OF a(2), of "ys @ q"] by auto
next
  case False
  show ?thesis
  proof (cases q)
    case Nil
    then show ?thesis using cut_at_absent [OF False] by simp
  next
    case (Cons x t)
    then show ?thesis using assms cut_at_append [OF False, of t] by simp
  qed
qed

text \<open>
  A target that starts with one slash and has no backslash before its query stays on the site,
  however \<^verbatim>\<open>http.Redirect\<close> cleans it.
\<close>

lemma Location_kept:
  assumes t: "t \<noteq> []" "hd t \<noteq> CHR ''/''" and free: "back_slash \<notin> set (CHR ''/'' # t)" and q: "q = [] \<or> hd q = CHR ''?''"
  shows "on_site (Location (CHR ''/'' # t @ q))"
proof -
  let ?target = "CHR ''/'' # t @ q"
  have whole: "on_site ?target" using t free by (cases t) (auto simp: on_site_def back_slash_def)
  obtain path query asked where cut: "cut_at (CHR ''?'') ?target = (path, query, asked)" by (metis prod_cases3)
  have "set path \<subseteq> set (CHR ''/'' # t)" using cut_at_prefix [OF q, of "CHR ''/'' # t"] cut by simp
  with free have "back_slash \<notin> set (clean_keeping_slash path)"
    using set_clean [of path] by (auto simp: back_slash_def)
  moreover obtain ss slash where clean: "clean_form ss slash" "clean_keeping_slash path = rooted ss slash"
    by (rule clean_is_rooted)
  ultimately have no: "back_slash \<notin> set (rooted ss slash)" by simp
  define rest where "rest = (if asked then CHR ''?'' # query else [])"
  have "on_site (rooted ss slash @ rest)"
  proof (cases ss)
    case Nil
    then show ?thesis using clean(1) by (simp add: rooted_def on_site_def clean_form_def rest_def)
  next
    case (Cons s us)
    then have s: "s \<noteq> []" "CHR ''/'' \<notin> set s" using clean(1) by (auto simp: clean_form_def segment_def)
    then obtain a b where ab: "s = a # b" "a \<noteq> CHR ''/''" by (cases s) auto
    then have "a \<noteq> back_slash" using no Cons by (auto simp: rooted_def join_with_Cons)
    then show ?thesis using Cons ab by (simp add: rooted_def join_with_Cons on_site_def back_slash_def)
  qed
  then show ?thesis
    using whole unfolding Location_def cut prod.case clean(2) rest_def by (auto intro: on_site_hex)
qed

lemma tag_free: "tag_like t \<Longrightarrow> t \<noteq> [] \<and> hd t \<noteq> CHR ''/'' \<and> back_slash \<notin> set t"
proof -
  have "\<not> tag_char (CHR ''/'')" "\<not> tag_char back_slash" by (simp_all add: tag_char_def code_def back_slash_def)
  then show "tag_like t \<Longrightarrow> ?thesis"
    by (cases t) (auto simp: tag_like_def list_all_iff)
qed

lemma here_on_site:
  assumes "tag_like (language_in r)" and "back_slash \<notin> set p" and "q = [] \<or> hd q = CHR ''?''"
  shows "on_site (Location (here r @ p @ q))"
proof -
  have "back_slash \<notin> set (CHR ''/'' # language_in r @ p)"
    using tag_free [OF assms(1)] assms(2) by (auto simp: back_slash_def)
  then show ?thesis
    using Location_kept [of "language_in r @ p" q] tag_free [OF assms(1)] assms(3)
    by (simp add: here_def)
qed

lemma safePath_free: "back_slash \<notin> set (safePath p)"
  by (auto simp: safePath_def back_slash_def list_ex_iff)

text \<open>The clean form of a path, as the multiplexer redirects to it.\<close>

lemma cleaned_on_site: "on_site (Location (url_string (cleanPath p) q))"
proof -
  obtain ss slash where clean: "clean_form ss slash" "cleanPath p = rooted ss slash"
    unfolding cleanPath_def by (rule clean_is_rooted)
  show ?thesis
  proof (cases ss)
    case Nil
    then have root: "cleanPath p = ''/''" using clean by (simp add: rooted_def clean_form_def)
    have "cut_at (CHR ''?'') (''/'' @ (if q = [] then [] else CHR ''?'' # q)) = (''/'', q, q \<noteq> [])"
      using cut_at_absent [of "CHR ''?''" "''/''"] cut_at_append [of "CHR ''?''" "''/''" q] by simp
    moreover have "path_escape ''/'' = ''/''" "clean_keeping_slash ''/'' = ''/''" by code_simp+
    ultimately have "Location (url_string (cleanPath p) q) = hexEscapeNonASCII (''/'' @ (if q = [] then [] else CHR ''?'' # q))"
      unfolding url_string_def root Location_def by (cases "q = []") simp_all
    moreover have "on_site (''/'' @ (if q = [] then [] else CHR ''?'' # q))" by (simp add: on_site_def)
    ultimately show ?thesis by (simp only: on_site_hex)
  next
    case (Cons s us)
    then have "segment s" using clean(1) by (simp add: clean_form_def)
    moreover have "cleanPath p = CHR ''/'' # s @ ((if us = [] then [] else CHR ''/'' # join_with (CHR ''/'') us) @ (if slash then ''/'' else []))"
      using clean(2) Cons by (simp add: rooted_def join_with_Cons)
    ultimately show ?thesis using Location_on_site by metis
  qed
qed

subsection \<open>The interface\<close>

text \<open>What a request must be for the site to answer in its own addresses and cookies.\<close>

definition asked_well :: "bool \<Rightarrow> catalogue \<Rightarrow> request \<Rightarrow> bool" where
  "asked_well https c r \<longleftrightarrow> isHTTPS r = https \<and> tag_like (language_in r) \<and>
     list_all tag_like (snd (Speaks c r) # fst (Speaks c r))"

lemma asked_well_context [simp]:
  "asked_well https c (r\<lparr>cx_session := x\<rparr>) = asked_well https c r"
  "asked_well https c (r\<lparr>cx_console := y\<rparr>) = asked_well https c r"
  by (simp_all add: asked_well_def language_in_def Speaks_def)

locale response_frame =
  fixes https :: bool
    and fine :: "writer \<Rightarrow> bool"
  assumes header: "fine w \<Longrightarrow> site_header n v \<Longrightarrow> fine (set_header n v w)"
    and cookie: "fine w \<Longrightarrow> site_cookie https c \<Longrightarrow> fine (SetCookie c w)"
    and status: "fine w \<Longrightarrow> fine (WriteHeader k w)"
    and body: "fine w \<Longrightarrow> fine (w\<lparr>wr_body := b\<rparr>)"
    and dropped: "fine w \<Longrightarrow> n \<in> set plain_headers \<Longrightarrow> fine (del_header n w)"
begin

lemma body_written: "fine w \<Longrightarrow> fine (write_body t w)"
  by (simp add: write_body_def Let_def status body)

lemma error_written: "fine w \<Longrightarrow> fine (http_error t k w)"
  by (simp add: http_error_def body_written status header)

lemma missing: "fine w \<Longrightarrow> fine (NotFound w)"
  by (simp add: NotFound_def error_written)

lemma redirected: "fine w \<Longrightarrow> on_site (Location target) \<Longrightarrow> fine (http_redirect r target k w)"
  by (simp add: http_redirect_def Let_def status header site_header_Location)

lemma in_every_language: "fine w \<Longrightarrow> fine (everyLanguage m k key w)"
proof -
  have "fine v \<Longrightarrow> fine (foldl (\<lambda>w l. write_body (mc_say m l key @ [CHR 0x0A]) w) v ls)" for v ls
    by (induction ls arbitrary: v) (simp_all add: body_written)
  moreover assume "fine w"
  ultimately show ?thesis by (simp add: everyLanguage_def status header)
qed

lemma refusals: "fine w \<Longrightarrow> fine (forbidden m w)" "fine w \<Longrightarrow> fine (UnknownHost m w)" "fine w \<Longrightarrow> fine (Refused m wait w)"
  by (auto simp: forbidden_def UnknownHost_def Refused_def Let_def in_every_language header split: option.splits)

lemma machine_pages: "fine w \<Longrightarrow> fine (health v db w)" "fine w \<Longrightarrow> fine (robots indexable sitemap w)"
  by (simp_all add: health_def robots_def Let_def body_written status header)

lemma cookies_set:
  "fine w \<Longrightarrow> isHTTPS r = https \<Longrightarrow> fine (setSession r t w)" "fine w \<Longrightarrow> isHTTPS r = https \<Longrightarrow> fine (clearSession r w)"
  "fine w \<Longrightarrow> isHTTPS r = https \<Longrightarrow> fine (setChallenge r t w)" "fine w \<Longrightarrow> isHTTPS r = https \<Longrightarrow> fine (clearChallenge r w)"
  "fine w \<Longrightarrow> isHTTPS r = https \<Longrightarrow> fine (Remember r t w)"
  unfolding setSession_def clearSession_def setChallenge_def clearChallenge_def Remember_def
  by (rule cookie, assumption, erule site_cookies)+

lemma switched: "fine w \<Longrightarrow> asked_well https c r \<Longrightarrow> fine (switchLanguage c r w)"
proof -
  assume w: "fine w" and r: "asked_well https c r"
  let ?tag = "if first_value (fst (ParseForm r)) ''language'' \<in> set (fst (Speaks c r))
    then first_value (fst (ParseForm r)) ''language'' else snd (Speaks c r)"
  have "tag_like ?tag" using r by (auto simp: asked_well_def list_all_iff)
  then have "segment ?tag" by (rule segment_fold) simp
  then have "on_site (Location (url_string (CHR ''/'' # ?tag @ p) q))" for p q by (rule Location_on_site)
  then show ?thesis
    using w r unfolding switchLanguage_def
    by (auto simp: Let_def case_prod_beta asked_well_def intro!: error_written redirected cookies_set)
qed

lemma text_served: "fine w \<Longrightarrow> fine (serve_text r k t w)"
  by (simp add: serve_text_def Let_def body_written status header)

lemma content_served: "fine w \<Longrightarrow> fine (ServeContent boundary r file w)"
proof -
  assume w: "fine w"
  have ranges: "fine (serve_ranges boundary r t rs v)" if "fine v" for t rs v
    using that by (auto simp: serve_ranges_def text_served header split: list.split)
  have plain: "n \<in> set plain_headers" if "n \<in> {''Etag'', ''Cache-Control'', ''Content-Length'', ''Content-Type''}" for n
    using that by (auto simp: plain_headers_def)
  have error: "fine (serve_error t k v)" if "fine v" for t k v
    using that by (simp add: serve_error_def error_written dropped plain)
  show ?thesis
    using w by (auto simp: ServeContent_def Let_def ranges error header status dropped plain
        split: precondition.split sum.split)
qed

lemma status_answered: "fine w \<Longrightarrow> fine (answer_status k w)"
  by (simp add: answer_status_def status error_written)

subsubsection \<open>Responders\<close>

abbreviation good :: "(writer \<times> 's \<Rightarrow> writer \<times> 's) \<Rightarrow> bool" where
  "good \<equiv> keeps_response fine"

lemma good_on_writer: "(\<And>w. fine w \<Longrightarrow> fine (f w)) \<Longrightarrow> good (on_writer f)"
  by (simp add: keeps_response_def on_writer_def case_prod_beta)

lemma good_ask: "(\<And>x. good (k x)) \<Longrightarrow> good (ask f k)"
  by (auto simp: keeps_response_def ask_def split: prod.splits)

lemma good_ask_sweep: "(\<And>x. good (k x)) \<Longrightarrow> good (ask_sweep f k)"
  by (auto simp: keeps_response_def ask_sweep_def split: prod.splits)

lemma good_ask_platform: "(\<And>x. good (k x)) \<Longrightarrow> good (ask_platform f k)"
  by (auto simp: keeps_response_def ask_platform_def split: prod.splits)

lemma good_looks: "(\<And>x. good (k x)) \<Longrightarrow> good (looks f k)"
  by (simp add: looks_def good_ask)

lemma good_if: "(c \<Longrightarrow> good a) \<Longrightarrow> (\<not> c \<Longrightarrow> good b) \<Longrightarrow> good (if c then a else b)"
  by simp

lemma good_sum: "(\<And>e. good (f e)) \<Longrightarrow> (\<And>x. good (g x)) \<Longrightarrow> good (case x of Inl e \<Rightarrow> f e | Inr y \<Rightarrow> g y)"
  by (cases x) simp_all

lemma good_option: "(x = None \<Longrightarrow> good f) \<Longrightarrow> (\<And>y. x = Some y \<Longrightarrow> good (g y)) \<Longrightarrow> good (case x of None \<Rightarrow> f | Some y \<Rightarrow> g y)"
  by (cases x) simp_all

lemma good_pair: "(\<And>a b. x = (a, b) \<Longrightarrow> good (f a b)) \<Longrightarrow> good (case x of (a, b) \<Rightarrow> f a b)"
  by (cases x) simp

lemma good_entered: "(\<And>t. good (f t)) \<Longrightarrow> (\<And>t. good (g t)) \<Longrightarrow> good (case x of SessionOpened t \<Rightarrow> f t | ChallengeOpened t \<Rightarrow> g t)"
  by (cases x) simp_all

lemma good_comp: "good h \<Longrightarrow> good a \<Longrightarrow> good (h \<circ> a)"
  unfolding keeps_response_def comp_apply by blast

lemma good_pass: "good pass"
  by (simp add: keeps_response_def pass_def)

lemma good_internal_error: "good internal_error"
  unfolding internal_error_def by (intro good_on_writer error_written)

lemma good_not_found: "good not_found"
  unfolding not_found_def by (intro good_on_writer missing)

lemma good_endpoints: "good (post_tasks t decoded r)" "good (post_webhook h r)" "good (get_script S r)"
  unfolding post_tasks_def post_webhook_def
  by (intro good_ask_platform good_on_writer good_if; simp add: status_answered missing)+
    (auto simp: get_script_def keeps_response_def intro!: content_served header)

lemma good_see_other:
  assumes "asked_well https c r" and "back_slash \<notin> set p" and "q = [] \<or> hd q = CHR ''?''"
  shows "good (see_other r (here r @ p @ q))"
  unfolding see_other_def
  by (intro good_on_writer redirected here_on_site) (use assms in \<open>simp_all add: asked_well_def\<close>)

lemma good_renderStatus: "good (renderStatus S k p v)"
  unfolding renderStatus_def by (intro good_on_writer body_written status header site_header_plain)

lemma good_allows: "(\<And>x. good (k x)) \<Longrightarrow> good (allows S r permission k)"
  unfolding allows_def by (intro good_option good_if good_ask)

lemma good_menu: "(\<And>x. good (k x)) \<Longrightarrow> good (menu_from S r path es k)"
proof (induction es arbitrary: k)
  case (Cons e es)
  obtain label p needs where "e = (label, p, needs)" by (cases e)
  with Cons show ?case by (auto simp: Let_def intro!: good_allows)
qed simp

lemma good_page_for: "(\<And>x. good (k x)) \<Longrightarrow> good (page_for S r path k)"
  unfolding page_for_def consoleMenu_def by (intro good_if good_menu)

lemma good_show_page: "good (show_page S r k path v)"
  unfolding show_page_def by (intro good_page_for good_renderStatus)

lemmas good_rules = good_ask good_ask_sweep good_looks good_if good_sum good_option good_entered
  good_internal_error good_not_found good_show_page good_pass

end

end
