(* ===== verification/SiteKept.thy ===== *)
theory SiteKept
  imports SiteFrame
begin

text \<open>
  Every handler of the site, the routes of both kinds of host and the whole process keep what
  \<open>response_frame\<close> promises of a response.
\<close>

definition in_tongue :: "bool \<Rightarrow> request \<Rightarrow> bool" where
  "in_tongue https r \<longleftrightarrow> isHTTPS r = https \<and> tag_like (language_in r)"

lemma asked_in_tongue: "asked_well https c r \<Longrightarrow> in_tongue https r"
  by (simp add: asked_well_def in_tongue_def)

lemma free_paths [simp]:
  "CHR 0x5C \<notin> set secondStepPath" "CHR 0x5C \<notin> set stepUpPath" "CHR 0x5C \<notin> set securityPath"
  "CHR 0x5C \<notin> set enrolPath" "CHR 0x5C \<notin> set (safePath p)"
  using safePath_free [of p]
  by (simp_all add: secondStepPath_def stepUpPath_def securityPath_def enrolPath_def back_slash_def)

declare back_slash_def [simp]

definition routes_keep :: "(writer \<Rightarrow> bool) \<Rightarrow> request \<Rightarrow> 'a route list \<Rightarrow> bool" where
  "routes_keep fine r routes \<longleftrightarrow> (\<forall>t \<in> set routes. keeps_response fine (rt_handler t r))"

text \<open>Hosts served in languages whose tags are tags, in what is cached and what will be read.\<close>

definition tagged_hosts :: "host_map \<Rightarrow> bool" where
  "tagged_hosts hosts \<longleftrightarrow> (\<forall>name m. hosts name = Some m \<longrightarrow> list_all tag_like (mp_language m # mp_languages m))"

definition world_tagged :: "'a world \<Rightarrow> bool" where
  "world_tagged s \<longleftrightarrow> (\<forall>i hosts. mo_hosts (wo_moments s i) = Some hosts \<longrightarrow> tagged_hosts hosts) \<and>
     (\<forall>hosts t. re_cache (wo_resolver s) = Some (hosts, t) \<longrightarrow> tagged_hosts hosts)"

definition tongues_ok :: "catalogue \<Rightarrow> bool" where
  "tongues_ok c \<longleftrightarrow> list_all tag_like (ca_printers c) \<and> list_all tag_like (ca_tags c)"

text \<open>The general limiter counts in memory of its own.\<close>

definition counts_apart :: "'a world pipeline \<Rightarrow> bool" where
  "counts_apart p \<longleftrightarrow> (\<forall>Allow key s. pl_general p = Some Allow \<longrightarrow> world_tagged s \<longrightarrow> world_tagged (snd (Allow key s)))"

definition answer_tagged :: "resolution option \<Rightarrow> bool" where
  "answer_tagged answer \<longleftrightarrow> (\<forall>m. answer = Some (MarketplaceHost m) \<longrightarrow> list_all tag_like (mp_language m # mp_languages m))"

lemma Resolve_tagged:
  assumes "Resolve loaded now later host rs = (answer, rs')"
    and "\<And>hosts. loaded = Some hosts \<Longrightarrow> tagged_hosts hosts"
    and "\<And>hosts t. re_cache rs = Some (hosts, t) \<Longrightarrow> tagged_hosts hosts"
  shows "answer_tagged answer"
proof -
  have hosted: "answer_tagged (Some (answer_from hosts name))" if "tagged_hosts hosts" for hosts name
    using that by (auto simp: answer_tagged_def answer_from_def tagged_hosts_def split: option.splits)
  have own: "answer_tagged (own_host rs name)" for name by (auto simp: own_host_def answer_tagged_def)
  have cached: "tagged_hosts hosts" if "cached_hosts rs now = Some hosts" for hosts
    using that assms(3) by (auto simp: cached_hosts_def split: option.splits if_splits)
  show ?thesis
    using assms(1) hosted assms(2) cached own [of "Normalise host"]
    unfolding Resolve_def load_def Let_def
    by (auto simp: answer_tagged_def split: option.splits)
qed

context response_frame begin

lemma good_here: "in_tongue https r \<Longrightarrow> back_slash \<notin> set p \<Longrightarrow> good (see_other r (here r @ p))"
  unfolding see_other_def in_tongue_def
  by (intro good_on_writer redirected, assumption) (use here_on_site [of r p "[]"] in simp)

lemma good_here_query: "in_tongue https r \<Longrightarrow> back_slash \<notin> set p \<Longrightarrow> good (see_other r (here r @ p @ ''?'' @ q))"
  unfolding see_other_def in_tongue_def
  by (intro good_on_writer redirected here_on_site) simp_all

lemma good_cookies:
  "in_tongue https r \<Longrightarrow> good (on_writer (setSession r t))" "in_tongue https r \<Longrightarrow> good (on_writer (clearSession r))"
  "in_tongue https r \<Longrightarrow> good (on_writer (setChallenge r t))" "in_tongue https r \<Longrightarrow> good (on_writer (clearChallenge r))"
  by (simp_all add: in_tongue_def good_on_writer cookies_set)

lemma good_renewed: "in_tongue https r \<Longrightarrow> good (RenewCSRF m r)"
  unfolding keeps_response_def RenewCSRF_def newCSRFSecret_def in_tongue_def
  by (auto intro!: cookie site_cookies [simplified] split: prod.splits)

lemma good_opened: "in_tongue https r \<Longrightarrow> good (openSession S r token)"
  unfolding openSession_def by (intro good_comp good_renewed good_cookies good_option good_ask good_pass)

lemmas good_here_rules = good_rules good_comp good_here good_here_query good_cookies good_renewed good_opened

lemma good_back: "in_tongue https r \<Longrightarrow> CHR 0x5C \<notin> set why \<Longrightarrow> good (backToSignIn r why)"
  unfolding backToSignIn_def by (intro good_here_rules) simp_all

lemma good_toStepUp: "in_tongue https r \<Longrightarrow> good (toStepUp r act return)"
  unfolding toStepUp_def by (intro good_here_query) simp_all

subsubsection \<open>Signing up, in and out\<close>

lemma good_identity_forms:
  "good (signUpForm S r)" "good (verifyForm S r)" "good (resendForm S r)" "good (signInForm S r)" "good (passwordForm S r)"
  unfolding signUpForm_def verifyForm_def resendForm_def signInForm_def passwordForm_def by (rule good_show_page)+

lemma good_post_signUp: "good (post_signUp S r)"
  unfolding post_signUp_def Let_def by (intro good_rules) (auto intro!: good_rules split: prod.splits)

lemma good_post_verify: "in_tongue https r \<Longrightarrow> good (post_verify S r)"
  unfolding post_verify_def by (intro good_here_rules) simp_all

lemma good_post_resend: "good (post_resend S r)"
  unfolding post_resend_def by (intro good_rules)

lemma good_post_signIn: "in_tongue https r \<Longrightarrow> good (post_signIn S r)"
  unfolding post_signIn_def Let_def by (intro good_here_rules) simp_all

lemma good_post_signOut: "in_tongue https r \<Longrightarrow> good (post_signOut S r)"
  unfolding post_signOut_def by (intro good_here_rules) simp_all

lemma good_post_changePassword: "in_tongue https r \<Longrightarrow> good (post_changePassword S r)"
  unfolding post_changePassword_def Let_def by (intro good_here_rules good_toStepUp good_pair) simp_all

subsubsection \<open>Second steps and step-ups\<close>

lemma good_keyOptions: "(\<And>x. good (k x)) \<Longrightarrow> good (keyOptions S r v token sid k)"
  unfolding keyOptions_def by (intro good_rules)

lemma good_challenge_page: "good (challenge_page S r k path query v)"
  unfolding challenge_page_def by (intro good_page_for good_renderStatus)

lemma good_renderSecondStep: "in_tongue https r \<Longrightarrow> good (renderSecondStep S r k chosen form)"
  unfolding renderSecondStep_def Let_def
  by (intro good_here_rules good_keyOptions good_challenge_page good_back) simp_all

lemma good_second_steps:
  assumes "in_tongue https r"
  shows "good (secondStep S r)" "good (sendSecondStepCode S r)" "good (answerSecondStep S r)"
  unfolding secondStep_def sendSecondStepCode_def answerSecondStep_def Let_def
  by (intro good_here_rules good_renderSecondStep good_back; use assms in simp)+

lemma good_stepUpAt: "in_tongue https r \<Longrightarrow> good (stepUpAt r query)"
  unfolding stepUpAt_def by (intro good_here_query) simp_all

lemma good_renderStepUp: "good (renderStepUp S r k token act return chosen form)"
  unfolding renderStepUp_def by (intro good_rules good_keyOptions good_challenge_page)

lemma target_free: "stepUpTarget a p = Some (act, return) \<Longrightarrow> CHR 0x5C \<notin> set return"
  by (auto simp: stepUpTarget_def split: prod.splits if_splits)

lemma good_step_ups:
  assumes "in_tongue https r"
  shows "good (stepUpPage S r)" "good (sendStepUpCode S r)" "good (answerStepUp S r)"
  unfolding stepUpPage_def sendStepUpCode_def answerStepUp_def liveStepUp_def Let_def
  by (intro good_here_rules good_pair good_renderStepUp good_stepUpAt; use assms target_free in \<open>simp; metis\<close>)+

subsubsection \<open>Second factors\<close>

lemma good_refused: "in_tongue https r \<Longrightarrow> good (enrolment_refused r return e)"
  unfolding enrolment_refused_def by (intro good_here_rules good_toStepUp)

lemma good_toSecurity: "in_tongue https r \<Longrightarrow> CHR 0x5C \<notin> set what \<Longrightarrow> good (toSecurity r what)"
  unfolding toSecurity_def by (intro good_here) simp_all

lemma good_security_view: "(\<And>x. good (k x)) \<Longrightarrow> good (security_view S r k)"
  unfolding security_view_def by (intro good_rules)

lemma good_renderApp: "good (renderApp S r k enrolment label form)"
  unfolding renderApp_def by (intro good_rules)

lemma good_renderKey: "in_tongue https r \<Longrightarrow> good (renderKey S r k label form)"
  unfolding renderKey_def by (intro good_rules good_refused)

lemma good_renderEmail: "good (renderEmail S r k sent form)"
  unfolding renderEmail_def by (rule good_show_page)

lemma good_emailError: "in_tongue https r \<Longrightarrow> good (emailError r e)"
  unfolding emailError_def by (intro good_here_rules good_refused) simp_all

lemma good_security_pages:
  assumes "in_tongue https r"
  shows "good (securityPage S r)" "good (removeFactor S r)" "good (regenerateCodes S r)"
  unfolding securityPage_def removeFactor_def regenerateCodes_def recovery_page_def Let_def
  by (intro good_here_rules good_security_view good_toSecurity good_toStepUp; use assms in simp)+

lemma good_apps:
  assumes "in_tongue https r"
  shows "good (appForm S r)" "good (addApp S r)"
  unfolding appForm_def addApp_def recovery_page_def Let_def
  by (intro good_here_rules good_renderApp good_refused good_toSecurity; use assms in simp)+

lemma good_keys:
  assumes "in_tongue https r"
  shows "good (keyForm S r)" "good (addKey S r)"
  unfolding keyForm_def addKey_def recovery_page_def Let_def
  by (intro good_here_rules good_renderKey good_refused good_toSecurity; use assms in simp)+

lemma good_emails:
  assumes "in_tongue https r"
  shows "good (emailForm S r)" "good (sendEmailCode S r)" "good (addEmail S r)"
  unfolding emailForm_def sendEmailCode_def addEmail_def
  by (intro good_here_rules good_renderEmail good_emailError good_toSecurity; use assms in simp)+

subsubsection \<open>The console\<close>

lemma good_setupOpen: "(\<And>B. good (k B)) \<Longrightarrow> good (setupOpen S k)"
  unfolding setupOpen_def by (intro good_rules)

lemma good_setups:
  assumes "in_tongue https r"
  shows "good (setupForm S r)" "good (post_setup S r)"
  unfolding setupForm_def post_setup_def Let_def
  by (intro good_here_rules good_setupOpen good_pair; use assms in simp)+

lemma good_console_pages:
  assumes "in_tongue https r"
  shows "good (enrolPage S r)" "good (consoleHome S r)" "good (consoleVersion S r)"
  unfolding enrolPage_def consoleHome_def consoleVersion_def version_json_def
  by (intro good_here_rules good_allows good_on_writer body_written header site_header_plain; use assms in simp)+

subsubsection \<open>Guards and limits\<close>

lemma good_limited: "good (nxt r) \<Longrightarrow> good (limited_by S flow subject nxt r)"
  unfolding keeps_response_def limited_by_def LimitWith_def
  by (auto split: prod.splits limited.splits intro: refusals)

lemma good_by_challenge: "good (nxt r) \<Longrightarrow> good (by_challenge S flow nxt r)"
  unfolding by_challenge_def Let_def by (intro good_rules good_limited)

lemma good_signedIn: "in_tongue https r \<Longrightarrow> good (nxt r) \<Longrightarrow> good (signedIn nxt r)"
  unfolding signedIn_def by (intro good_here_rules) simp_all

lemma good_inMarketplace: "good (nxt r) \<Longrightarrow> good (inMarketplace nxt r)"
  unfolding inMarketplace_def by (intro good_rules)

lemma good_steppedUp: "in_tongue https r \<Longrightarrow> good (nxt r) \<Longrightarrow> good (steppedUp act return nxt r)"
  unfolding steppedUp_def by (intro good_rules good_toStepUp)

lemma good_withFactor: "in_tongue https r \<Longrightarrow> good (nxt r) \<Longrightarrow> good (withFactor nxt r)"
  unfolding withFactor_def by (intro good_here_rules) simp_all

lemma good_secured: "in_tongue https r \<Longrightarrow> good (nxt r) \<Longrightarrow> good (secured nxt r)"
  unfolding secured_def staffOnly_def by (intro good_signedIn good_withFactor)

lemma good_staffOnly: "in_tongue https r \<Longrightarrow> good (nxt r) \<Longrightarrow> good (staffOnly nxt r)"
  unfolding staffOnly_def by (rule good_signedIn)

lemma good_permitted: "good (nxt r) \<Longrightarrow> good (permitted S permission nxt r)"
  unfolding permitted_def by (intro good_allows good_rules)

lemmas good_guards = good_limited good_by_challenge good_signedIn good_inMarketplace good_steppedUp good_withFactor
  good_secured good_staffOnly good_permitted

lemmas good_pages = good_identity_forms good_post_signUp good_post_verify good_post_resend good_post_signIn
  good_post_signOut good_post_changePassword good_second_steps good_step_ups good_security_pages good_apps good_keys
  good_emails good_setups good_console_pages

subsubsection \<open>Routes\<close>

lemma good_routes_simps:
  "routes_keep fine r []" "routes_keep fine r (t # ts) \<longleftrightarrow> good (rt_handler t r) \<and> routes_keep fine r ts"
  "routes_keep fine r (ts @ us) \<longleftrightarrow> routes_keep fine r ts \<and> routes_keep fine r us"
  by (auto simp: routes_keep_def)

lemma good_serve_mux: "routes_keep fine r routes \<Longrightarrow> good (serve_mux routes r)"
  unfolding serve_mux_def Let_def
  by (intro good_if good_option good_on_writer good_not_found redirected cleaned_on_site error_written header)
     (auto simp: routes_keep_def find_Some_iff)

lemma good_factorRoutes: "in_tongue https r \<Longrightarrow> routes_keep fine r (factorRoutes S)"
  unfolding factorRoutes_def Let_def good_routes_simps mount_def route.select_convs
  by (intro conjI good_routes_simps(1) TrueI good_guards good_pages)

lemma good_identityRoutes: "in_tongue https r \<Longrightarrow> routes_keep fine r (identityRoutes S)"
  unfolding identityRoutes_def Let_def
  by (cases "st_accounts S")
     (simp_all only: if_True if_False not_True_eq_False not_False_eq_True good_routes_simps mount_def route.select_convs,
      intro conjI good_routes_simps(1) TrueI good_guards good_pages good_factorRoutes)

lemma good_consolePages: "in_tongue https r \<Longrightarrow> routes_keep fine r (consolePages S)"
  unfolding consolePages_def Let_def good_routes_simps mount_def route.select_convs
  by (intro conjI good_routes_simps(1) TrueI good_guards good_pages)

lemma good_shared: "asked_well https (st_catalogue S) r \<Longrightarrow> routes_keep fine r (shared_routes S indexable)"
  unfolding shared_routes_def good_routes_simps mount_def route.select_convs
  by (intro conjI good_routes_simps(1) good_on_writer good_endpoints)
     (auto simp: get_health_def keeps_response_def intro: machine_pages switched)

lemma good_callbacks: "routes_keep fine r (callback_routes S)"
  by (auto simp: callback_routes_def routes_keep_def mount_def good_endpoints split: option.splits)

lemma good_get_home: "good (get_home S r)"
  unfolding get_home_def by (intro good_page_for good_renderStatus)

lemma good_get_preview: "good (get_preview S r)"
  unfolding get_preview_def Let_def by (intro good_rules good_on_writer body_written header site_header_plain)

lemma good_siteRoutes:
  assumes "asked_well https (st_catalogue S) r"
  shows "routes_keep fine r (siteRoutes S)"
  unfolding siteRoutes_def good_routes_simps
  using good_shared [OF assms] good_callbacks [of r S] good_identityRoutes [OF asked_in_tongue [OF assms], of S]
  by (simp add: mount_def good_routes_simps good_get_home good_get_preview)

lemma good_consoleRoutes:
  assumes "asked_well https (st_catalogue S) r"
  shows "routes_keep fine r (consoleRoutes S)"
  unfolding consoleRoutes_def good_routes_simps
  using good_shared [OF assms] good_consolePages [OF asked_in_tongue [OF assms], of S]
  by (simp add: good_routes_simps)

lemma good_SiteHandler:
  assumes "asked_well https (st_catalogue S) r"
  shows "good (SiteHandler S r)"
  unfolding SiteHandler_def withConsoleName_def
  by (intro good_if good_comp good_serve_mux good_siteRoutes good_consoleRoutes good_on_writer header site_header_plain)
     (use assms in simp_all)

subsubsection \<open>The process\<close>

lemma good_Sessions:
  assumes "in_tongue https r" and "\<And>x. good (nxt (r\<lparr>cx_session := x\<rparr>))" and "good (nxt r)"
  shows "good (Sessions S nxt r)"
  unfolding Sessions_def
  by (intro good_rules good_comp good_cookies good_on_writer header site_header_plain; use assms in simp)

lemma good_ResolveLanguage:
  fixes nxt :: "'s handler"
  assumes tags: "list_all tag_like (ca_printers (lr_catalogue rs))"
    and exempt: "good (nxt r)"
    and served: "\<And>path tag. tag_like tag \<Longrightarrow> good (nxt (r\<lparr>rq_path := path, cx_language := tag\<rparr>))"
  shows "good (ResolveLanguage rs enabled paths nxt r)"
proof -
  obtain ls fallback where ls: "languages_served rs (enabled r) = (ls, fallback)" by (metis prod.collapse)
  have well: "list_all tag_like ls" "contains_tag ls fallback"
    using served_tags [OF _ ls] tags by (simp_all add: well_tagged_def)
  have moved: "good (on_writer (language_redirect r k tag path))" if "segment tag" for k tag path
    unfolding language_redirect_def by (intro good_on_writer redirected Location_on_site that)
  have "segment (choose_language rs r ls fallback)"
    using contains_segment [OF well(1)] chosen_is_served [OF well(2)] by blast
  moreover have "tag_like t" if "match_tag h ls = Some t" for h t
    using match_tag_Some [OF that] well(1) by (auto simp: list_all_iff)
  moreover have "segment t" if "tag_like t" for t using that by (rule segment_fold) simp
  ultimately have kept: "good (case match_tag h ls of
        None \<Rightarrow> on_writer (language_redirect r StatusFound (choose_language rs r ls fallback) (rq_path r))
      | Some t \<Rightarrow> if t \<noteq> h then on_writer (language_redirect r StatusMovedPermanently t rest)
          else nxt (r\<lparr>rq_path := rest, cx_language := t\<rparr>))"
    "good (on_writer (language_redirect r StatusFound (choose_language rs r ls fallback) (rq_path r)))" for h rest
    by (auto intro!: good_option good_if moved served)
  obtain h rest found where split: "splitLanguage (rq_path r) = (h, rest, found)" by (metis prod_cases3)
  show ?thesis
    unfolding keeps_response_def
  proof (intro allI impI)
    fix ws :: "writer \<times> 's" assume "fine (fst ws)"
    then show "fine (fst (ResolveLanguage rs enabled paths nxt r ws))"
      using keeps_responseD [OF exempt, of ws] keeps_responseD [OF kept(1), of ws h rest] keeps_responseD [OF kept(2), of ws]
      by (auto simp: ResolveLanguage_def ls Let_def split split: option.splits if_splits)
  qed
qed

lemma fine_on_writer: "(\<And>w. fine w \<Longrightarrow> fine (f w)) \<Longrightarrow> fine (fst ws) \<Longrightarrow> fine (fst (on_writer f ws))"
  by (simp add: on_writer_def case_prod_beta)

lemma fine_ResolveHost:
  assumes "fine w" and "world_tagged s" and nxt: "\<And>answer. answer_tagged answer \<Longrightarrow> good (nxt (r\<lparr>cx_resolution := answer\<rparr>))"
  shows "fine (fst (ResolveHost S bypass nxt r (w, s)))"
proof -
  let ?m = "moment_of s"
  obtain answer s' where resolved: "(if rq_path r \<in> set bypass then (None, s)
      else case Resolve (mo_hosts ?m) (mo_now ?m) (mo_later ?m) (rq_host r) (wo_resolver s) of
        (resolved, rs) \<Rightarrow> (resolved, (ticked s)\<lparr>wo_resolver := rs\<rparr>)) = (answer, s')" by (metis prod.collapse)
  have "answer_tagged answer"
  proof (cases "rq_path r \<in> set bypass")
    case True
    then show ?thesis using resolved by (simp add: answer_tagged_def)
  next
    case False
    then obtain rs where "Resolve (mo_hosts ?m) (mo_now ?m) (mo_later ?m) (rq_host r) (wo_resolver s) = (answer, rs)"
      using resolved by (auto split: prod.splits)
    then show ?thesis
      using assms(2) by (intro Resolve_tagged) (auto simp: world_tagged_def moment_of_def)
  qed
  then have go: "answer_tagged x" if "resolve_middleware bypass (rq_path r) answer = Next x" for x
    using that by (auto simp: resolve_middleware_def answer_tagged_def split: if_splits option.splits resolution.splits)
  show ?thesis
    unfolding ResolveHost_def Let_def prod.case resolved
    using assms(1)
    by (auto split: page.split intro!: keeps_responseD [OF nxt [OF go]] keeps_responseD [OF good_renderStatus]
        fine_on_writer error_written refusals header)
qed

lemma fine_CSRF:
  assumes "fine w" and "P s" and "isHTTPS r = https" and rand: "\<And>n t. P t \<Longrightarrow> P (snd (mc_rand m n t))"
    and nxt: "\<And>token w s. fine w \<Longrightarrow> P s \<Longrightarrow> fine (fst (nxt (r\<lparr>cx_csrf := token\<rparr>) (w, s)))"
  shows "fine (fst (CSRF m nxt r (w, s)))"
proof -
  obtain secret w' s' where secret: "csrfSecret m r (w, s) = (secret, w', s')" by (metis prod_cases3)
  have kept: "fine w' \<and> P s'"
  proof (cases "held_secret r")
    case None
    obtain bs t where drawn: "mc_rand m secretBytes s = (bs, t)" by (metis prod.collapse)
    then have "P t" using rand [OF assms(2), of secretBytes] by simp
    then show ?thesis
      using secret None drawn assms(1) site_cookies(3) [OF assms(3)]
      by (auto simp: csrfSecret_def newCSRFSecret_def intro!: cookie)
  qed (use secret assms in \<open>simp add: csrfSecret_def\<close>)
  obtain token t where minted: "mintCSRF m secret s' = (token, t)" by (metis prod.collapse)
  then have "P t" using kept rand [of s' tokenBytes] by (auto simp: mintCSRF_def split: prod.splits)
  then show ?thesis
    using kept by (simp add: CSRF_def secret minted refusals nxt)
qed

text \<open>Behind the host: the language, the session and the routes.\<close>

lemma good_behind_host:
  assumes "tongues_ok (st_catalogue S)" and "answer_tagged (cx_resolution r)"
    and "isHTTPS r = https" and "cx_language r = []"
  shows "good (ResolveLanguage (NewLanguageResolver (st_catalogue S) Nowhere) (Speaks (st_catalogue S)) paths
    (Sessions S (SiteHandler S)) r)"
proof -
  have speaks: "list_all tag_like (snd (Speaks (st_catalogue S) r) # fst (Speaks (st_catalogue S) r))"
    using assms(1,2) default_tag_like
    by (auto simp: Speaks_def tongues_ok_def answer_tagged_def Languages_def split: option.splits resolution.splits)
  have asked: "asked_well https (st_catalogue S) q"
    if "isHTTPS q = https" "tag_like (language_in q)" "cx_resolution q = cx_resolution r" for q
    using that speaks by (simp add: asked_well_def Speaks_def)
  have site: "good (Sessions S (SiteHandler S) q)" if "asked_well https (st_catalogue S) q" for q
    using that by (intro good_Sessions good_SiteHandler) (simp_all add: asked_in_tongue)
  show ?thesis
  proof (intro good_ResolveLanguage site)
    show "list_all tag_like (ca_printers (lr_catalogue (NewLanguageResolver (st_catalogue S) Nowhere)))"
      using assms(1) by (simp add: NewLanguageResolver_def tongues_ok_def)
    show "asked_well https (st_catalogue S) r"
      by (intro asked) (simp_all add: assms language_in_def default_tag_like)
    show "asked_well https (st_catalogue S) (r\<lparr>rq_path := path, cx_language := tag\<rparr>)" if "tag_like tag" for path tag
      using that assms(3) by (intro asked) (auto simp: language_in_def default_tag_like isHTTPS_def header_of_def header_values_def)
  qed
qed

lemma fine_Inside:
  assumes "tongues_ok (st_catalogue S)" and "world_tagged s"
    and "isHTTPS r = https" and "cx_language r = []" and "fine w"
  shows "fine (fst (Inside S p r (w, s)))"
  unfolding Inside_def
  by (intro fine_ResolveHost good_behind_host) (use assms in simp_all)

end

end
