(* ===== verification/SiteProps.thy ===== *)
theory SiteProps
  imports SiteKept Samples
begin

text \<open>
  What holds of every answer of the process, and who reaches what on which host.
\<close>

subsection \<open>Every answer is defended, and stays on the site\<close>

definition defences :: "bool \<Rightarrow> bool \<Rightarrow> string \<Rightarrow> (string \<times> string) list" where
  "defences indexable https nonce =
     [(''Content-Security-Policy'', content_policy nonce), (''X-Content-Type-Options'', ''nosniff''),
      (''Referrer-Policy'', ''strict-origin-when-cross-origin''), (''Permissions-Policy'', permissions_policy)] @
     (if https then [(''Strict-Transport-Security'', hsts)] else []) @
     (if indexable then [] else [(''X-Robots-Tag'', noindex)])"

definition defended :: "(string \<times> string) list \<Rightarrow> writer \<Rightarrow> bool" where
  "defended D w \<longleftrightarrow> (\<forall>(n, v) \<in> set D. response_header n w = Some v) \<and>
     (\<forall>l. response_header ''Location'' w = Some l \<longrightarrow> on_site l)"

lemma defences_agree: "site_header n v \<Longrightarrow> (n, v') \<in> set (defences indexable https nonce) \<Longrightarrow> v' = v"
  by (auto simp: site_header_def plain_headers_def defences_def split: if_splits)

lemma site_header_redirects: "site_header ''Location'' v \<Longrightarrow> on_site v"
  by (simp add: site_header_def plain_headers_def)

lemma defended_set_header:
  assumes w: "defended (defences indexable tls nonce) w" and h: "site_header n v"
  shows "defended (defences indexable tls nonce) (set_header n v w)"
  unfolding defended_def
proof (intro conjI ballI allI impI)
  fix d assume "d \<in> set (defences indexable tls nonce)"
  moreover obtain m u where d: "d = (m, u)" by (cases d)
  ultimately have "response_header m w = Some u" "n = m \<Longrightarrow> u = v"
    using w defences_agree [OF h] by (auto simp: defended_def)
  then show "case d of (m, u) \<Rightarrow> response_header m (set_header n v w) = Some u"
    by (simp add: d response_header_set)
next
  fix l assume "response_header ''Location'' (set_header n v w) = Some l"
  then show "on_site l"
    using w h site_header_redirects by (auto simp: response_header_set defended_def split: if_splits)
qed

lemma map_of_without: "map_of (filter (\<lambda>h. fst h \<noteq> m) hs) n = (if n = m then None else map_of hs n)"
  by (induction hs) auto

lemma response_header_del:
  "response_header n (del_header m w) = (if wr_status w = None \<and> n = m then None else response_header n w)"
  by (cases "wr_status w") (simp_all add: response_header_def del_header_def map_of_without)

lemma plain_defences: "n \<in> set plain_headers \<Longrightarrow> n \<noteq> ''Location'' \<and> (n, v) \<notin> set (defences indexable https nonce)"
  by (auto simp: plain_headers_def defences_def)

lemma defended_del_header:
  assumes w: "defended (defences indexable tls nonce) w" and n: "n \<in> set plain_headers"
  shows "defended (defences indexable tls nonce) (del_header n w)"
  using w plain_defences [OF n] by (auto simp: defended_def response_header_del)

interpretation defended: response_frame https "defended (defences indexable tls nonce)" for https indexable tls nonce
  by unfold_locales (simp_all add: defended_set_header defended_del_header, simp_all add: defended_def response_header_def)

lemma secure_headers_defend:
  "defended (defences indexable (isHTTPS r) nonce) (secure_headers indexable r nonce fresh_writer)"
  by (simp add: defended_def defences_def secure_headers_def Let_def response_header_set)
     (simp add: response_header_def fresh_writer_def)

lemma received_before: "cx_language (placed m p nonce r) = cx_language r"
  by (simp add: placed_def)

text \<open>The state behind the pipeline: random bytes drawn, and perhaps a request counted.\<close>

lemma world_tagged_drawn: "world_tagged s \<Longrightarrow> world_tagged (snd (mc_rand (st_machine S) n s))"
  by (simp add: st_machine_def rand_bytes_def world_tagged_def ticked_def)

context response_frame begin

lemma fine_Process:
  assumes "tongues_ok (st_catalogue S)" and "world_tagged s" and "counts_apart p"
    and "isHTTPS r = https" and "cx_language r = []" and nonce: "newNonce (st_machine S) s = (nonce, s1)"
    and "fine (secure_headers (pl_indexable p) r nonce w)"
  shows "fine (fst (Process S p r (w, s)))"
proof -
  let ?q = "placed (st_machine S) p nonce r" and ?w = "secure_headers (pl_indexable p) r nonce w"
  let ?wrapped = "exempt_paths (CSRF (st_machine S)) (TasksPath # pl_callbacks p) (Inside S p)"
  have q: "isHTTPS (?q\<lparr>cx_csrf := t\<rparr>) = https" "cx_language (?q\<lparr>cx_csrf := t\<rparr>) = []" for t
    using assms(4,5) by (simp_all add: placed_received received_before)
  have inside: "fine (fst (?wrapped ?q (?w, t)))" if "world_tagged t" for t
    unfolding exempt_paths_def
    using fine_CSRF [where P = world_tagged and w = ?w and s = t and r = ?q and m = "st_machine S" and nxt = "Inside S p",
        OF assms(7) that _ world_tagged_drawn fine_Inside [OF assms(1) _ q]]
      fine_Inside [OF assms(1) that, of ?q ?w p] assms(4,5,7)
    by (simp add: placed_received received_before)
  have drawn: "world_tagged s1"
    using nonce world_tagged_drawn [OF assms(2), of S nonceBytes] by (auto simp: newNonce_def split: prod.splits)
  show ?thesis
  proof (cases "pl_general p")
    case None
    then show ?thesis using inside [OF drawn] by (simp add: Process_def Wrap_run [OF nonce] Let_def)
  next
    case (Some Allow)
    obtain l s2 where limit: "Limit Allow (general_subject ?q) s1 = (l, s2)" by (metis prod.collapse)
    have "s2 = snd (Allow (general_subject ?q) s1)"
      using limit by (auto simp: Limit_def split: prod.splits sum.splits if_splits)
    then have "world_tagged s2" using assms(3) Some drawn by (simp add: counts_apart_def)
    then show ?thesis
      using Some inside [OF drawn] inside [of s2] limit refusals(3) [OF assms(7), of "st_machine S"]
      by (simp add: Process_def Wrap_run [OF nonce] Let_def exempt_paths_def [of "LimitWith _ _ _"] LimitWith_def split: limited.split)
  qed
qed

end

text \<open>
  C12. Safety: whatever is asked of the process, on any host and path, with any method, form,
  body, cookies and headers, and whatever the database answers, the response carries the content
  policy of its own nonce, the other defensive headers, HSTS over HTTPS, and the refusal to
  be indexed where the deployment is not; and if it redirects, it redirects to an address on
  this site. It is every answer: a page, a redirect, a refusal, the script's file, whole, in
  part or not modified, and what the endpoints of machines are told. Two things are taken from
  what is stored: the catalogue's languages are tags, and so are those of the hosts that are
  read from the database, which does not check them; and the general limiter, which counts in
  memory, leaves the hosts alone.
\<close>

theorem every_answer_is_defended:
  assumes "newNonce (st_machine S) s = (nonce, s1)"
    and "tongues_ok (st_catalogue S)" and "world_tagged s" and "counts_apart p" and "cx_language r = []"
  shows "defended (defences (pl_indexable p) (isHTTPS r) nonce) (fst (Process S p r (fresh_writer, s)))"
  by (rule defended.fine_Process [OF assms(2-4) refl assms(5,1) secure_headers_defend])

text \<open>A shop with no database behind it, asked for its home.\<close>

definition sample_moment :: "unit moment" where
  "sample_moment = \<lparr>mo_now = 20, mo_later = 20, mo_bytes = (\<lambda>n. replicate n 7), mo_code = 0, mo_rolls = [],
     mo_draws = sample_draws 2, mo_other = (\<lambda>d. d), mo_counts = True, mo_sweeps = False, mo_pings = True, mo_hosts = None,
     mo_fates = (\<lambda>_. Reached), mo_event_id = (\<lambda>p. replicate (length (p_events p)) CHR ''e''), mo_commits = True\<rparr>"

definition quiet_world :: "unit db \<Rightarrow> unit world" where
  "quiet_world d = \<lparr>wo_db = d, wo_events = [], wo_deliveries = [], wo_swept = 0, wo_rates = [], wo_resolver = WithConsoleHost ''console.test'' (NewResolver ''platform.test''),
     wo_calls = 0, wo_moments = (\<lambda>_. sample_moment)\<rparr>"

definition sample_tasks :: "unit db endpoint" where
  "sample_tasks = \<lparr>ep_validate = (\<lambda>token audience. Inl ''not a token''), ep_audience = ''https://s'', ep_invoker = ''tasks@p'',
     ep_registry = NewRegistry, ep_run = (\<lambda>name p. (Some (UnknownJob name), p))\<rparr>"

definition sample_hook :: webhook where
  "sample_hook = \<lparr>wh_name = brevo_name, wh_token = ''hook'', wh_events = (\<lambda>body. None)\<rparr>"

definition sample_site :: "unit site" where
  "sample_site = \<lparr>st_service = light, st_hmac = (\<lambda>k m. k @ m), st_parse_ip = Some,
     st_catalogue = lr_catalogue sample_languages, st_say = (\<lambda>tag key args. key), st_clock = (\<lambda>t. ((\<lambda>l. l), [], [])),
     st_html = (\<lambda>p v. wp_path p), st_qr = (\<lambda>_. None), st_preview = (\<lambda>_. None), st_script = ''script'',
     st_version = ''v1'', st_indexable = False, st_database = True, st_accounts = True, st_console = True,
     st_first_run = None, st_tasks = Some (sample_tasks, \<lambda>_. None), st_mail = Some sample_hook\<rparr>"

definition sample_front :: "unit world pipeline" where
  "sample_front = \<lparr>pl_indexable = False, pl_hops = 0, pl_general = None, pl_callbacks = []\<rparr>"

lemma sample_world_tagged: "world_tagged (quiet_world d)"
  by (simp add: world_tagged_def quiet_world_def sample_moment_def WithConsoleHost_def NewResolver_def)

lemma sample_tongues: "tongues_ok (st_catalogue sample_site)"
  by (simp add: tongues_ok_def sample_site_def sample_languages_def NewLanguageResolver_def tag_like_def tag_char_def code_def)

lemma sample_counts_apart: "counts_apart sample_front"
  by (simp add: counts_apart_def sample_front_def)

lemma every_answer_is_defended_witness:
  "defended (defences False True (fst (newNonce (st_machine sample_site) (quiet_world (empty_db ())))))
     (fst (Process sample_site sample_front sample_request (fresh_writer, quiet_world (empty_db ()))))"
proof -
  obtain nonce s1 where nonce: "newNonce (st_machine sample_site) (quiet_world (empty_db ())) = (nonce, s1)" by (metis prod.collapse)
  have r: "isHTTPS sample_request = True" "cx_language sample_request = []" "pl_indexable sample_front = False"
    by (simp_all add: isHTTPS_def sample_request_def sample_front_def)
  show ?thesis
    using every_answer_is_defended [OF nonce sample_tongues sample_world_tagged
        sample_counts_apart r(2)] nonce r by simp
qed

subsection \<open>The cookies\<close>

definition baked :: "bool \<Rightarrow> writer \<Rightarrow> bool" where
  "baked https w \<longleftrightarrow> list_all (site_cookie https) (wr_cookies w)"

lemma set_header_cookies [simp]: "wr_cookies (set_header n v w) = wr_cookies w"
  by (simp add: set_header_def)

interpretation baked: response_frame https "baked https" for https
  by unfold_locales (simp_all add: baked_def SetCookie_def WriteHeader_def del_header_def)

text \<open>
  C13. Safety: every cookie the process sets, whatever it answers, is one of the four of the
  program, the session's, the challenge's, the CSRF secret's and the language's, under the name
  its scheme gives it, and is Secure exactly over HTTPS. Over HTTPS the names of the first three
  have the prefix that binds them to the host; over HTTP they have not; the language's name is
  the same in both, without it. The languages of the catalogue and of the hosts are tags, as
  above.
\<close>

theorem cookies_follow_the_scheme:
  assumes "tongues_ok (st_catalogue S)" and "world_tagged s" and "counts_apart p" and "cx_language r = []"
  shows "\<forall>c \<in> set (wr_cookies (fst (Process S p r (fresh_writer, s)))).
    ck_secure c = isHTTPS r \<and>
    ck_name c \<in> {LanguageCookie, sessionCookieName r, challengeCookieName r, csrfCookieName r} \<and>
    (ck_name c = LanguageCookie \<or> (isHTTPS r = has_prefix ''__Host-'' (ck_name c)))"
proof -
  obtain nonce s1 where nonce: "newNonce (st_machine S) s = (nonce, s1)" by (metis prod.collapse)
  have "baked (isHTTPS r) (secure_headers (pl_indexable p) r nonce fresh_writer)"
    by (simp add: baked_def secure_headers_def Let_def fresh_writer_def)
  then have "baked (isHTTPS r) (fst (Process S p r (fresh_writer, s)))"
    by (rule baked.fine_Process [OF assms(1-3) refl assms(4) nonce])
  then show ?thesis
    by (auto simp: baked_def list_all_iff site_cookie_def has_prefix_def sessionCookieName_def challengeCookieName_def
        csrfCookieName_def sessionCookie_def challengeCookie_def csrfCookie_def
        sessionCookieInsecure_def challengeCookieInsecure_def csrfCookieInsecure_def split: if_splits)
qed

lemma cookies_follow_the_scheme_witness:
  "list_all (\<lambda>c. ck_secure c \<and> ck_name c \<in> {LanguageCookie, sessionCookieName sample_request,
       challengeCookieName sample_request, csrfCookieName sample_request})
     (wr_cookies (fst (Process sample_site sample_front sample_request (fresh_writer, quiet_world (empty_db ())))))"
proof -
  have r: "isHTTPS sample_request" "cx_language sample_request = []"
    by (simp_all add: isHTTPS_def sample_request_def)
  show ?thesis
    using cookies_follow_the_scheme [OF sample_tongues sample_world_tagged sample_counts_apart r(2)] r(1)
    by (simp add: list_all_iff)
qed

end
