(* ===== verification/SiteGates.thy ===== *)
theory SiteGates
  imports SiteProps
begin

text \<open>
  Who reaches what: the platform's host has no accounts, the account pages ask for a session
  before anything else, the console shows its pages to permitted staff with a second factor.
\<close>

subsection \<open>Finding a route\<close>

lemma find_skip: "\<forall>x \<in> set xs. \<not> P x \<Longrightarrow> find P (xs @ ys) = find P ys"
  by (induction xs) auto

lemma find_first: "\<exists>x \<in> set xs. P x \<Longrightarrow> \<exists>x \<in> set xs. P x \<and> find P (xs @ ys) = Some x"
  by (induction xs) auto

text \<open>The addresses of the identity pages, each clean, and none of them another route's.\<close>

definition identity_paths :: "string list" where
  "identity_paths =
     [''/signup'', ''/verify'', ''/verify/resend'', ''/signin'', ''/signin/verify'', ''/signin/verify/email'', ''/signout'',
      ''/account/password'', ''/account/verify'', ''/account/verify/email'', ''/account/security'', ''/account/security/app'',
      ''/account/security/remove'', ''/account/security/recovery'', ''/account/security/key'', ''/account/security/email'',
      ''/account/security/email/send'']"

lemma identity_paths_clean: "list_all (\<lambda>p. path_escape p = p \<and> cleanPath p = p) identity_paths"
  unfolding identity_paths_def list.pred_inject by (intro conjI TrueI; code_simp)

lemma identity_paths_apart:
  "list_all (\<lambda>p. \<not> webhook_path p \<and> p \<notin> set [HealthPath, RobotsPath, ScriptPath, LanguagePath, PreviewPath, TasksPath]) identity_paths"
  unfolding identity_paths_def list.pred_inject by (intro conjI TrueI; code_simp)

text \<open>Every identity route checks the host first, and an account's checks the session next.\<close>

definition identity_shaped :: "'a route \<Rightarrow> bool" where
  "identity_shaped t \<longleftrightarrow> (\<exists>p \<in> set identity_paths. \<exists>h. rt_path t = (\<lambda>q. q = p) \<and> rt_handler t = inMarketplace h \<and>
     (has_prefix ''/account/'' p \<longrightarrow> (\<exists>h'. h = signedIn h')))"

lemma shaped_signed: "p \<in> set identity_paths \<Longrightarrow> identity_shaped (mount m p (inMarketplace (signedIn h)))"
  unfolding identity_shaped_def mount_def by auto

lemma shaped_open: "p \<in> set identity_paths \<Longrightarrow> \<not> has_prefix ''/account/'' p \<Longrightarrow> identity_shaped (mount m p (inMarketplace h))"
  unfolding identity_shaped_def mount_def by auto

lemma factorRoutes_shaped: "list_all identity_shaped (factorRoutes S)"
  unfolding factorRoutes_def Let_def list.pred_inject
  by (intro conjI TrueI shaped_signed) (simp_all add: identity_paths_def securityPath_def)

lemma identityRoutes_shaped: "list_all identity_shaped (identityRoutes S)"
proof (cases "st_accounts S")
  case True
  then show ?thesis
    unfolding identityRoutes_def Let_def secondStepPath_def stepUpPath_def append_Cons append_Nil
    by (auto simp: factorRoutes_shaped identity_paths_def has_prefix_def intro!: shaped_signed shaped_open)
qed (simp add: identityRoutes_def)

text \<open>A request some identity route answers, and the handler it reaches.\<close>

definition asks_identity :: "'a site \<Rightarrow> request \<Rightarrow> bool" where
  "asks_identity S r \<longleftrightarrow> list_ex (\<lambda>t. rt_path t (rq_path r) \<and> answers_method (rt_method t) (rq_method r)) (identityRoutes S)"

lemma serve_identity:
  assumes "asks_identity S r"
  obtains h where "serve_mux (siteRoutes S) r = inMarketplace h r"
    "has_prefix ''/account/'' (rq_path r) \<Longrightarrow> \<exists>h'. h = signedIn h'"
proof -
  let ?P = "\<lambda>t. rt_path t (rq_path r) \<and> answers_method (rt_method t) (rq_method r)"
  obtain t0 where t0: "t0 \<in> set (identityRoutes S)" "?P t0" using assms by (auto simp: asks_identity_def list_ex_iff)
  have "identity_shaped t0" using t0(1) identityRoutes_shaped [of S] by (auto simp: list_all_iff)
  then have path: "rq_path r \<in> set identity_paths" using t0(2) by (auto simp: identity_shaped_def)
  then have clean: "cleanPath (path_escape (rq_path r)) = path_escape (rq_path r)"
    using identity_paths_clean by (simp add: list_all_iff)
  let ?before = "shared_routes S (st_indexable S) @ [mount ''GET'' PreviewPath (get_preview S)] @ callback_routes S"
  have "\<not> webhook_path (rq_path r) \<and> rq_path r \<notin> set [HealthPath, RobotsPath, ScriptPath, LanguagePath, PreviewPath, TasksPath]"
    using path identity_paths_apart by (simp only: list_all_iff) blast
  then have before: "\<forall>t \<in> set ?before. \<not> ?P t"
    by (auto simp: shared_routes_def callback_routes_def mount_def split: option.splits)
  obtain t where t: "t \<in> set (identityRoutes S)" "?P t"
      "find ?P (identityRoutes S @ [mount ''GET'' ''/'' (get_home S)]) = Some t"
    using find_first [of "identityRoutes S" ?P] t0 by blast
  have "siteRoutes S = ?before @ identityRoutes S @ [mount ''GET'' ''/'' (get_home S)]"
    by (simp add: siteRoutes_def)
  then have "find ?P (siteRoutes S) = Some t" by (simp only: find_skip [OF before] t(3))
  then have served: "serve_mux (siteRoutes S) r = rt_handler t r" by (simp add: serve_mux_def clean Let_def)
  have "identity_shaped t" using t(1) identityRoutes_shaped [of S] by (auto simp: list_all_iff)
  then obtain h where "rt_handler t = inMarketplace h" "has_prefix ''/account/'' (rq_path r) \<Longrightarrow> \<exists>h'. h = signedIn h'"
    using t(2) by (auto simp: identity_shaped_def)
  then show thesis using that served by simp
qed

subsection \<open>Hosts with no accounts, visitors with no session\<close>

text \<open>
  C14. Safety: accounts belong to marketplaces. On the platform's host, and on any host but the
  console's for which no marketplace was resolved, the site answers every identity address 404,
  whatever the request carries, and leaves the state the one it was given: none of the identity
  limits counts it, no password is hashed, no transaction begins. This is of the site's own
  handler: the general limiter and the session's check in front of it have run by then. The
  console, which is no marketplace either, has a sign-in of its own and is not one of these hosts.
\<close>

theorem no_accounts_outside_a_marketplace:
  assumes "asks_identity S r" and "marketplaceOf r = []" and "\<not> onConsole r"
  shows "SiteHandler S r (w, s) = (NotFound w, s)"
proof -
  obtain h where "serve_mux (siteRoutes S) r = inMarketplace h r" by (rule serve_identity [OF assms(1)])
  then show ?thesis
    using assms(2,3) by (simp add: SiteHandler_def inMarketplace_def not_found_def on_writer_def)
qed

text \<open>
  Safety: no account page is reached without a session. On a marketplace's host the
  addresses under \<^verbatim>\<open>/account/\<close> answer a visitor who is not signed in with a redirect to sign
  in, in the language of the request, before any limit counts or anything is read.
\<close>

theorem account_pages_ask_to_sign_in:
  assumes "asks_identity S r" and "marketplaceOf r \<noteq> []" and "cx_session r = None"
    and "has_prefix ''/account/'' (rq_path r)"
  shows "SiteHandler S r (w, s) = (http_redirect r (here r @ ''/signin'') StatusSeeOther w, s)"
proof -
  obtain h h' where "serve_mux (siteRoutes S) r = inMarketplace h r" "h = signedIn h'"
    using serve_identity [OF assms(1)] assms(4) by metis
  moreover have "\<not> onConsole r" using assms(2) by (auto simp: marketplaceOf_def onConsole_def)
  ultimately show ?thesis
    using assms(2,3) by (simp add: SiteHandler_def inMarketplace_def signedIn_def see_other_def on_writer_def)
qed

text \<open>A visitor at the platform's host who posts a sign-in, and one at a shop who opens the security page.\<close>

definition lost_request :: request where
  "lost_request = sample_request\<lparr>rq_method := ''POST'', rq_path := ''/signin'', cx_resolution := Some PlatformHost\<rparr>"

definition curious_request :: request where
  "curious_request = sample_request\<lparr>rq_path := ''/account/security'', cx_language := ''pt-BR''\<rparr>"

lemma sample_routes: "asks_identity sample_site lost_request" "asks_identity sample_site curious_request"
  by code_simp+

lemma no_accounts_outside_a_marketplace_witness:
  "SiteHandler sample_site lost_request (fresh_writer, quiet_world buyer_db) = (NotFound fresh_writer, quiet_world buyer_db)"
  by (rule no_accounts_outside_a_marketplace [OF sample_routes(1)])
     (simp_all add: lost_request_def marketplaceOf_def onConsole_def)

lemma account_pages_ask_to_sign_in_witness:
  "SiteHandler sample_site curious_request (fresh_writer, quiet_world buyer_db) =
     (http_redirect curious_request ''/pt-BR/signin'' StatusSeeOther fresh_writer, quiet_world buyer_db)"
proof -
  have "here curious_request @ ''/signin'' = ''/pt-BR/signin''" by code_simp
  then show ?thesis
    using account_pages_ask_to_sign_in [OF sample_routes(2), of fresh_writer "quiet_world buyer_db"]
    by (simp add: curious_request_def sample_request_def sample_shop_def marketplaceOf_def has_prefix_def)
qed

subsection \<open>What the console shows\<close>

lemma error_status: "wr_status w = None \<Longrightarrow> wr_status (http_error t k w) = Some k"
  by (simp add: http_error_def write_body_def WriteHeader_def set_header_def Let_def)

lemma not_found_status: "wr_status (fst ws) = None \<Longrightarrow> wr_status (fst (not_found ws)) = Some 404"
  by (cases ws) (simp add: not_found_def on_writer_def NotFound_def error_status)

lemma see_other_status: "wr_status (fst ws) = None \<Longrightarrow> wr_status (fst (see_other r t ws)) = Some 303"
  by (cases ws) (simp add: see_other_def on_writer_def http_redirect_def WriteHeader_def set_header_def Let_def page_statuses)

text \<open>A page behind a permission: what it takes for \<open>allows\<close> to say yes.\<close>

lemma allows_run:
  assumes "cx_session r = Some se" and "se_second se"
  shows "allows S r permission k (w, s) = k (is_owner None (ID (se_account se)) (wo_db s)) (w, ticked s)"
  using assms
  by (simp add: allows_def ask_def Allows_def in_tx_def reads_def ticked_def split: sum.splits)

lemma secured_permitted_status:
  assumes "wr_status w = None" and "wr_status (fst (secured (permitted S permission h) r (w, s))) = Some 200"
  shows "\<exists>se. cx_session r = Some se \<and> se_second se \<and> is_owner None (ID (se_account se)) (wo_db s)"
proof (cases "cx_session r")
  case None
  then show ?thesis using assms by (simp add: secured_def staffOnly_def signedIn_def see_other_status)
next
  case (Some se)
  then have se: "session_in r = se" by (simp add: session_in_def)
  then have second: "se_second se"
    using assms Some by (auto simp: secured_def staffOnly_def signedIn_def withFactor_def see_other_status split: if_splits)
  then show ?thesis
    using assms Some se
    by (auto simp: secured_def staffOnly_def signedIn_def withFactor_def permitted_def allows_run not_found_status split: if_splits)
qed

lemma version_status:
  assumes "wr_status w = None" and "wr_status (fst (consoleVersion S r (w, s))) = Some 200"
  shows "\<exists>se. cx_session r = Some se \<and> se_second se \<and> is_owner None (ID (se_account se)) (wo_db s)"
proof (cases "\<exists>se. cx_session r = Some se \<and> se_second se")
  case True
  then show ?thesis
    using assms by (auto simp: consoleVersion_def allows_run not_found_status split: if_splits)
next
  case False
  then have "allows S r ConsoleVersion k = k False" for k :: "bool \<Rightarrow> 'a responder"
    by (auto simp: allows_def split: option.splits)
  then show ?thesis using assms by (simp add: consoleVersion_def not_found_status)
qed

lemma console_find:
  assumes "(path, h) \<in> set [(''/'', secured (permitted S ConsoleView (consoleHome S))), (ConsoleVersionPath, consoleVersion S)]"
  shows "find (\<lambda>t. rt_path t path \<and> answers_method (rt_method t) m) (consoleRoutes S) =
    (if st_accounts S \<and> st_console S \<and> answers_method ''GET'' m then Some (mount ''GET'' path h) else None)"
  using assms unfolding consoleRoutes_def shared_routes_def consolePages_def Let_def
  by (auto simp: mount_def HealthPath_def RobotsPath_def ScriptPath_def LanguagePath_def setupPath_def secondStepPath_def
      enrolPath_def securityPath_def stepUpPath_def ConsoleVersionPath_def)

lemma mux_status:
  assumes "wr_status w = None" and "wr_status (fst (serve_mux routes r (w, s))) = Some 200"
  shows "\<exists>t. find (\<lambda>t. rt_path t (rq_path r) \<and> answers_method (rt_method t) (rq_method r)) routes = Some t \<and>
    serve_mux routes r = rt_handler t r"
proof -
  have moved: "wr_status (http_redirect r t StatusMovedPermanently w) = Some 301" for t
    using assms(1) by (simp add: http_redirect_def WriteHeader_def set_header_def Let_def page_statuses)
  show ?thesis
    using assms unfolding serve_mux_def Let_def
    by (auto simp: on_writer_def moved not_found_status error_status split: if_splits option.splits)
qed

lemma console_page_status:
  assumes "onConsole r" and path: "rq_path r \<in> {''/'', ConsoleVersionPath}" and w: "wr_status w = None"
    and ok: "wr_status (fst (SiteHandler S r (w, s))) = Some 200"
  shows "\<exists>se. cx_session r = Some se \<and> se_second se \<and> is_owner None (ID (se_account se)) (wo_db s)"
proof -
  let ?r = "withConsoleName S r" and ?w = "set_header ''X-Robots-Tag'' noindex w"
  have run: "SiteHandler S r (w, s) = serve_mux (consoleRoutes S) ?r (?w, s)"
    using assms(1) by (simp add: SiteHandler_def on_writer_def)
  have q: "rq_path ?r = rq_path r" "cx_session ?r = cx_session r" "wr_status ?w = None"
    using w by (simp_all add: withConsoleName_def)
  obtain t where t: "find (\<lambda>t. rt_path t (rq_path r) \<and> answers_method (rt_method t) (rq_method ?r)) (consoleRoutes S) = Some t"
      "serve_mux (consoleRoutes S) ?r = rt_handler t ?r"
    using mux_status [OF q(3), of "consoleRoutes S" ?r s] ok by (auto simp: run q)
  from path consider "rq_path r = ''/''" | "rq_path r = ConsoleVersionPath" by blast
  then show ?thesis
  proof cases
    case 1
    then have "rt_handler t = secured (permitted S ConsoleView (consoleHome S))"
      using t(1) console_find [of "''/''" "secured (permitted S ConsoleView (consoleHome S))" S] by (auto simp: mount_def split: if_splits)
    then show ?thesis
      using secured_permitted_status [OF q(3), of S ConsoleView "consoleHome S" ?r s] ok unfolding run t(2) q by simp
  next
    case 2
    then have "rt_handler t = consoleVersion S"
      using t(1) console_find [of ConsoleVersionPath "consoleVersion S" S] by (auto simp: mount_def split: if_splits)
    then show ?thesis
      using version_status [OF q(3), of S ?r s] ok unfolding run t(2) q by simp
  qed
qed

text \<open>
  C11. Safety: the console's home and its build identifier are shown only to permitted staff.
  Where either answers 200, the request carried a session cookie, it opened a staff member's
  session at that moment, the staff member has a second factor, and the authoriser said yes
  in the database of that moment: the account holds the owner's role.
\<close>

theorem console_shows_its_pages_to_permitted_staff:
  assumes "onConsole r" and "cx_session r = None" and "rq_path r \<in> {''/'', ConsoleVersionPath}" and "wr_status w = None"
    and "wr_status (fst (Sessions S (SiteHandler S) r (w, s))) = Some 200"
  shows "\<exists>token se d. sent_cookie (sessionCookieName r) r = Some token \<and>
    AuthenticateStaff (st_service S) token (mo_now (moment_of s)) (wo_db s) = (Inr se, d) \<and>
    se_second se \<and> is_owner None (ID (se_account se)) d"
proof (cases "sent_cookie (sessionCookieName r) r")
  case None
  then show ?thesis
    using console_page_status [OF assms(1,3,4)] assms(2,5) by (auto simp: Sessions_def)
next
  case (Some token)
  obtain answer d where auth: "AuthenticateStaff (st_service S) token (mo_now (moment_of s)) (wo_db s) = (answer, d)"
    by (metis prod.collapse)
  show ?thesis
  proof (cases answer)
    case (Inl e)
    have cleared: "wr_status (clearSession r w) = None" using assms(4) by (simp add: clearSession_def)
    then show ?thesis
      using assms(1,2,3,5) console_page_status [OF assms(1,3,4)] console_page_status [OF assms(1,3) cleared] Some auth Inl
      by (auto simp: Sessions_def ask_def on_writer_def pass_def split: if_splits)
  next
    case (Inr se)
    let ?q = "r\<lparr>cx_session := Some se\<rparr>" and ?w = "set_header ''Cache-Control'' ''no-store'' w"
    have q: "onConsole ?q" "rq_path ?q \<in> {''/'', ConsoleVersionPath}" "wr_status ?w = None"
      using assms(1,3,4) by (simp_all add: onConsole_def)
    have "wr_status (fst (SiteHandler S ?q (?w, (ticked s)\<lparr>wo_db := d\<rparr>))) = Some 200"
      using assms(1,5) Some auth Inr by (simp add: Sessions_def ask_def on_writer_def)
    from console_page_status [OF q this] show ?thesis using Some auth Inr by auto
  qed
qed

text \<open>The owner, with an app, opens the console.\<close>

definition staff_db :: "unit db" where
  "staff_db = (empty_db ())\<lparr>
     accounts := [\<lparr>a_id = ''o1'', a_scope = None, a_kind = KindStaff, a_email = ''o@b'', a_normalised = ''o@b'',
       a_name = ''Olga'', a_verified = Some 1\<rparr>],
     sessions := [\<lparr>s_id = ''s1'', s_account = ''o1'', s_scope = None, s_hash = bytes_of ''tok'', s_created = 1, s_seen = 1,
       s_ip = [], s_agent = [], s_revoked = None, s_stepped_up = None, s_email_confirmed = None\<rparr>],
     factors := [\<lparr>f_id = ''f1'', f_account = ''o1'', f_scope = None, f_method = MethodApp, f_label = ''phone'',
       f_secret = Some [1], f_last_step = None, f_credential = None, f_public_key = None, f_sign_count = 0,
       f_flags = 0, f_created = 1, f_used = None\<rparr>],
     roles := [\<lparr>ro_id = ''r1'', ro_owner = True\<rparr>], user_roles := [\<lparr>ur_account = ''o1'', ur_role = ''r1''\<rparr>]\<rparr>"

definition staff_request :: request where
  "staff_request = sample_request\<lparr>cx_resolution := Some ConsoleHost, rq_cookies := [(sessionCookie, ''tok'')], cx_language := ''en-US''\<rparr>"

lemma staff_home: "wr_status (fst (Sessions sample_site (SiteHandler sample_site) staff_request (fresh_writer, quiet_world staff_db))) = Some 200"
  by code_simp

lemma console_shows_its_pages_to_permitted_staff_witness:
  "\<exists>token se d. sent_cookie (sessionCookieName staff_request) staff_request = Some token \<and>
    AuthenticateStaff (st_service sample_site) token (mo_now (moment_of (quiet_world staff_db))) (wo_db (quiet_world staff_db)) = (Inr se, d) \<and>
    se_second se \<and> is_owner None (ID (se_account se)) d"
  by (rule console_shows_its_pages_to_permitted_staff [OF _ _ _ _ staff_home])
     (simp_all add: staff_request_def onConsole_def sample_request_def fresh_writer_def)

text \<open>
  The multiplexer cleans a path after the language was cut off it: its redirect names none, and
  the visitor ends in whatever language is chosen for him.
\<close>

lemma doubled_slash_loses_the_language:
  "response_header ''Location'' (fst (SiteHandler sample_site (sample_request\<lparr>rq_path := ''//signup'', cx_language := ''pt-BR''\<rparr>)
     (fresh_writer, quiet_world (empty_db ())))) = Some ''/signup''"
  by code_simp

end
