(* ===== verification/SiteAgent.thy ===== *)
theory SiteAgent
  imports SiteWorld
begin

text \<open>
  What of a browser's name is stored (identity.go): whatever the header holds, a valid text
  of at most 512 bytes, cut between characters and no more than it has to be.
\<close>

lemma whole_rune_bytes:
  assumes "whole_rune (r, b)"
  shows "0 < length b" "length b \<le> 4" "RuneStart (b ! 0)"
    "0 < j \<Longrightarrow> j < length b \<Longrightarrow> \<not> RuneStart (b ! j)"
proof -
  obtain c cs where b: "b = c # cs" using assms rune_at_width by (cases b) (fastforce simp: whole_rune_def)+
  have at: "rune_at (int (code c) # codes_of cs) = Some (r, Suc (length cs))"
    using assms by (simp add: whole_rune_def b)
  show "0 < length b" by (simp add: b)
  have few: "length cs = 0 \<or> length cs = 1 \<or> length cs = 2 \<or> length cs = 3"
    using at by (auto split: if_splits list.splits)
  then show "length b \<le> 4" by (auto simp: b)
  show "RuneStart (b ! 0)" using at by (auto simp: b RuneStart_def split: if_splits list.splits)
  show "\<not> RuneStart (b ! j)" if "0 < j" "j < length b"
  proof -
    have "\<forall>x \<in> set cs. 128 \<le> code x \<and> code x \<le> 191"
      using at few by (auto simp: cont_def length_Suc_conv numeral_2_eq_2 numeral_3_eq_3 split: if_splits list.splits)
    moreover have "b ! j \<in> set cs" using that by (cases j) (auto simp: b)
    ultimately show ?thesis by (simp add: RuneStart_def)
  qed
qed

lemma rune_starts:
  assumes "list_all whole_rune rs" and "m < length (string_of rs)" and "RuneStart (string_of rs ! m)"
  shows "\<exists>k. take m (string_of rs) = string_of (take k rs)"
  using assms
proof (induction rs arbitrary: m)
  case (Cons x rs)
  obtain r b where x: "x = (r, b)" by (cases x)
  have s: "string_of ((r, b) # rs) = b @ string_of rs" by (simp add: string_of_def)
  show ?case
  proof (cases "m < length b")
    case True
    then have "m = 0" using whole_rune_bytes(4) [of r b m] Cons.prems by (auto simp: x s nth_append)
    then show ?thesis by (intro exI [of _ 0]) (simp add: string_of_def)
  next
    case False
    then have "m - length b < length (string_of rs)" using Cons.prems by (auto simp: x s)
    then obtain k where "take (m - length b) (string_of rs) = string_of (take k rs)"
      using False Cons.IH [of "m - length b"] Cons.prems by (auto simp: x s nth_append)
    then show ?thesis using False by (intro exI [of _ "Suc k"]) (simp add: x s, simp add: string_of_def)
  qed
qed (simp add: string_of_def)

lemma start_is_near:
  assumes "list_all whole_rune rs" and "n < length (string_of rs)"
  shows "\<exists>p. p \<le> n \<and> n \<le> p + 3 \<and> RuneStart (string_of rs ! p)"
  using assms
proof (induction rs arbitrary: n)
  case (Cons x rs)
  obtain r b where x: "x = (r, b)" by (cases x)
  have s: "string_of ((r, b) # rs) = b @ string_of rs" by (simp add: string_of_def)
  have b: "0 < length b" "length b \<le> 4" "RuneStart (b ! 0)" using whole_rune_bytes [of r b] Cons.prems by (auto simp: x)
  show ?case
  proof (cases "n < length b")
    case True
    then show ?thesis using b by (intro exI [of _ 0]) (auto simp: x s nth_append)
  next
    case False
    then have "n - length b < length (string_of rs)" using Cons.prems by (auto simp: s x)
    then obtain p where "p \<le> n - length b" "n - length b \<le> p + 3" "RuneStart (string_of rs ! p)"
      using Cons.IH [of "n - length b"] Cons.prems by auto
    then show ?thesis using False by (intro exI [of _ "length b + p"]) (auto simp: x s nth_append)
  qed
qed (simp add: string_of_def)

text \<open>The loop stops at the nearest start of a character.\<close>

lemma cut_down_stops:
  "cut_down s n \<le> n" "cut_down s n = 0 \<or> RuneStart (s ! cut_down s n)"
  "p \<le> n \<Longrightarrow> RuneStart (s ! p) \<Longrightarrow> p \<le> cut_down s n"
  by (induction n) (auto simp: le_Suc_eq)

lemma valid_from_whole: "list_all (\<lambda>(r, b). r \<noteq> None \<longrightarrow> whole_rune (the r, b)) xs \<Longrightarrow> list_all whole_rune (valid_from bad xs)"
  by (induction bad xs rule: valid_from.induct) (auto simp: whole_replacement)

lemma made_valid:
  obtains rs where "ToValidUTF8 s = string_of rs" "list_all whole_rune rs"
proof
  show "ToValidUTF8 s = string_of (valid_from False (runes s))" by (simp add: ToValidUTF8_def)
  have "list_all (\<lambda>(r, b). r \<noteq> None \<longrightarrow> whole_rune (the r, b)) (runes s)"
    using runes_are_whole [of s] by (auto simp: runes_written_def list_all_iff split: option.splits)
  then show "list_all whole_rune (valid_from False (runes s))" by (rule valid_from_whole)
qed

lemma whole_runes_valid: "list_all whole_rune rs \<Longrightarrow> ValidString (string_of rs)"
  by (auto simp: ValidString_def runes_of_written list_all_iff)

lemma valid_text_is_kept:
  assumes "ValidString s"
  shows "ToValidUTF8 s = s"
proof -
  have "string_of (valid_from bad xs) = concat (map snd xs)" if "list_all (\<lambda>(r, _). r \<noteq> None) xs" for bad xs
    using that by (induction bad xs rule: valid_from.induct) (auto simp: string_of_def)
  then show ?thesis using assms by (simp add: ToValidUTF8_def ValidString_def concat_runes)
qed

text \<open>
  C37. Bounds: the browser's name kept with a session or an audit entry is valid text of at
  most 512 bytes, whatever the header holds; it begins what the header says, and where that
  is longer at most three bytes of a character that does not fit are given up.
\<close>

theorem stored_agent_fits:
  "length (userAgent r) \<le> 512 \<and> ValidString (userAgent r) \<and>
   take (length (userAgent r)) (ToValidUTF8 (user_agent_header r)) = userAgent r \<and>
   min 509 (length (ToValidUTF8 (user_agent_header r))) \<le> length (userAgent r)"
proof -
  let ?s = "ToValidUTF8 (user_agent_header r)"
  obtain rs where rs: "?s = string_of rs" "list_all whole_rune rs" by (rule made_valid)
  show ?thesis
  proof (cases "length ?s \<le> 512")
    case True
    then show ?thesis using whole_runes_valid [OF rs(2)] by (simp add: userAgent_def stored_agent_def maxUserAgent_def rs(1))
  next
    case False
    let ?c = "cut_down ?s 512"
    have agent: "userAgent r = take ?c ?s" using False by (simp add: userAgent_def stored_agent_def maxUserAgent_def Let_def)
    have c: "?c \<le> 512" by (rule cut_down_stops(1))
    have long: "512 < length (string_of rs)" using False by (simp add: rs(1))
    obtain p where "p \<le> 512" "512 \<le> p + 3" "RuneStart (?s ! p)"
      using start_is_near [OF rs(2) long] by (auto simp: rs(1))
    then have near: "509 \<le> ?c" using cut_down_stops(3) [of p 512 ?s] by simp
    then have "RuneStart (?s ! ?c)" using cut_down_stops(2) [of ?s 512] by auto
    then obtain k where k: "take ?c ?s = string_of (take k rs)"
      using rune_starts [OF rs(2), of ?c] c long by (auto simp: rs(1))
    have "list_all whole_rune (take k rs)" using rs(2) by (auto simp: list_all_iff dest: in_set_takeD)
    then have "ValidString (take ?c ?s)" unfolding k by (rule whole_runes_valid)
    moreover have "length (take ?c ?s) = ?c" using c False by simp
    ultimately show ?thesis unfolding agent using c near by simp
  qed
qed

end
