(* ===== verification/SiteSignIn.thy ===== *)
theory SiteSignIn
  imports SiteProps SessionProps
begin

text \<open>
  Signing in as a browser sees it: the cookie the answer to the form sets, sent with a later
  request, makes that request the account's whose address and password were typed.
\<close>

subsection \<open>A session that lets its browser in\<close>

definition lets_in :: "'a service \<Rightarrow> scope \<Rightarrow> string \<Rightarrow> uuid \<Rightarrow> time \<Rightarrow> 'a db \<Rightarrow> bool" where
  "lets_in S sc token account at d \<longleftrightarrow>
     (\<exists>row. find_session sc (hash_of S token) d = Some row \<and> s_account row = account \<and> s_created row = at \<and> s_seen row = at) \<and>
     find_account sc account d \<noteq> None"

lemma lets_in_tables: "sessions e = sessions d \<Longrightarrow> accounts e = accounts d \<Longrightarrow> lets_in S sc token i at e = lets_in S sc token i at d"
  by (simp add: lets_in_def find_session_def find_account_def)

lemma opened_lets_in:
  assumes "signIn S v email password r other now d = (Inr (SessionOpened token), d')"
    and "(icommit S B X)\<^sup>*\<^sup>* d (other d)"
  shows "\<exists>normalised account secret stale. NormaliseEmail (sv_parse_address S) email = Inr normalised \<and>
    find_account_by_email (scope_of v) normalised d = Some account \<and> VerifiedAt account \<noteq> None \<and>
    find_secret (scope_of v) (ID account) d = Some secret \<and>
    VerifyPassword (sv_hasher S) (dr_verify r) password secret = Inr (True, stale) \<and>
    lets_in S (scope_of v) token (ID account) now d'"
proof -
  obtain normalised account secret stale fresh challenged where
    facts: "NormaliseEmail (sv_parse_address S) email = Inr normalised"
      "find_account_by_email (scope_of v) normalised d = Some account" "VerifiedAt account \<noteq> None"
      "find_secret (scope_of v) (ID account) d = Some secret"
      "VerifyPassword (sv_hasher S) (dr_verify r) password secret = Inr (True, stale)"
    and tx: "signin_tx S (scope_of v) v (ID account) secret fresh (hash_of S (drawn_token S r)) now (other d) =
      Inr (challenged, d')"
    and out: "SessionOpened token = (if challenged then ChallengeOpened (drawn_token S r) else SessionOpened (drawn_token S r))"
    using assms(1) by (rule signIn_Inr)
  then have token: "token = drawn_token S r" "\<not> challenged" by (auto split: if_splits)
  obtain row where row: "sessions d' = sessions (other d) @ [row]"
      "new_session (scope_of v) (ID account) (hash_of S token) now row"
      "hash_of S token \<notin> s_hash ` set (sessions (other d))"
    using signin_tx_sessions(3) [OF tx] token by auto
  have "find_account (scope_of v) (ID account) (other d) \<noteq> None"
    using find_account_kept [OF accounts_kept_history [OF assms(2)]] find_by_email_account [OF facts(2)] by blast
  then have "find_account (scope_of v) (ID account) d' \<noteq> None"
    using signin_tx_sessions(4) [OF tx] by (simp add: find_account_def)
  then have "lets_in S (scope_of v) token (ID account) now d'"
    using find_session_new [OF row] row(2) by (auto simp: lets_in_def new_session_def)
  then show ?thesis using facts by blast
qed

lemma find_kept: "find P xs = Some x \<Longrightarrow> \<not> hit x \<Longrightarrow> find P (delete_where hit xs) = Some x"
  by (induction xs) (auto simp: delete_where_def split: if_splits)

lemma find_untouched: "(\<And>x. P x \<Longrightarrow> \<not> hit x) \<Longrightarrow> (\<And>x. hit x \<Longrightarrow> P (f x) = P x) \<Longrightarrow> find P (update_where hit f xs) = find P xs"
  by (induction xs) (auto simp: update_where_def)

lemma sweep_lets_in:
  assumes "lets_in S sc token i at d" and "later - at \<le> SessionIdle"
  shows "lets_in S sc token i at (snd (sweep v lst later d))"
proof (cases "later - lst \<ge> sweepEvery \<and> visit_ok v")
  case True
  obtain row where row: "find_session sc (hash_of S token) d = Some row" "s_account row = i" "s_created row = at" "s_seen row = at"
    using assms(1) by (auto simp: lets_in_def)
  then have live: "s_revoked row = None" by (auto simp: find_session_def find_Some_iff)
  have "\<not> session_dead later row" using row live assms(2) by (simp add: session_dead_def durations)
  then have "find_session sc (hash_of S token) (snd (sweep v lst later d)) = Some row"
    using row(1) True
    by (simp add: sweep_def within_ok in_tx_def sweepSessions_def Let_def tx_run find_session_def find_kept)
  moreover have "find_account sc i (snd (sweep v lst later d)) = find_account sc i d"
    using True by (simp add: sweep_def within_ok in_tx_def sweepSessions_def Let_def tx_run find_account_def)
  ultimately show ?thesis using assms(1) row by (simp add: lets_in_def)
next
  case False
  then have "snd (sweep v lst later d) = d" by (auto simp: sweep_def within_refused)
  then show ?thesis using assms(1) by simp
qed

lemma superseded_lets_in:
  assumes "lets_in S sc token i at d" and "hash_of S old \<noteq> hash_of S token"
  shows "lets_in S sc token i at (snd (Supersede S v old now d))"
proof -
  obtain x e where run: "Supersede S v old now d = (x, e)" by (metis prod.collapse)
  show ?thesis
  proof (cases x)
    case (Inl err)
    then have "e = d"
      using run by (auto simp: Supersede_def end_session_def within_def in_tx_def split: if_splits sum.splits)
    then show ?thesis using assms(1) run by simp
  next
    case (Inr u)
    then have tx: "end_tx S (scope_of v) v (hash_of S old) ''replaced'' ''identity.session_replaced'' now d = Inr (u, e)"
      using run by (simp add: Supersede_def end_session_def within_Inr)
    let ?hit = "\<lambda>r. s_scope r = scope_of v \<and> s_hash r = hash_of S old \<and> s_revoked r = None"
    let ?ended = "\<lambda>r. r\<lparr>s_revoked := Some (now, ''replaced'')\<rparr>"
    have "(sessions e = sessions d \<or> sessions e = update_where ?hit ?ended (sessions d)) \<and> accounts e = accounts d"
      using tx by (auto simp: end_tx_def revokeSession_def record_own_def recordWith_def tx_simps split: option.splits)
    moreover have "find (\<lambda>r. s_scope r = sc \<and> s_hash r = hash_of S token \<and> s_revoked r = None) (update_where ?hit ?ended (sessions d)) =
        find (\<lambda>r. s_scope r = sc \<and> s_hash r = hash_of S token \<and> s_revoked r = None) (sessions d)"
      using assms(2) by (intro find_untouched) auto
    ultimately have "find_session sc (hash_of S token) e = find_session sc (hash_of S token) d" "find_account sc i e = find_account sc i d"
      by (auto simp: find_session_def find_account_def)
    then show ?thesis using assms(1) run by (simp add: lets_in_def)
  qed
qed

lemma lets_in_authenticates:
  assumes "lets_in S (Some marketplace) token i at d" and "marketplace \<noteq> []" and "now - at \<le> SessionIdle"
  shows "\<exists>se d'. Authenticate S marketplace token now d = (Inr se, d') \<and> ID (se_account se) = i"
proof -
  obtain row where row: "find_session (Some marketplace) (hash_of S token) d = Some row" "s_account row = i" "s_created row = at"
      "s_seen row = at" "find_account (Some marketplace) i d \<noteq> None"
    using assms(1) by (auto simp: lets_in_def)
  have visit: "visit_ok (bare_visit marketplace False)" "scope_of (bare_visit marketplace False) = Some marketplace"
    using assms(2) by (simp_all add: visit_ok_def bare_visit_def scope_of_def nullif_def)
  have "in_time now row" using row(3,4) assms(3) by (simp add: in_time_def durations)
  then show ?thesis
    using opened_authenticates [of "bare_visit marketplace False" S token d row now] visit row unfolding Authenticate_def by auto
qed

subsection \<open>The answer to the form\<close>

text \<open>What an answer sets: cookies of the other names, and the session's.\<close>

definition sets_no_session :: "string \<Rightarrow> 'a responder \<Rightarrow> bool" where
  "sets_no_session name h \<longleftrightarrow> (\<forall>ws. \<forall>c \<in> set (wr_cookies (fst (h ws))). ck_name c = name \<longrightarrow> c \<in> set (wr_cookies (fst ws)))"

lemma other_cookies:
  "csrfCookieName r \<noteq> sessionCookieName r" "challengeCookieName r \<noteq> sessionCookieName r"
  by (simp_all add: csrfCookieName_def csrfCookie_def csrfCookieInsecure_def sessionCookieName_def sessionCookie_def
      sessionCookieInsecure_def challengeCookieName_def challengeCookie_def challengeCookieInsecure_def)

lemma written_cookies [simp]:
  "wr_cookies (WriteHeader k w) = wr_cookies w" "wr_cookies (write_body t w) = wr_cookies w"
  "wr_cookies (http_error t k w) = wr_cookies w" "wr_cookies (http_redirect r target k w) = wr_cookies w"
  by (simp_all add: WriteHeader_def write_body_def http_error_def http_redirect_def Let_def)

lemma quiet_ask: "(\<And>x. sets_no_session n (k x)) \<Longrightarrow> sets_no_session n (ask f k)"
  unfolding sets_no_session_def ask_def by (simp split: prod.splits)

lemma quiet_allows: "(\<And>x. sets_no_session n (k x)) \<Longrightarrow> sets_no_session n (allows S r permission k)"
  by (simp add: allows_def quiet_ask split: option.split)

lemma quiet_menu: "(\<And>items. sets_no_session n (k items)) \<Longrightarrow> sets_no_session n (menu_from S r path es k)"
  by (induction S r path es k rule: menu_from.induct) (simp_all add: Let_def quiet_allows)

lemma quiet_page: "sets_no_session n (show_page S r status path v)"
proof -
  have "sets_no_session n (renderStatus S status p v)" for p
    by (auto simp: sets_no_session_def renderStatus_def on_writer_def case_prod_beta)
  then show ?thesis by (auto simp: show_page_def page_for_def consoleMenu_def intro: quiet_menu)
qed

lemma quiet_error: "sets_no_session n internal_error"
  by (simp add: sets_no_session_def internal_error_def on_writer_def case_prod_beta)

lemma drawn_db: "wo_db (snd (mc_rand (st_machine S) n s)) = wo_db s"
  by (simp add: st_machine_def rand_bytes_def case_prod_beta ticked_def)

lemma opened_answer:
  assumes "(see_other r target \<circ> openSession S r token) (w, s) = (w', s')"
    and "c \<in> set (wr_cookies w')" and "ck_name c = sessionCookieName r" and "c \<notin> set (wr_cookies w)"
  shows "ck_value c = token \<and> wo_db s' = (case sent_cookie (sessionCookieName r) r of None \<Rightarrow> wo_db s
    | Some old \<Rightarrow> snd (Supersede (st_service S) (visit_of r) old (mo_now (moment_of s)) (wo_db s)))"
  using assms other_cookies(1) [of r] drawn_db [of S secretBytes]
  by (cases "sent_cookie (sessionCookieName r) r")
     (auto simp: openSession_def see_other_def on_writer_def RenewCSRF_def newCSRFSecret_def setSession_def SetCookie_def
       pass_def ask_def case_prod_beta ticked_def split: if_splits)

lemma challenged_answer:
  "sets_no_session (sessionCookieName r) (see_other r target \<circ> on_writer (setChallenge r token))"
  using other_cookies(2) [of r]
  by (auto simp: sets_no_session_def see_other_def on_writer_def setChallenge_def SetCookie_def case_prod_beta split: if_splits)

lemma sets_no_sessionD:
  "sets_no_session n h \<Longrightarrow> h (w, s) = (w', s') \<Longrightarrow> c \<in> set (wr_cookies w') \<Longrightarrow> ck_name c = n \<Longrightarrow> c \<in> set (wr_cookies w)"
  unfolding sets_no_session_def by (metis fst_conv)

lemma post_signIn_opens:
  assumes "post_signIn S r (w, s) = (w', s')"
    and "c \<in> set (wr_cookies w')" and "ck_name c = sessionCookieName r" and "c \<notin> set (wr_cookies w)"
  obtains d swept where "signIn (st_service S) (visit_of r) (PostFormValue r ''email'') (PostFormValue r ''password'')
      (mo_draws (moment_of s)) (mo_other (moment_of s)) (mo_now (moment_of s)) (wo_db s) = (Inr (SessionOpened (ck_value c)), d)"
    "wo_db s' = (let e = snd (sweep (visit_of r) swept (mo_later (moment_of s)) d) in
       case sent_cookie (sessionCookieName r) r of None \<Rightarrow> e
       | Some old \<Rightarrow> snd (Supersede (st_service S) (visit_of r) old (mo_now (moment_of (ticked s))) e))"
proof -
  define flow where "flow = (\<lambda>lst. SignIn (st_service S) (visit_of r) (PostFormValue r ''email'') (PostFormValue r ''password'')
      (mo_draws (moment_of s)) (mo_other (moment_of s)) (mo_now (moment_of s)) lst (mo_later (moment_of s)) (wo_db s))"
  obtain answer swept d where run: "flow (wo_swept s) = (answer, swept, d)" by (metis prod.collapse)
  let ?s = "(ticked s)\<lparr>wo_db := d, wo_swept := swept\<rparr>"
  obtain token where answer: "answer = Inr (SessionOpened token)"
    and rest: "(see_other r (here r @ ''/'') \<circ> openSession S r token) (w, ?s) = (w', s')"
  proof (cases answer)
    case (Inl e)
    obtain key where "(if e = ErrCredentials \<or> e = ErrUnverified
        then show_page S r PageUnauthorized ''/signin'' (VSignIn (refused_form signInFields key []
          (newForm\<lparr>fo_email := PostFormValue r ''email''\<rparr>)) False)
        else internal_error) (w, ?s) = (w', s')"
      using assms(1) run Inl by (auto simp: post_signIn_def Let_def ask_sweep_def flow_def split: if_splits)
    then have "c \<in> set (wr_cookies w)"
      using sets_no_sessionD [OF quiet_page _ assms(2,3)] sets_no_sessionD [OF quiet_error _ assms(2,3)] by (auto split: if_splits)
    then show ?thesis using assms(4) by simp
  next
    case (Inr entered)
    show ?thesis
    proof (cases entered)
      case (ChallengeOpened token)
      then have "(see_other r (here r @ secondStepPath) \<circ> on_writer (setChallenge r token)) (w, ?s) = (w', s')"
        using assms(1) run Inr by (simp add: post_signIn_def Let_def ask_sweep_def flow_def)
      then have "c \<in> set (wr_cookies w)" using sets_no_sessionD [OF challenged_answer _ assms(2,3)] by simp
      then show ?thesis using assms(4) by simp
    next
      case (SessionOpened token)
      then have "(see_other r (here r @ ''/'') \<circ> openSession S r token) (w, ?s) = (w', s')"
        using assms(1) run Inr by (simp add: post_signIn_def Let_def ask_sweep_def flow_def)
      then show ?thesis using that Inr SessionOpened by simp
    qed
  qed
  obtain e where signed: "signIn (st_service S) (visit_of r) (PostFormValue r ''email'') (PostFormValue r ''password'')
      (mo_draws (moment_of s)) (mo_other (moment_of s)) (mo_now (moment_of s)) (wo_db s) = (Inr (SessionOpened token), e)"
    and swept: "sweep (visit_of r) (wo_swept s) (mo_later (moment_of s)) e = (swept, d)"
    using run answer by (auto simp: flow_def SignIn_def split: prod.splits sum.splits entered.splits)
  have moment: "moment_of ?s = moment_of (ticked s)" by (simp add: moment_of_def ticked_def)
  have "ck_value c = token" "wo_db s' = (case sent_cookie (sessionCookieName r) r of None \<Rightarrow> d
    | Some old \<Rightarrow> snd (Supersede (st_service S) (visit_of r) old (mo_now (moment_of (ticked s))) d))"
    using opened_answer [OF rest assms(2-4)] unfolding moment by (auto split: option.splits)
  then show ?thesis using that [of e "wo_swept s"] signed swept by simp
qed

subsection \<open>The request after it\<close>

text \<open>
  C15. Round trip: where the answer to the sign-in form of a marketplace sets a session cookie,
  the form named a confirmed account of that marketplace and its stored password, and whatever
  committed meanwhile, a later request to that marketplace that sends the cookie back, within
  thirty days and with the database as the sign-in left it, is handed on as that account's and
  marked as not to be stored.
\<close>

theorem signed_in_browser_is_let_in:
  assumes post: "post_signIn S r (w, s) = (w', s')" and here: "marketplaceOf r \<noteq> []"
    and cookie: "c \<in> set (wr_cookies w')" "ck_name c = sessionCookieName r" "c \<notin> set (wr_cookies w)"
    and meanwhile: "(icommit (st_service S) B X)\<^sup>*\<^sup>* (wo_db s) (mo_other (moment_of s) (wo_db s))"
    and clock: "mo_later (moment_of s) - mo_now (moment_of s) \<le> SessionIdle"
    and old: "map_option (hash_of (st_service S)) (sent_cookie (sessionCookieName r) r) \<noteq> Some (hash_of (st_service S) (ck_value c))"
    and again: "sent_cookie (sessionCookieName q) q = Some (ck_value c)" "marketplaceOf q = marketplaceOf r"
      "wo_db t = wo_db s'" "mo_now (moment_of t) - mo_now (moment_of s) \<le> SessionIdle"
  shows "\<exists>normalised account secret stale se t'.
    NormaliseEmail (sv_parse_address (st_service S)) (PostFormValue r ''email'') = Inr normalised \<and>
    find_account_by_email (Some (marketplaceOf r)) normalised (wo_db s) = Some account \<and> VerifiedAt account \<noteq> None \<and>
    find_secret (Some (marketplaceOf r)) (ID account) (wo_db s) = Some secret \<and>
    VerifyPassword (sv_hasher (st_service S)) (dr_verify (mo_draws (moment_of s))) (PostFormValue r ''password'') secret =
      Inr (True, stale) \<and>
    ID (se_account se) = ID account \<and>
    Sessions S nxt q (v, t) = nxt (q\<lparr>cx_session := Some se\<rparr>) (set_header ''Cache-Control'' ''no-store'' v, t')"
proof -
  let ?S = "st_service S"
  obtain d swept where signed: "signIn ?S (visit_of r) (PostFormValue r ''email'') (PostFormValue r ''password'')
      (mo_draws (moment_of s)) (mo_other (moment_of s)) (mo_now (moment_of s)) (wo_db s) = (Inr (SessionOpened (ck_value c)), d)"
    and db: "wo_db s' = (let e = snd (sweep (visit_of r) swept (mo_later (moment_of s)) d) in
       case sent_cookie (sessionCookieName r) r of None \<Rightarrow> e
       | Some old \<Rightarrow> snd (Supersede ?S (visit_of r) old (mo_now (moment_of (ticked s))) e))"
    using post cookie by (rule post_signIn_opens)
  have scope: "scope_of (visit_of r) = Some (marketplaceOf r)"
    using here by (simp add: scope_of_def visit_of_def nullif_def)
  from opened_lets_in [OF signed meanwhile] obtain normalised account secret stale where
    facts: "NormaliseEmail (sv_parse_address ?S) (PostFormValue r ''email'') = Inr normalised"
      "find_account_by_email (Some (marketplaceOf r)) normalised (wo_db s) = Some account" "VerifiedAt account \<noteq> None"
      "find_secret (Some (marketplaceOf r)) (ID account) (wo_db s) = Some secret"
      "VerifyPassword (sv_hasher ?S) (dr_verify (mo_draws (moment_of s))) (PostFormValue r ''password'') secret = Inr (True, stale)"
    and fresh: "lets_in ?S (Some (marketplaceOf r)) (ck_value c) (ID account) (mo_now (moment_of s)) d"
    unfolding scope by blast
  have "lets_in ?S (Some (marketplaceOf r)) (ck_value c) (ID account) (mo_now (moment_of s)) (wo_db t)"
    unfolding again(3) db Let_def
    using sweep_lets_in [OF fresh clock] old by (auto intro: superseded_lets_in split: option.split)
  from lets_in_authenticates [OF this here again(4)] obtain se e where
    in_as: "Authenticate ?S (marketplaceOf r) (ck_value c) (mo_now (moment_of t)) (wo_db t) = (Inr se, e)" "ID (se_account se) = ID account"
    by blast
  have "\<not> onConsole q" using here again(2) by (auto simp: onConsole_def marketplaceOf_def split: option.splits)
  then have "Sessions S nxt q (v, t) =
      nxt (q\<lparr>cx_session := Some se\<rparr>) (set_header ''Cache-Control'' ''no-store'' v, (ticked t)\<lparr>wo_db := e\<rparr>)"
    using here again(1,2) in_as(1) by (simp add: Sessions_def ask_def on_writer_def)
  then show ?thesis using facts in_as(2) by blast
qed

text \<open>A buyer signs in over HTTPS and asks for the home of the shop.\<close>

definition sign_in_form :: request where
  "sign_in_form = sample_request\<lparr>rq_method := ''POST'', rq_path := ''/signin'',
     rq_headers := [(''Content-Type'', ''application/x-www-form-urlencoded'')],
     rq_form := [(''email'', ''a@b''), (''password'', ''horse'')]\<rparr>"

lemma buyer_posts:
  "mp_id sample_shop = ''m1'' \<and> PostFormValue sign_in_form ''email'' = ''a@b'' \<and> PostFormValue sign_in_form ''password'' = ''horse'' \<and>
   sent_cookie (sessionCookieName sign_in_form) sign_in_form = None"
  by code_simp

lemma shopper: "visit_ok (visit_of sign_in_form)" "scope_of (visit_of sign_in_form) = Some ''m1''" "marketplaceOf sign_in_form = ''m1''"
  by (simp_all add: visit_ok_def scope_of_def visit_of_def nullif_def sign_in_form_def sample_request_def marketplaceOf_def
      onConsole_def sample_shop_def)

lemma shopper_signs_in:
  "\<exists>d. signIn light (visit_of sign_in_form) ''a@b'' ''horse'' (sample_draws 2) (\<lambda>d. d) 20 buyer_db =
     (Inr (SessionOpened (drawn_token light (sample_draws 2))), d)"
proof -
  have "(case signin_tx light (Some ''m1'') (visit_of sign_in_form) ''u1'' buyer_secret []
     (HashToken (sv_sha256 light) (fst (NewToken (sv_sha256 light) [2]))) 20 buyer_db of
     Inl e \<Rightarrow> False | Inr (b, d) \<Rightarrow> \<not> b)"
    by code_simp
  then obtain d where tx: "signin_tx light (Some ''m1'') (visit_of sign_in_form) ''u1'' buyer_secret []
     (HashToken (sv_sha256 light) (fst (NewToken (sv_sha256 light) [2]))) 20 buyer_db = Inr (False, d)"
    by (auto split: sum.splits)
  have creds: "credentials_of (visit_of sign_in_form) ''a@b'' buyer_db = (Inr (Some (buyer, buyer_secret)), buyer_db)"
    by (simp add: credentials_of_Inr buyer_found shopper)
  have hasher: "sv_hasher light = plain_hasher" "dr_verify (sample_draws 2) = True"
    "dr_token (sample_draws 2) = [2]" "sv_sha256 light = (\<lambda>b. b)"
    by (simp_all add: light_def sample_draws_def)
  show ?thesis
    unfolding signIn_def Let_def
    using tx shopper
    by (simp add: case_prod_beta maxPasswordBytes_def MaxPasswordLength_def buyer_found creds hasher buyer_verifies within_ok in_tx_def)
qed

definition session_cookie :: "string \<Rightarrow> cookie" where
  "session_cookie token = \<lparr>ck_name = ''__Host-session'', ck_value = token, ck_max_age = SessionLifetime div second, ck_secure = True\<rparr>"

definition after_sign_in :: "writer \<times> unit world" where
  "after_sign_in = post_signIn sample_site sign_in_form (fresh_writer, quiet_world buyer_db)"

lemma sign_in_form_name: "sessionCookieName sign_in_form = ''__Host-session''" "isHTTPS sign_in_form"
  by (simp_all add: sessionCookieName_def sessionCookie_def isHTTPS_def sign_in_form_def sample_request_def)

lemma shopper_cookie: "session_cookie (drawn_token light (sample_draws 2)) \<in> set (wr_cookies (fst after_sign_in))"
proof -
  let ?s = "quiet_world buyer_db"
  have s: "mo_draws (moment_of ?s) = sample_draws 2" "mo_other (moment_of ?s) = (\<lambda>d. d)" "mo_now (moment_of ?s) = 20"
    "wo_db ?s = buyer_db" "st_service sample_site = light"
    by (simp_all add: quiet_world_def moment_of_def sample_moment_def sample_site_def)
  obtain d where "signIn light (visit_of sign_in_form) ''a@b'' ''horse'' (sample_draws 2) (\<lambda>d. d) 20 buyer_db =
     (Inr (SessionOpened (drawn_token light (sample_draws 2))), d)"
    using shopper_signs_in ..
  then show ?thesis
    using buyer_posts
    by (simp add: after_sign_in_def post_signIn_def Let_def ask_sweep_def s SignIn_def case_prod_beta openSession_def see_other_def
        on_writer_def RenewCSRF_def newCSRFSecret_def setSession_def SetCookie_def pass_def fresh_writer_def session_cookie_def
        sign_in_form_name)
qed

definition homewards :: request where
  "homewards = sample_request\<lparr>rq_cookies := [(''__Host-session'', drawn_token light (sample_draws 2))]\<rparr>"

theorem signed_in_browser_is_let_in_witness:
  "wr_body (fst (Sessions sample_site (\<lambda>r. on_writer (write_body (ID (se_account (session_in r))))) homewards
     (fresh_writer, quiet_world (wo_db (snd after_sign_in))))) = ''u1''"
proof -
  let ?nxt = "\<lambda>r. on_writer (write_body (ID (se_account (session_in r)))) :: writer \<times> unit world \<Rightarrow> writer \<times> unit world"
  have post: "post_signIn sample_site sign_in_form (fresh_writer, quiet_world buyer_db) = (fst after_sign_in, snd after_sign_in)"
    by (simp add: after_sign_in_def)
  have world: "mo_draws (moment_of (quiet_world d)) = sample_draws 2" "mo_other (moment_of (quiet_world d)) = (\<lambda>d. d)"
    "mo_now (moment_of (quiet_world d)) = 20" "mo_later (moment_of (quiet_world d)) = 20" "wo_db (quiet_world d) = d" for d
    by (simp_all add: quiet_world_def moment_of_def sample_moment_def)
  have sent: "sent_cookie (sessionCookieName homewards) homewards = Some (drawn_token light (sample_draws 2))"
  proof -
    have "sessionCookieName homewards = ''__Host-session''"
      by (simp add: sessionCookieName_def sessionCookie_def isHTTPS_def homewards_def sample_request_def)
    moreover have "drawn_token light (sample_draws 2) \<noteq> []" by code_simp
    ultimately show ?thesis by (simp add: sent_cookie_def cookie_of_def homewards_def)
  qed
  have "marketplaceOf homewards = ''m1''"
    by (simp add: marketplaceOf_def homewards_def sample_request_def sample_shop_def)
  then obtain normalised account se t' where
    "NormaliseEmail (sv_parse_address light) ''a@b'' = Inr normalised"
    "find_account_by_email (Some ''m1'') normalised buyer_db = Some account" "ID (se_account se) = ID account"
    "Sessions sample_site ?nxt homewards (fresh_writer, quiet_world (wo_db (snd after_sign_in))) =
      ?nxt (homewards\<lparr>cx_session := Some se\<rparr>) (set_header ''Cache-Control'' ''no-store'' fresh_writer, t')"
    using signed_in_browser_is_let_in [OF post, where c = "session_cookie (drawn_token light (sample_draws 2))" and q = homewards
        and t = "quiet_world (wo_db (snd after_sign_in))" and nxt = ?nxt and v = fresh_writer] buyer_posts shopper_cookie shopper(3) sent
    by (auto simp: world session_cookie_def sign_in_form_name fresh_writer_def sample_site_def durations)
  moreover from calculation(1,2) have "ID account = ''u1''" using buyer_found by auto
  ultimately show ?thesis
    by (simp add: buyer_found on_writer_def session_in_def write_body_def set_header_def fresh_writer_def WriteHeader_def)
qed

end
