(* ===== verification/ConfigProps.thy ===== *)
theory ConfigProps
  imports Configuration
begin

text \<open>
  What a configuration that loaded is: exactly what the environment declares, within its
  bounds and without contradictions; and every problem is in the one error that is reported.
\<close>

subsection \<open>One variable after another\<close>

lemma fold_problems:
  "fst (fold (read_setting env) xs (problems, c)) = problems @ fst (fold (read_setting env) xs ([], c))"
proof (induction xs arbitrary: problems c)
  case (Cons x xs)
  obtain ps c' where one: "read_setting env x ([], c) = (ps, c')" by fastforce
  then have "read_setting env x (problems, c) = (problems @ ps, c')"
    by (auto simp: read_setting_def split: prod.splits option.splits sum.splits if_splits)
  then show ?case using Cons.IH [of "problems @ ps" c'] Cons.IH [of ps c'] one by simp
qed simp

lemmas fields_elsewhere =
  apply_elsewhere [where f = cf_port] apply_elsewhere [where f = cf_indexable] apply_elsewhere [where f = cf_level]
  apply_elsewhere [where f = cf_mode] apply_elsewhere [where f = cf_platform] apply_elsewhere [where f = cf_console]
  apply_elsewhere [where f = cf_token] apply_elsewhere [where f = cf_hops] apply_elsewhere [where f = cf_seed]
  apply_elsewhere [where f = "\<lambda>c. cd_url (cf_database c)"]
  apply_elsewhere [where f = "\<lambda>c. cd_instance (cf_database c)"]
  apply_elsewhere [where f = "\<lambda>c. cd_name (cf_database c)"]
  apply_elsewhere [where f = "\<lambda>c. cd_user (cf_database c)"]
  apply_elsewhere [where f = "\<lambda>c. cd_password (cf_database c)"]
  apply_elsewhere [where f = "\<lambda>c. cd_app_user (cf_database c)"]
  apply_elsewhere [where f = "\<lambda>c. ct_project (cf_tasks c)"]
  apply_elsewhere [where f = "\<lambda>c. ct_location (cf_tasks c)"]
  apply_elsewhere [where f = "\<lambda>c. ct_url (cf_tasks c)"]
  apply_elsewhere [where f = "\<lambda>c. ct_invoker (cf_tasks c)"]
  apply_elsewhere [where f = "\<lambda>c. ct_audience (cf_tasks c)"]
  apply_elsewhere [where f = "\<lambda>c. cm_from (cf_mail c)"]
  apply_elsewhere [where f = "\<lambda>c. cm_key (cf_mail c)"]
  apply_elsewhere [where f = "\<lambda>c. cm_directory (cf_mail c)"]
  apply_elsewhere [where f = "\<lambda>c. cm_webhook (cf_mail c)"]
  apply_elsewhere [where f = "\<lambda>c. ca_key (cf_audit c)"]
  apply_elsewhere [where f = "\<lambda>c. ca_local (cf_audit c)"]

lemmas fields_here =
  apply_here [where f = cf_port] apply_here [where f = cf_indexable] apply_here [where f = cf_level]
  apply_here [where f = cf_mode] apply_here [where f = cf_platform] apply_here [where f = cf_console]
  apply_here [where f = cf_token] apply_here [where f = cf_hops] apply_here [where f = cf_seed]
  apply_here [where f = "\<lambda>c. cd_url (cf_database c)"]
  apply_here [where f = "\<lambda>c. cd_instance (cf_database c)"]
  apply_here [where f = "\<lambda>c. cd_name (cf_database c)"]
  apply_here [where f = "\<lambda>c. cd_user (cf_database c)"]
  apply_here [where f = "\<lambda>c. cd_password (cf_database c)"]
  apply_here [where f = "\<lambda>c. cd_app_user (cf_database c)"]
  apply_here [where f = "\<lambda>c. ct_project (cf_tasks c)"]
  apply_here [where f = "\<lambda>c. ct_location (cf_tasks c)"]
  apply_here [where f = "\<lambda>c. ct_url (cf_tasks c)"] apply_here [where f = "\<lambda>c. ct_invoker (cf_tasks c)"]
  apply_here [where f = "\<lambda>c. ct_audience (cf_tasks c)"]
  apply_here [where f = "\<lambda>c. cm_from (cf_mail c)"] apply_here [where f = "\<lambda>c. cm_key (cf_mail c)"]
  apply_here [where f = "\<lambda>c. cm_directory (cf_mail c)"]
  apply_here [where f = "\<lambda>c. cm_webhook (cf_mail c)"] apply_here [where f = "\<lambda>c. ca_key (cf_audit c)"]
  apply_here [where f = "\<lambda>c. ca_local (cf_audit c)"]

lemma read_settings:
  "fold (read_setting env) settings ([], defaults) = (concat (map (problem_with env) settings), declared env)"
proof -
  let ?run = "fold (read_setting env) settings ([], defaults)"
  have "fst ?run = concat (map (problem_with env) settings)"
    unfolding settings_def by (simp add: read_setting_taking)
  moreover have "snd ?run = declared env"
    unfolding settings_def fold.simps comp_def id_apply read_setting_taking snd_conv
    by (intro config.equality database_config.equality tasks_config.equality mail_config.equality audit_config.equality;
        simp add: fields_elsewhere fields_here; simp add: declared_def defaults_def)
  ultimately show ?thesis by (metis prod.collapse)
qed

text \<open>
  \<open>Load\<close> answers by what each variable says alone: the configuration whose every
  field is the variable's value or its default, unless a variable cannot be read or the fields
  contradict each other; and then every problem there is, in the order of the code, and no
  configuration.
\<close>

lemma Load_alone:
  "Load env =
     (let problems = concat (map (problem_with env) settings) @ contradictions (declared env) in
      if problems = [] then Inr (declared env) else Inl problems)"
  by (simp add: Load_def read_settings Let_def)

lemma refusal_alone: "(key, parse) \<in> set settings \<Longrightarrow> parse v c = Inl e \<Longrightarrow> parse v d = Inl e"
  unfolding settings_def by (auto simp: taking_def split: sum.splits)

text \<open>
  Error: a variable that is set and cannot be read stops the start and is named in the
  error, whatever else the environment says: it never falls back to its default.
\<close>

theorem unreadable_variable_is_reported:
  assumes "(key, parse) \<in> set settings" and "env key = Some v" and "v = [] \<or> parse v defaults = Inl e"
  shows "\<exists>problems. Load env = Inl problems \<and> (if v = [] then SetButEmpty key else Invalid key e) \<in> set problems"
proof -
  have "(if v = [] then SetButEmpty key else Invalid key e) \<in> set (problem_with env (key, parse))"
    using assms(2,3) by (auto simp: problem_with_def)
  then have "(if v = [] then SetButEmpty key else Invalid key e) \<in> set (concat (map (problem_with env) settings))"
    using assms(1) by force
  then show ?thesis unfolding Load_alone by (auto simp: Let_def)
qed

text \<open>A port that is no number stops the start, beside a provider mode nobody knows.\<close>

theorem unreadable_variable_is_reported_witness:
  "\<exists>problems. Load [''PORT'' \<mapsto> ''eighty'', ''PROVIDERS_MODE'' \<mapsto> ''maybe''] = Inl problems \<and>
     Invalid ''PORT'' (NotANumber ''eighty'') \<in> set problems"
proof -
  have "parse_port ''eighty'' = Inl (NotANumber ''eighty'')" by code_simp
  then show ?thesis
    using unreadable_variable_is_reported [of "''PORT''" "taking parse_port (\<lambda>p c. c\<lparr>cf_port := p\<rparr>)"
        "[''PORT'' \<mapsto> ''eighty'', ''PROVIDERS_MODE'' \<mapsto> ''maybe'']" "''eighty''" "NotANumber ''eighty''"]
    by (simp add: settings_def taking_def)
qed

subsection \<open>What a loaded configuration satisfies\<close>

lemma setting_in:
  "P otherwise \<Longrightarrow> (\<And>v x. parse v = Inr x \<Longrightarrow> P x) \<Longrightarrow> P (setting_of env key parse otherwise)"
  by (auto simp: setting_of_def split: option.splits sum.splits)

lemma declared_bounds:
  "1 \<le> cf_port (declared env) \<and> cf_port (declared env) \<le> 65535"
  "0 \<le> cf_hops (declared env) \<and> cf_hops (declared env) < 2 ^ 63"
  "cf_mode (declared env) \<in> {ProvidersFake, ProvidersReal}"
  "cf_token (declared env) = [] \<or> 32 \<le> length (cf_token (declared env))"
  "- (2 ^ 63) \<le> cf_level (declared env) \<and> cf_level (declared env) < 2 ^ 63"
proof -
  show "1 \<le> cf_port (declared env) \<and> cf_port (declared env) \<le> 65535" unfolding declared_def config.simps
    by (rule setting_in) (auto simp: parse_port_def split: option.splits if_splits)
  show "0 \<le> cf_hops (declared env) \<and> cf_hops (declared env) < 2 ^ 63" unfolding declared_def config.simps
    by (rule setting_in) (auto simp: parse_hops_def Atoi_def Let_def split: option.splits if_splits prod.splits)
  show "cf_mode (declared env) \<in> {ProvidersFake, ProvidersReal}" unfolding declared_def config.simps
    by (rule setting_in) (auto simp: parse_mode_def split: if_splits)
  show "cf_token (declared env) = [] \<or> 32 \<le> length (cf_token (declared env))" unfolding declared_def config.simps
    by (rule setting_in) (auto simp: parse_token_def MinBootstrapToken_def split: if_splits)
  have word: "- (2 ^ 63) \<le> sint (w :: 64 word) \<and> sint w < 2 ^ 63" for w
    using sint_range_size [of w] by (simp add: word_size)
  show "- (2 ^ 63) \<le> cf_level (declared env) \<and> cf_level (declared env) < 2 ^ 63" unfolding declared_def config.simps
    by (rule setting_in) (auto simp: parse_level_def read_level_def Let_def word [simplified] split: option.splits if_splits)
qed

text \<open>
  C36. Invariant: a configuration that loaded is sound. The port is one, the hops are no negative
  number, the mode is one of two; a database is reached one way or not at all, with a name and
  a user where it needs them; a first run has a long token and a console to be served on, the
  console is not the platform's host; and with real providers there are a key manager's key, no
  key beside it, and a mail provider's key and sender.
\<close>

theorem loaded_configuration_is_sound:
  assumes "Load env = Inr cfg"
  shows "1 \<le> cf_port cfg \<and> cf_port cfg \<le> 65535 \<and> 0 \<le> cf_hops cfg \<and> cf_hops cfg < 2 ^ 63 \<and>
    - (2 ^ 63) \<le> cf_level cfg \<and> cf_level cfg < 2 ^ 63 \<and>
    cf_mode cfg \<in> {ProvidersFake, ProvidersReal} \<and>
    (cd_url (cf_database cfg) = [] \<or> cd_instance (cf_database cfg) = []) \<and>
    (cd_instance (cf_database cfg) \<noteq> [] \<longrightarrow> cd_name (cf_database cfg) \<noteq> [] \<and> cd_user (cf_database cfg) \<noteq> []) \<and>
    (\<not> DatabaseConfigured (cf_database cfg) \<longrightarrow> cf_database cfg = cf_database defaults) \<and>
    (cf_token cfg \<noteq> [] \<longrightarrow> 32 \<le> length (cf_token cfg) \<and> cf_console cfg \<noteq> []) \<and>
    (cf_console cfg \<noteq> [] \<longrightarrow> host_name (cf_console cfg) \<noteq> host_name (cf_platform cfg)) \<and>
    (cf_mode cfg = ProvidersReal \<longrightarrow> ca_key (cf_audit cfg) \<noteq> [] \<and> ca_local (cf_audit cfg) = [] \<and>
      cm_key (cf_mail cfg) \<noteq> [] \<and> cm_from (cf_mail cfg) \<noteq> [])"
proof -
  have cfg: "cfg = declared env" "contradictions cfg = []"
    using assms by (auto simp: Load_alone Let_def split: if_splits)
  have "database_problems (cf_database cfg) = []" "consoleProblems cfg = []"
    "mail_problems (cf_mail cfg) (cf_mode cfg) = []" "audit_problems (cf_audit cfg) (cf_mode cfg) = []"
    using cfg(2) by (simp_all add: contradictions_def)
  note none = this
  have "cf_database cfg = cf_database defaults" if "\<not> DatabaseConfigured (cf_database cfg)"
    using none(1) that by (cases "cf_database cfg") (auto simp: database_problems_def DatabaseConfigured_def defaults_def split: if_splits)
  moreover have "32 \<le> length (cf_token cfg) \<and> cf_console cfg \<noteq> []" if "cf_token cfg \<noteq> []"
    using none(2) that declared_bounds(4) [of env] by (auto simp: cfg(1) [symmetric] consoleProblems_def split: if_splits)
  moreover have "host_name (cf_console cfg) \<noteq> host_name (cf_platform cfg)" if "cf_console cfg \<noteq> []"
    using none(2) that by (auto simp: consoleProblems_def split: if_splits)
  moreover have "ca_key (cf_audit cfg) \<noteq> [] \<and> ca_local (cf_audit cfg) = [] \<and> cm_key (cf_mail cfg) \<noteq> [] \<and> cm_from (cf_mail cfg) \<noteq> []"
    if "cf_mode cfg = ProvidersReal"
    using none(3,4) that by (auto simp: mail_problems_def audit_problems_def split: if_splits)
  moreover have "cd_url (cf_database cfg) = [] \<or> cd_instance (cf_database cfg) = []"
    "cd_instance (cf_database cfg) \<noteq> [] \<longrightarrow> cd_name (cf_database cfg) \<noteq> [] \<and> cd_user (cf_database cfg) \<noteq> []"
    using none(1) by (auto simp: database_problems_def split: if_splits)
  ultimately show ?thesis using declared_bounds(1-3,5) [of env] unfolding cfg(1) [symmetric] by blast
qed

definition real_env :: "(string \<times> string) list" where
  "real_env = [(''PORT'', ''80''), (''PROVIDERS_MODE'', ''real''), (''AUDIT_KEY'', ''projects/k''), (''MAIL_API_KEY'', ''key''),
     (''MAIL_FROM'', ''no-reply@shop.example''), (''DATABASE_URL'', ''postgres:''), (''PLATFORM_HOST'', ''shop.example''),
     (''CONSOLE_HOST'', ''console.shop.example''), (''LOG_LEVEL'', ''warn-2''),
     (''BOOTSTRAP_TOKEN'', ''abcdefghijklmnopqrstuvwxyz0123456789'')]"

theorem loaded_configuration_is_sound_witness:
  "ca_local (cf_audit (declared (map_of real_env))) = [] \<and> 32 \<le> length (cf_token (declared (map_of real_env))) \<and>
   cf_level (declared (map_of real_env)) = 2"
proof -
  have loads: "Load (map_of real_env) = Inr (declared (map_of real_env))"
    unfolding Load_alone by code_simp
  have "cf_mode (declared (map_of real_env)) = ProvidersReal" "cf_token (declared (map_of real_env)) \<noteq> []"
    "cf_level (declared (map_of real_env)) = 2" by code_simp+
  then show ?thesis using loaded_configuration_is_sound [OF loads] by blast
qed

subsection \<open>The console's host\<close>

definition resolver_of :: "config \<Rightarrow> resolver" where
  "resolver_of cfg = WithConsoleHost (cf_console cfg) (NewResolver (cf_platform cfg))"

lemma lower_dot: "lower_char c = CHR ''.'' \<longleftrightarrow> c = CHR ''.''"
proof -
  have "char_of (n + 32) \<noteq> CHR ''.''" if "65 \<le> n" "n \<le> 90" for n :: nat
  proof
    assume "char_of (n + 32) = CHR ''.''"
    then have "of_char (char_of (n + 32) :: char) = (of_char (CHR ''.'') :: nat)" by simp
    then show False using that by simp
  qed
  then show ?thesis by (auto simp: lower_char_def Let_def)
qed

lemma portless_name: "SplitHostPort (trim_space h) = None \<Longrightarrow> Normalise h = host_name h"
  by (auto simp: Normalise_def host_name_def trim_suffix_char_def to_lower_def Let_def last_map lower_dot map_butlast)

text \<open>
  The console is served where it is declared. With a configuration that loaded, and
  hosts declared without a port, a request whose host names the console's is the console's,
  whatever the database says; the platform never answers in its place.
\<close>

theorem console_is_served_where_declared:
  assumes "Load env = Inr cfg" and "Normalise (cf_console cfg) \<noteq> []"
    and "SplitHostPort (trim_space (cf_console cfg)) = None" and "SplitHostPort (trim_space (cf_platform cfg)) = None"
    and "Normalise host = Normalise (cf_console cfg)"
  shows "Resolve hosts now later host (resolver_of cfg) = (Some ConsoleHost, resolver_of cfg)"
proof -
  have "cf_console cfg \<noteq> []" using assms(2) by (auto simp: Normalise_def trim_space_def)
  moreover have "contradictions cfg = []" using assms(1) by (auto simp: Load_alone Let_def split: if_splits)
  ultimately have "host_name (cf_console cfg) \<noteq> host_name (cf_platform cfg)"
    by (auto simp: contradictions_def consoleProblems_def split: if_splits)
  then have "Normalise (cf_console cfg) \<noteq> Normalise (cf_platform cfg)" using assms(3,4) by (simp add: portless_name)
  then show ?thesis
    using assms(2,5) by (simp add: Resolve_def resolver_of_def WithConsoleHost_def NewResolver_def own_host_def Let_def)
qed

theorem console_is_served_where_declared_witness:
  "Resolve None 0 0 ''Console.Shop.Example.'' (resolver_of (declared (map_of real_env))) =
     (Some ConsoleHost, resolver_of (declared (map_of real_env)))"
proof -
  have "Load (map_of real_env) = Inr (declared (map_of real_env))" unfolding Load_alone by code_simp
  moreover have "Normalise (cf_console (declared (map_of real_env))) = ''console.shop.example''"
    "SplitHostPort (trim_space (cf_console (declared (map_of real_env)))) = None"
    "SplitHostPort (trim_space (cf_platform (declared (map_of real_env)))) = None"
    "Normalise ''Console.Shop.Example.'' = ''console.shop.example''" by code_simp+
  ultimately show ?thesis by (intro console_is_served_where_declared) simp_all
qed

text \<open>
  The check compares the hosts with their ports, the resolver without: a local run with its
  console on a port of its own starts, and no address reaches the console.
\<close>

definition ported_env :: "(string \<times> string) list" where
  "ported_env = [(''PLATFORM_HOST'', ''localhost:8080''), (''CONSOLE_HOST'', ''localhost:8081'')]"

lemma console_on_a_port_is_never_served:
  "Load (map_of ported_env) = Inr (declared (map_of ported_env)) \<and>
   (\<forall>hosts now later host. fst (Resolve hosts now later host (resolver_of (declared (map_of ported_env)))) \<noteq> Some ConsoleHost)"
proof
  show "Load (map_of ported_env) = Inr (declared (map_of ported_env))" unfolding Load_alone by code_simp
  have "re_platform (resolver_of (declared (map_of ported_env))) = ''localhost''"
    "re_console (resolver_of (declared (map_of ported_env))) = ''localhost''" by code_simp+
  then show "\<forall>hosts now later host. fst (Resolve hosts now later host (resolver_of (declared (map_of ported_env)))) \<noteq> Some ConsoleHost"
    by (auto simp: Resolve_def own_host_def answer_from_def Let_def split: prod.splits option.splits)
qed

end
