(* ===== verification/Deploy.thy ===== *)
theory Deploy
  imports Configuration SiteRoutes Brevo AuditTrail Outbox
begin

text \<open>
  What the binary does with its configuration: src/cmd/marketplace/main.go and bench.go. Which
  command runs, which adapters stand behind the ports, what the process serves, what the
  migration job declares and writes to the audit log, and which password cost is chosen.
\<close>

subsection \<open>Commands\<close>

datatype command = Serve | MigrateJob | SendProbe "string list" | BenchPassword | UnknownCommand string

definition command_of :: "string list \<Rightarrow> command" where
  "command_of args =
     (case args of
        [] \<Rightarrow> Serve
      | a # rest \<Rightarrow>
          if a = ''migrate'' then MigrateJob
          else if a = ''send-probe'' then SendProbe rest
          else if a = ''bench-password'' then BenchPassword
          else UnknownCommand a)"

definition databaseMode :: "database_config \<Rightarrow> string" where
  "databaseMode d =
     (if cd_instance d \<noteq> [] then ''cloud sql: '' @ cd_instance d
      else if cd_url d \<noteq> [] then ''direct''
      else ''none'')"

subsection \<open>Which adapters\<close>

text \<open>
  \<^verbatim>\<open>protection\<close>: the keeper that wraps every person's key; building it and proving it may fail.
\<close>

datatype keeper_choice = KeyManager string | HeldKey string | DyingKey

definition chosen_keeper :: "config \<Rightarrow> keeper_choice" where
  "chosen_keeper cfg =
     (if ca_key (cf_audit cfg) \<noteq> [] then KeyManager (ca_key (cf_audit cfg))
      else if ca_local (cf_audit cfg) \<noteq> [] then HeldKey (ca_local (cf_audit cfg))
      else DyingKey)"

definition protection :: "(keeper_choice \<Rightarrow> 'k option) \<Rightarrow> ('k \<Rightarrow> bool) \<Rightarrow> config \<Rightarrow> 'k option" where
  "protection build proves cfg =
     (case build (chosen_keeper cfg) of None \<Rightarrow> None | Some keeper \<Rightarrow> if proves keeper then Some keeper else None)"

text \<open>\<^verbatim>\<open>mailing\<close>: the adapter behind the e-mail port, and where the fake one writes.\<close>

definition mailDirectory :: "string \<Rightarrow> config \<Rightarrow> string" where
  "mailDirectory temporary cfg =
     (if cm_directory (cf_mail cfg) \<noteq> [] then cm_directory (cf_mail cfg)
      else Clean (temporary @ ''/marketplace-mailbox''))"

datatype 'v adapter = RealAdapter "'v client" | FakeAdapter string

definition mail_adapter :: "string \<Rightarrow> string \<Rightarrow> 'v client \<Rightarrow> config \<Rightarrow> client_error + 'v adapter" where
  "mail_adapter temporary title base cfg =
     (if cf_mode cfg = ProvidersReal
      then (case NewClient (base\<lparr>cl_key := cm_key (cf_mail cfg), cl_name := title, cl_email := cm_from (cf_mail cfg), cl_api := []\<rparr>) of
              Inl e \<Rightarrow> Inl e
            | Inr client \<Rightarrow> Inr (RealAdapter client))
      else Inr (FakeAdapter (mailDirectory temporary cfg)))"

text \<open>The work of the process: where callbacks are minted for, and who dispatches.\<close>

definition audience_of :: "config \<Rightarrow> string" where
  "audience_of cfg = (if ct_audience (cf_tasks cfg) = [] then ct_url (cf_tasks cfg) else ct_audience (cf_tasks cfg))"

definition dispatches_locally :: "config \<Rightarrow> bool" where
  "dispatches_locally cfg \<longleftrightarrow> cf_mode cfg = ProvidersFake \<and> \<not> TasksConfigured (cf_tasks cfg)"

definition hashSlots :: "params \<Rightarrow> int" where
  "hashSlots p = max 2 (128 * 1024 div uint (Memory p))"

text \<open>The scheduled job of the audit log: a break is a failure.\<close>

definition verify_job :: "audit_world \<Rightarrow> audit_db \<Rightarrow> nat option + unit" where
  "verify_job W d =
     (case VerifyLog W d of
        None \<Rightarrow> Inl None
      | Some report \<Rightarrow> if Breaks report \<noteq> [] then Inl (Some (length (Breaks report))) else Inr ())"

subsection \<open>What is served\<close>

text \<open>
  \<^verbatim>\<open>serve\<close>, given the parts that are not configuration: the validation of a token, the consumers
  and the jobs behind the queue's endpoint, the reading of what a machine posts, the provider
  and the general limiter.
\<close>

definition deployed_tasks :: "config \<Rightarrow> 'w endpoint \<Rightarrow> 'w endpoint" where
  "deployed_tasks cfg t = t\<lparr>ep_audience := audience_of cfg, ep_invoker := ct_invoker (cf_tasks cfg)\<rparr>"

definition deployed_hook :: "config \<Rightarrow> webhook \<Rightarrow> webhook" where
  "deployed_hook cfg h = h\<lparr>wh_token := cm_webhook (cf_mail cfg)\<rparr>"

definition deployed_site :: "config \<Rightarrow> (bytes \<Rightarrow> bytes) \<Rightarrow> 'a db endpoint \<Rightarrow> (string \<Rightarrow> call option) \<Rightarrow> webhook \<Rightarrow>
    'a site \<Rightarrow> 'a site" where
  "deployed_site cfg sha256 tasks decoded webhook S =
     (let database = DatabaseConfigured (cf_database cfg); console = database \<and> cf_console cfg \<noteq> [] in
      S\<lparr>st_indexable := cf_indexable cfg, st_database := database, st_accounts := database, st_console := console,
        st_first_run := (if console then Some (NewBootstrap sha256 (cf_token cfg)) else None),
        st_tasks := (if database then Some (deployed_tasks cfg tasks, decoded) else None),
        st_mail := (if database \<and> cm_webhook (cf_mail cfg) \<noteq> [] then Some (deployed_hook cfg webhook) else None)\<rparr>)"

definition deployed_callbacks :: "config \<Rightarrow> string \<Rightarrow> string list" where
  "deployed_callbacks cfg provider =
     (if DatabaseConfigured (cf_database cfg) \<and> cm_webhook (cf_mail cfg) \<noteq> [] then [MailWebhookPrefix @ provider] else [])"

definition deployed_pipeline :: "config \<Rightarrow> string \<Rightarrow> (string \<Rightarrow> 'a world \<Rightarrow> (limit_error + decision) \<times> 'a world) \<Rightarrow> 'a world pipeline" where
  "deployed_pipeline cfg provider general =
     \<lparr>pl_indexable = cf_indexable cfg, pl_hops = cf_hops cfg, pl_general = Some general,
      pl_callbacks = deployed_callbacks cfg provider\<rparr>"

text \<open>Without a database there are no hosts and no sessions to ask for.\<close>

definition deployed :: "config \<Rightarrow> (bytes \<Rightarrow> bytes) \<Rightarrow> 'a db endpoint \<Rightarrow> (string \<Rightarrow> call option) \<Rightarrow> webhook \<Rightarrow>
    (string \<Rightarrow> 'a world \<Rightarrow> (limit_error + decision) \<times> 'a world) \<Rightarrow> 'a site \<Rightarrow> 'a world handler" where
  "deployed cfg sha256 tasks decoded webhook general base =
     (let S = deployed_site cfg sha256 tasks decoded webhook base; p = deployed_pipeline cfg (wh_name webhook) general in
      if DatabaseConfigured (cf_database cfg) then Process S p
      else Wrap (st_machine S) p (ResolveLanguage (NewLanguageResolver (st_catalogue S) Nowhere)
        (Speaks (st_catalogue S)) (language_exempt (pl_callbacks p)) (SiteHandler S)))"

subsection \<open>The migration job\<close>

text \<open>\<^verbatim>\<open>record\<close>: one audit record for each marketplace the job declared.\<close>

definition seeded_entry :: "(spec \<Rightarrow> string) \<Rightarrow> applied \<Rightarrow> entry" where
  "seeded_entry describe one = \<lparr>e_marketplace = [], e_actor = [], e_kind = System,
     e_action = (if ap_created one then ''marketplace.created'' else ''marketplace.updated''),
     e_subject_kind = ''marketplace'', e_subject = ap_id one, e_person = [], e_from = [], e_before = [],
     e_after = describe (ap_spec one)\<rparr>"

fun record_seeded :: "audit_world \<Rightarrow> (spec \<Rightarrow> string) \<Rightarrow> applied list \<Rightarrow> unit atx" where
  "record_seeded W describe [] = ret ()"
| "record_seeded W describe (one # rest) =
     after (Append W None (seeded_entry describe one)) (\<lambda>_. record_seeded W describe rest)"

datatype migrate_error = JobWithoutDatabase | BadSpecs specs_error | NoKeeper | SeedFailed seed_error | RecordFailed id_error

text \<open>The body of the job's transaction, on the marketplaces' tables and the audit log's.\<close>

definition seed_tx :: "(tenant_db \<Rightarrow> string) \<Rightarrow> audit_world \<Rightarrow> (spec \<Rightarrow> string) \<Rightarrow> spec list \<Rightarrow>
    (tenant_db \<times> audit_db, migrate_error, applied list) tx" where
  "seed_tx gen W describe specs = (\<lambda>(t, a).
     (case Seed gen specs t of
        Inl e \<Rightarrow> Inl (SeedFailed e)
      | Inr (one, t') \<Rightarrow>
          (case record_seeded W describe one a of
             Inl e \<Rightarrow> Inl (RecordFailed e)
           | Inr (_, a') \<Rightarrow> Inr (one, (t', a')))))"

text \<open>\<^verbatim>\<open>migrate\<close>, once the schema is there (its SQL files are not modelled).\<close>

definition migrate :: "(string \<Rightarrow> spec list option) \<Rightarrow> bool \<Rightarrow> (tenant_db \<Rightarrow> string) \<Rightarrow> audit_world \<Rightarrow> (spec \<Rightarrow> string) \<Rightarrow> config \<Rightarrow>
    tenant_db \<times> audit_db \<Rightarrow> (migrate_error + applied list) \<times> tenant_db \<times> audit_db" where
  "migrate unmarshal keeper gen W describe cfg s =
     (if \<not> DatabaseConfigured (cf_database cfg) then (Inl JobWithoutDatabase, s)
      else case ParseSpecs unmarshal (cf_seed cfg) of
             Inl e \<Rightarrow> (Inl (BadSpecs e), s)
           | Inr specs \<Rightarrow>
               if specs = [] then (Inr [], s)
               else if \<not> keeper then (Inl NoKeeper, s)
               else in_tx (seed_tx gen W describe specs) s)"

subsection \<open>The delivery probe\<close>

datatype probe_error = NoProbeAddress | NotSpokenHere string

definition probe_of :: "(string \<Rightarrow> bool) \<Rightarrow> string list \<Rightarrow> probe_error + string \<times> string" where
  "probe_of speaks args =
     (case args of
        [] \<Rightarrow> Inl NoProbeAddress
      | address # rest \<Rightarrow>
          if address = [] then Inl NoProbeAddress
          else (let language = (case rest of [] \<Rightarrow> DefaultTag | l # _ \<Rightarrow> l) in
                if \<not> speaks language then Inl (NotSpokenHere language) else Inr (address, language)))"

subsection \<open>The cost of a password\<close>

definition benchBudget :: int where "benchBudget = 250 * 1000000"

definition candidates :: "params list" where
  "candidates = map (\<lambda>(m, t). \<lparr>Memory = m, Time = t, Threads = 1, KeyLen = 32, SaltLen = 16\<rparr>)
     [(19456, 2), (47104, 1), (47104, 2), (65536, 2), (65536, 3)]"

definition bench_cost :: "params \<Rightarrow> 64 word" where
  "bench_cost p = ucast (Memory p) * ucast (Time p)"

definition choose_params :: "(params \<times> int) list \<Rightarrow> int \<Rightarrow> params" where
  "choose_params results budget =
     fst (fold (\<lambda>(p, median) (best, bestCost).
       if median \<le> budget \<and> bestCost < bench_cost p then (p, bench_cost p) else (best, bestCost)) results (Floor, 0))"

text \<open>The median of nine runs is the fifth of them in order.\<close>

definition bench_median :: "int list \<Rightarrow> int" where
  "bench_median runs = sort runs ! (length runs div 2)"

end
