(* ===== verification/DeployProps.thy ===== *)
theory DeployProps
  imports Deploy ConfigProps SeedProps AuditProps
begin

text \<open>
  What a deployment does with its configuration: real people's data is never behind a key the
  process holds, the migration job records every marketplace it declares or does nothing, and
  the password cost that is chosen can be read back.
\<close>

subsection \<open>Adapters\<close>

text \<open>
  Safety: a process that talks to real providers wraps the keys of its audit log with a key
  manager's key and none it holds, sends its mail through the provider's own client, to the
  provider's own address, and leaves its outbox to the scheduler: there is no configuration
  that loads and does otherwise.
\<close>

theorem real_providers_are_protected:
  assumes "Load env = Inr cfg" and "cf_mode cfg = ProvidersReal"
  shows "chosen_keeper cfg = KeyManager (ca_key (cf_audit cfg)) \<and> ca_local (cf_audit cfg) = [] \<and>
    (\<exists>client. mail_adapter temporary title base cfg = Inr (RealAdapter client) \<and>
       cl_api client = API \<and> cl_key client \<noteq> [] \<and> cl_email client = cm_from (cf_mail cfg)) \<and>
    \<not> dispatches_locally cfg"
proof -
  have "cf_mail cfg = cf_mail (declared env)" "contradictions cfg = []"
    using assms(1) by (auto simp: Load_alone Let_def split: if_splits)
  then have "mail_problems (cf_mail cfg) ProvidersReal = []" "audit_problems (cf_audit cfg) ProvidersReal = []"
    using assms(2) by (simp_all add: contradictions_def)
  then have "ca_key (cf_audit cfg) \<noteq> []" "ca_local (cf_audit cfg) = []" "cm_key (cf_mail cfg) \<noteq> []" "cm_from (cf_mail cfg) \<noteq> []"
    by (auto simp: mail_problems_def audit_problems_def split: if_splits)
  then show ?thesis
    using assms(2) by (simp add: chosen_keeper_def mail_adapter_def NewClient_def API_def trim_suffix_char_def
        dispatches_locally_def ProvidersFake_def ProvidersReal_def)
qed

theorem real_providers_are_protected_witness:
  "chosen_keeper (declared (map_of real_env)) = KeyManager ''projects/k'' \<and>
   \<not> dispatches_locally (declared (map_of real_env))"
proof -
  have loads: "Load (map_of real_env) = Inr (declared (map_of real_env))" unfolding Load_alone by code_simp
  have "cf_mode (declared (map_of real_env)) = ProvidersReal" "ca_key (cf_audit (declared (map_of real_env))) = ''projects/k''"
    by code_simp+
  then show ?thesis using real_providers_are_protected [OF loads, where base = c for c :: "unit client"] by simp
qed

subsection \<open>The migration job\<close>

definition records :: "applied \<Rightarrow> log_row \<Rightarrow> bool" where
  "records one row \<longleftrightarrow> l_scope row = None \<and> l_actor row = None \<and> l_kind row = System \<and>
     l_action row = (if ap_created one then ''marketplace.created'' else ''marketplace.updated'') \<and>
     l_subject_kind row = ''marketplace'' \<and> l_subject row = nullif (ap_id one)"

lemma Seed_specs: "Seed gen specs t = Inr (ones, t') \<Longrightarrow> map ap_spec ones = specs"
proof (induction specs arbitrary: t ones)
  case (Cons s ss)
  then obtain one t1 others where "seedOne gen s t = Inr (one, t1)" "Seed gen ss t1 = Inr (others, t')" "ones = one # others"
    by (auto simp: tx_simps)
  then show ?case using Cons.IH by (auto simp: seedOne_def tx_simps Let_def)
qed (auto simp: tx_simps)

text \<open>
  What the tables hold. The keys of the three tables (a marketplace's identifier and its slug,
  a host's name) are unique. \<open>declared_in t t' ones\<close>: of each declaration, in its place, whether
  it is a creation is whether its slug was there, before the job or by an earlier declaration;
  and unless a later one has the slug too, the marketplace under the identifier reported is the
  one declared, with the languages declared, and every host of it that no later one names leads
  to it.
\<close>

definition keys_unique :: "tenant_db \<Rightarrow> bool" where
  "keys_unique d \<longleftrightarrow> distinct (map mr_id (td_marketplaces d)) \<and> distinct (map mr_slug (td_marketplaces d)) \<and>
     distinct (map fst (td_hosts d))"

abbreviation slug_of :: "applied \<Rightarrow> string" where "slug_of one \<equiv> sp_slug (ap_spec one)"

definition slugs :: "tenant_db \<Rightarrow> string set" where "slugs d = mr_slug ` set (td_marketplaces d)"

definition stored_as :: "tenant_db \<Rightarrow> string \<Rightarrow> spec \<Rightarrow> bool" where
  "stored_as d mid s \<longleftrightarrow> row_with d mid = Some (row_for mid s) \<and> set (languages_of d mid) = set (all_languages s)"

definition declared_in :: "tenant_db \<Rightarrow> tenant_db \<Rightarrow> applied list \<Rightarrow> bool" where
  "declared_in t t' ones \<longleftrightarrow> (\<forall>before one later. ones = before @ one # later \<longrightarrow>
     (ap_created one \<longleftrightarrow> slug_of one \<notin> slugs t \<union> slug_of ` set before) \<and>
     (slug_of one \<notin> slug_of ` set later \<longrightarrow> stored_as t' (ap_id one) (ap_spec one) \<and>
        (\<forall>host \<in> set (names_of (ap_spec one)). (\<forall>q \<in> set later. host \<notin> set (names_of (ap_spec q))) \<longrightarrow>
           map_of (td_hosts t') host = Some (ap_id one))))"

text \<open>A marketplace that other declarations leave alone.\<close>

definition left_alone :: "spec list \<Rightarrow> tenant_db \<Rightarrow> tenant_db \<Rightarrow> bool" where
  "left_alone ss d d' \<longleftrightarrow> (\<forall>i m. row_with d i = Some m \<longrightarrow> mr_slug m \<notin> sp_slug ` set ss \<longrightarrow>
     row_with d' i = Some m \<and> set (languages_of d' i) = set (languages_of d i) \<and>
     (\<forall>n. map_of (td_hosts d) n = Some i \<longrightarrow> (\<forall>s \<in> set ss. n \<notin> set (names_of s)) \<longrightarrow> map_of (td_hosts d') n = Some i))"

lemma put_marketplace_created:
  "put_marketplace gen s d = Inr ((mid, created), d') \<Longrightarrow>
    (created \<longleftrightarrow> sp_slug s \<notin> slugs d) \<and> slugs d' = insert (sp_slug s) (slugs d)"
proof (cases "find (\<lambda>m. mr_slug m = sp_slug s) (td_marketplaces d)")
  case None
  then have "sp_slug s \<notin> slugs d" by (auto simp: slugs_def find_None_iff)
  moreover assume "put_marketplace gen s d = Inr ((mid, created), d')"
  ultimately show ?thesis using None by (auto simp: put_marketplace_def slugs_def row_for_def split: if_splits)
next
  case (Some m)
  then have "m \<in> set (td_marketplaces d)" "mr_slug m = sp_slug s" by (auto simp: find_Some_iff)
  then have there: "sp_slug s \<in> slugs d" unfolding slugs_def by (metis imageI)
  have kept: "mr_slug ` set (update_where (\<lambda>m. mr_slug m = sp_slug s) (\<lambda>m. row_for (mr_id m) s) rows) = mr_slug ` set rows" for rows
    by (induction rows) (auto simp: update_where_def row_for_def)
  assume "put_marketplace gen s d = Inr ((mid, created), d')"
  then have "\<not> created" "slugs d' = slugs d"
    using Some kept [of "td_marketplaces d"] by (auto simp: put_marketplace_def slugs_def split: if_splits)
  then show ?thesis using there by auto
qed

lemma seedOne_tables:
  assumes "seedOne gen s d = Inr (one, d')" and keys: "keys_unique d"
  shows "keys_unique d'" "ap_spec one = s" "ap_created one \<longleftrightarrow> sp_slug s \<notin> slugs d" "slugs d' = insert (sp_slug s) (slugs d)"
    "stored_as d' (ap_id one) s" "n \<in> set (names_of s) \<Longrightarrow> map_of (td_hosts d') n = Some (ap_id one)" "left_alone [s] d d'"
proof -
  obtain mid created d1 where put: "put_marketplace gen s d = Inr ((mid, created), d1)"
    and one: "one = \<lparr>ap_spec = s, ap_id = mid, ap_created = created\<rparr>"
    and d': "d' = d1\<lparr>td_languages := add_languages mid (all_languages s) (keep_languages mid (all_languages s) (td_languages d1)),
       td_hosts := fold (put_host mid) (names_of s) (keep_hosts mid (names_of s) (td_hosts d1))\<rparr>"
    using assms(1) unfolding seedOne_Inr by auto
  have ids: "distinct (map mr_id (td_marketplaces d))" and shorts: "distinct (map mr_slug (td_marketplaces d))"
    and hosts: "distinct (map fst (td_hosts d))"
    using keys by (simp_all add: keys_unique_def)
  note row = put_marketplace_row [OF put shorts ids]
  have rows': "row_with d' i = row_with d1 i" for i by (simp add: d' row_with_def)
  have langs: "set (languages_of d' i) = (if i = mid then set (all_languages s) else set (languages_of d i))" for i
    by (simp add: d' row(3) set_languages_of languages_after)
  have look: "map_of (td_hosts d') n = (if n \<in> set (names_of s) then Some mid
      else map_of (keep_hosts mid (names_of s) (td_hosts d)) n)" for n
    by (simp add: d' row(2) put_hosts_map)
  show "keys_unique d'"
    using row(4,5) distinct_put_hosts [OF keep_hosts_fst(2) [OF hosts]] by (simp add: keys_unique_def d' row(2))
  show "ap_spec one = s" "ap_created one \<longleftrightarrow> sp_slug s \<notin> slugs d" "slugs d' = insert (sp_slug s) (slugs d)"
    using put_marketplace_created [OF put] by (simp_all add: one d' slugs_def)
  show "stored_as d' (ap_id one) s" using row(1) by (simp add: stored_as_def one rows' langs)
  show "n \<in> set (names_of s) \<Longrightarrow> map_of (td_hosts d') n = Some (ap_id one)" by (simp only: look one) simp
  show "left_alone [s] d d'"
    unfolding left_alone_def
  proof (intro allI impI)
    fix i m assume i: "row_with d i = Some m" and "mr_slug m \<notin> sp_slug ` set [s]"
    then have "i \<noteq> mid" "row_with d1 i = Some m" using row(6) by simp_all
    then show "row_with d' i = Some m \<and> set (languages_of d' i) = set (languages_of d i) \<and>
        (\<forall>n. map_of (td_hosts d) n = Some i \<longrightarrow> (\<forall>s \<in> set [s]. n \<notin> set (names_of s)) \<longrightarrow> map_of (td_hosts d') n = Some i)"
      by (simp only: rows' langs look) (simp add: keep_hosts_map [OF hosts])
  qed
qed

lemma left_alone_Cons: "left_alone [s] a b \<Longrightarrow> left_alone ss b c \<Longrightarrow> left_alone (s # ss) a c"
  unfolding left_alone_def by (simp add: image_iff)

lemma Seed_tables: "Seed gen ss d = Inr (ones, d') \<Longrightarrow> keys_unique d \<Longrightarrow> keys_unique d' \<and> left_alone ss d d' \<and> declared_in d d' ones"
proof (induction ss arbitrary: d ones)
  case Nil
  then show ?case by (auto simp: tx_simps left_alone_def declared_in_def)
next
  case (Cons s ss)
  obtain a d1 rest where one: "seedOne gen s d = Inr (a, d1)" and others: "Seed gen ss d1 = Inr (rest, d')" and ones: "ones = a # rest"
    using Cons.prems(1) unfolding Seed_Cons by blast
  note t = seedOne_tables [OF one Cons.prems(2)]
  have IH: "keys_unique d'" "left_alone ss d1 d'" "declared_in d1 d' rest" using Cons.IH [OF others t(1)] by blast+
  have specs: "map ap_spec rest = ss" by (rule Seed_specs [OF others])
  then have ss: "set ss = ap_spec ` set rest" by auto
  have "declared_in d d' ones"
    unfolding declared_in_def
  proof (intro allI impI)
    fix before x later assume split: "ones = before @ x # later"
    show "(ap_created x \<longleftrightarrow> slug_of x \<notin> slugs d \<union> slug_of ` set before) \<and>
     (slug_of x \<notin> slug_of ` set later \<longrightarrow> stored_as d' (ap_id x) (ap_spec x) \<and>
        (\<forall>host \<in> set (names_of (ap_spec x)). (\<forall>q \<in> set later. host \<notin> set (names_of (ap_spec q))) \<longrightarrow>
           map_of (td_hosts d') host = Some (ap_id x)))"
    proof (cases before)
      case Nil
      then have x: "x = a" "later = rest" using split ones by simp_all
      have row: "row_with d1 (ap_id a) = Some (row_for (ap_id a) s)" "set (languages_of d1 (ap_id a)) = set (all_languages s)"
        using t(5) by (simp_all add: stored_as_def)
      have "stored_as d' (ap_id a) s \<and> (\<forall>n. map_of (td_hosts d1) n = Some (ap_id a) \<longrightarrow>
          (\<forall>q \<in> set ss. n \<notin> set (names_of q)) \<longrightarrow> map_of (td_hosts d') n = Some (ap_id a))"
        if "sp_slug s \<notin> sp_slug ` set ss"
        using IH(2) row that by (simp add: left_alone_def stored_as_def row_for_def)
      then show ?thesis using x t(2,3,6) Nil ss by (auto simp: image_image)
    next
      case (Cons y ys)
      then have "rest = ys @ x # later" "y = a" using split ones by simp_all
      then show ?thesis using IH(3) t(2,4) Cons unfolding declared_in_def by auto
    qed
  qed
  moreover have "left_alone (s # ss) d d'" by (rule left_alone_Cons [OF t(7) IH(2)])
  ultimately show ?case using IH(1) by blast
qed

lemma record_seeded_effect:
  "record_seeded W describe ones a = Inr (u, a') \<Longrightarrow> intact W a \<Longrightarrow>
    intact W a' \<and> (\<exists>rows. log a' = log a @ rows \<and> list_all2 records ones rows)"
proof (induction ones arbitrary: a)
  case (Cons one rest)
  then obtain v b where b: "Append W None (seeded_entry describe one) a = Inr (v, b)"
    and rest: "record_seeded W describe rest b = Inr (u, a')"
    by (auto simp: tx_simps)
  obtain row where "log b = log a @ [row]" "records one row"
    using Append_effect [OF b]
    by (auto simp: Let_def records_def row_of_def seeded_entry_def written_def)
  moreover have "intact W b" using intact_Append Cons.prems(2) b by blast
  ultimately show ?case using Cons.IH [OF rest] by auto
qed (auto simp: tx_simps)

text \<open>
  C40. Invariant: the migration job changes nothing, or it declares every marketplace of its
  environment. Then the tables hold each one under the identifier reported for it, with the
  name, market, state, languages and hosts declared, but for what a later declaration takes
  over; one is reported as created exactly where its slug was not there before; and the
  platform's chain has one new record for each, in their order, that names it and says whether
  it was created or updated, while the audit log, sound before, still verifies with no break.
\<close>

theorem seeding_is_recorded:
  assumes "intact W a" and "keys_unique t" and "migrate unmarshal keeper gen W describe cfg (t, a) = (answer, (t', a'))"
  shows "case answer of
      Inl e \<Rightarrow> (t', a') = (t, a)
    | Inr ones \<Rightarrow> ParseSpecs unmarshal (cf_seed cfg) = Inr (map ap_spec ones) \<and> declared_in t t' ones \<and>
        (\<exists>rows. log a' = log a @ rows \<and> list_all2 records ones rows) \<and>
        (\<exists>n. VerifyLog W a' = Some \<lparr>Chains = length (chains a'), Records = n, Breaks = []\<rparr>)"
proof -
  have sound: "\<exists>n. VerifyLog W b = Some \<lparr>Chains = length (chains b), Records = n, Breaks = []\<rparr>" if "intact W b" for b
    using verifiable_verifies [OF intact_verifiable [OF that]] .
  show ?thesis
  proof (cases answer)
    case (Inl e)
    then show ?thesis
      using assms(3) by (auto simp: migrate_def in_tx_def split: if_splits sum.splits)
  next
    case (Inr ones)
    then consider "ParseSpecs unmarshal (cf_seed cfg) = Inr []" "ones = []" "a' = a" "t' = t"
      | specs where "ParseSpecs unmarshal (cf_seed cfg) = Inr specs" "seed_tx gen W describe specs (t, a) = Inr (ones, (t', a'))"
      using assms(3) by (auto simp: migrate_def in_tx_def split: if_splits sum.splits)
    then show ?thesis
    proof cases
      case 1
      then show ?thesis using Inr sound [OF assms(1)] by (simp add: declared_in_def)
    next
      case 2
      then have seed: "Seed gen specs t = Inr (ones, t')" and rec: "record_seeded W describe ones a = Inr ((), a')"
        by (auto simp: seed_tx_def split: sum.splits)
      show ?thesis
        using record_seeded_effect [OF rec assms(1)] Seed_specs [OF seed] Seed_tables [OF seed assms(2)] sound 2(1) Inr by auto
    qed
  qed
qed

definition seeding_env :: "(string \<times> string) list" where
  "seeding_env = [(''DATABASE_URL'', ''postgres:''), (''SEED_MARKETPLACES'', ''two shops'')]"

theorem seeding_is_recorded_witness:
  "\<exists>ones t a n. migrate (\<lambda>_. Some [shop_spec, cars_spec]) True new_id sample_world sp_name
      (declared (map_of seeding_env)) (brazil, empty_audit) = (Inr ones, (t, a)) \<and>
    declared_in brazil t ones \<and> map ap_created ones = [True, True] \<and> length (log a) = 2 \<and>
    VerifyLog sample_world a = Some \<lparr>Chains = 1, Records = n, Breaks = []\<rparr>"
proof -
  let ?run = "migrate (\<lambda>_. Some [shop_spec, cars_spec]) True new_id sample_world sp_name (declared (map_of seeding_env)) (brazil, empty_audit)"
  obtain answer t a where run: "?run = (answer, (t, a))" by (metis prod.collapse)
  have "case ?run of (Inl e, s) \<Rightarrow> False | (Inr ones, s) \<Rightarrow> map ap_created ones = [True, True] \<and>
      length (log (snd s)) = 2 \<and> length (chains (snd s)) = 1" by code_simp
  then obtain ones where ones: "answer = Inr ones" "map ap_created ones = [True, True]" "length (log a) = 2" "length (chains a) = 1"
    by (cases answer) (auto simp: run)
  have "keys_unique brazil" by (simp add: keys_unique_def brazil_def)
  then show ?thesis using seeding_is_recorded [OF intact_empty _ run] ones run by auto
qed

subsection \<open>The cost of a password\<close>

lemma chosen_step:
  "let (best, bestCost) = fold (\<lambda>(p, median) (best, bestCost).
       if median \<le> budget \<and> bestCost < bench_cost p then (p, bench_cost p) else (best, bestCost)) results (b, c) in
   (c \<le> bestCost \<and> (\<forall>(p, median) \<in> set results. median \<le> budget \<longrightarrow> bench_cost p \<le> bestCost)) \<and>
   ((best, bestCost) = (b, c) \<or> (\<exists>median \<le> budget. (best, median) \<in> set results \<and> bestCost = bench_cost best))"
proof (induction results arbitrary: b c)
  case (Cons x results)
  obtain p median where x: "x = (p, median)" by (cases x)
  show ?case
    using Cons.IH [of "if median \<le> budget \<and> c < bench_cost p then p else b" "if median \<le> budget \<and> c < bench_cost p then bench_cost p else c"]
    by (auto simp: x Let_def split: prod.splits if_splits)
qed simp

text \<open>
  The cost chosen is the greatest that stayed within the budget, or the floor; whatever the
  machine measured, a hash made with it is one the service reads back.
\<close>

lemma chosen_cost_is_the_greatest:
  assumes "(p, median) \<in> set results" and "median \<le> budget" and "0 < bench_cost p"
  shows "bench_cost p \<le> bench_cost (choose_params results budget)"
proof -
  obtain best cost where run: "fold (\<lambda>(p, median) (best, bestCost).
       if median \<le> budget \<and> bestCost < bench_cost p then (p, bench_cost p) else (best, bestCost)) results (Floor, 0) = (best, cost)"
    by fastforce
  then have "bench_cost p \<le> cost" "cost = bench_cost best \<or> cost = 0"
    using chosen_step [of budget results Floor 0] assms(1,2) by auto
  then show ?thesis using assms(3) run by (auto simp: choose_params_def word_le_less_eq)
qed

lemma chosen_is_offered: "choose_params results budget \<in> insert Floor (fst ` set results)"
  using chosen_step [of budget results Floor 0] by (auto simp: choose_params_def split: prod.splits) force

theorem chosen_password_cost_reads_back:
  assumes "map fst results = candidates" and "length salt = 16" and "length key = 32"
  shows "decode (phc (choose_params results budget) salt key) = Some (choose_params results budget, salt, key)"
proof -
  have "choose_params results budget \<in> insert Floor (set candidates)"
    using chosen_is_offered [of results budget] assms(1) by (metis list.set_map)
  then show ?thesis
    by (intro decode_phc)
       (auto simp: candidates_def Floor_def assms params_ok_def maxMemoryKiB_def maxTime_def maxEncodedLen_def)
qed

end
