(* ===== verification/BreachList.thy ===== *)
theory BreachList
  imports Mail TextFacts
begin

text \<open>
  Whether a password is in a public breach: src/internal/identity/breached/breached.go. The
  hash and the network are parameters; what is asked, what of an answer is believed and how its
  lines are read are the code's.
\<close>

subsection \<open>What is asked\<close>

definition RangeAPI :: string where "RangeAPI = ''https://api.pwnedpasswords.com''"

definition maxRangeBody :: nat where "maxRangeBody = 1048576"

definition upper_digit :: "nat \<Rightarrow> char" where
  "upper_digit n = (if n < 10 then digit n else char_of (55 + n))"

text \<open>\<^verbatim>\<open>strings.ToUpper\<close> of the hash in hexadecimal.\<close>

definition upper_hex_of :: "bytes \<Rightarrow> string" where
  "upper_hex_of bs = concat (map (\<lambda>b. [upper_digit (unat b div 16), upper_digit (unat b mod 16)]) bs)"

record range_request =
  rr_url :: string
  rr_headers :: "(string \<times> string) list"

datatype range_answer = NotReached | Ranged nat "string option"

definition range_of :: "string \<Rightarrow> string \<Rightarrow> range_request" where
  "range_of base prefix = \<lparr>rr_url = base @ ''/range/'' @ prefix,
     rr_headers = [(''Add-Padding'', ''true''), (''User-Agent'', ''aleogr-marketplace'')]\<rparr>"

subsection \<open>How an answer is read\<close>

text \<open>
  \<^verbatim>\<open>bufio.Scanner\<close> gives the lines without their ends, the last one only where it has text; a
  line of 64 KiB or more stops it with an error.
\<close>

definition lines_of :: "string \<Rightarrow> string list" where
  "lines_of body = (let ls = split_at (CHR 0x0A) body in if last ls = [] then butlast ls else ls)"

definition maxLine :: nat where "maxLine = 65536"

fun find_suffix :: "string \<Rightarrow> string list \<Rightarrow> bool option" where
  "find_suffix suffix [] = Some False"
| "find_suffix suffix (line # ls) =
     (if maxLine \<le> length line then None
      else case cut_first (CHR '':'') (trim_space line) of
             None \<Rightarrow> find_suffix suffix ls
           | Some (found, count) \<Rightarrow> if found = suffix \<and> count \<noteq> ''0'' then Some True else find_suffix suffix ls)"

definition read_range :: "string \<Rightarrow> range_answer \<Rightarrow> bool option" where
  "read_range suffix a =
     (case a of
        NotReached \<Rightarrow> None
      | Ranged status body \<Rightarrow>
          if status \<noteq> 200 then None
          else case body of
                 None \<Rightarrow> None
               | Some whole \<Rightarrow>
                   (let body = take (maxRangeBody + 1) whole in
                    if length body > maxRangeBody then None else find_suffix suffix (lines_of body)))"

definition Pwned :: "(bytes \<Rightarrow> bytes) \<Rightarrow> (range_request \<Rightarrow> range_answer) \<Rightarrow> string \<Rightarrow> string \<Rightarrow> bool option" where
  "Pwned sha1 api base password =
     (let full = upper_hex_of (sha1 (bytes_of password)) in
      read_range (drop 5 full) (api (range_of base (take 5 full))))"

text \<open>The adapter of tests and of a local run.\<close>

definition Common :: "string list" where "Common = [''password1234'', ''123456789012'', ''senhasenha123'']"

definition FakeBreached :: "string list \<Rightarrow> string \<Rightarrow> bool option" where
  "FakeBreached known password = Some (password \<in> set known)"

subsection \<open>A list read back\<close>

text \<open>
  What the interface documents of a range: a line for each hash of the prefix, what follows the
  prefix and how often it was seen; padding is lines seen no times.
\<close>

definition range_body :: "(string \<times> nat) list \<Rightarrow> string" where
  "range_body entries = concat (map (\<lambda>(suffix, n). suffix @ '':'' @ dec n @ [CHR 0x0D, CHR 0x0A]) entries)"

lemma position_first: "sep \<notin> set s \<Longrightarrow> position sep (s @ sep # t) = Some (length s)"
  by (induction s) auto

lemma cut_first_at: "sep \<notin> set s \<Longrightarrow> cut_first sep (s @ sep # t) = Some (s, t)"
  by (simp add: cut_first_def position_first)

lemma dec_code: "c \<in> set (dec n) \<Longrightarrow> 48 \<le> code c \<and> code c \<le> 57"
proof -
  assume "c \<in> set (dec n)"
  then have "c \<in> set digits10" using dec_digits [of n] by (simp add: list_all_iff is_digit_iff)
  then show ?thesis by (auto simp: digits10_def code_def)
qed

lemma ends_kept:
  assumes "list_all (\<lambda>c. 33 \<le> code c \<and> code c \<le> 126) s"
  shows "trim_space (s @ [CHR 0x0D]) = s"
proof -
  have ascii: "list_all (\<lambda>c. code c < 128) (s @ [CHR 0x0D])" using assms by (auto simp: list_all_iff code_def)
  let ?f = "\<lambda>c. (Some (int (code c)), [c])"
  have "runes (s @ [CHR 0x0D]) = map ?f s @ [?f (CHR 0x0D)]" by (simp add: ascii_runes [OF ascii])
  moreover have seen: "\<not> space_rune (?f c)" if "c \<in> set s" for c
  proof -
    have "33 \<le> code c" "code c \<le> 126" using assms that by (auto simp: list_all_iff)
    then show ?thesis by (simp add: space_rune_def IsSpace_def)
  qed
  moreover have blank: "space_rune (?f (CHR 0x0D))" by (simp add: space_rune_def IsSpace_def code_def)
  moreover have front: "dropWhile space_rune (map ?f s @ xs) = map ?f s @ (if s = [] then dropWhile space_rune xs else xs)" for xs
    using seen by (cases s) auto
  moreover have "dropWhile space_rune (rev (map ?f s)) = rev (map ?f s)"
    using seen by (cases s rule: rev_cases) auto
  moreover have "concat (map (\<lambda>c. [c]) s) = s" by (induction s) auto
  ultimately show ?thesis
    by (cases "s = []") (simp_all add: trim_space_def comp_def)
qed

lemma lines_of_range:
  assumes "list_all (\<lambda>(suffix, n). list_all (\<lambda>c. 33 \<le> code c \<and> code c \<le> 126) suffix) entries"
  shows "lines_of (range_body entries) = map (\<lambda>(suffix, n). suffix @ '':'' @ dec n @ [CHR 0x0D]) entries"
proof -
  have visible: "33 \<le> code c \<and> code c \<le> 126 \<Longrightarrow> c \<noteq> CHR 0x0A" for c by (auto simp: code_def)
  have "split_at (CHR 0x0A) (range_body entries) = map (\<lambda>(suffix, n). suffix @ '':'' @ dec n @ [CHR 0x0D]) entries @ [[]]"
    using assms
  proof (induction entries)
    case (Cons e entries)
    obtain suffix n where e: "e = (suffix, n)" by (cases e)
    let ?line = "suffix @ '':'' @ dec n @ [CHR 0x0D]"
    have "CHR 0x0A \<notin> set (dec n)" using dec_code [of "CHR 0x0A" n] by (auto simp: code_def)
    then have "CHR 0x0A \<notin> set ?line" using Cons.prems visible by (auto simp: e list_all_iff)
    then have "split_at (CHR 0x0A) (?line @ CHR 0x0A # range_body entries) = ?line # split_at (CHR 0x0A) (range_body entries)"
      by (rule split_at_append)
    moreover have "range_body (e # entries) = ?line @ CHR 0x0A # range_body entries" by (simp add: range_body_def e)
    ultimately show ?case using Cons by (simp add: e)
  qed (simp add: range_body_def)
  then show ?thesis by (simp add: lines_of_def)
qed

text \<open>
  Against a range that is what the interface documents, the answer is right: the password is
  said to be breached exactly when its hash is listed with a count that is not zero. What the
  network is asked for is the first five digits of the hash and nothing else of the password.
\<close>

theorem pwned_answers_rightly:
  assumes hash: "upper_hex_of (sha1 (bytes_of password)) = prefix @ suffix" "length prefix = 5"
    and api: "api (range_of base prefix) = Ranged 200 (Some (range_body entries))"
    and small: "length (range_body entries) \<le> maxRangeBody"
    and listed: "list_all (\<lambda>(s, n). list_all (\<lambda>c. 33 \<le> code c \<and> code c \<le> 126 \<and> c \<noteq> CHR '':'') s \<and>
      length s + length (dec n) < 65000) entries"
  shows "Pwned sha1 api base password = Some (\<exists>n > 0. (suffix, n) \<in> set entries)"
proof -
  have visible: "list_all (\<lambda>(s, n). list_all (\<lambda>c. 33 \<le> code c \<and> code c \<le> 126) s) entries"
    using listed by (auto simp: list_all_iff)
  have zero: "dec 0 = ''0''" by code_simp
  have count: "dec n \<noteq> ''0'' \<longleftrightarrow> 0 < n" for n
  proof
    assume "dec n \<noteq> ''0''"
    then show "0 < n" using zero by (cases n) auto
  next
    assume "0 < n"
    then show "dec n \<noteq> ''0''" using number_of_dec [of n] by (auto simp: number_of_digits_def code_def)
  qed
  have "find_suffix suffix (map (\<lambda>(s, n). s @ '':'' @ dec n @ [CHR 0x0D]) entries) = Some (\<exists>n > 0. (suffix, n) \<in> set entries)"
    using listed
  proof (induction entries)
    case (Cons e entries)
    obtain s n where e: "e = (s, n)" by (cases e)
    have colon: "CHR '':'' \<notin> set s" using Cons.prems by (auto simp: e list_all_iff)
    have "list_all (\<lambda>c. 33 \<le> code c \<and> code c \<le> 126) s" using Cons.prems by (auto simp: e list_all_iff)
    moreover have "list_all (\<lambda>c. 33 \<le> code c \<and> code c \<le> 126) (dec n)" using dec_code [of _ n] by (fastforce simp: list_all_iff)
    moreover have "33 \<le> code (CHR '':'') \<and> code (CHR '':'') \<le> 126" by (simp add: code_def)
    ultimately have "list_all (\<lambda>c. 33 \<le> code c \<and> code c \<le> 126) (s @ '':'' @ dec n)" by simp
    from ends_kept [OF this] have "cut_first (CHR '':'') (trim_space (s @ '':'' @ dec n @ [CHR 0x0D])) = Some (s, dec n)"
      using cut_first_at [OF colon, of "dec n"] by simp
    then show ?case using Cons by (auto simp: e count maxLine_def)
  qed simp
  then show ?thesis
    using small hash(2) by (simp add: Pwned_def hash(1) api read_range_def lines_of_range [OF visible])
qed

text \<open>A hash that begins with the five digits of another's is asked for in the same words.\<close>

theorem pwned_answers_rightly_witness:
  "Pwned (\<lambda>b. [0x5B, 0xAA, 0x61] @ take 1 b) (\<lambda>q. Ranged 200 (Some (range_body [(''170'', 3), (''161'', 0), (''FFF'', 0)])))
     RangeAPI ''password'' = Some True"
proof -
  let ?entries = "[(''170'', 3), (''161'', 0), (''FFF'', 0)] :: (string \<times> nat) list"
  have "length (range_body ?entries) = 21" by code_simp
  then have small: "length (range_body ?entries) \<le> maxRangeBody" by (simp add: maxRangeBody_def)
  have digits: "length (dec 3) = 1" "length (dec 0) = 1" by code_simp+
  have "Pwned (\<lambda>b. [0x5B, 0xAA, 0x61] @ take 1 b) (\<lambda>q. Ranged 200 (Some (range_body ?entries))) RangeAPI ''password'' =
      Some (\<exists>n > 0. (''170'', n) \<in> set ?entries)"
  proof (rule pwned_answers_rightly [where prefix = "''5BAA6''"])
    show "upper_hex_of ([0x5B, 0xAA, 0x61] @ take 1 (bytes_of ''password'')) = ''5BAA6'' @ ''170''" by code_simp
  qed (use small digits in \<open>simp_all add: code_def\<close>)
  then show ?thesis by simp
qed

end
