(* ===== verification/Mailbox.thy ===== *)
theory Mailbox
  imports BrevoProps Urls
begin

text \<open>
  The e-mail adapter that sends nothing: src/internal/platform/mail/mailbox/mailbox.go, a
  directory of messages that every process of an environment shares. And the contract the two
  adapters keep towards the rest of the platform, whichever the configuration picks.
\<close>

subsection \<open>The adapter\<close>

definition mailbox_name :: string where "mailbox_name = ''mailbox''"

record mailbox_message =
  mm_id :: string
  mm_written :: time
  mm_to :: string
  mm_from :: string
  mm_subject :: string
  mm_text :: string
  mm_html :: string
  mm_template :: string
  mm_language :: string
  mm_marketplace :: string
  mm_variables :: "(string \<times> string) list"

text \<open>
  What one process remembers and what the disk holds: the names of the files and what is in
  them. Random bytes and the clock are drawn call by call, and a write may fail.
\<close>

record mailbox =
  mb_sent :: "string list"
  mb_files :: "(string \<times> mailbox_message) list"
  mb_calls :: nat
  mb_random :: "nat \<Rightarrow> bytes option"
  mb_now :: "nat \<Rightarrow> time"
  mb_writes :: "nat \<Rightarrow> bool"

text \<open>\<^verbatim>\<open>filepath.Join\<close> of the directory, whose address is absolute, and a file of it.\<close>

definition message_file :: "string \<Rightarrow> string \<Rightarrow> string" where
  "message_file directory ident = Clean (directory @ ''/'' @ ident @ ''.json'')"

definition letter :: "string \<Rightarrow> time \<Rightarrow> rendered \<Rightarrow> mailbox_message" where
  "letter ident at r = \<lparr>mm_id = ident, mm_written = at, mm_to = mail_address (To (re_message r)), mm_from = From (re_message r),
     mm_subject = re_subject r, mm_text = re_text r, mm_html = re_html r, mm_template = Template (re_message r),
     mm_language = msg_language (re_message r), mm_marketplace = msg_marketplace (re_message r),
     mm_variables = Variables (re_message r)\<rparr>"

definition SendMailbox :: "string \<Rightarrow> rendered \<Rightarrow> mailbox \<Rightarrow> (provider_error + string) \<times> mailbox" where
  "SendMailbox directory r v =
     (let n = mb_calls v; v = v\<lparr>mb_calls := Suc n\<rparr> in
      case mb_random v n of
        None \<Rightarrow> (Inl (Unanswered ''cannot name the message''), v)
      | Some raw \<Rightarrow>
          (let ident = hex_of raw; file = message_file directory ident in
           if \<not> mb_writes v n then (Inl (Unanswered (''cannot write '' @ file)), v)
           else (Inr ident, v\<lparr>mb_files := (file, letter ident (mb_now v n) r) # delete_where (\<lambda>f. fst f = file) (mb_files v),
                   mb_sent := ident # mb_sent v\<rparr>)))"

definition ConfirmMailbox :: "string \<Rightarrow> mail_event \<Rightarrow> mailbox \<Rightarrow> (provider_error + bool) \<times> mailbox" where
  "ConfirmMailbox directory e v =
     (if me_message e = [] \<or> mail_address (me_address e) = [] then (Inr False, v)
      else if me_message e \<in> set (mb_sent v) then (Inr True, v)
      else (Inr (message_file directory (me_message e) \<in> fst ` set (mb_files v)), v))"

text \<open>What is posted to the fake: the platform's own event, whose kind may be anything.\<close>

record posted_event =
  po_id :: string
  po_message :: string
  po_address :: string
  po_kind :: string
  po_reported :: string
  po_reason :: string

definition posted_events :: "posted_event list \<Rightarrow> mail_event list" where
  "posted_events posted = List.map_filter (\<lambda>p.
     if mail_address (po_address p) = [] then None
     else map_option (\<lambda>kind. \<lparr>me_provider = mailbox_name, me_id = po_id p, me_message = po_message p,
       me_address = mail_address (po_address p), me_kind = kind, me_reported = po_reported p, me_reason = po_reason p\<rparr>)
       (kind_named (po_kind p))) posted"

definition EventsMailbox :: "(string \<Rightarrow> posted_event list option) \<Rightarrow> (string \<Rightarrow> posted_event option) \<Rightarrow> string \<Rightarrow> mail_event list option" where
  "EventsMailbox many one body =
     (let trimmed = trim_space body in
      if trimmed = [] then None
      else if hd trimmed = CHR ''['' then map_option posted_events (many trimmed)
      else map_option (\<lambda>p. posted_events [p]) (one trimmed))"

subsection \<open>What every adapter promises\<close>

text \<open>
  The interface behind the webhook and the consumer of its events: an event read from a post is
  the adapter's own and about somebody, with the address as the list of suppressions writes it,
  and an event about nobody is never confirmed, and not asked about.
\<close>

locale mail_provider =
  fixes called :: string
    and events :: "string \<Rightarrow> mail_event list option"
    and confirm :: "mail_event \<Rightarrow> 'v \<Rightarrow> (provider_error + bool) \<times> 'v"
  assumes reported: "events body = Some es \<Longrightarrow> e \<in> set es \<Longrightarrow>
      me_provider e = called \<and> mail_address (me_address e) = me_address e \<and> me_address e \<noteq> []"
    and nobody: "mail_address (me_address e) = [] \<Longrightarrow> confirm e v = (Inr False, v)"
begin

text \<open>No event that came in through the webhook is given up for want of an address.\<close>

lemma reported_names_somebody:
  "events body = Some es \<Longrightarrow> e \<in> set es \<Longrightarrow> ml_confirm ml = confirm \<Longrightarrow> fst (Apply ml we e w) \<noteq> Some NoAddress"
  using reported by (auto simp: Apply_def split: prod.splits sum.splits provider_error.splits bool.splits)

text \<open>What is applied suppresses the address it came with, and no other spelling of it.\<close>

lemma applied_suppresses_reported:
  assumes "events body = Some es" and "e \<in> set es" and "ml_confirm ml = confirm"
    and "confirm e (mw_provider w) = (Inr True, v)" and "ml_database ml" and "we_log we"
  shows "Apply ml we e w = (None, snd (Suppress e (we_before we (w\<lparr>mw_provider := v\<rparr>)))) \<and>
    Suppressed (me_address e) (snd (Apply ml we e w))"
proof -
  have known: "mail_address (me_address e) = me_address e" "me_address e \<noteq> []" using reported [OF assms(1,2)] by simp_all
  then have run: "Apply ml we e w = (None, snd (Suppress e (we_before we (w\<lparr>mw_provider := v\<rparr>))))"
    using assms(3-6) by (simp add: Apply_def)
  then show ?thesis using Suppress_Suppressed [OF refl, of e "we_before we (w\<lparr>mw_provider := v\<rparr>)"] by simp
qed

end

lemma events_of_sound:
  "e \<in> set (events_of posted) \<Longrightarrow> me_provider e = brevo_name \<and> mail_address (me_address e) = me_address e \<and> me_address e \<noteq> []"
  by (auto simp: events_of_def map_filter_def mail_address_idem split: option.splits if_splits)

interpretation brevo: mail_provider brevo_name "EventsBrevo many one" "ConfirmBrevo c" for many one c
proof unfold_locales
  show "EventsBrevo many one body = Some es \<Longrightarrow> e \<in> set es \<Longrightarrow>
      me_provider e = brevo_name \<and> mail_address (me_address e) = me_address e \<and> me_address e \<noteq> []" for body es e
    using events_of_sound by (auto simp: EventsBrevo_def Let_def split: if_splits)
  show "mail_address (me_address e) = [] \<Longrightarrow> ConfirmBrevo c e v = (Inr False, v)" for e v
    by (simp add: ConfirmBrevo_def)
qed

lemma posted_events_sound:
  "e \<in> set (posted_events posted) \<Longrightarrow> me_provider e = mailbox_name \<and> mail_address (me_address e) = me_address e \<and> me_address e \<noteq> []"
  by (auto simp: posted_events_def map_filter_def mail_address_idem split: option.splits if_splits)

interpretation fake: mail_provider mailbox_name "EventsMailbox many one" "ConfirmMailbox directory" for many one directory
proof unfold_locales
  show "EventsMailbox many one body = Some es \<Longrightarrow> e \<in> set es \<Longrightarrow>
      me_provider e = mailbox_name \<and> mail_address (me_address e) = me_address e \<and> me_address e \<noteq> []" for body es e
    using posted_events_sound by (auto simp: EventsMailbox_def Let_def split: if_splits)
  show "mail_address (me_address e) = [] \<Longrightarrow> ConfirmMailbox directory e v = (Inr False, v)" for e v
    by (simp add: ConfirmMailbox_def)
qed

text \<open>
  What one process sent, every process of the environment confirms, for as long as the file is
  there: after a restart, and on another instance.
\<close>

lemma sent_is_confirmed_everywhere:
  assumes "SendMailbox directory r v = (Inr ident, v')" and "fst ` set (mb_files v') \<subseteq> fst ` set (mb_files u)"
    and "me_message e = ident" and "ident \<noteq> []" and "mail_address (me_address e) \<noteq> []"
  shows "ConfirmMailbox directory e u = (Inr True, u)"
proof -
  have "message_file directory ident \<in> fst ` set (mb_files v')"
    using assms(1) by (auto simp: SendMailbox_def Let_def split: option.splits if_splits)
  then show ?thesis using assms(2-5) by (auto simp: ConfirmMailbox_def)
qed

end
