(* ===== verification/Access.thy ===== *)
theory Access
  imports Configuration Service
begin

text \<open>
  How the process reaches its database and what it may do there: the connection and the
  transactions of src/internal/platform/db/db.go, and the privileges
  src/internal/platform/db/migrate.go grants after every migration. Quoting an identifier is the
  driver's, a parameter.
\<close>

subsection \<open>The connection string\<close>

definition dsn :: "database_config \<Rightarrow> string" where
  "dsn d =
     (if cd_url d \<noteq> [] then cd_url d
      else ''dbname='' @ cd_name d @ '' user='' @ cd_user d @ '' sslmode=disable'' @
        (if cd_password d \<noteq> [] then '' password='' @ cd_password d else []))"

text \<open>
  The values are written as they are: two different settings can be one string, and what follows
  a space in a password is read as a setting of its own.
\<close>

lemma dsn_does_not_tell_settings_apart:
  "\<exists>d e. DatabaseConfigured d \<and> DatabaseConfigured e \<and> database_problems d = [] \<and> database_problems e = [] \<and>
     cd_password d \<noteq> cd_password e \<and> cd_user d \<noteq> cd_user e \<and> dsn d = dsn e"
proof (intro exI)
  let ?d = "\<lparr>cd_url = [], cd_instance = ''p:r:i'', cd_name = ''shop'', cd_user = ''app'', cd_password = ''x sslmode=disable'',
    cd_app_user = []\<rparr>"
  let ?e = "?d\<lparr>cd_user := ''app sslmode=disable password=x'', cd_password := []\<rparr>"
  show "DatabaseConfigured ?d \<and> DatabaseConfigured ?e \<and> database_problems ?d = [] \<and> database_problems ?e = [] \<and>
     cd_password ?d \<noteq> cd_password ?e \<and> cd_user ?d \<noteq> cd_user ?e \<and> dsn ?d = dsn ?e"
    by (simp add: DatabaseConfigured_def database_problems_def dsn_def)
qed

text \<open>
  \<^verbatim>\<open>Open\<close>: what of the settings the driver and the connector are given. Whether the driver can
  read the string, and whether the connector and the pool start, are the answers of libraries.
\<close>

definition maxConns :: nat where "maxConns = 4"

datatype open_error = NothingConfigured | UnreadableSettings | NoConnector | NoPool

record pool_plan =
  pn_dsn :: string
  pn_max :: nat
  pn_connector :: "(string \<times> bool) option"

definition OpenPool :: "(string \<Rightarrow> bool) \<Rightarrow> bool \<Rightarrow> bool \<Rightarrow> database_config \<Rightarrow> open_error + pool_plan" where
  "OpenPool readable connector pool d =
     (if \<not> DatabaseConfigured d then Inl NothingConfigured
      else if \<not> readable (dsn d) then Inl UnreadableSettings
      else if cd_instance d \<noteq> [] \<and> \<not> connector then Inl NoConnector
      else if \<not> pool then Inl NoPool
      else Inr \<lparr>pn_dsn = dsn d, pn_max = maxConns,
        pn_connector = (if cd_instance d \<noteq> [] then Some (cd_instance d, cd_password d = []) else None)\<rparr>)"

text \<open>
  With settings that do not contradict each other, a process that logs in as itself sends no
  password, and one that sends a password does not log in as itself.
\<close>

lemma login_or_password:
  assumes "OpenPool readable connector pool d = Inr plan" and "database_problems d = []"
  shows "(pn_connector plan = Some (cd_instance d, True) \<longrightarrow> pn_dsn plan = ''dbname='' @ cd_name d @ '' user='' @ cd_user d @ '' sslmode=disable'') \<and>
    (pn_connector plan = None \<longrightarrow> pn_dsn plan = cd_url d)"
  using assms by (auto simp: OpenPool_def dsn_def DatabaseConfigured_def database_problems_def split: if_splits)

subsection \<open>Transactions\<close>

text \<open>
  \<^verbatim>\<open>InTx\<close> and \<^verbatim>\<open>InTxFor\<close>: beginning, committing and naming the marketplace may each fail; what a
  body did is there only after a commit.
\<close>

datatype 'e pool_error = CannotBegin | CannotCommit | NoMarketplaceNamed | CannotScope | OfBody 'e

definition InTx :: "bool \<Rightarrow> bool \<Rightarrow> ('d, 'e, 'x) tx \<Rightarrow> 'd \<Rightarrow> ('e pool_error + 'x) \<times> 'd" where
  "InTx begins commits body d =
     (if \<not> begins then (Inl CannotBegin, d)
      else case body d of
             Inl e \<Rightarrow> (Inl (OfBody e), d)
           | Inr (x, d') \<Rightarrow> if commits then (Inr x, d') else (Inl CannotCommit, d))"

definition InTxFor :: "bool \<Rightarrow> bool \<Rightarrow> bool \<Rightarrow> string \<Rightarrow> (scope \<Rightarrow> ('d, 'e, 'x) tx) \<Rightarrow> 'd \<Rightarrow> ('e pool_error + 'x) \<times> 'd" where
  "InTxFor begins scopes commits marketplace body d =
     (if marketplace = [] then (Inl NoMarketplaceNamed, d)
      else if \<not> begins then (Inl CannotBegin, d)
      else if \<not> scopes then (Inl CannotScope, d)
      else InTx begins commits (body (Some marketplace)) d)"

text \<open>
  The development's \<open>in_tx\<close> and \<open>within\<close> are these on a database that answers; on one that does
  not, nothing changes.
\<close>

definition as_body :: "('e + 'x) \<times> 'd \<Rightarrow> ('e pool_error + 'x) \<times> 'd" where
  "as_body = (\<lambda>(answer, d). (case answer of Inl e \<Rightarrow> Inl (OfBody e) | Inr x \<Rightarrow> Inr x, d))"

lemma InTx_answers: "InTx True True body d = as_body (in_tx body d)"
  by (simp add: InTx_def in_tx_def as_body_def split: sum.split)

lemma within_is_InTxFor:
  "\<not> v_platform v \<Longrightarrow> v_marketplace v \<noteq> [] \<Longrightarrow> as_body (within v body d) = InTxFor True True True (v_marketplace v) body d"
  by (simp add: within_def InTxFor_def InTx_answers)

lemma refused_keeps: "fst (InTxFor begins scopes commits marketplace body d) = Inl e \<Longrightarrow> snd (InTxFor begins scopes commits marketplace body d) = d"
  by (auto simp: InTxFor_def InTx_def split: sum.splits if_splits)

subsection \<open>The statements\<close>

datatype privilege = SelectRows | InsertRows | UpdateRows | DeleteRows | TruncateTable

datatype statement =
    ConnectDatabase | UseSchema
  | OnAllTables "privilege list" | OnSequences
  | OnTablesToCome "privilege list" | OnSequencesToCome
  | OnFunctions | OnFunctionsToCome
  | TakeBack string "privilege list"

definition rows_of_tables :: "privilege list" where
  "rows_of_tables = [SelectRows, InsertRows, UpdateRows, DeleteRows]"

definition audit_table :: string where "audit_table = ''audit_log''"

text \<open>\<^verbatim>\<open>grant\<close>: each statement with the text that is sent.\<close>

definition grants :: "(string \<Rightarrow> string) \<Rightarrow> string \<Rightarrow> string \<Rightarrow> (statement \<times> string) list" where
  "grants sanitize database appUser =
     (let user = sanitize appUser; name = sanitize database in
      [(ConnectDatabase, ''GRANT CONNECT ON DATABASE '' @ name @ '' TO '' @ user),
       (UseSchema, ''GRANT USAGE ON SCHEMA public TO '' @ user),
       (OnAllTables rows_of_tables, ''GRANT SELECT, INSERT, UPDATE, DELETE ON ALL TABLES IN SCHEMA public TO '' @ user),
       (OnSequences, ''GRANT USAGE, SELECT ON ALL SEQUENCES IN SCHEMA public TO '' @ user),
       (OnTablesToCome rows_of_tables, ''ALTER DEFAULT PRIVILEGES IN SCHEMA public GRANT SELECT, INSERT, UPDATE, DELETE ON TABLES TO '' @ user),
       (OnSequencesToCome, ''ALTER DEFAULT PRIVILEGES IN SCHEMA public GRANT USAGE, SELECT ON SEQUENCES TO '' @ user),
       (OnFunctions, ''GRANT EXECUTE ON ALL FUNCTIONS IN SCHEMA public TO '' @ user),
       (OnFunctionsToCome, ''ALTER DEFAULT PRIVILEGES IN SCHEMA public GRANT EXECUTE ON FUNCTIONS TO '' @ user),
       (TakeBack audit_table [UpdateRows, DeleteRows, TruncateTable], ''REVOKE UPDATE, DELETE, TRUNCATE ON audit_log FROM '' @ user)])"

subsection \<open>What a role may do with a table\<close>

text \<open>What PostgreSQL documents of these statements, for the one role and the rows of tables.\<close>

record access =
  ac_tables :: "string list"
  ac_may :: "(string \<times> privilege) list"
  ac_to_come :: "privilege list"

definition may :: "access \<Rightarrow> string \<Rightarrow> privilege \<Rightarrow> bool" where
  "may a table p \<longleftrightarrow> (table, p) \<in> set (ac_may a)"

fun run_statement :: "statement \<Rightarrow> access \<Rightarrow> access" where
  "run_statement (OnAllTables ps) a = a\<lparr>ac_may := ac_may a @ List.product (ac_tables a) ps\<rparr>"
| "run_statement (OnTablesToCome ps) a = a\<lparr>ac_to_come := ac_to_come a @ ps\<rparr>"
| "run_statement (TakeBack table ps) a = a\<lparr>ac_may := filter (\<lambda>(t, p). \<not> (t = table \<and> p \<in> set ps)) (ac_may a)\<rparr>"
| "run_statement _ a = a"

text \<open>A migration makes tables, which come with what was arranged for them.\<close>

definition new_table :: "string \<Rightarrow> access \<Rightarrow> access" where
  "new_table table a = a\<lparr>ac_tables := table # ac_tables a, ac_may := ac_may a @ map (Pair table) (ac_to_come a)\<rparr>"

text \<open>
  \<^verbatim>\<open>Migrate\<close>: the tables that were made, then, where the deployment owns an application user,
  the statements one by one; \<open>reached\<close> of them ran before one failed.
\<close>

definition Migrate :: "(string \<Rightarrow> string) \<Rightarrow> database_config \<Rightarrow> string list \<Rightarrow> nat \<Rightarrow> access \<Rightarrow> bool \<times> access" where
  "Migrate sanitize d tables reached a =
     (let b = fold new_table tables a; statements = grants sanitize (cd_name d) (cd_app_user d) in
      if cd_app_user d = [] then (True, b)
      else (length statements \<le> reached, fold (run_statement \<circ> fst) (take reached statements) b))"

text \<open>Every deployment so far: its new tables, and how far its statements came.\<close>

fun deployments :: "(string \<Rightarrow> string) \<Rightarrow> database_config \<Rightarrow> (string list \<times> nat) list \<Rightarrow> access \<Rightarrow> access" where
  "deployments sanitize d [] a = a"
| "deployments sanitize d ((tables, reached) # rest) a =
     deployments sanitize d rest (snd (Migrate sanitize d tables reached a))"

definition no_access :: access where "no_access = \<lparr>ac_tables = [], ac_may = [], ac_to_come = []\<rparr>"

subsection \<open>What is left to the application\<close>

definition never_truncates :: "access \<Rightarrow> bool" where
  "never_truncates a \<longleftrightarrow> (\<forall>t. \<not> may a t TruncateTable) \<and> TruncateTable \<notin> set (ac_to_come a)"

lemma new_table_keeps: "never_truncates a \<Longrightarrow> never_truncates (new_table t a)"
  by (auto simp: never_truncates_def may_def new_table_def)

lemma new_tables_keep: "never_truncates a \<Longrightarrow> never_truncates (fold new_table tables a)"
  by (induction tables arbitrary: a) (simp_all add: new_table_keeps)

lemma statement_keeps:
  "x \<in> set (grants sanitize database user) \<Longrightarrow> never_truncates b \<Longrightarrow> never_truncates (run_statement (fst x) b)"
  by (auto simp: grants_def Let_def never_truncates_def may_def rows_of_tables_def)

lemma statements_keep:
  "set xs \<subseteq> set (grants sanitize database user) \<Longrightarrow> never_truncates b \<Longrightarrow> never_truncates (fold (run_statement \<circ> fst) xs b)"
  by (induction xs arbitrary: b) (auto intro: statement_keeps)

lemma deployments_keep: "never_truncates a \<Longrightarrow> never_truncates (deployments sanitize d ds a)"
  by (induction sanitize d ds a rule: deployments.induct)
     (simp_all add: Migrate_def Let_def new_tables_keep statements_keep [OF set_take_subset])

text \<open>
  C39. Safety: however many deployments there were, and wherever the earlier ones were cut off,
  after one that finished the application may read and add to every table of the schema and
  change and delete rows in all but the audit log, which it may only read and add to; it may
  empty none.
\<close>

theorem application_only_adds_to_the_audit_log:
  assumes "cd_app_user d \<noteq> []"
    and "Migrate sanitize d tables reached (deployments sanitize d ds no_access) = (True, a)"
    and "t \<in> set (ac_tables a)"
  shows "may a t p \<longleftrightarrow> (if t = audit_table then p \<in> {SelectRows, InsertRows} else p \<noteq> TruncateTable)"
proof -
  let ?b = "fold new_table tables (deployments sanitize d ds no_access)"
  let ?g = "grants sanitize (cd_name d) (cd_app_user d)"
  have "never_truncates (deployments sanitize d ds no_access)"
    by (rule deployments_keep) (simp add: never_truncates_def no_access_def may_def)
  then have clean: "\<not> may ?b t TruncateTable" using new_tables_keep by (auto simp: never_truncates_def)
  have "length ?g \<le> reached" "a = fold (run_statement \<circ> fst) ?g ?b"
    using assms(1, 2) by (auto simp: Migrate_def Let_def)
  then have a: "ac_tables a = ac_tables ?b" "ac_may a = filter (\<lambda>(t, p). \<not> (t = audit_table \<and> p \<in> {UpdateRows, DeleteRows, TruncateTable}))
      (ac_may ?b @ List.product (ac_tables ?b) rows_of_tables)"
    by (simp_all add: grants_def Let_def)
  show ?thesis
    using assms(3) clean by (cases p) (auto simp: may_def a rows_of_tables_def audit_table_def)
qed

text \<open>The second deployment of a schema with the audit log and one other table.\<close>

definition shop_database :: database_config where
  "shop_database = \<lparr>cd_url = [], cd_instance = ''p:r:i'', cd_name = ''shop'', cd_user = ''owner'', cd_password = [],
     cd_app_user = ''app''\<rparr>"

theorem application_only_adds_to_the_audit_log_witness:
  "\<not> may (snd (Migrate id shop_database [''orders''] 9 (deployments id shop_database [([audit_table], 3)] no_access)))
     audit_table UpdateRows"
proof -
  let ?last = "Migrate id shop_database [''orders''] 9 (deployments id shop_database [([audit_table], 3)] no_access)"
  have "fst ?last \<and> audit_table \<in> set (ac_tables (snd ?last))" by code_simp
  then obtain a where a: "?last = (True, a)" "audit_table \<in> set (ac_tables a)" by (cases ?last) auto
  have user: "cd_app_user shop_database \<noteq> []" by (simp add: shop_database_def)
  show ?thesis using application_only_adds_to_the_audit_log [OF user a, of UpdateRows] unfolding a(1) snd_conv by simp
qed

text \<open>
  The statements are not one transaction: a deployment that stops after the third leaves the
  application the right to change and delete what is in the audit log, until the next one.
\<close>

lemma cut_off_deployment_opens_the_audit_log:
  "may (deployments id shop_database [([audit_table], 9), ([], 3)] no_access) audit_table UpdateRows \<and>
   may (deployments id shop_database [([audit_table], 9), ([], 3)] no_access) audit_table DeleteRows"
  by code_simp

end
