(* ===== verification/Keepers.thy ===== *)
theory Keepers
  imports AuditTrail SiteFactors Deploy
begin

text \<open>
  The two keepers that wrap a person's key: a key manager's key, which nothing can read
  (src/internal/platform/keys/kms/kms.go), and a key the process holds, for an environment with
  no key manager (src/internal/platform/keys/local/local.go), which wraps as a person's data is
  sealed. And what the process says of itself, src/internal/platform/logging/logging.go.
\<close>

subsection \<open>Base64 with its padding\<close>

text \<open>
  \<^verbatim>\<open>base64.StdEncoding.DecodeString\<close>: line ends are skipped, and the text is padded to groups
  of four.
\<close>

definition std_decode :: "string \<Rightarrow> bytes option" where
  "std_decode s =
     (let t = filter (\<lambda>c. c \<noteq> CHR 0x0A \<and> c \<noteq> CHR 0x0D) s; body = takeWhile (\<lambda>c. c \<noteq> CHR ''='') t in
      if drop (length body) t \<noteq> replicate ((4 - length body mod 4) mod 4) (CHR ''='') then None
      else DecodeString b64_std body)"

lemma std_decode_encoded: "std_decode (padded_base64 (EncodeToString b64_std bs)) = Some bs"
proof -
  let ?e = "EncodeToString b64_std bs"
  have set: "set ?e \<subseteq> set b64_std" by (rule EncodeToString_set) simp
  have "c \<noteq> CHR ''='' \<and> c \<noteq> CHR 0x0A \<and> c \<noteq> CHR 0x0D" if "c \<in> set ?e" for c
    using set that by (auto simp: b64_std_def)
  then have "takeWhile (\<lambda>c. c \<noteq> CHR ''='') (?e @ replicate n (CHR ''='')) = ?e"
    "filter (\<lambda>c. c \<noteq> CHR 0x0A \<and> c \<noteq> CHR 0x0D) (?e @ replicate n (CHR ''='')) = ?e @ replicate n (CHR ''='')" for n
    by (induction n) (auto simp: takeWhile_append filter_id_conv)
  then show ?thesis by (simp add: std_decode_def padded_base64_def Let_def)
qed

subsection \<open>The local keeper\<close>

definition local_name :: string where "local_name = ''local''"

definition new_local :: "bytes \<Rightarrow> bytes option" where
  "new_local master = (if length master \<noteq> KeySize then None else Some master)"

definition parse_local :: "string \<Rightarrow> bytes option" where
  "parse_local encoded = (case std_decode encoded of None \<Rightarrow> None | Some master \<Rightarrow> new_local master)"

text \<open>\<^verbatim>\<open>Wrap\<close> and \<^verbatim>\<open>Unwrap\<close> are \<^verbatim>\<open>keys.Seal\<close> and \<^verbatim>\<open>keys.Open\<close> under the key it holds; the nonce is drawn.\<close>

definition local_wrap :: "audit_world \<Rightarrow> bytes \<Rightarrow> bytes \<Rightarrow> bytes \<Rightarrow> bytes option" where
  "local_wrap W master nonce key =
     (if length master \<noteq> KeySize then None else Some (nonce @ w_gcm_seal W master nonce key))"

definition local_unwrap :: "audit_world \<Rightarrow> bytes \<Rightarrow> bytes \<Rightarrow> bytes option" where
  "local_unwrap W master wrapped = (case Open W master wrapped of Inl _ \<Rightarrow> None | Inr key \<Rightarrow> Some key)"

definition with_local :: "audit_world \<Rightarrow> bytes \<Rightarrow> bytes \<Rightarrow> audit_world" where
  "with_local W master nonce = W\<lparr>w_keeper := local_name, w_wrap := local_wrap W master nonce, w_unwrap := local_unwrap W master\<rparr>"

text \<open>
  A key written in base64 makes a keeper that passes its own check, whatever the probe, where
  the cipher opens what it sealed; one of another length makes none.
\<close>

theorem local_keeper_is_proved:
  assumes "\<And>k n p. w_gcm_open W k n (w_gcm_seal W k n p) = Some p" and "length nonce = NonceSize"
  shows "parse_local (padded_base64 (EncodeToString b64_std master)) = (if length master = KeySize then Some master else None)"
    and "length master = KeySize \<Longrightarrow> Check (with_local W master nonce) probe = Inr ()"
  using assms by (simp_all add: parse_local_def std_decode_encoded new_local_def Check_def with_local_def local_wrap_def
      local_unwrap_def Open_def)

subsection \<open>The key manager\<close>

text \<open>The service behind the client is a parameter: what it answers to each of the two requests.\<close>

record key_manager =
  km_encrypt :: "string \<Rightarrow> bytes \<Rightarrow> bytes option"
  km_decrypt :: "string \<Rightarrow> bytes \<Rightarrow> bytes option"

definition kms_name :: string where "kms_name = ''cloudkms''"

definition new_kms :: "bool \<Rightarrow> string \<Rightarrow> string option" where
  "new_kms reached key = (if key = [] then None else if \<not> reached then None else Some key)"

definition kms_wrap :: "key_manager \<Rightarrow> string \<Rightarrow> bytes \<Rightarrow> bytes option" where
  "kms_wrap K key plain = km_encrypt K key plain"

definition kms_unwrap :: "key_manager \<Rightarrow> string \<Rightarrow> bytes \<Rightarrow> bytes option" where
  "kms_unwrap K key wrapped = km_decrypt K key wrapped"

definition with_kms :: "audit_world \<Rightarrow> key_manager \<Rightarrow> string \<Rightarrow> audit_world" where
  "with_kms W K key = W\<lparr>w_keeper := kms_name, w_wrap := kms_wrap K key, w_unwrap := kms_unwrap K key\<rparr>"

text \<open>A manager that encrypts and cannot decrypt is found before the process serves.\<close>

lemma one_way_manager_is_refused:
  "km_encrypt K key probe = Some wrapped \<Longrightarrow> km_decrypt K key wrapped \<noteq> Some probe \<Longrightarrow> Check (with_kms W K key) probe \<noteq> Inr ()"
  by (auto simp: Check_def with_kms_def kms_wrap_def kms_unwrap_def split: option.splits)

subsection \<open>Logging\<close>

text \<open>The severity of Cloud Logging, which has no WARN, and the two keys it reads.\<close>

definition severity :: "int \<Rightarrow> string" where
  "severity level =
     (if level < 0 then ''DEBUG'' else if level < 4 then ''INFO'' else if level < 8 then ''WARNING'' else ''ERROR'')"

datatype log_value = LogText string | LogLevel int

definition cloudLoggingFields :: "string list \<Rightarrow> string \<times> log_value \<Rightarrow> string \<times> log_value" where
  "cloudLoggingFields groups attr =
     (if groups \<noteq> [] then attr
      else if fst attr = ''msg'' then (''message'', snd attr)
      else if fst attr = ''level''
      then (''severity'', case snd attr of LogLevel level \<Rightarrow> LogText (severity level) | v \<Rightarrow> v)
      else attr)"

text \<open>A named level of the configuration is written as the severity of its name.\<close>

lemma named_severities:
  "map (\<lambda>n. map_option severity (read_level n)) [''debug'', ''info'', ''warn'', ''error'', ''info+4''] =
     [Some ''DEBUG'', Some ''INFO'', Some ''WARNING'', Some ''ERROR'', Some ''WARNING'']"
  by code_simp

end
