(* ===== verification/Spec2Isabelle.thy ===== *)
theory Spec2Isabelle
  imports TokenBucket SessionProps ChallengeProps OutboxProps Callbacks SeedProps BrevoProps LanguageProps
    GuardProps SiteGates SiteAgent SiteSignIn ConfigProps DeployProps BreachList Mailbox Access Keepers
begin

text \<open>
  A verification library for the marketplace, a multi-tenant shop written in Go (src/).
  One PostgreSQL database holds every marketplace; each request runs in a transaction that
  names its marketplace or, on the platform's own host, none, and row-level security shows
  it only the rows of that scope. A request passes the defences, the resolvers of host and
  language and the session before a handler calls a flow; a flow writes its tables, the audit
  log and the outbox in one transaction; the outbox's events come back as calls of a queue.

  \<^bold>\<open>How the program is modelled.\<close> A transaction body is a function from the database to an
  error or a result and a new database (theory Prelude: \<open>after\<close> is the sequencing of Go's
  \<^verbatim>\<open>if err != nil\<close>, \<open>in_tx\<close> the commit or the rollback of \<^verbatim>\<open>db.Pool.InTx\<close>). A flow of the
  service is a function of the database that runs one or two transactions; what other
  requests do between two of them is an argument, any function of the database. A handler is a
  function of the request and of the response so far with the world (the database, the rows of
  the limits, the resolver's memory and, call by call, the clock, the random bytes and what
  others did). What is not under src/ (SHA-256, HMAC, AES-GCM, argon2, NFKC, the RFC 5322 and
  UUID parsers, WebAuthn, Cloud KMS, the e-mail provider, Cloud Tasks, the breach list) is a
  field of a record or an argument, never a definition.

  \<^bold>\<open>Theories, and the code they model.\<close>
  \<^item> Prelude, GoText, TextFacts, Urls, UrlFacts, Doubles: the clock, bytes, transactions, the
    locale \<open>frame\<close> (what every statement of a body keeps, the body keeps), and the parts of
    Go's standard library the code rests on: text, UTF-8, URLs, rounded floating point.
  \<^item> Policy: src/internal/identity/factorpolicy.go, the action names of stepup.go.
  \<^item> Codes, CodeFacts: totp.go, recovery.go, token.go, \<^verbatim>\<open>emailCodeHash\<close>, the checks of what is typed.
  \<^item> Password, BreachList: password.go, the PHC string, its bounds, hashing and verifying;
    breached/breached.go, whose answer is right against a list that is what it documents.
  \<^item> AuditLog, AuditChain, AuditTrail, AuditProps, Keepers: src/internal/platform/audit and
    src/internal/platform/keys. AuditLog is the model (\<open>Append\<close>, \<open>SealFor\<close>, \<open>OpenFor\<close>,
    \<open>Destroy\<close>, \<open>OpenRecord\<close>, \<open>VerifyLog\<close>); AuditChain shows that verification in batches is
    the walk over a chain and that an intact log stays intact; AuditTrail states the interface
    the identity flows append through as the locales \<open>auditor\<close> and \<open>audit_trail\<close>, interprets
    them on the log, and follows a person's key; Keepers is what wraps that key.
  \<^item> IdStore, IdTables, FactorTables: the identity tables (migrations 00009 to 00017) and
    the SQL of store.go, factorstore.go, challengestore.go, emailcode.go and failures.go,
    one definition per function.
  \<^item> Service, Accounts, Challenges, Factors: src/internal/identity/identity.go, staff.go,
    notify.go, stepup.go, challenge.go, failures.go, emailcode.go, factors.go, key.go. The
    body of a transaction is \<open>..._tx\<close>, the flow has the name of the Go method.
  \<^item> Bootstrap: src/internal/staff, the platform's owner and the first run.
  \<^item> Steps, Statements, Isolation, Invariant, Histories: every transaction body of the flows as
    one step of a relation on databases, so that a history of steps is any interleaving of any
    requests; what a statement keeps of other scopes and of the invariant, and so a history.
  \<^item> SessionFacts, SessionProps, ChallengeFacts, ChallengeProps: what sign-in, sessions,
    passwords, second steps and codes promise; Samples: a concrete service and a short run.
  \<^item> Outbox, OutboxProps, Leases, Callbacks: src/internal/platform/outbox, tasks, jobs and
    httpx/internaltasks.go: events, deliveries, the lease of a job, who may call back.
  \<^item> RateLimit, TokenBucket: src/internal/platform/ratelimit, the limiter that counts in the
    database and the buckets each process keeps.
  \<^item> Tenancy, TenancyProps, SeedProps: src/internal/tenancy, hosts, the resolver's memory, seeding.
  \<^item> Mail, MailProps, Brevo, BrevoProps, Mailbox: src/internal/platform/mail and its two
    adapters, both of which interpret the locale \<open>mail_provider\<close>.
  \<^item> Http, Guards, GuardProps: requests and responses, and the defences of
    src/internal/platform/httpx (httpx.go, origin.go, security.go, csrf.go, google.go).
  \<^item> Language, LanguageChoice, LanguageFacts, LanguageProps, Seo: src/internal/platform/i18n, the
    language switch of httpx, robots.txt and descriptions.
  \<^item> WebPages: what a handler hands a page (src/web/page.go, challenge.go, security.go, console.go).
  \<^item> SiteWorld, Endpoints, SiteIdentity, SiteFactors, SiteRoutes: the handlers of httpx (identity.go,
    session.go, challenge.go, stepup.go, factors.go, console.go, site.go), the script and the
    endpoints of machines (script.go, and internaltasks.go and mailwebhook.go over Callbacks and
    Brevo), the routes, and the order in which src/cmd/marketplace/main.go puts a request through
    them. The outbox's rows are in the same world as the database its consumers act on.
  \<^item> SiteFrame, SiteKept, SiteProps, SiteGates, SiteAgent, SiteSignIn: what every handler keeps of
    a response, through the locale of writers, and who reaches what.
  \<^item> Configuration, ConfigProps, Deploy, DeployProps, Access: src/internal/platform/config, what
    main.go and bench.go do with it, src/internal/platform/db.

  \<^bold>\<open>Abstractions.\<close> A table is the list of its rows in insertion order; identifiers come
  from a parameter \<open>sv_new_id\<close>. Row locks order transactions and change nothing in one, so a
  locking read is a read. Durations are integers of nanoseconds; the program's are years at
  most. A scope is an option; the empty string Go uses for none is turned into it where the
  SQL does (\<^verbatim>\<open>nullif\<close>). Upper and lower case are those of ASCII. A floating-point value is a
  rational rounded to 53 bits after each operation, the exponent unbounded. A column of type
  uuid holds the text it was given, which PostgreSQL would write back in its canonical form; the
  hits of a limit, 32 bits wide, are a natural number, since a window ends long before they
  overflow; and where one transaction reads the clock more than once (\<^verbatim>\<open>answerChallenge\<close> and
  \<^verbatim>\<open>challenge\<close>), the readings are one. The identity flows write their messages to the outbox of
  the database, \<open>outbox\<close>; what the queue delivers are the event rows of theory Outbox. Logging
  is left out.

  \<^bold>\<open>Bounds and fuel.\<close> The only fuel is the one of \<open>verify_batches\<close>: it is one more than the
  number of records, each batch takes at least one record, and the theorem that
  verification is the walk over the chain needs no hypothesis on it. Five runs of the
  dispatcher settle an event because an event has five attempts; three redirects of the
  language resolver are enough, as theory LanguageProps shows.

  \<^bold>\<open>Not modelled.\<close> The connection pool, the migration tool and the SQL of schema changes; the
  generated templates (src/web, files ending in _templ.go), whose markup is an argument of the
  site, and the drawing of previews and QR codes; the writing of JSON and logs; signals, the
  listener and the timer of a local run (main.go, dispatch.go); the waiting of a hash for a free
  slot, and request paths with escaped slashes; test support. The manifest gives the reason of
  each.
\<close>

subsection \<open>Histories\<close>

text \<open>
  C1. In every state the system can reach, whatever requests one marketplace's visitors (or
  the platform's) make next, in any number and order, every row of every other marketplace
  and of the platform stays as it was, in every identity table, and so do the platform's
  owner tables: also when a sweep deletes sessions and the database cascades.
\<close>

theorem tenant_isolation:
  assumes "reachable S B t d" and "(vstep S B v)\<^sup>*\<^sup>* d d'"
  shows "isolated (scope_of v) d d'"
  using isolated_steps [OF assms(2) db_wf_reachable [OF assms(1)]] by simp

theorem tenant_isolation_witness:
  "isolated (scope_of (sample_visit ''m1'')) db0 signed_up_db"
proof (rule tenant_isolation)
  show "reachable sample_service (NewBootstrap (\<lambda>b. b) []) empty_audit db0"
    by (simp add: reachable_def db0_def)
  show "(vstep sample_service (NewBootstrap (\<lambda>b. b) []) (sample_visit ''m1''))\<^sup>*\<^sup>* db0 signed_up_db"
    by (rule sample_step) (auto dest: istep_vstep)
qed



text \<open>
  C3. Whatever the identity flows do, with the audit log as their auditor and its keys as
  their sealer, interleaved in any way, the log verifies with no break and keeps every
  record it had.
\<close>

theorem audit_log_survives_identity:
  assumes "(icommit (on_log W keyed S) B X)\<^sup>*\<^sup>* (empty_db empty_audit) d"
    and "(icommit (on_log W keyed S) B X)\<^sup>*\<^sup>* d d'"
  shows "(\<exists>n. VerifyLog W (trail d') = Some \<lparr>Chains = length (chains (trail d')), Records = n, Breaks = []\<rparr>) \<and>
    take (length (log (trail d))) (log (trail d')) = log (trail d)"
proof -
  have hist: "(audit_step W)\<^sup>*\<^sup>* empty_audit (trail d)" "(audit_step W)\<^sup>*\<^sup>* (trail d) (trail d')"
    using logged_history [OF assms(1)] logged_history [OF assms(2)] by (simp_all add: logged_def empty_db_def)
  have "intact W (trail d')"
    using audit_history_intact [OF hist(2) audit_history_intact [OF hist(1) intact_empty]] .
  then show ?thesis
    using verifiable_verifies [OF intact_verifiable] append_only_history [OF hist(2)] by auto
qed

lemma sample_service_on_log: "sample_service = on_log sample_world True sample_service"
  by (simp add: on_log_def sample_service_def)

theorem audit_log_survives_identity_witness:
  "(\<exists>n. VerifyLog sample_world (trail signed_up_db) =
      Some \<lparr>Chains = length (chains (trail signed_up_db)), Records = n, Breaks = []\<rparr>) \<and>
    take (length (log (trail db0))) (log (trail signed_up_db)) = log (trail db0)"
proof (rule audit_log_survives_identity [where d = db0])
  show "(icommit (on_log sample_world True sample_service) (NewBootstrap (\<lambda>b. b) []) {})\<^sup>*\<^sup>* (empty_db empty_audit) db0"
    by (simp add: db0_def)
  show "(icommit (on_log sample_world True sample_service) (NewBootstrap (\<lambda>b. b) []) {})\<^sup>*\<^sup>* db0 signed_up_db"
    unfolding sample_service_on_log [symmetric]
    by (rule sample_step) (auto dest: istep_icommit [where X = "{}"])
qed

end
